(* ===== verification/Prelude.thy ===== *)
theory Prelude
  imports Main "HOL-Library.Char_ord" "HOL-Library.List_Lexorder"
begin

text \<open>
  The vocabulary the component theories share: saturating machine integers, the string and
  slice operations of the Rust standard library that the modelled code calls, the
  \<^verbatim>\<open>?\<close> operator on results, and the generic lemmas about them.

  A Rust \<^verbatim>\<open>String\<close> is modelled by the list of its UTF-8 bytes (\<^typ>\<open>string\<close>, one
  \<^typ>\<open>char\<close> per byte), so \<^const>\<open>length\<close> is \<^verbatim>\<open>str::len\<close>. Unsigned integers are
  natural numbers; every operation that can leave the range of its Rust type writes out what
  the source does there (saturation or wrap-around).
\<close>

named_theorems rust_string \<open>facts about the string operations of the standard library\<close>
named_theorems saturating \<open>bounds and monotonicity of saturating arithmetic\<close>

subsection \<open>Results and the question-mark operator\<close>

text \<open>\<^verbatim>\<open>Result<T, E>\<close> is \<open>'e + 'a\<close>, the error on the left.\<close>

type_synonym ('e, 'a) result = "'e + 'a"

definition try_bind :: "('e, 'a) result \<Rightarrow> ('a \<Rightarrow> ('e, 'b) result) \<Rightarrow> ('e, 'b) result" where
  "try_bind r f = (case r of Inl e \<Rightarrow> Inl e | Inr x \<Rightarrow> f x)"

definition map_err :: "('e \<Rightarrow> 'f) \<Rightarrow> ('e, 'a) result \<Rightarrow> ('f, 'a) result" where
  "map_err f r = (case r of Inl e \<Rightarrow> Inl (f e) | Inr x \<Rightarrow> Inr x)"

definition is_ok :: "('e, 'a) result \<Rightarrow> bool" where
  "is_ok r = (case r of Inl _ \<Rightarrow> False | Inr _ \<Rightarrow> True)"

lemma try_bind_simps [simp]:
  "try_bind (Inl e) f = Inl e"
  "try_bind (Inr x) f = f x"
  by (simp_all add: try_bind_def)

lemma try_bind_eq_Inr [simp]:
  "try_bind r f = Inr y \<longleftrightarrow> (\<exists>x. r = Inr x \<and> f x = Inr y)"
  by (cases r) auto

lemma try_bind_eq_Inl:
  "try_bind r f = Inl e \<longleftrightarrow> r = Inl e \<or> (\<exists>x. r = Inr x \<and> f x = Inl e)"
  by (cases r) auto

lemma map_err_simps [simp]:
  "map_err f (Inl e) = Inl (f e)"
  "map_err f (Inr x) = Inr x"
  by (simp_all add: map_err_def)

lemma map_err_eq_Inr [simp]: "map_err f r = Inr y \<longleftrightarrow> r = Inr y"
  by (cases r) auto

lemma is_ok_simps [simp]: "is_ok (Inr x)" "\<not> is_ok (Inl e)"
  by (simp_all add: is_ok_def)

lemma is_ok_iff: "is_ok r \<longleftrightarrow> (\<exists>x. r = Inr x)"
  by (cases r) auto

text \<open>\<^verbatim>\<open>for x in xs { f(x)?; }\<close>: run a fallible check over a list, stopping at the first error.\<close>

fun try_all :: "('a \<Rightarrow> ('e, unit) result) \<Rightarrow> 'a list \<Rightarrow> ('e, unit) result" where
  "try_all f [] = Inr ()"
| "try_all f (x # xs) = try_bind (f x) (\<lambda>_. try_all f xs)"

lemma try_all_ok [simp]: "try_all f xs = Inr () \<longleftrightarrow> (\<forall>x \<in> set xs. f x = Inr ())"
  by (induction xs) auto

lemma try_all_append: "try_all f (xs @ ys) = try_bind (try_all f xs) (\<lambda>_. try_all f ys)"
proof (induction xs)
  case (Cons x xs)
  then show ?case by (cases "f x") auto
qed simp

subsection \<open>Saturating machine integers\<close>

definition u32_max :: nat where "u32_max = 2 ^ 32 - 1"

definition u64_max :: nat where "u64_max = 2 ^ 64 - 1"

definition i64_max :: int where "i64_max = 2 ^ 63 - 1"

definition i64_min :: int where "i64_min = - (2 ^ 63)"

text \<open>\<^verbatim>\<open>usize\<close> is 64 bits wide on every target the build supports.\<close>

abbreviation usize_max :: nat where "usize_max \<equiv> u64_max"

definition sat_add :: "nat \<Rightarrow> nat \<Rightarrow> nat \<Rightarrow> nat" where
  "sat_add m a b = min m (a + b)"

definition sat_add_i64 :: "int \<Rightarrow> int \<Rightarrow> int" where
  "sat_add_i64 a b = max i64_min (min i64_max (a + b))"

definition sat_sub_i64 :: "int \<Rightarrow> int \<Rightarrow> int" where
  "sat_sub_i64 a b = max i64_min (min i64_max (a - b))"

lemma u32_le_u64 [saturating]: "u32_max \<le> u64_max"
  by (simp add: u32_max_def u64_max_def)

lemma sat_add_le_max [saturating, simp]: "sat_add m a b \<le> m"
  by (simp add: sat_add_def)

lemma sat_add_ge_left [saturating]: "a \<le> m \<Longrightarrow> a \<le> sat_add m a b"
  by (simp add: sat_add_def)

lemma sat_add_exact [saturating]: "a + b \<le> m \<Longrightarrow> sat_add m a b = a + b"
  by (simp add: sat_add_def)

lemma sat_add_0_right [simp]: "sat_add m a 0 = min m a"
  by (simp add: sat_add_def)

lemma sat_add_le_sum [saturating]: "sat_add m a b \<le> a + b"
  by (simp add: sat_add_def)

lemma sat_add_mono [saturating]: "a \<le> a' \<Longrightarrow> b \<le> b' \<Longrightarrow> sat_add m a b \<le> sat_add m a' b'"
  by (auto simp: sat_add_def)

lemma sat_add_assoc: "sat_add m (sat_add m a b) c = sat_add m a (sat_add m b c)"
  by (auto simp: sat_add_def)

lemma sat_add_commute: "sat_add m a b = sat_add m b a"
  by (simp add: sat_add_def add.commute)

lemma sat_add_i64_range [saturating]: "i64_min \<le> sat_add_i64 a b \<and> sat_add_i64 a b \<le> i64_max"
  by (auto simp: sat_add_i64_def i64_min_def i64_max_def)

lemma sat_add_i64_ge [saturating]: "a \<le> i64_max \<Longrightarrow> 0 \<le> b \<Longrightarrow> a \<le> sat_add_i64 a b"
  by (auto simp: sat_add_i64_def i64_max_def)

text \<open>\<^verbatim>\<open>div_ceil\<close> on unsigned integers.\<close>

definition div_ceil :: "nat \<Rightarrow> nat \<Rightarrow> nat" where
  "div_ceil a b = (if a mod b = 0 then a div b else a div b + 1)"

subsection \<open>Optional limits\<close>

text \<open>\<^verbatim>\<open>Option::is_some_and\<close>, \<^verbatim>\<open>Option::is_none_or\<close>, \<^verbatim>\<open>Option::or\<close> and \<^verbatim>\<open>unwrap_or\<close>.\<close>

definition is_some_and :: "'a option \<Rightarrow> ('a \<Rightarrow> bool) \<Rightarrow> bool" where
  "is_some_and x p = (case x of None \<Rightarrow> False | Some y \<Rightarrow> p y)"

definition is_none_or :: "'a option \<Rightarrow> ('a \<Rightarrow> bool) \<Rightarrow> bool" where
  "is_none_or x p = (case x of None \<Rightarrow> True | Some y \<Rightarrow> p y)"

definition option_or :: "'a option \<Rightarrow> 'a option \<Rightarrow> 'a option" where
  "option_or x y = (case x of None \<Rightarrow> y | Some z \<Rightarrow> Some z)"

definition unwrap_or :: "'a option \<Rightarrow> 'a \<Rightarrow> 'a" where
  "unwrap_or x d = (case x of None \<Rightarrow> d | Some y \<Rightarrow> y)"

definition option_filter :: "('a \<Rightarrow> bool) \<Rightarrow> 'a option \<Rightarrow> 'a option" where
  "option_filter p x = (case x of None \<Rightarrow> None | Some y \<Rightarrow> if p y then Some y else None)"

lemma option_ops_simps [simp]:
  "is_some_and None p = False" "is_some_and (Some y) p = p y"
  "is_none_or None p = True" "is_none_or (Some y) p = p y"
  "option_or None z = z" "option_or (Some y) z = Some y"
  "unwrap_or None d = d" "unwrap_or (Some y) d = y"
  "option_filter q None = None" "option_filter q (Some y) = (if q y then Some y else None)"
  by (simp_all add: is_some_and_def is_none_or_def option_or_def unwrap_or_def option_filter_def)

lemma is_some_and_iff: "is_some_and x p \<longleftrightarrow> (\<exists>y. x = Some y \<and> p y)"
  by (cases x) auto

lemma is_none_or_iff: "is_none_or x p \<longleftrightarrow> (\<forall>y. x = Some y \<longrightarrow> p y)"
  by (cases x) auto

end
