(* ===== verification/Rust_Strings.thy ===== *)
theory Rust_Strings
  imports Prelude
begin

text \<open>
  The operations of \<^verbatim>\<open>str\<close> and of integer formatting and parsing that the modelled code
  uses, on UTF-8 byte strings. All patterns the code searches for are ASCII, so searching
  the bytes and searching the characters agree.
\<close>

subsection \<open>Prefixes, suffixes and splitting\<close>

definition starts_with :: "string \<Rightarrow> string \<Rightarrow> bool" where
  "starts_with s p \<longleftrightarrow> take (length p) s = p"

definition ends_with :: "string \<Rightarrow> string \<Rightarrow> bool" where
  "ends_with s p \<longleftrightarrow> length p \<le> length s \<and> drop (length s - length p) s = p"

definition strip_prefix :: "string \<Rightarrow> string \<Rightarrow> string option" where
  "strip_prefix s p = (if starts_with s p then Some (drop (length p) s) else None)"

definition strip_suffix :: "string \<Rightarrow> string \<Rightarrow> string option" where
  "strip_suffix s p = (if ends_with s p then Some (take (length s - length p) s) else None)"

text \<open>\<^verbatim>\<open>s.split_once(p)\<close> cuts at the first occurrence, \<^verbatim>\<open>s.rsplit_once(p)\<close> at the last.\<close>

fun split_once :: "string \<Rightarrow> string \<Rightarrow> (string \<times> string) option" where
  "split_once [] p = (if p = [] then Some ([], []) else None)"
| "split_once (c # cs) p =
     (if starts_with (c # cs) p then Some ([], drop (length p) (c # cs))
      else map_option (\<lambda>(a, b). (c # a, b)) (split_once cs p))"

definition rsplit_once :: "string \<Rightarrow> string \<Rightarrow> (string \<times> string) option" where
  "rsplit_once s p = map_option (\<lambda>(a, b). (rev b, rev a)) (split_once (rev s) (rev p))"

definition str_contains :: "string \<Rightarrow> string \<Rightarrow> bool" where
  "str_contains s p \<longleftrightarrow> split_once s p \<noteq> None"

lemma starts_with_iff [rust_string]: "starts_with s p \<longleftrightarrow> (\<exists>r. s = p @ r)"
  unfolding starts_with_def by (metis append_eq_conv_conj append_take_drop_id)

lemma ends_with_iff [rust_string]: "ends_with s p \<longleftrightarrow> (\<exists>r. s = r @ p)"
  unfolding ends_with_def
  by (metis append_eq_conv_conj append_take_drop_id diff_diff_cancel diff_le_self
      length_append length_drop add_diff_cancel_right' le_add2)

lemma strip_prefix_append [simp]: "strip_prefix (p @ r) p = Some r"
  by (simp add: strip_prefix_def starts_with_def)

lemma strip_prefix_Some [rust_string]: "strip_prefix s p = Some r \<longleftrightarrow> s = p @ r"
  by (auto simp: strip_prefix_def starts_with_iff)

lemma strip_prefix_None: "strip_prefix s p = None \<longleftrightarrow> \<not> starts_with s p"
  by (simp add: strip_prefix_def)

lemma strip_suffix_append [simp]: "strip_suffix (r @ p) p = Some r"
  by (simp add: strip_suffix_def ends_with_def)

lemma strip_suffix_Some [rust_string]: "strip_suffix s p = Some r \<longleftrightarrow> s = r @ p"
  by (auto simp: strip_suffix_def ends_with_iff)

lemma strip_suffix_None: "strip_suffix s p = None \<longleftrightarrow> \<not> ends_with s p"
  by (simp add: strip_suffix_def)

lemma split_once_Some [rust_string]: "split_once s p = Some (a, b) \<Longrightarrow> s = a @ p @ b"
proof (induction s arbitrary: a)
  case Nil
  then show ?case by (auto split: if_splits)
next
  case (Cons c cs)
  show ?case
  proof (cases "starts_with (c # cs) p")
    case True
    with Cons.prems have "a = []" "b = drop (length p) (c # cs)" by simp_all
    with True show ?thesis by (metis append_Nil append_take_drop_id starts_with_def)
  next
    case False
    with Cons.prems obtain a' where "a = c # a'" "split_once cs p = Some (a', b)" by auto
    with Cons.IH show ?thesis by simp
  qed
qed

lemma split_once_None: "split_once s p = None \<longleftrightarrow> \<not> (\<exists>a b. s = a @ p @ b)"
proof (induction s)
  case Nil
  then show ?case by auto
next
  case (Cons c cs)
  show ?case
  proof (cases "starts_with (c # cs) p")
    case True
    then show ?thesis by (auto simp: starts_with_iff intro: exI [of _ "[]"])
  next
    case False
    have "(\<exists>a b. c # cs = a @ p @ b) \<longleftrightarrow> (\<exists>a b. cs = a @ p @ b)"
    proof
      assume "\<exists>a b. c # cs = a @ p @ b"
      then obtain a b where ab: "c # cs = a @ p @ b" by blast
      with False have "a \<noteq> []" by (auto simp: starts_with_iff)
      with ab show "\<exists>a b. cs = a @ p @ b" by (cases a) auto
    next
      assume "\<exists>a b. cs = a @ p @ b"
      then obtain a b where "cs = a @ p @ b" by blast
      then have "c # cs = (c # a) @ p @ b" by simp
      then show "\<exists>a b. c # cs = a @ p @ b" by blast
    qed
    with False Cons.IH show ?thesis by simp
  qed
qed

text \<open>The cut is the first one: no occurrence starts inside the returned head.\<close>

lemma split_once_first:
  assumes "split_once s p = Some (a, b)" "s = a' @ p @ b'"
  shows "length a \<le> length a'"
  using assms
proof (induction s arbitrary: a a')
  case Nil
  then show ?case by (auto split: if_splits)
next
  case (Cons c cs)
  show ?case
  proof (cases "starts_with (c # cs) p")
    case True
    with Cons.prems(1) have "a = []" by simp
    then show ?thesis by simp
  next
    case False
    with Cons.prems(1) obtain r where r: "a = c # r" "split_once cs p = Some (r, b)" by auto
    from False Cons.prems(2) obtain r' where "a' = c # r'" "cs = r' @ p @ b'"
      by (cases a') (auto simp: starts_with_iff)
    with Cons.IH r show ?thesis by auto
  qed
qed

lemma split_once_unique:
  assumes "\<And>x y. a @ p @ b = x @ p @ y \<Longrightarrow> length a \<le> length x"
  shows "split_once (a @ p @ b) p = Some (a, b)"
proof -
  obtain x y where xy: "split_once (a @ p @ b) p = Some (x, y)"
    using split_once_None [of "a @ p @ b" p] by (cases "split_once (a @ p @ b) p") auto
  from split_once_Some [OF xy] have eq: "a @ p @ b = x @ p @ y" .
  with assms have "length a \<le> length x" by blast
  moreover from split_once_first [OF xy refl] have "length x \<le> length a" .
  ultimately show ?thesis using eq xy by simp
qed

lemma rsplit_once_Some [rust_string]: "rsplit_once s p = Some (a, b) \<Longrightarrow> s = a @ p @ b"
proof -
  assume "rsplit_once s p = Some (a, b)"
  then obtain x y where "split_once (rev s) (rev p) = Some (x, y)" "a = rev y" "b = rev x"
    by (auto simp: rsplit_once_def)
  with split_once_Some have "rev s = x @ rev p @ y" by blast
  then have "rev (rev s) = rev (x @ rev p @ y)" by simp
  with \<open>a = rev y\<close> \<open>b = rev x\<close> show ?thesis by simp
qed

lemma rsplit_once_unique:
  assumes "\<And>x y. a @ p @ b = x @ p @ y \<Longrightarrow> length x \<le> length a"
  shows "rsplit_once (a @ p @ b) p = Some (a, b)"
proof -
  have "split_once (rev b @ rev p @ rev a) (rev p) = Some (rev b, rev a)"
  proof (rule split_once_unique)
    fix x y
    assume eq: "rev b @ rev p @ rev a = x @ rev p @ y"
    from arg_cong [OF eq, of rev] have "a @ p @ b = rev y @ p @ rev x" by simp
    with assms have "length y \<le> length a" by force
    moreover from arg_cong [OF eq, of length] have "length b + length a = length x + length y"
      by simp
    ultimately show "length (rev b) \<le> length x" by simp
  qed
  then show ?thesis by (simp add: rsplit_once_def)
qed

text \<open>A separator that starts with a byte absent from the tail is found in front of that tail.\<close>

lemma rsplit_once_tail_free:
  assumes "c \<notin> set q" "c \<notin> set b"
  shows "rsplit_once (a @ (c # q) @ b) (c # q) = Some (a, b)"
proof (rule rsplit_once_unique)
  fix x y
  assume eq: "a @ (c # q) @ b = x @ (c # q) @ y"
  show "length x \<le> length a"
  proof (rule ccontr)
    assume "\<not> length x \<le> length a"
    then have lt: "length a < length x" by simp
    have "(x @ (c # q) @ y) ! length x = c" by simp
    then have "(a @ (c # q) @ b) ! length x = c" by (simp only: eq)
    moreover have "length x < length (a @ (c # q) @ b)" by (simp only: eq) simp
    ultimately have "(q @ b) ! (length x - Suc (length a)) = c"
      and "length x - Suc (length a) < length (q @ b)"
      using lt by (auto simp: nth_append nth_Cons')
    then have "c \<in> set (q @ b)" by (metis nth_mem)
    with assms show False by auto
  qed
qed

subsection \<open>ASCII case folding and trimming\<close>

definition byte_of :: "char \<Rightarrow> nat" where
  "byte_of c = of_char c"

definition ascii_lower :: "char \<Rightarrow> char" where
  "ascii_lower c = (if 65 \<le> byte_of c \<and> byte_of c \<le> 90 then char_of (byte_of c + 32) else c)"

definition to_ascii_lowercase :: "string \<Rightarrow> string" where
  "to_ascii_lowercase s = map ascii_lower s"

definition eq_ignore_ascii_case :: "string \<Rightarrow> string \<Rightarrow> bool" where
  "eq_ignore_ascii_case s t \<longleftrightarrow> to_ascii_lowercase s = to_ascii_lowercase t"

definition is_ascii_alphanumeric :: "char \<Rightarrow> bool" where
  "is_ascii_alphanumeric c \<longleftrightarrow>
     (48 \<le> byte_of c \<and> byte_of c \<le> 57) \<or> (65 \<le> byte_of c \<and> byte_of c \<le> 90)
     \<or> (97 \<le> byte_of c \<and> byte_of c \<le> 122)"

lemma byte_of_char_of [simp]: "n < 256 \<Longrightarrow> byte_of (char_of n) = n"
  by (simp add: byte_of_def)

lemma char_of_byte_of [simp]: "char_of (byte_of c) = c"
  by (simp add: byte_of_def)

lemma byte_of_less [simp]: "byte_of c < 256"
  by (simp add: byte_of_def)

lemma ascii_lower_idem [simp]: "ascii_lower (ascii_lower c) = ascii_lower c"
  by (simp add: ascii_lower_def)

lemma to_ascii_lowercase_idem [simp]:
  "to_ascii_lowercase (to_ascii_lowercase s) = to_ascii_lowercase s"
  by (simp add: to_ascii_lowercase_def)

lemma alphanumeric_lower [simp]:
  "is_ascii_alphanumeric c \<Longrightarrow> is_ascii_alphanumeric (ascii_lower c)"
  by (auto simp: is_ascii_alphanumeric_def ascii_lower_def)

text \<open>\<^verbatim>\<open>s.trim_matches(c)\<close> for one ASCII character.\<close>

definition trim_matches :: "char \<Rightarrow> string \<Rightarrow> string" where
  "trim_matches c s = rev (dropWhile (\<lambda>x. x = c) (rev (dropWhile (\<lambda>x. x = c) s)))"

lemma trim_matches_id:
  assumes "s = [] \<or> (hd s \<noteq> c \<and> last s \<noteq> c)"
  shows "trim_matches c s = s"
proof (cases "s = []")
  case False
  with assms have "dropWhile (\<lambda>x. x = c) s = s"
    by (cases s) auto
  moreover from False assms have "dropWhile (\<lambda>x. x = c) (rev s) = rev s"
    by (cases s rule: rev_cases) auto
  ultimately show ?thesis by (simp add: trim_matches_def)
qed (simp add: trim_matches_def)

lemma trim_matches_ends:
  "trim_matches c s = [] \<or> (hd (trim_matches c s) \<noteq> c \<and> last (trim_matches c s) \<noteq> c)"
proof -
  let ?u = "dropWhile (\<lambda>x. x = c) s"
  let ?v = "dropWhile (\<lambda>x. x = c) (rev ?u)"
  have v: "trim_matches c s = rev ?v" by (simp add: trim_matches_def)
  show ?thesis
  proof (cases "?v = []")
    case False
    then have "hd ?v \<noteq> c" by (rule hd_dropWhile)
    moreover obtain w where w: "rev ?u = w @ ?v" by (metis takeWhile_dropWhile_id)
    then have "last ?v = last (rev ?u)" using False by (metis last_appendR)
    moreover from w False have "?u \<noteq> []" by (metis append_is_Nil_conv rev.simps(1))
    then have "hd ?u \<noteq> c" by (rule hd_dropWhile)
    moreover from \<open>?u \<noteq> []\<close> have "last (rev ?u) = hd ?u" by (simp only: last_rev)
    ultimately have "hd (rev ?v) \<noteq> c" and "last (rev ?v) \<noteq> c"
      using False by (simp_all only: hd_rev last_rev simp_thms)
    then show ?thesis by (simp only: v simp_thms)
  next
    case True
    then have "trim_matches c s = []" by (simp only: v rev.simps)
    then show ?thesis ..
  qed
qed

lemma set_trim_matches: "set (trim_matches c s) \<subseteq> set s"
  by (auto simp: trim_matches_def dest!: set_dropWhileD)

text \<open>
  \<^verbatim>\<open>s.trim()\<close> removes Unicode white space from both ends. \<open>ws_seqs\<close> lists the UTF-8
  encodings of the characters with the White-Space property.
\<close>

definition ws_seqs :: "string list" where
  "ws_seqs =
     [[CHR 0x09], [CHR 0x0A], [CHR 0x0B], [CHR 0x0C], [CHR 0x0D], [CHR 0x20],
      [CHR 0xC2, CHR 0x85], [CHR 0xC2, CHR 0xA0], [CHR 0xE1, CHR 0x9A, CHR 0x80]]
     @ map (\<lambda>k. [CHR 0xE2, CHR 0x80, char_of (128 + k)]) [0..<11]
     @ [[CHR 0xE2, CHR 0x80, CHR 0xA8], [CHR 0xE2, CHR 0x80, CHR 0xA9],
        [CHR 0xE2, CHR 0x80, CHR 0xAF], [CHR 0xE2, CHR 0x81, CHR 0x9F],
        [CHR 0xE3, CHR 0x80, CHR 0x80]]"

lemma ws_seqs_code [code]:
  "ws_seqs =
     [
      [CHR 0x09], [CHR 0x0A], [CHR 0x0B], [CHR 0x0C],
      [CHR 0x0D], [CHR 0x20], [CHR 0xC2, CHR 0x85], [CHR 0xC2, CHR 0xA0],
      [CHR 0xE1, CHR 0x9A, CHR 0x80], [CHR 0xE2, CHR 0x80, CHR 0x80], [CHR 0xE2, CHR 0x80, CHR 0x81], [CHR 0xE2, CHR 0x80, CHR 0x82],
      [CHR 0xE2, CHR 0x80, CHR 0x83], [CHR 0xE2, CHR 0x80, CHR 0x84], [CHR 0xE2, CHR 0x80, CHR 0x85], [CHR 0xE2, CHR 0x80, CHR 0x86],
      [CHR 0xE2, CHR 0x80, CHR 0x87], [CHR 0xE2, CHR 0x80, CHR 0x88], [CHR 0xE2, CHR 0x80, CHR 0x89], [CHR 0xE2, CHR 0x80, CHR 0x8A],
      [CHR 0xE2, CHR 0x80, CHR 0xA8], [CHR 0xE2, CHR 0x80, CHR 0xA9], [CHR 0xE2, CHR 0x80, CHR 0xAF], [CHR 0xE2, CHR 0x81, CHR 0x9F],
      [CHR 0xE3, CHR 0x80, CHR 0x80]]"
  by (simp add: ws_seqs_def upt_rec char_of_def bit_0)

definition strip_ws_start :: "string \<Rightarrow> string option" where
  "strip_ws_start s = map_option (\<lambda>w. drop (length w) s) (find (starts_with s) ws_seqs)"

definition strip_ws_end :: "string \<Rightarrow> string option" where
  "strip_ws_end s = map_option (\<lambda>w. take (length s - length w) s) (find (ends_with s) ws_seqs)"

lemma ws_seqs_nonempty: "w \<in> set ws_seqs \<Longrightarrow> w \<noteq> []"
  by (auto simp: ws_seqs_def)

lemma strip_ws_start_shorter: "strip_ws_start s = Some r \<Longrightarrow> length r < length s"
  by (auto simp: strip_ws_start_def find_Some_iff starts_with_iff dest!: nth_mem ws_seqs_nonempty)

lemma strip_ws_end_shorter: "strip_ws_end s = Some r \<Longrightarrow> length r < length s"
  by (auto simp: strip_ws_end_def find_Some_iff ends_with_iff dest!: nth_mem ws_seqs_nonempty)

function trim_start :: "string \<Rightarrow> string" where
  "trim_start s = (case strip_ws_start s of None \<Rightarrow> s | Some r \<Rightarrow> trim_start r)"
  by pat_completeness auto
termination by (relation "measure length") (auto dest: strip_ws_start_shorter)

function trim_end :: "string \<Rightarrow> string" where
  "trim_end s = (case strip_ws_end s of None \<Rightarrow> s | Some r \<Rightarrow> trim_end r)"
  by pat_completeness auto
termination by (relation "measure length") (auto dest: strip_ws_end_shorter)

declare trim_start.simps [simp del] trim_end.simps [simp del]

definition trim :: "string \<Rightarrow> string" where
  "trim s = trim_end (trim_start s)"

lemma strip_ws_start_trim_start: "strip_ws_start (trim_start s) = None"
proof (induction s rule: trim_start.induct)
  case (1 s)
  then show ?case by (cases "strip_ws_start s") (simp_all add: trim_start.simps [of s])
qed

lemma strip_ws_end_trim_end: "strip_ws_end (trim_end s) = None"
proof (induction s rule: trim_end.induct)
  case (1 s)
  then show ?case by (cases "strip_ws_end s") (simp_all add: trim_end.simps [of s])
qed

lemma trim_end_prefix: "\<exists>r. s = trim_end s @ r"
proof (induction s rule: trim_end.induct)
  case (1 s)
  show ?case
  proof (cases "strip_ws_end s")
    case None
    then show ?thesis by (simp add: trim_end.simps [of s])
  next
    case (Some u)
    with 1 obtain r where "u = trim_end u @ r" by blast
    moreover from Some obtain v where "s = u @ v"
      by (auto simp: strip_ws_end_def) (metis append_take_drop_id)
    ultimately have "s = trim_end u @ (r @ v)" by (metis append_assoc)
    moreover from Some have "trim_end s = trim_end u" by (simp add: trim_end.simps [of s])
    ultimately show ?thesis by metis
  qed
qed

lemma strip_ws_start_None: "strip_ws_start s = None \<longleftrightarrow> (\<forall>w \<in> set ws_seqs. \<not> starts_with s w)"
  by (auto simp: strip_ws_start_def find_None_iff)

text \<open>Trimming twice is trimming once.\<close>

lemma trim_idem [simp]: "trim (trim s) = trim s"
proof -
  obtain r where r: "trim_start s = trim s @ r"
    unfolding trim_def using trim_end_prefix by blast
  have "\<not> starts_with (trim s) w" if "w \<in> set ws_seqs" for w
  proof
    assume "starts_with (trim s) w"
    then have "starts_with (trim_start s) w"
      by (simp add: r) (auto simp: starts_with_iff)
    with that strip_ws_start_trim_start show False by (simp add: strip_ws_start_None)
  qed
  then have "strip_ws_start (trim s) = None" by (simp add: strip_ws_start_None)
  moreover have "strip_ws_end (trim s) = None"
    unfolding trim_def by (rule strip_ws_end_trim_end)
  ultimately show ?thesis
    by (simp add: trim_def [of "trim s"] trim_start.simps [of "trim s"] trim_end.simps [of "trim s"])
qed

subsection \<open>Decimal integers\<close>

definition digit_char :: "nat \<Rightarrow> char" where
  "digit_char d = char_of (48 + d)"

definition is_digit :: "char \<Rightarrow> bool" where
  "is_digit c \<longleftrightarrow> 48 \<le> byte_of c \<and> byte_of c \<le> 57"

fun show_nat :: "nat \<Rightarrow> string" where
  "show_nat n = (if n < 10 then [digit_char n] else show_nat (n div 10) @ [digit_char (n mod 10)])"

declare show_nat.simps [simp del]

fun parse_digits :: "nat \<Rightarrow> string \<Rightarrow> nat option" where
  "parse_digits acc [] = Some acc"
| "parse_digits acc (c # cs) =
     (if is_digit c then parse_digits (10 * acc + (byte_of c - 48)) cs else None)"

text \<open>
  \<^verbatim>\<open>str::parse::<u32>\<close>: an optional plus sign, at least one digit, nothing else, and no
  value above the type's maximum.
\<close>

definition parse_u32 :: "string \<Rightarrow> nat option" where
  "parse_u32 s =
     (let ds = (case s of c # cs \<Rightarrow> if c = CHR ''+'' then cs else s | [] \<Rightarrow> [])
      in if ds = [] then None
         else (case parse_digits 0 ds of
                 None \<Rightarrow> None
               | Some n \<Rightarrow> if n \<le> u32_max then Some n else None))"

lemma is_digit_digit_char [simp]: "d < 10 \<Longrightarrow> is_digit (digit_char d)"
  by (simp add: is_digit_def digit_char_def)

lemma byte_of_digit_char [simp]: "d < 10 \<Longrightarrow> byte_of (digit_char d) - 48 = d"
  by (simp add: digit_char_def)

lemma show_nat_nonempty [simp]: "show_nat n \<noteq> []"
  by (subst show_nat.simps) simp

lemma show_nat_digits: "\<forall>c \<in> set (show_nat n). is_digit c"
proof (induction n rule: show_nat.induct)
  case (1 n)
  then show ?case by (cases "n < 10") (auto simp: show_nat.simps [of n])
qed

lemma parse_digits_append:
  "parse_digits acc (xs @ ys) = Option.bind (parse_digits acc xs) (\<lambda>a. parse_digits a ys)"
  by (induction xs arbitrary: acc) auto

lemma parse_digits_show: "parse_digits 0 (show_nat n) = Some n"
proof (induction n rule: show_nat.induct)
  case (1 n)
  then show ?case by (cases "n < 10") (simp_all add: show_nat.simps [of n] parse_digits_append)
qed

lemma parse_u32_show: "n \<le> u32_max \<Longrightarrow> parse_u32 (show_nat n) = Some n"
proof -
  assume n: "n \<le> u32_max"
  obtain c cs where c: "show_nat n = c # cs" by (cases "show_nat n") auto
  with show_nat_digits [of n] have "is_digit c" by simp
  then have "c \<noteq> CHR ''+''" by (auto simp: is_digit_def byte_of_def)
  with c n parse_digits_show [of n] show ?thesis by (simp add: parse_u32_def)
qed

end
