(* ===== verification/Rust_Utf8.thy ===== *)
theory Rust_Utf8
  imports Rust_Strings
begin

text \<open>
  Strings as their UTF-8 bytes: the validation of \<^verbatim>\<open>std::str::from_utf8\<close> with the position it
  reports, character boundaries, and that a valid string cut at a boundary gives valid strings.
\<close>

subsection \<open>UTF-8 validation\<close>

definition in_range :: "nat \<Rightarrow> nat \<Rightarrow> char \<Rightarrow> bool" where
  "in_range lo hi c \<longleftrightarrow> lo \<le> byte_of c \<and> byte_of c \<le> hi"

definition is_cont :: "char \<Rightarrow> bool" where
  "is_cont c \<longleftrightarrow> in_range 0x80 0xBF c"

text \<open>The second byte a lead byte of three or four bytes admits.\<close>

definition second_ok :: "char \<Rightarrow> char \<Rightarrow> bool" where
  "second_ok a b \<longleftrightarrow>
     (byte_of a = 0xE0 \<and> in_range 0xA0 0xBF b) \<or> (in_range 0xE1 0xEC a \<and> is_cont b)
     \<or> (byte_of a = 0xED \<and> in_range 0x80 0x9F b) \<or> (in_range 0xEE 0xEF a \<and> is_cont b)
     \<or> (byte_of a = 0xF0 \<and> in_range 0x90 0xBF b) \<or> (in_range 0xF1 0xF3 a \<and> is_cont b)
     \<or> (byte_of a = 0xF4 \<and> in_range 0x80 0x8F b)"

text \<open>
  The first error of a byte string: where the valid prefix ends and how many bytes are invalid,
  None there for a sequence the end cuts short. The tail of the string is passed on, and \<open>i\<close>
  counts the bytes before it.
\<close>

fun utf8_error :: "nat \<Rightarrow> string \<Rightarrow> (nat \<times> nat option) option" where
  "utf8_error i [] = None"
| "utf8_error i (a # s) =
     (if byte_of a < 0x80 then utf8_error (i + 1) s
      else if in_range 0xC2 0xDF a then
        (case s of
           [] \<Rightarrow> Some (i, None)
         | b # s \<Rightarrow> if \<not> is_cont b then Some (i, Some 1) else utf8_error (i + 2) s)
      else if in_range 0xE0 0xEF a then
        (case s of
           [] \<Rightarrow> Some (i, None)
         | b # s \<Rightarrow>
             if \<not> second_ok a b then Some (i, Some 1)
             else (case s of
                     [] \<Rightarrow> Some (i, None)
                   | c # s \<Rightarrow> if \<not> is_cont c then Some (i, Some 2) else utf8_error (i + 3) s))
      else if in_range 0xF0 0xF4 a then
        (case s of
           [] \<Rightarrow> Some (i, None)
         | b # s \<Rightarrow>
             if \<not> second_ok a b then Some (i, Some 1)
             else (case s of
                     [] \<Rightarrow> Some (i, None)
                   | c # s \<Rightarrow>
                       if \<not> is_cont c then Some (i, Some 2)
                       else (case s of
                               [] \<Rightarrow> Some (i, None)
                             | d # s \<Rightarrow> if \<not> is_cont d then Some (i, Some 3) else utf8_error (i + 4) s)))
      else Some (i, Some 1))"

fun utf8_error_message :: "nat \<times> nat option \<Rightarrow> string" where
  "utf8_error_message (i, Some n) =
     ''invalid utf-8 sequence of '' @ show_nat n @ '' bytes from index '' @ show_nat i"
| "utf8_error_message (i, None) = ''incomplete utf-8 byte sequence from index '' @ show_nat i"

subsection \<open>Character boundaries\<close>

text \<open>\<^verbatim>\<open>str::is_char_boundary\<close>: the ends, and every byte that is not a continuation byte.\<close>

definition is_char_boundary :: "string \<Rightarrow> nat \<Rightarrow> bool" where
  "is_char_boundary s i \<longleftrightarrow>
     i = 0 \<or> i = length s
     \<or> (i < length s \<and> \<not> (0x80 \<le> byte_of (s ! i) \<and> byte_of (s ! i) < 0xC0))"

subsection \<open>Cutting and joining\<close>

lemma utf8_error_shift: "utf8_error i s = None \<longleftrightarrow> utf8_error j s = None"
proof (induction i s arbitrary: j rule: utf8_error.induct)
  case (2 i a s)
  show ?case
    using "2.IH"(1) [of "j + 1"] "2.IH"(2) [of _ _ "j + 2"] "2.IH"(3) [of _ _ _ _ "j + 3"]
      "2.IH"(4) [of _ _ _ _ _ _ "j + 4"]
    by (auto split: list.splits)
qed simp

lemma utf8_ascii_prefix:
  "list_all (\<lambda>c. byte_of c < 128) p \<Longrightarrow> utf8_error i (p @ s) = None \<longleftrightarrow> utf8_error 0 s = None"
proof (induction p arbitrary: i)
  case (Cons c p)
  then show ?case by simp
qed (metis append_Nil utf8_error_shift)

abbreviation valid_utf8 :: "string \<Rightarrow> bool" where
  "valid_utf8 s \<equiv> utf8_error 0 s = None"

lemma second_ok_cont: "second_ok a b \<Longrightarrow> is_cont b"
  by (auto simp: second_ok_def is_cont_def in_range_def)

lemma is_char_boundary_0 [simp]: "is_char_boundary s 0"
  by (simp add: is_char_boundary_def)

lemma is_char_boundary_length [simp]: "is_char_boundary s (length s)"
  by (simp add: is_char_boundary_def)

text \<open>The encodings of single characters, and strings as sequences of them.\<close>

fun utf8_char :: "string \<Rightarrow> bool" where
  "utf8_char [a] \<longleftrightarrow> byte_of a < 0x80"
| "utf8_char [a, b] \<longleftrightarrow> in_range 0xC2 0xDF a \<and> is_cont b"
| "utf8_char [a, b, c] \<longleftrightarrow> in_range 0xE0 0xEF a \<and> second_ok a b \<and> is_cont c"
| "utf8_char [a, b, c, d] \<longleftrightarrow> in_range 0xF0 0xF4 a \<and> second_ok a b \<and> is_cont c \<and> is_cont d"
| "utf8_char _ \<longleftrightarrow> False"

lemma utf8_char_prefix:
  assumes "utf8_char c"
  shows "utf8_error i (c @ s) = None \<longleftrightarrow> utf8_error j s = None"
  using assms utf8_error_shift [of _ s j]
  by (cases c rule: utf8_char.cases) (simp_all add: in_range_def not_less)

lemma utf8_char_split:
  assumes "utf8_error i s = None" "s \<noteq> []"
  obtains c r where "s = c @ r" "utf8_char c"
proof -
  obtain a t where s: "s = a # t" using assms(2) by (cases s) auto
  consider "byte_of a < 0x80"
    | b r where "t = b # r" "in_range 0xC2 0xDF a" "is_cont b"
    | b c r where "t = b # c # r" "in_range 0xE0 0xEF a" "second_ok a b" "is_cont c"
    | b c d r where "t = b # c # d # r" "in_range 0xF0 0xF4 a" "second_ok a b" "is_cont c" "is_cont d"
    using assms(1) unfolding s utf8_error.simps
    by (cases t; cases "tl t"; cases "tl (tl t)") (simp_all split: if_split_asm)
  then show ?thesis
  proof cases
    case 1
    then show ?thesis using that [of "[a]" t] s by simp
  next
    case (2 b r)
    then show ?thesis using that [of "[a, b]" r] s by simp
  next
    case (3 b c r)
    then show ?thesis using that [of "[a, b, c]" r] s by simp
  next
    case (4 b c d r)
    then show ?thesis using that [of "[a, b, c, d]" r] s by simp
  qed
qed

lemma utf8_induct [consumes 1, case_names Nil char]:
  assumes "utf8_error i s = None"
    and Nil: "P []"
    and char: "\<And>c s. utf8_char c \<Longrightarrow> utf8_error 0 s = None \<Longrightarrow> P s \<Longrightarrow> P (c @ s)"
  shows "P s"
  using assms(1)
proof (induction s arbitrary: i rule: length_induct)
  case (1 s)
  show ?case
  proof (cases "s = []")
    case False
    with 1(2) obtain c r where s: "s = c @ r" and c: "utf8_char c" by (rule utf8_char_split)
    then have "length r < length s" by auto
    moreover have "utf8_error 0 r = None" using 1(2) utf8_char_prefix [OF c, of i r 0] s by simp
    ultimately show ?thesis using 1(1) char [OF c, of r] s by blast
  qed (simp add: Nil)
qed

lemma utf8_append: "utf8_error i a = None \<Longrightarrow> utf8_error j (a @ s) = None \<longleftrightarrow> utf8_error k s = None"
proof (induction arbitrary: j rule: utf8_induct)
  case Nil
  then show ?case using utf8_error_shift by simp
next
  case (char c a)
  then show ?case using utf8_char_prefix [OF char(1), of j "a @ s" 0] by simp
qed

lemma utf8_char_conts:
  assumes "utf8_char c" "0 < k" "k < length c"
  shows "is_cont (c ! k)"
  using assms by (cases c rule: utf8_char.cases) (auto simp: less_Suc_eq second_ok_cont)

lemma utf8_take: "utf8_error i s = None \<Longrightarrow> is_char_boundary s k \<Longrightarrow> utf8_error j (take k s) = None"
proof (induction arbitrary: j k rule: utf8_induct)
  case (char c s)
  consider "k = 0" | "0 < k" "k < length c" | "length c \<le> k" by linarith
  then show ?case
  proof cases
    case 2
    then have "is_cont ((c @ s) ! k)" using utf8_char_conts [OF char(1)] by (simp add: nth_append)
    with 2 char(4) show ?thesis by (auto simp: is_char_boundary_def is_cont_def in_range_def)
  next
    case 3
    then have "is_char_boundary s (k - length c)"
      using char(4) by (auto simp: is_char_boundary_def nth_append)
    with 3 char(3) utf8_char_prefix [OF char(1), of j _ 0] show ?thesis by simp
  qed simp
qed simp

lemma utf8_drop:
  assumes "valid_utf8 s" "is_char_boundary s k"
  shows "valid_utf8 (drop k s)"
  using utf8_append [OF utf8_take [OF assms], of 0 "drop k s" 0] assms(1) by simp

end
