(* ===== verification/Rust_Json.thy ===== *)
theory Rust_Json
  imports Rust_Utf8 Complex_Main
begin

text \<open>
  JSON values as \<^verbatim>\<open>serde_json::Value\<close> holds them. A number is an unsigned or a negative 64-bit integer or a finite
  double; a double is its exact value, and \<^verbatim>\<open>as f64\<close> rounds an integer to 53 significant bits, ties to even. Objects
  are lists of entries with distinct keys; two objects are equal when they map the same keys to equal values.
\<close>

datatype json_number = PosInt nat | NegInt int | Float rat

datatype json_value =
    JNull
  | JBool bool
  | JNumber json_number
  | JString string
  | JArray "json_value list"
  | JObject "(string \<times> json_value) list"

fun as_str :: "json_value \<Rightarrow> string option" where
  "as_str (JString s) = Some s"
| "as_str _ = None"

fun as_u64 :: "json_value \<Rightarrow> nat option" where
  "as_u64 (JNumber (PosInt n)) = Some n"
| "as_u64 _ = None"

fun as_i64 :: "json_value \<Rightarrow> int option" where
  "as_i64 (JNumber (PosInt n)) = (if int n \<le> i64_max then Some (int n) else None)"
| "as_i64 (JNumber (NegInt i)) = Some i"
| "as_i64 _ = None"

fun as_array :: "json_value \<Rightarrow> json_value list option" where
  "as_array (JArray vs) = Some vs"
| "as_array _ = None"

fun as_object :: "json_value \<Rightarrow> (string \<times> json_value) list option" where
  "as_object (JObject kvs) = Some kvs"
| "as_object _ = None"

subsection \<open>Doubles\<close>

text \<open>The number of binary digits.\<close>

fun bit_count :: "nat \<Rightarrow> nat" where
  "bit_count n = (if n = 0 then 0 else Suc (bit_count (n div 2)))"

declare bit_count.simps [simp del]

definition round_nat :: "nat \<Rightarrow> nat" where
  "round_nat n =
     (if bit_count n \<le> 53 then n
      else
        let unit = 2 ^ (bit_count n - 53); q = n div unit; r = n mod unit
        in if 2 * r < unit \<or> (2 * r = unit \<and> even q) then q * unit else (q + 1) * unit)"

definition f64_of_int :: "int \<Rightarrow> rat" where
  "f64_of_int i = (if i < 0 then - of_nat (round_nat (nat (- i))) else of_nat (round_nat (nat i)))"

fun as_f64 :: "json_value \<Rightarrow> rat option" where
  "as_f64 (JNumber (PosInt n)) = Some (f64_of_int (int n))"
| "as_f64 (JNumber (NegInt i)) = Some (f64_of_int i)"
| "as_f64 (JNumber (Float x)) = Some x"
| "as_f64 _ = None"

text \<open>Integers of up to 53 bits are exact.\<close>

lemma bit_count_bound: "n < 2 ^ k \<Longrightarrow> bit_count n \<le> k"
proof (induction k arbitrary: n)
  case 0
  then show ?case by (simp add: bit_count.simps)
next
  case (Suc k)
  then have "n div 2 < 2 ^ k" by (simp add: less_mult_imp_div_less mult.commute)
  with Suc.IH show ?case by (subst bit_count.simps) simp
qed

lemma f64_of_small_int: "\<bar>i\<bar> < 2 ^ 53 \<Longrightarrow> f64_of_int i = of_int i"
  using bit_count_bound [of "nat \<bar>i\<bar>" 53]
  by (auto simp: f64_of_int_def round_nat_def nat_less_iff of_nat_nat)

subsection \<open>Equality\<close>

lemma size_element [simp, termination_simp]: "x \<in> set xs \<Longrightarrow> size x < size (JArray xs)"
  by (induction xs) auto

lemma size_entry [simp, termination_simp]: "(k, v) \<in> set kvs \<Longrightarrow> size v < size (JObject kvs)"
  by (induction kvs) auto

lemma size_field [termination_simp]: "map_of kvs k = Some v \<Longrightarrow> size v < size (JObject kvs)"
  by (meson map_of_SomeD size_entry)

function json_eq :: "json_value \<Rightarrow> json_value \<Rightarrow> bool" where
  "json_eq a b =
     (case (a, b) of
        (JArray xs, JArray ys) \<Rightarrow> list_all2 json_eq xs ys
      | (JObject xs, JObject ys) \<Rightarrow>
          length xs = length ys
          \<and> list_all (\<lambda>(k, v). case map_of ys k of Some w \<Rightarrow> json_eq v w | None \<Rightarrow> False) xs
      | _ \<Rightarrow> a = b)"
  by pat_completeness auto
termination
  by (relation "measure (\<lambda>(a, b). size a)") (auto simp del: json_value.size)

declare json_eq.simps [simp del]

end
