(* ===== verification/Schema_Validation.thy ===== *)
theory Schema_Validation
  imports Rust_Json
begin

text \<open>
  Validation of structured output against a subset of JSON schema, \<^verbatim>\<open>crates/orca-runtime/src/schema_validation.rs\<close>. An
  error is a value that holds the path and what was wrong; the code renders the same as text.
\<close>

subsection \<open>Errors and the checks of single keywords\<close>

datatype schema_error =
    SchemaNotObject string
  | TypeNotStringOrArray string
  | TypeEntryNotString string
  | TypeMismatch string "string list" string
  | ConstMismatch string
  | EnumNotArray string
  | NotInEnum string
  | RequiredNotArray string
  | RequiredNeedsObject string
  | RequiredEntryNotString string
  | MissingField string string
  | PropertiesNotObject string
  | PropertyNotAllowed string string
  | AdditionalNotBoolOrObject string
  | ItemsNotObjectOrArray string
  | NotNonNegativeInteger string string
  | NotANumber string string
  | LengthBelow string nat string nat
  | LengthAbove string nat string nat
  | ValueBelow string rat rat
  | ValueAbove string rat rat

type_synonym checked = "(schema_error, unit) result"

fun json_type_name :: "json_value \<Rightarrow> string" where
  "json_type_name JNull = ''null''"
| "json_type_name (JBool _) = ''boolean''"
| "json_type_name (JNumber (Float _)) = ''number''"
| "json_type_name (JNumber _) = ''integer''"
| "json_type_name (JString _) = ''string''"
| "json_type_name (JArray _) = ''array''"
| "json_type_name (JObject _) = ''object''"

definition schema_type_matches :: "string \<Rightarrow> json_value \<Rightarrow> bool" where
  "schema_type_matches expected v =
     (if expected = ''object'' then as_object v \<noteq> None
      else if expected = ''array'' then as_array v \<noteq> None
      else if expected = ''string'' then as_str v \<noteq> None
      else if expected = ''number'' then (case v of JNumber _ \<Rightarrow> True | _ \<Rightarrow> False)
      else if expected = ''integer'' then as_i64 v \<noteq> None \<or> as_u64 v \<noteq> None
      else if expected = ''boolean'' then (case v of JBool _ \<Rightarrow> True | _ \<Rightarrow> False)
      else if expected = ''null'' then v = JNull
      else False)"

definition validate_schema_type_name :: "string \<Rightarrow> json_value \<Rightarrow> string \<Rightarrow> checked" where
  "validate_schema_type_name expected v path =
     (if schema_type_matches expected v then Inr () else Inl (TypeMismatch path [expected] (json_type_name v)))"

fun match_types :: "json_value \<Rightarrow> string \<Rightarrow> string list \<Rightarrow> json_value list \<Rightarrow> checked" where
  "match_types v path names [] = Inl (TypeMismatch path names (json_type_name v))"
| "match_types v path names (t # ts) =
     (case as_str t of
        None \<Rightarrow> Inl (TypeEntryNotString path)
      | Some expected \<Rightarrow>
          if schema_type_matches expected v then Inr () else match_types v path (names @ [expected]) ts)"

definition validate_schema_type :: "json_value \<Rightarrow> json_value \<Rightarrow> string \<Rightarrow> checked" where
  "validate_schema_type expected_type v path =
     (case as_str expected_type of
        Some expected \<Rightarrow> validate_schema_type_name expected v path
      | None \<Rightarrow>
          (case as_array expected_type of
             None \<Rightarrow> Inl (TypeNotStringOrArray path)
           | Some expected_types \<Rightarrow> match_types v path [] expected_types))"

definition schema_u64 :: "json_value \<Rightarrow> string \<Rightarrow> string \<Rightarrow> (schema_error, nat) result" where
  "schema_u64 v path keyword = (case as_u64 v of Some n \<Rightarrow> Inr n | None \<Rightarrow> Inl (NotNonNegativeInteger path keyword))"

definition schema_f64 :: "json_value \<Rightarrow> string \<Rightarrow> string \<Rightarrow> (schema_error, rat) result" where
  "schema_f64 v path keyword = (case as_f64 v of Some x \<Rightarrow> Inr x | None \<Rightarrow> Inl (NotANumber path keyword))"

text \<open>A check of an optional keyword.\<close>

definition on_keyword :: "'a option \<Rightarrow> ('a \<Rightarrow> checked) \<Rightarrow> checked" where
  "on_keyword k f = (case k of Some x \<Rightarrow> f x | None \<Rightarrow> Inr ())"

definition validate_u64_min_max ::
    "(string \<times> json_value) list \<Rightarrow> string \<Rightarrow> string \<Rightarrow> nat \<Rightarrow> string \<Rightarrow> checked" where
  "validate_u64_min_max schema_object min_keyword max_keyword actual path =
     try_bind (on_keyword (map_of schema_object min_keyword) (\<lambda>m.
        try_bind (schema_u64 m path min_keyword) (\<lambda>m.
          if actual < m then Inl (LengthBelow path actual min_keyword m) else Inr ()))) (\<lambda>_.
     on_keyword (map_of schema_object max_keyword) (\<lambda>m.
        try_bind (schema_u64 m path max_keyword) (\<lambda>m.
          if actual > m then Inl (LengthAbove path actual max_keyword m) else Inr ())))"

text \<open>The characters of a UTF-8 string: its bytes that start one.\<close>

definition char_count :: "string \<Rightarrow> nat" where
  "char_count s = length (filter (\<lambda>c. \<not> is_cont c) s)"

definition validate_length_keywords :: "(string \<times> json_value) list \<Rightarrow> json_value \<Rightarrow> string \<Rightarrow> checked" where
  "validate_length_keywords schema_object v path =
     try_bind (on_keyword (as_str v) (\<lambda>s.
        validate_u64_min_max schema_object ''minLength'' ''maxLength'' (char_count s) path)) (\<lambda>_.
     on_keyword (as_array v) (\<lambda>items.
        validate_u64_min_max schema_object ''minItems'' ''maxItems'' (length items) path))"

definition validate_numeric_keywords :: "(string \<times> json_value) list \<Rightarrow> json_value \<Rightarrow> string \<Rightarrow> checked" where
  "validate_numeric_keywords schema_object v path =
     on_keyword (as_f64 v) (\<lambda>actual.
       try_bind (on_keyword (map_of schema_object ''minimum'') (\<lambda>m.
          try_bind (schema_f64 m path ''minimum'') (\<lambda>m.
            if actual < m then Inl (ValueBelow path actual m) else Inr ()))) (\<lambda>_.
       on_keyword (map_of schema_object ''maximum'') (\<lambda>m.
          try_bind (schema_f64 m path ''maximum'') (\<lambda>m.
            if actual > m then Inl (ValueAbove path actual m) else Inr ()))))"

definition validate_enum :: "json_value \<Rightarrow> json_value \<Rightarrow> string \<Rightarrow> checked" where
  "validate_enum enum_values v path =
     (case as_array enum_values of
        None \<Rightarrow> Inl (EnumNotArray path)
      | Some candidates \<Rightarrow>
          if list_ex (\<lambda>candidate. json_eq candidate v) candidates then Inr () else Inl (NotInEnum path))"

definition validate_required :: "json_value \<Rightarrow> json_value \<Rightarrow> string \<Rightarrow> checked" where
  "validate_required required v path =
     (case as_array required of
        None \<Rightarrow> Inl (RequiredNotArray path)
      | Some fields \<Rightarrow>
          (case as_object v of
             None \<Rightarrow> Inl (RequiredNeedsObject path)
           | Some object \<Rightarrow>
               try_all (\<lambda>required_field.
                 case as_str required_field of
                   None \<Rightarrow> Inl (RequiredEntryNotString path)
                 | Some field \<Rightarrow> if map_of object field = None then Inl (MissingField path field) else Inr ()) fields))"

subsection \<open>Nested values\<close>

text \<open>
  The checks of nested values take the validator itself as an argument; the congruence rules say on which schemas they
  call it.
\<close>

type_synonym validator = "json_value \<Rightarrow> json_value \<Rightarrow> string \<Rightarrow> checked"

definition field_path :: "string \<Rightarrow> string \<Rightarrow> string" where
  "field_path path property = path @ ''.'' @ property"

definition index_path :: "string \<Rightarrow> nat \<Rightarrow> string" where
  "index_path path index = path @ ''['' @ show_nat index @ '']''"

definition validate_additional_properties ::
    "validator \<Rightarrow> json_value \<Rightarrow> json_value option \<Rightarrow> (string \<times> json_value) list \<Rightarrow> string \<Rightarrow> checked" where
  "validate_additional_properties validate additional_properties properties object path =
     try_bind
       (case properties of
          None \<Rightarrow> Inr None
        | Some ps \<Rightarrow> (case as_object ps of Some known \<Rightarrow> Inr (Some known) | None \<Rightarrow> Inl (PropertiesNotObject path)))
       (\<lambda>known_properties.
          let known = (\<lambda>property. is_some_and known_properties (\<lambda>ps. map_of ps property \<noteq> None))
          in if additional_properties = JBool False
             then try_all (\<lambda>(property, _). if \<not> known property then Inl (PropertyNotAllowed path property) else Inr ()) object
             else if additional_properties = JBool True then Inr ()
             else
               (case as_object additional_properties of
                  None \<Rightarrow> Inl (AdditionalNotBoolOrObject path)
                | Some _ \<Rightarrow>
                    try_all (\<lambda>(property, property_value).
                      if known property then Inr ()
                      else validate additional_properties property_value (field_path path property)) object))"

definition validate_properties ::
    "validator \<Rightarrow> (string \<times> json_value) list \<Rightarrow> (string \<times> json_value) list \<Rightarrow> string \<Rightarrow> checked" where
  "validate_properties validate properties object path =
     try_all (\<lambda>(property, property_schema).
       on_keyword (map_of object property) (\<lambda>property_value. validate property_schema property_value (field_path path property)))
       properties"

fun validate_items_from :: "validator \<Rightarrow> (nat \<Rightarrow> json_value option) \<Rightarrow> nat \<Rightarrow> json_value list \<Rightarrow> string \<Rightarrow> checked" where
  "validate_items_from validate schema_at index [] path = Inr ()"
| "validate_items_from validate schema_at index (item # items) path =
     try_bind (on_keyword (schema_at index) (\<lambda>schema. validate schema item (index_path path index))) (\<lambda>_.
       validate_items_from validate schema_at (Suc index) items path)"

definition validate_array_items :: "validator \<Rightarrow> json_value \<Rightarrow> json_value list \<Rightarrow> string \<Rightarrow> checked" where
  "validate_array_items validate items vs path =
     (case as_object items of
        Some _ \<Rightarrow> validate_items_from validate (\<lambda>_. Some items) 0 vs path
      | None \<Rightarrow>
          (case as_array items of
             None \<Rightarrow> Inl (ItemsNotObjectOrArray path)
           | Some tuple_schemas \<Rightarrow>
               validate_items_from validate
                 (\<lambda>index. if index < length tuple_schemas then Some (tuple_schemas ! index) else None) 0 vs path))"

lemma try_bind_cong [fundef_cong]:
  "r = r' \<Longrightarrow> (\<And>x. r' = Inr x \<Longrightarrow> f x = f' x) \<Longrightarrow> try_bind r f = try_bind r' f'"
  by (cases r') auto

lemma try_all_cong [fundef_cong]:
  "xs = ys \<Longrightarrow> (\<And>x. x \<in> set ys \<Longrightarrow> f x = g x) \<Longrightarrow> try_all f xs = try_all g ys"
  by (induction ys arbitrary: xs) (auto intro: try_bind_cong)

lemma on_keyword_cong [fundef_cong]:
  "k = k' \<Longrightarrow> (\<And>x. k' = Some x \<Longrightarrow> f x = f' x) \<Longrightarrow> on_keyword k f = on_keyword k' f'"
  by (cases k') (auto simp: on_keyword_def)

lemma validate_additional_properties_cong [fundef_cong]:
  assumes "a = a'" "p = p'" "vs = vs'" "q = q'" "\<And>v i. f a' v i = f' a' v i"
  shows "validate_additional_properties f a p vs q = validate_additional_properties f' a' p' vs' q'"
proof -
  have "f a' = f' a'" by (intro ext assms(5))
  then show ?thesis by (simp only: validate_additional_properties_def assms(1-4))
qed

lemma validate_properties_cong [fundef_cong]:
  assumes "ps = ps'" "vs = vs'" "q = q'" "\<And>k s v i. (k, s) \<in> set ps' \<Longrightarrow> f s v i = f' s v i"
  shows "validate_properties f ps vs q = validate_properties f' ps' vs' q'"
  unfolding validate_properties_def assms(1-3)
  by (rule try_all_cong) (auto simp: on_keyword_def assms(4) split: option.split)

lemma validate_items_from_cong:
  assumes "\<And>i s v q. schema_at i = Some s \<Longrightarrow> f s v q = f' s v q"
  shows "validate_items_from f schema_at i vs q = validate_items_from f' schema_at i vs q"
  by (induction vs arbitrary: i) (auto simp: assms on_keyword_def split: option.split intro!: try_bind_cong)

lemma validate_array_items_cong [fundef_cong]:
  assumes "a = a'" "vs = vs'" "q = q'" "\<And>s v i. s = a' \<and> as_object a' \<noteq> None \<or> (\<exists>ts. as_array a' = Some ts \<and> s \<in> set ts) \<Longrightarrow> f s v i = f' s v i"
  shows "validate_array_items f a vs q = validate_array_items f' a' vs' q'"
  unfolding validate_array_items_def assms(1-3)
  by (auto simp: assms(4) split: option.splits if_splits intro!: validate_items_from_cong)

subsection \<open>The validator\<close>

lemma as_object_Some: "as_object v = Some kvs \<longleftrightarrow> v = JObject kvs"
  by (cases v) auto

lemma as_array_Some: "as_array v = Some vs \<longleftrightarrow> v = JArray vs"
  by (cases v) auto

lemma as_str_Some: "as_str v = Some s \<longleftrightarrow> v = JString s"
  by (cases v) auto

function validate_json_schema_subset :: "json_value \<Rightarrow> json_value \<Rightarrow> string \<Rightarrow> checked" where
  "validate_json_schema_subset schema v path =
     (case as_object schema of
        None \<Rightarrow> Inl (SchemaNotObject path)
      | Some schema_object \<Rightarrow>
          try_bind (on_keyword (map_of schema_object ''type'') (\<lambda>t. validate_schema_type t v path)) (\<lambda>_.
          try_bind (on_keyword (map_of schema_object ''const'') (\<lambda>c.
            if \<not> json_eq v c then Inl (ConstMismatch path) else Inr ())) (\<lambda>_.
          try_bind (on_keyword (map_of schema_object ''enum'') (\<lambda>e. validate_enum e v path)) (\<lambda>_.
          try_bind (on_keyword (map_of schema_object ''required'') (\<lambda>r. validate_required r v path)) (\<lambda>_.
          try_bind (on_keyword (map_of schema_object ''additionalProperties'') (\<lambda>a.
            on_keyword (as_object v) (\<lambda>object.
              validate_additional_properties validate_json_schema_subset a (map_of schema_object ''properties'') object path))) (\<lambda>_.
          let rest =
            try_bind (on_keyword (map_of schema_object ''items'') (\<lambda>items.
              on_keyword (as_array v) (\<lambda>vs. validate_array_items validate_json_schema_subset items vs path))) (\<lambda>_.
            try_bind (validate_length_keywords schema_object v path) (\<lambda>_.
            validate_numeric_keywords schema_object v path))
          in case map_of schema_object ''properties'' of
               None \<Rightarrow> rest
             | Some ps \<Rightarrow>
                 (case as_object ps of
                    None \<Rightarrow> Inl (PropertiesNotObject path)
                  | Some properties \<Rightarrow>
                      (case as_object v of
                         None \<Rightarrow> Inr ()
                       | Some object \<Rightarrow>
                           try_bind (validate_properties validate_json_schema_subset properties object path) (\<lambda>_. rest)))))))))"
  by pat_completeness auto

termination
proof (relation "measure (\<lambda>(schema, v, path). size schema)", goal_cases)
qed (auto simp del: json_value.size simp: as_object_Some as_array_Some intro: size_field less_trans dest: size_element size_entry)

declare validate_json_schema_subset.simps [simp del]

lemma size_field_entry: "map_of kvs k = Some (JObject ps) \<Longrightarrow> (x, s) \<in> set ps \<Longrightarrow> size s < size (JObject kvs)"
  by (meson less_trans size_entry size_field)

lemma size_field_element: "map_of kvs k = Some (JArray ts) \<Longrightarrow> s \<in> set ts \<Longrightarrow> size s < size (JObject kvs)"
  by (meson less_trans size_element size_field)

subsection \<open>What schemas mean\<close>

text \<open>
  The meaning of a schema, keyword by keyword, without paths, errors and order. A keyword that is absent asks for nothing.
  When the schema has properties and the value is no object, the code looks at no further keyword.
\<close>

definition keyword :: "(string \<times> json_value) list \<Rightarrow> string \<Rightarrow> (json_value \<Rightarrow> bool) \<Rightarrow> bool" where
  "keyword so k p = (case map_of so k of None \<Rightarrow> True | Some x \<Rightarrow> p x)"

definition names_type :: "json_value \<Rightarrow> json_value \<Rightarrow> bool" where
  "names_type v t =
     (case t of
        JString s \<Rightarrow> schema_type_matches s v
      | JArray ts \<Rightarrow>
          (case dropWhile (\<lambda>t. case t of JString s \<Rightarrow> \<not> schema_type_matches s v | _ \<Rightarrow> False) ts of
             JString s # _ \<Rightarrow> True
           | _ \<Rightarrow> False)
      | _ \<Rightarrow> False)"

definition in_enum :: "json_value \<Rightarrow> json_value \<Rightarrow> bool" where
  "in_enum v e = (case e of JArray cs \<Rightarrow> list_ex (\<lambda>c. json_eq c v) cs | _ \<Rightarrow> False)"

definition has_fields :: "json_value \<Rightarrow> json_value \<Rightarrow> bool" where
  "has_fields v r =
     (case (r, v) of
        (JArray fields, JObject object) \<Rightarrow>
          list_all (\<lambda>f. case f of JString s \<Rightarrow> s \<in> fst ` set object | _ \<Rightarrow> False) fields
      | _ \<Rightarrow> False)"

definition within_lengths :: "(string \<times> json_value) list \<Rightarrow> string \<Rightarrow> string \<Rightarrow> nat \<Rightarrow> bool" where
  "within_lengths so lo hi n \<longleftrightarrow>
     keyword so lo (\<lambda>m. is_some_and (as_u64 m) (\<lambda>m. m \<le> n)) \<and> keyword so hi (\<lambda>m. is_some_and (as_u64 m) (\<lambda>m. n \<le> m))"

definition lengths_ok :: "(string \<times> json_value) list \<Rightarrow> json_value \<Rightarrow> bool" where
  "lengths_ok so v =
     (case v of
        JString s \<Rightarrow> within_lengths so ''minLength'' ''maxLength'' (char_count s)
      | JArray vs \<Rightarrow> within_lengths so ''minItems'' ''maxItems'' (length vs)
      | _ \<Rightarrow> True)"

definition numbers_ok :: "(string \<times> json_value) list \<Rightarrow> json_value \<Rightarrow> bool" where
  "numbers_ok so v =
     (case as_f64 v of
        None \<Rightarrow> True
      | Some x \<Rightarrow>
          keyword so ''minimum'' (\<lambda>m. is_some_and (as_f64 m) (\<lambda>m. m \<le> x))
          \<and> keyword so ''maximum'' (\<lambda>m. is_some_and (as_f64 m) (\<lambda>m. x \<le> m)))"

definition known_property :: "json_value option \<Rightarrow> string \<Rightarrow> bool" where
  "known_property properties k = (case properties of Some (JObject ps) \<Rightarrow> k \<in> fst ` set ps | _ \<Rightarrow> False)"

function conforms :: "json_value \<Rightarrow> json_value \<Rightarrow> bool" where
  "conforms schema v =
     (case schema of
        JObject so \<Rightarrow>
          keyword so ''type'' (names_type v) \<and> keyword so ''const'' (json_eq v) \<and> keyword so ''enum'' (in_enum v)
          \<and> keyword so ''required'' (has_fields v)
          \<and> keyword so ''properties'' (\<lambda>p. as_object p \<noteq> None)
          \<and> (case (map_of so ''additionalProperties'', v) of
               (Some a, JObject object) \<Rightarrow>
                 (a = JBool False \<or> a = JBool True \<or> as_object a \<noteq> None)
                 \<and> list_all (\<lambda>(k, x). known_property (map_of so ''properties'') k \<or> a = JBool True
                      \<or> a \<noteq> JBool False \<and> conforms a x) object
             | _ \<Rightarrow> True)
          \<and> (case (map_of so ''properties'', v) of
               (Some (JObject ps), JObject object) \<Rightarrow>
                 list_all (\<lambda>(k, s). case map_of object k of None \<Rightarrow> True | Some x \<Rightarrow> conforms s x) ps
             | _ \<Rightarrow> True)
          \<and> (map_of so ''properties'' \<noteq> None \<and> as_object v = None
             \<or> (case (map_of so ''items'', v) of
                   (Some items, JArray vs) \<Rightarrow>
                     (case items of
                        JObject _ \<Rightarrow> list_all (conforms items) vs
                      | JArray ts \<Rightarrow> list_all (\<lambda>(s, x). conforms s x) (zip ts vs)
                      | _ \<Rightarrow> False)
                 | _ \<Rightarrow> True)
               \<and> lengths_ok so v \<and> numbers_ok so v)
      | _ \<Rightarrow> False)"
  by pat_completeness auto
termination
  by (relation "measure (\<lambda>(schema, v). size schema)", rule wf_measure)
    (clarsimp simp del: json_value.size;
     metis size_field size_field_entry size_field_element set_zip_leftD)+

declare conforms.simps [simp del]

subsection \<open>The validator decides the meaning\<close>

named_theorems keyword_ok \<open>when the check of a keyword succeeds\<close>

lemma on_keyword_ok: "on_keyword (map_of so k) f = Inr () \<longleftrightarrow> keyword so k (\<lambda>x. f x = Inr ())"
  by (auto simp: on_keyword_def keyword_def split: option.split)

lemma match_types_ok:
  "match_types v path names ts = Inr () \<longleftrightarrow>
     (case dropWhile (\<lambda>t. case t of JString s \<Rightarrow> \<not> schema_type_matches s v | _ \<Rightarrow> False) ts of
        JString s # _ \<Rightarrow> True | _ \<Rightarrow> False)"
  by (induction ts arbitrary: names) (auto split: json_value.split option.split)

lemma schema_type_ok [keyword_ok]: "validate_schema_type t v path = Inr () \<longleftrightarrow> names_type v t"
  by (cases t) (auto simp: validate_schema_type_def validate_schema_type_name_def names_type_def match_types_ok)

lemma enum_ok [keyword_ok]: "validate_enum e v path = Inr () \<longleftrightarrow> in_enum v e"
  by (cases e) (auto simp: validate_enum_def in_enum_def)

lemma required_field_ok:
  "(case as_str f of None \<Rightarrow> Inl e | Some field \<Rightarrow> if map_of object field = None then Inl (e' field) else Inr ()) = Inr ()
     \<longleftrightarrow> (case f of JString s \<Rightarrow> s \<in> fst ` set object | _ \<Rightarrow> False)"
  by (cases f) (auto simp: map_of_eq_None_iff)

lemma required_ok [keyword_ok]: "validate_required r v path = Inr () \<longleftrightarrow> has_fields v r"
  by (cases r; cases v) (simp_all only: validate_required_def has_fields_def as_array.simps as_object.simps option.case
      json_value.case prod.case try_all_ok required_field_ok list_all_iff, simp_all)

text \<open>The checks of one bound.\<close>

lemma bound_ok:
  "try_bind (schema_u64 m path k) (\<lambda>m. if n < m then Inl (e m) else Inr ()) = Inr () \<longleftrightarrow> is_some_and (as_u64 m) (\<lambda>m. m \<le> n)"
  "try_bind (schema_u64 m path k) (\<lambda>m. if n > m then Inl (e m) else Inr ()) = Inr () \<longleftrightarrow> is_some_and (as_u64 m) (\<lambda>m. n \<le> m)"
  "try_bind (schema_f64 m path k) (\<lambda>m. if x < m then Inl (d m) else Inr ()) = Inr () \<longleftrightarrow> is_some_and (as_f64 m) (\<lambda>m. m \<le> x)"
  "try_bind (schema_f64 m path k) (\<lambda>m. if x > m then Inl (d m) else Inr ()) = Inr () \<longleftrightarrow> is_some_and (as_f64 m) (\<lambda>m. x \<le> m)"
  by (cases "as_u64 m"; cases "as_f64 m"; auto simp: schema_u64_def schema_f64_def not_less)+

lemma try_bind_unit_ok: "try_bind r (\<lambda>_. r') = Inr () \<longleftrightarrow> r = Inr () \<and> r' = Inr ()" for r :: "('e, unit) result"
  by (cases r) auto

lemma u64_min_max_ok: "validate_u64_min_max so lo hi n path = Inr () \<longleftrightarrow> within_lengths so lo hi n"
  by (simp only: validate_u64_min_max_def within_lengths_def try_bind_unit_ok on_keyword_ok bound_ok)

lemma length_keywords_ok [keyword_ok]: "validate_length_keywords so v path = Inr () \<longleftrightarrow> lengths_ok so v"
  by (cases v) (auto simp: validate_length_keywords_def lengths_ok_def on_keyword_def u64_min_max_ok)

lemma numeric_keywords_ok [keyword_ok]: "validate_numeric_keywords so v path = Inr () \<longleftrightarrow> numbers_ok so v"
  by (cases "as_f64 v")
    (simp_all only: validate_numeric_keywords_def numbers_ok_def on_keyword_def [of "as_f64 v" for v] option.case
      on_keyword_def [of None] on_keyword_def [of "Some x" for x] try_bind_unit_ok on_keyword_ok bound_ok, simp_all)

lemma items_from_ok:
  "validate_items_from f schema_at i vs path = Inr () \<longleftrightarrow>
     (\<forall>j < length vs. \<forall>s. schema_at (i + j) = Some s \<longrightarrow> f s (vs ! j) (index_path path (i + j)) = Inr ())"
  by (induction vs arbitrary: i) (auto simp: on_keyword_def All_less_Suc2 split: option.split)

text \<open>Where the validator agrees with a predicate on the nested schemas, so do the checks of nested values.\<close>

lemma additional_ok:
  assumes "\<And>x q. f a x q = Inr () \<longleftrightarrow> p x"
  shows "validate_additional_properties f a properties object path = Inr () \<longleftrightarrow>
     (case properties of None \<Rightarrow> True | Some ps \<Rightarrow> as_object ps \<noteq> None)
     \<and> (a = JBool False \<or> a = JBool True \<or> as_object a \<noteq> None)
     \<and> list_all (\<lambda>(k, x). known_property properties k \<or> a = JBool True \<or> a \<noteq> JBool False \<and> p x) object"
proof (cases "\<exists>known. properties = Some (JObject known) \<or> properties = None")
  case True
  then obtain kp where kp: "(case properties of None \<Rightarrow> Inr None
        | Some ps \<Rightarrow> (case as_object ps of Some known \<Rightarrow> Inr (Some known) | None \<Rightarrow> Inl (PropertiesNotObject path))) = Inr kp"
      and known: "\<And>k. is_some_and kp (\<lambda>ps. map_of ps k \<noteq> None) = known_property properties k"
    by (elim exE disjE) (fastforce simp: known_property_def map_of_eq_None_iff)+
  have "(case properties of None \<Rightarrow> True | Some ps \<Rightarrow> as_object ps \<noteq> None)"
    using True by auto
  then show ?thesis
    unfolding validate_additional_properties_def kp try_bind_simps Let_def known
    using assms by (cases a) (auto simp: list_all_iff case_prod_unfold split: if_splits)
next
  case False
  then obtain ps where "properties = Some ps" "as_object ps = None"
    by (cases properties; cases "the properties") auto
  then show ?thesis by (simp add: validate_additional_properties_def)
qed

lemma properties_ok:
  assumes "\<And>k s x q. (k, s) \<in> set ps \<Longrightarrow> f s x q = Inr () \<longleftrightarrow> p s x"
  shows "validate_properties f ps object path = Inr () \<longleftrightarrow>
    list_all (\<lambda>(k, s). case map_of object k of None \<Rightarrow> True | Some x \<Rightarrow> p s x) ps"
  using assms by (auto simp: validate_properties_def on_keyword_def list_all_iff split: option.split prod.splits)

lemma array_items_ok:
  assumes "\<And>s x q. s = items \<or> (\<exists>ts. items = JArray ts \<and> s \<in> set ts) \<Longrightarrow> f s x q = Inr () \<longleftrightarrow> p s x"
  shows "validate_array_items f items vs path = Inr () \<longleftrightarrow>
    (case items of
       JObject _ \<Rightarrow> list_all (p items) vs
     | JArray ts \<Rightarrow> list_all (\<lambda>(s, x). p s x) (zip ts vs)
     | _ \<Rightarrow> False)"
proof (cases items)
  case (JArray ts)
  have "validate_array_items f items vs path = Inr () \<longleftrightarrow>
      (\<forall>j < length vs. j < length ts \<longrightarrow> f (ts ! j) (vs ! j) (index_path path j) = Inr ())"
    by (auto simp: validate_array_items_def JArray items_from_ok)
  also have "\<dots> \<longleftrightarrow> (\<forall>j < length vs. j < length ts \<longrightarrow> p (ts ! j) (vs ! j))"
    using assms JArray by simp
  finally show ?thesis by (auto simp: JArray list_all_length)
next
  case (JObject kvs)
  then show ?thesis using assms by (auto simp: validate_array_items_def items_from_ok list_all_length)
qed (simp_all add: validate_array_items_def)

text \<open>The parts of the validator that look into nested schemas.\<close>

definition agrees_below :: "(string \<times> json_value) list \<Rightarrow> validator \<Rightarrow> (json_value \<Rightarrow> json_value \<Rightarrow> bool) \<Rightarrow> bool" where
  "agrees_below so f p \<longleftrightarrow> (\<forall>s x q. size s < size (JObject so) \<longrightarrow> (f s x q = Inr () \<longleftrightarrow> p s x))"

lemma agreesD:
  assumes "agrees_below so f p"
  shows "map_of so k = Some s \<Longrightarrow> f s x q = Inr () \<longleftrightarrow> p s x"
    and "map_of so k = Some (JObject ps) \<Longrightarrow> (n, s) \<in> set ps \<Longrightarrow> f s x q = Inr () \<longleftrightarrow> p s x"
    and "map_of so k = Some (JArray ts) \<Longrightarrow> s \<in> set ts \<Longrightarrow> f s x q = Inr () \<longleftrightarrow> p s x"
  using assms unfolding agrees_below_def by (blast intro: size_field size_field_entry size_field_element)+

lemma additional_part:
  assumes "agrees_below so f p" "keyword so ''properties'' (\<lambda>p. as_object p \<noteq> None)"
  shows "on_keyword (map_of so ''additionalProperties'') (\<lambda>a. on_keyword (as_object v) (\<lambda>object.
      validate_additional_properties f a (map_of so ''properties'') object path)) = Inr () \<longleftrightarrow>
    (case (map_of so ''additionalProperties'', v) of
       (Some a, JObject object) \<Rightarrow>
         (a = JBool False \<or> a = JBool True \<or> as_object a \<noteq> None)
         \<and> list_all (\<lambda>(k, x). known_property (map_of so ''properties'') k \<or> a = JBool True
              \<or> a \<noteq> JBool False \<and> p a x) object
     | _ \<Rightarrow> True)"
proof (cases "map_of so ''additionalProperties''"; cases v)
  fix a object
  assume "map_of so ''additionalProperties'' = Some a" "v = JObject object"
  with assms additional_ok [of f a "p a", OF agreesD(1) [OF assms(1)]] show ?thesis
    by (cases "map_of so ''properties''") (simp_all add: on_keyword_def keyword_def)
qed (simp_all add: on_keyword_def)

lemma items_part:
  assumes "agrees_below so f p"
  shows "on_keyword (map_of so ''items'') (\<lambda>items. on_keyword (as_array v) (\<lambda>vs. validate_array_items f items vs path)) = Inr () \<longleftrightarrow>
    (case (map_of so ''items'', v) of
       (Some items, JArray vs) \<Rightarrow>
         (case items of
            JObject _ \<Rightarrow> list_all (p items) vs
          | JArray ts \<Rightarrow> list_all (\<lambda>(s, x). p s x) (zip ts vs)
          | _ \<Rightarrow> False)
     | _ \<Rightarrow> True)"
proof (cases "map_of so ''items''"; cases v)
  fix items vs
  assume *: "map_of so ''items'' = Some items" "v = JArray vs"
  have "f s x q = Inr () \<longleftrightarrow> p s x" if "s = items \<or> (\<exists>ts. items = JArray ts \<and> s \<in> set ts)" for s x q
    using that agreesD(1, 3) [OF assms] * by blast
  with * array_items_ok [of items f p vs path] show ?thesis
    by (simp add: on_keyword_def)
qed (simp_all add: on_keyword_def)

lemma properties_part:
  assumes "agrees_below so f p"
  shows "(case map_of so ''properties'' of
      None \<Rightarrow> rest
    | Some ps \<Rightarrow>
        (case as_object ps of
           None \<Rightarrow> Inl (PropertiesNotObject path)
         | Some properties \<Rightarrow>
             (case as_object v of
                None \<Rightarrow> Inr ()
              | Some object \<Rightarrow> try_bind (validate_properties f properties object path) (\<lambda>_. rest)))) = Inr () \<longleftrightarrow>
    keyword so ''properties'' (\<lambda>p. as_object p \<noteq> None)
    \<and> (case (map_of so ''properties'', v) of
         (Some (JObject ps), JObject object) \<Rightarrow>
           list_all (\<lambda>(k, s). case map_of object k of None \<Rightarrow> True | Some x \<Rightarrow> p s x) ps
       | _ \<Rightarrow> True)
    \<and> (map_of so ''properties'' \<noteq> None \<and> as_object v = None \<or> rest = Inr ())"
proof (cases "map_of so ''properties''")
  case (Some s)
  then show ?thesis
    by (cases s; cases v) (auto simp: keyword_def properties_ok [of _ f p, OF agreesD(2) [OF assms]])
qed (simp add: keyword_def)

text \<open>
  A schema with \<^verbatim>\<open>properties\<close> skips every keyword that follows when the value is no object: no bound is checked.
\<close>

lemma properties_hide_bounds:
  assumes "map_of so ''properties'' = Some (JObject ps)" "as_object v = None"
    and "map_of so ''type'' = None" "map_of so ''const'' = None" "map_of so ''enum'' = None" "map_of so ''required'' = None"
  shows "validate_json_schema_subset (JObject so) v path = Inr ()"
  using assms by (subst validate_json_schema_subset.simps) (simp add: on_keyword_def split: option.split)

lemma minimum_next_to_properties:
  "validate_json_schema_subset (JObject [(''minimum'', JNumber (PosInt 5)), (''properties'', JObject [])]) (JNumber (PosInt 3)) path = Inr ()"
  by (rule properties_hide_bounds) simp_all


end
