(* ===== verification/Contracts.thy ===== *)
theory Contracts
  imports Prelude
begin

text \<open>
  The interfaces several components implement, as locales. Each states the laws a provider
  promises and proves once what its clients conclude from them; the component theories
  interpret them on the modelled operations.
\<close>

subsection \<open>Attenuation: authority that can only shrink when it is delegated\<close>

locale attenuation =
  fixes within :: "'a \<Rightarrow> 'a \<Rightarrow> bool"
  assumes within_refl: "within a a"
    and within_trans: "within a b \<Longrightarrow> within b c \<Longrightarrow> within a c"
begin

text \<open>
  A chain of delegations, the root authority first: every holder grants something within
  its own authority. Then every holder stays within the root.
\<close>

lemma chain_within_root:
  assumes "successively (\<lambda>p c. within c p) (root # holders)" "h \<in> set holders"
  shows "within h root"
  using assms
proof (induction holders arbitrary: root)
  case Nil
  then show ?case by simp
next
  case (Cons c cs)
  from Cons.prems(1) have step: "within c root" and rest: "successively (\<lambda>p c. within c p) (c # cs)"
    by simp_all
  show ?case
  proof (cases "h = c")
    case True
    with step show ?thesis by simp
  next
    case False
    with Cons.prems(2) rest Cons.IH have "within h c" by simp
    with step show ?thesis by (blast intro: within_trans)
  qed
qed

end

subsection \<open>Chunked sinks: consumers whose result does not depend on how input is cut\<close>

locale chunked_sink =
  fixes push :: "'s \<Rightarrow> 'b list \<Rightarrow> 's"
    and ok :: "'s \<Rightarrow> bool"
  assumes push_ok: "ok s \<Longrightarrow> ok (push s xs)"
    and push_append: "ok s \<Longrightarrow> push (push s xs) ys = push s (xs @ ys)"
    and push_Nil: "ok s \<Longrightarrow> push s [] = s"
begin

lemma push_chunks: "ok s \<Longrightarrow> foldl push s chunks = push s (concat chunks)"
  by (induction chunks arbitrary: s) (simp_all add: push_Nil push_append push_ok)

lemma push_chunking_irrelevant:
  "ok s \<Longrightarrow> concat chunks = concat chunks' \<Longrightarrow> foldl push s chunks = foldl push s chunks'"
  by (simp add: push_chunks)

end

subsection \<open>Guarded machines: operations that keep an invariant\<close>

locale guarded_machine =
  fixes step :: "'e \<Rightarrow> 's \<Rightarrow> 's"
    and inv :: "'s \<Rightarrow> bool"
  assumes step_inv: "inv s \<Longrightarrow> inv (step e s)"
begin

lemma run_inv: "inv s \<Longrightarrow> inv (fold step es s)"
  by (induction es arbitrary: s) (simp_all add: step_inv)

end

text \<open>A machine that also keeps a reading from ever going down.\<close>

locale metered_machine = guarded_machine step inv
  for step :: "'e \<Rightarrow> 's \<Rightarrow> 's" and inv :: "'s \<Rightarrow> bool" +
  fixes reading :: "'s \<Rightarrow> 'r"
    and not_above :: "'r \<Rightarrow> 'r \<Rightarrow> bool"
  assumes not_above_refl: "not_above r r"
    and not_above_trans: "not_above r r' \<Longrightarrow> not_above r' r'' \<Longrightarrow> not_above r r''"
    and step_reading: "inv s \<Longrightarrow> not_above (reading s) (reading (step e s))"
begin

lemma run_reading: "inv s \<Longrightarrow> not_above (reading s) (reading (fold step es s))"
proof (induction es arbitrary: s)
  case Nil
  then show ?case by (simp add: not_above_refl)
next
  case (Cons e es)
  then have "not_above (reading (step e s)) (reading (fold step es (step e s)))"
    by (simp add: step_inv)
  with Cons.prems step_reading show ?case by (auto intro: not_above_trans)
qed

end

text \<open>A machine with a verdict that, once given, no later step changes.\<close>

locale latching_machine = guarded_machine step inv
  for step :: "'e \<Rightarrow> 's \<Rightarrow> 's" and inv :: "'s \<Rightarrow> bool" +
  fixes verdict :: "'s \<Rightarrow> 'v option"
  assumes step_verdict: "inv s \<Longrightarrow> verdict s = Some v \<Longrightarrow> verdict (step e s) = Some v"
begin

lemma run_verdict: "inv s \<Longrightarrow> verdict s = Some v \<Longrightarrow> verdict (fold step es s) = Some v"
  by (induction es arbitrary: s) (simp_all add: step_inv step_verdict)

end

subsection \<open>Fuses: activity that cannot go on for ever\<close>

text \<open>
  As long as the machine stays active every step of a certain kind raises a reading, and an
  active machine reads below a limit. Then it is no longer active after as many such steps as the
  limit leaves.
\<close>

locale fused_machine =
  fixes step :: "'e \<Rightarrow> 's \<Rightarrow> 's"
    and inv :: "'s \<Rightarrow> bool"
    and active :: "'s \<Rightarrow> bool"
    and burns :: "'e \<Rightarrow> bool"
    and reading :: "'s \<Rightarrow> int"
    and ceiling :: int
  assumes step_inv: "inv s \<Longrightarrow> inv (step e s)"
    and step_inactive: "inv s \<Longrightarrow> \<not> active s \<Longrightarrow> \<not> active (step e s)"
    and step_burns: "inv s \<Longrightarrow> active s \<Longrightarrow> burns e \<Longrightarrow> active (step e s) \<Longrightarrow>
      reading s + 1 \<le> reading (step e s) \<and> reading (step e s) < ceiling"
begin

lemma run_inactive: "inv s \<Longrightarrow> \<not> active s \<Longrightarrow> \<not> active (fold step es s)"
  by (induction es arbitrary: s) (simp_all add: step_inv step_inactive)

lemma run_burns:
  "inv s \<Longrightarrow> active s \<Longrightarrow> list_all burns es \<Longrightarrow> active (fold step es s) \<Longrightarrow> es \<noteq> [] \<Longrightarrow>
   reading s + int (length es) \<le> reading (fold step es s) \<and> reading (fold step es s) < ceiling"
proof (induction es arbitrary: s)
  case (Cons e es)
  have act: "active (step e s)"
    using Cons.prems run_inactive [of "step e s" es] by (auto simp: step_inv)
  then have one: "reading s + 1 \<le> reading (step e s) \<and> reading (step e s) < ceiling"
    using Cons.prems step_burns by simp
  show ?case
  proof (cases es)
    case Nil
    with one show ?thesis by simp
  next
    case (Cons e' es')
    with one act Cons.IH [of "step e s"] Cons.prems show ?thesis by (simp add: step_inv)
  qed
qed simp

lemma run_stops:
  assumes "inv s" "list_all burns es" "es \<noteq> []" "ceiling \<le> reading s + int (length es)"
  shows "\<not> active (fold step es s)"
  using assms run_burns [of s es] run_inactive [of s es] by fastforce

end

end
