(* ===== verification/Budget.thy ===== *)
theory Budget
  imports Contracts Rust_Strings "HOL-Library.Log_Nat"
begin

text \<open>
  The execution budget protocol, \<^verbatim>\<open>crates/orca-core/src/budget.rs\<close>, the blocker types of
  \<^verbatim>\<open>goal_runtime.rs\<close> its terminal mentions, and the reminder policy of
  \<^verbatim>\<open>crates/orca-runtime/src/budget_soft_landing.rs\<close> with the double-precision arithmetic it uses.
  Counters are natural numbers; every addition is the saturating one of the counter's width.
\<close>

subsection \<open>Budgets and usage\<close>

record budget_spec =
  max_turns :: "nat option"
  max_tool_calls :: "nat option"
  max_cost_usd_micros :: "nat option"
  max_wall_time_ms :: "nat option"

definition unlimited_spec :: budget_spec where
  "unlimited_spec =
     \<lparr>max_turns = None, max_tool_calls = None, max_cost_usd_micros = None, max_wall_time_ms = None\<rparr>"

definition is_unlimited :: "budget_spec \<Rightarrow> bool" where
  "is_unlimited s \<longleftrightarrow>
     max_turns s = None \<and> max_tool_calls s = None \<and> max_cost_usd_micros s = None
     \<and> max_wall_time_ms s = None"

definition validate_spec :: "budget_spec \<Rightarrow> (string, unit) result" where
  "validate_spec s =
     (if max_turns s = Some 0 then Inl ''max_turns must be positive''
      else if max_tool_calls s = Some 0 then Inl ''max_tool_calls must be positive''
      else if max_cost_usd_micros s = Some 0 then Inl ''max_cost_usd_micros must be positive''
      else if max_wall_time_ms s = Some 0 then Inl ''max_wall_time_ms must be positive''
      else Inr ())"

record budget_usage =
  turns :: nat
  tool_calls :: nat
  cost_usd_micros :: nat
  wall_time_ms :: nat

definition zero_usage :: budget_usage where
  "zero_usage = \<lparr>turns = 0, tool_calls = 0, cost_usd_micros = 0, wall_time_ms = 0\<rparr>"

definition add_turn :: "budget_usage \<Rightarrow> budget_usage" where
  "add_turn u = u\<lparr>turns := sat_add u32_max (turns u) 1\<rparr>"

definition add_tool_call :: "budget_usage \<Rightarrow> budget_usage" where
  "add_tool_call u = u\<lparr>tool_calls := sat_add u32_max (tool_calls u) 1\<rparr>"

definition add_cost_usd_micros :: "nat \<Rightarrow> budget_usage \<Rightarrow> budget_usage" where
  "add_cost_usd_micros c u = u\<lparr>cost_usd_micros := sat_add u64_max (cost_usd_micros u) c\<rparr>"

definition add_wall_time_ms :: "nat \<Rightarrow> budget_usage \<Rightarrow> budget_usage" where
  "add_wall_time_ms w u = u\<lparr>wall_time_ms := sat_add u64_max (wall_time_ms u) w\<rparr>"

definition usage_merge :: "budget_usage \<Rightarrow> budget_usage \<Rightarrow> budget_usage" where
  "usage_merge u v =
     \<lparr>turns = sat_add u32_max (turns u) (turns v),
      tool_calls = sat_add u32_max (tool_calls u) (tool_calls v),
      cost_usd_micros = sat_add u64_max (cost_usd_micros u) (cost_usd_micros v),
      wall_time_ms = sat_add u64_max (wall_time_ms u) (wall_time_ms v)\<rparr>"

subsection \<open>Stops and terminals\<close>

datatype stop_reason =
    TurnBudget nat
  | ToolCallBudget nat
  | CostBudget nat
  | WallTimeBudget nat

fun stop_reason_str :: "stop_reason \<Rightarrow> string" where
  "stop_reason_str (TurnBudget _) = ''turn_budget''"
| "stop_reason_str (ToolCallBudget _) = ''tool_call_budget''"
| "stop_reason_str (CostBudget _) = ''cost_budget''"
| "stop_reason_str (WallTimeBudget _) = ''wall_time_budget''"

datatype failure_class =
    ProviderFailure | ToolFailure | HookFailure | WorkflowFailure | VerificationFailure
  | RuntimeFailure | PersistenceFailure | ExternalEffectAmbiguous

fun failure_class_str :: "failure_class \<Rightarrow> string" where
  "failure_class_str ProviderFailure = ''provider''"
| "failure_class_str ToolFailure = ''tool''"
| "failure_class_str HookFailure = ''hook''"
| "failure_class_str WorkflowFailure = ''workflow''"
| "failure_class_str VerificationFailure = ''verification''"
| "failure_class_str RuntimeFailure = ''runtime''"
| "failure_class_str PersistenceFailure = ''persistence''"
| "failure_class_str ExternalEffectAmbiguous = ''external_effect_ambiguous''"

datatype cancel_reason = UserCancel | ParentCancel | GoalPauseCancel | SystemCancel

fun cancel_reason_str :: "cancel_reason \<Rightarrow> string" where
  "cancel_reason_str UserCancel = ''user''"
| "cancel_reason_str ParentCancel = ''parent''"
| "cancel_reason_str GoalPauseCancel = ''goal_pause''"
| "cancel_reason_str SystemCancel = ''system''"

datatype evidence_kind =
  TestEvidence | FileEvidence | CommandEvidence | ObservationEvidence | ExternalEvidence

record evidence_item =
  ev_kind :: evidence_kind
  ev_summary :: string
  ev_target :: "string option"

definition evidence_observation :: "string \<Rightarrow> evidence_item" where
  "evidence_observation summary =
     \<lparr>ev_kind = ObservationEvidence, ev_summary = summary, ev_target = None\<rparr>"

datatype blocker_kind =
    UserDecision | MissingAuthority | ExternalState | EnvironmentContradiction
  | UnverifiableRequirement

record blocker_summary =
  bs_question :: "string option"
  bs_kind :: blocker_kind
  bs_summary :: string
  bs_fingerprint :: string
  bs_evidence :: "evidence_item list"

datatype operation_terminal =
    Completed budget_usage
  | StoppedTerminal stop_reason budget_usage string bool
  | FailedTerminal failure_class string
  | CancelledTerminal cancel_reason "string option"
  | BlockedTerminal blocker_summary budget_usage

fun terminal_usage :: "operation_terminal \<Rightarrow> budget_usage option" where
  "terminal_usage (Completed u) = Some u"
| "terminal_usage (StoppedTerminal _ u _ _) = Some u"
| "terminal_usage (BlockedTerminal _ u) = Some u"
| "terminal_usage (FailedTerminal _ _) = None"
| "terminal_usage (CancelledTerminal _ _) = None"

fun exit_code :: "operation_terminal \<Rightarrow> int" where
  "exit_code (Completed _) = 0"
| "exit_code (StoppedTerminal _ _ _ _) = 4"
| "exit_code (FailedTerminal _ _) = 1"
| "exit_code (CancelledTerminal _ _) = 130"
| "exit_code (BlockedTerminal _ _) = 5"

fun terminal_str :: "operation_terminal \<Rightarrow> string" where
  "terminal_str (Completed _) = ''completed''"
| "terminal_str (StoppedTerminal _ _ _ _) = ''stopped''"
| "terminal_str (FailedTerminal _ _) = ''failed''"
| "terminal_str (CancelledTerminal _ _) = ''cancelled''"
| "terminal_str (BlockedTerminal _ _) = ''blocked''"

record budget_stop =
  bt_reason :: stop_reason
  bt_usage :: budget_usage

subsection \<open>Double-precision quotients\<close>

text \<open>
  Rust's \<^verbatim>\<open>f64\<close> on the non-negative values used here: a rational is rounded to the nearest
  fraction with a 53-bit significand, ties to even. All values lie between 2 to the power -64
  and 2 to the power 64, so exponents never overflow or become subnormal.
\<close>

definition round_half_even :: "int \<Rightarrow> int \<Rightarrow> int" where
  "round_half_even p q =
     (let m = p div q; r = p mod q
      in if 2 * r < q \<or> (2 * r = q \<and> even m) then m else m + 1)"

definition round_f64 :: "int \<Rightarrow> int \<Rightarrow> rat" where
  "round_f64 p q =
     (if p = 0 then 0
      else
        (let k0 = 53 - (bitlen p - bitlen q);
             num = (\<lambda>k. p * 2 ^ nat k);
             den = (\<lambda>k. q * 2 ^ nat (- k));
             k = (if num k0 < den k0 * 2 ^ 53 then k0 else k0 - 1)
         in of_int (round_half_even (num k) (den k) * 2 ^ nat (- k)) / of_int (2 ^ nat k)))"

definition f64_of_u64 :: "nat \<Rightarrow> rat" where
  "f64_of_u64 n = round_f64 (int n) 1"

definition f64_div :: "rat \<Rightarrow> rat \<Rightarrow> rat" where
  "f64_div a b = (let (p, q) = quotient_of (a / b) in round_f64 p q)"

text \<open>\<^verbatim>\<open>format!("{:.4}", x)\<close>: the exact binary value, rounded to four decimals, ties to even.\<close>

definition format_fixed4 :: "rat \<Rightarrow> string" where
  "format_fixed4 x =
     (let (p, q) = quotient_of x;
          n = round_half_even (p * 10000) q;
          frac = show_nat (nat (n mod 10000))
      in show_nat (nat (n div 10000)) @ ''.'' @ replicate (4 - length frac) (CHR ''0'') @ frac)"

subsection \<open>Soft-landing reminders\<close>

definition inner_turn_reminder_at_remaining :: "nat list" where
  "inner_turn_reminder_at_remaining = [16, 8, 4, 2]"

definition cost_budget_reminder_at_remaining_fraction :: "rat list" where
  "cost_budget_reminder_at_remaining_fraction = [round_f64 25 100, round_f64 10 100, round_f64 5 100]"

definition goal_token_reminder_at_remaining_fraction :: "rat list" where
  "goal_token_reminder_at_remaining_fraction = [round_f64 25 100, round_f64 10 100, round_f64 5 100]"

datatype soft_landing_kind = InnerTurnsLanding nat | CostBudgetLanding | GoalTokensLanding

record soft_landing_reminder =
  sl_remaining :: nat
  sl_index :: nat
  sl_kind :: soft_landing_kind

definition pending_inner_turn_reminder :: "nat \<Rightarrow> nat \<Rightarrow> nat \<Rightarrow> soft_landing_reminder option" where
  "pending_inner_turn_reminder limit turns_started delivered_index =
     (if limit = 0 then None
      else
        (let remaining = limit - turns_started
         in if remaining = 0 then None
            else
              (let index = length (filter (\<lambda>t. remaining \<le> t) inner_turn_reminder_at_remaining)
               in if index = 0 \<or> index \<le> delivered_index then None
                  else Some \<lparr>sl_remaining = remaining, sl_index = index,
                             sl_kind = InnerTurnsLanding limit\<rparr>)))"

definition pending_cost_budget_reminder :: "nat \<Rightarrow> nat \<Rightarrow> nat \<Rightarrow> soft_landing_reminder option" where
  "pending_cost_budget_reminder max_cost spent delivered_index =
     (if max_cost = 0 then None
      else
        (let remaining = max_cost - spent;
             fraction = f64_div (f64_of_u64 remaining) (f64_of_u64 max_cost);
             index = length (filter (\<lambda>t. fraction \<le> t) cost_budget_reminder_at_remaining_fraction)
         in if index = 0 \<or> index \<le> delivered_index then None
            else Some \<lparr>sl_remaining = remaining, sl_index = index, sl_kind = CostBudgetLanding\<rparr>))"

text \<open>The subtraction of the two \<^verbatim>\<open>i64\<close> values wraps in a release build.\<close>

definition wrap_i64 :: "int \<Rightarrow> int" where
  "wrap_i64 i = (i + 2 ^ 63) mod 2 ^ 64 - 2 ^ 63"

definition pending_goal_token_reminder :: "int \<Rightarrow> int \<Rightarrow> nat \<Rightarrow> soft_landing_reminder option" where
  "pending_goal_token_reminder budget used delivered_index =
     (if budget \<le> 0 then None
      else
        (let remaining = nat (max (wrap_i64 (budget - used)) 0);
             fraction = f64_div (f64_of_u64 remaining) (f64_of_u64 (nat budget));
             index = length (filter (\<lambda>t. fraction \<le> t) goal_token_reminder_at_remaining_fraction)
         in if index = 0 \<or> index \<le> delivered_index then None
            else Some \<lparr>sl_remaining = remaining, sl_index = index, sl_kind = GoalTokensLanding\<rparr>))"

definition newline :: string where
  "newline = [char_of (10 :: nat)]"

definition format_soft_landing_message :: "soft_landing_reminder \<Rightarrow> string" where
  "format_soft_landing_message r =
     ''[Budget soft landing]'' @ newline @
     (case sl_kind r of
        InnerTurnsLanding limit \<Rightarrow>
          ''Inner-turn budget is low: '' @ show_nat (sl_remaining r) @ '' of '' @ show_nat limit
          @ '' model turns remain in this outer turn.'' @ newline
          @ ''Prioritize the highest-value unfinished work, verify requirements against current state, ''
          @ ''and avoid thrashing. Do not mark the goal complete merely because the turn budget is nearly exhausted. ''
          @ ''If the work cannot finish this outer turn, update the task plan, record key findings, and leave durable ''
          @ ''progress with a clear next action.''
      | CostBudgetLanding \<Rightarrow>
          ''Cost budget is low: about $''
          @ format_fixed4 (f64_div (f64_of_u64 (sl_remaining r)) 1000000)
          @ '' remains on the configured cost ceiling.'' @ newline
          @ ''Prioritize finishing or verifying the highest-value requirements. Do not mark the goal complete ''
          @ ''merely because money is running out. Prefer targeted evidence over broad exploration, update the ''
          @ ''task plan, and record key findings before the hard wall.''
      | GoalTokensLanding \<Rightarrow>
          ''Goal token budget is low: about '' @ show_nat (sl_remaining r) @ '' charged tokens remain.''
          @ newline
          @ ''Prioritize finishing and verifying the real objective. Do not redefine success around a smaller task, ''
          @ ''and do not mark complete merely because the token budget is nearly exhausted. Update the task plan ''
          @ ''and record key findings before the hard wall.'')"

end
