(* ===== verification/Execution_Journal.thy ===== *)
theory Execution_Journal
  imports Budget Rust_Json
begin

text \<open>
  The append-only journal of one operation, \<^verbatim>\<open>crates/orca-runtime/src/execution_journal.rs\<close>. The file of the journal is
  explicit state, its bytes or nothing when it does not exist, and every call that touches it takes the outcome of the
  system calls it makes. Writing and reading a record as JSON is code of \<^verbatim>\<open>serde\<close>: three parameters, \<open>to_vec\<close>,
  \<open>from_str\<close> and \<open>from_value\<close>.
\<close>

subsection \<open>Records\<close>

definition journal_schema_version :: nat where
  "journal_schema_version = 2"

datatype journal_record_kind =
    KOperationStarted | KBudgetUsage | KTurnStarted | KModelResponse | KToolStarted | KToolCompleted | KCheckpointCreated
  | KOperationTerminal

fun kind_str :: "journal_record_kind \<Rightarrow> string" where
  "kind_str KOperationStarted = ''operation.started''"
| "kind_str KBudgetUsage = ''budget.usage''"
| "kind_str KTurnStarted = ''turn.started''"
| "kind_str KModelResponse = ''model.response''"
| "kind_str KToolStarted = ''tool.started''"
| "kind_str KToolCompleted = ''tool.completed''"
| "kind_str KCheckpointCreated = ''checkpoint.created''"
| "kind_str KOperationTerminal = ''operation.terminal''"

text \<open>Every variant carries the operation, the turn, the ordinal and the schema version; the selectors read them.\<close>

datatype journal_record =
    OperationStartedRec (jr_operation_id: string) (jr_turn_id: string) (jr_ordinal: nat) (jr_schema_version: nat)
      (jr_started_at_ms: nat) (jr_budget_spec: budget_spec)
  | BudgetUsageRec (jr_operation_id: string) (jr_turn_id: string) (jr_ordinal: nat) (jr_schema_version: nat)
      (jr_usage: budget_usage) (jr_recorded_at_ms: nat) (jr_accounting_id: "string option")
  | TurnStartedRec (jr_operation_id: string) (jr_turn_id: string) (jr_ordinal: nat) (jr_schema_version: nat)
  | ModelResponseRec (jr_operation_id: string) (jr_turn_id: string) (jr_ordinal: nat) (jr_schema_version: nat)
      (jr_response_id: string) (jr_final_message: "string option")
  | ToolStartedRec (jr_operation_id: string) (jr_turn_id: string) (jr_ordinal: nat) (jr_schema_version: nat)
      (jr_tool_call_id: string) (jr_tool_name: string)
  | ToolCompletedRec (jr_operation_id: string) (jr_turn_id: string) (jr_ordinal: nat) (jr_schema_version: nat)
      (jr_tool_call_id: string) (jr_status: string) (jr_error: "string option")
  | CheckpointCreatedRec (jr_operation_id: string) (jr_turn_id: string) (jr_ordinal: nat) (jr_schema_version: nat)
      (jr_checkpoint_id: string) (jr_message_id: "string option")
  | OperationTerminalRec (jr_operation_id: string) (jr_turn_id: string) (jr_ordinal: nat) (jr_schema_version: nat)
      (jr_terminal: operation_terminal)

fun record_kind :: "journal_record \<Rightarrow> journal_record_kind" where
  "record_kind (OperationStartedRec _ _ _ _ _ _) = KOperationStarted"
| "record_kind (BudgetUsageRec _ _ _ _ _ _ _) = KBudgetUsage"
| "record_kind (TurnStartedRec _ _ _ _) = KTurnStarted"
| "record_kind (ModelResponseRec _ _ _ _ _ _) = KModelResponse"
| "record_kind (ToolStartedRec _ _ _ _ _ _) = KToolStarted"
| "record_kind (ToolCompletedRec _ _ _ _ _ _ _) = KToolCompleted"
| "record_kind (CheckpointCreatedRec _ _ _ _ _ _) = KCheckpointCreated"
| "record_kind (OperationTerminalRec _ _ _ _ _) = KOperationTerminal"

fun stamp_ordinal :: "journal_record \<Rightarrow> nat \<Rightarrow> journal_record" where
  "stamp_ordinal (OperationStartedRec i t _ s ms spec) n = OperationStartedRec i t n s ms spec"
| "stamp_ordinal (BudgetUsageRec i t _ s u ms a) n = BudgetUsageRec i t n s u ms a"
| "stamp_ordinal (TurnStartedRec i t _ s) n = TurnStartedRec i t n s"
| "stamp_ordinal (ModelResponseRec i t _ s r m) n = ModelResponseRec i t n s r m"
| "stamp_ordinal (ToolStartedRec i t _ s c m) n = ToolStartedRec i t n s c m"
| "stamp_ordinal (ToolCompletedRec i t _ s c st e) n = ToolCompletedRec i t n s c st e"
| "stamp_ordinal (CheckpointCreatedRec i t _ s c m) n = CheckpointCreatedRec i t n s c m"
| "stamp_ordinal (OperationTerminalRec i t _ s tm) n = OperationTerminalRec i t n s tm"

fun is_started :: "journal_record \<Rightarrow> bool" where
  "is_started (OperationStartedRec _ _ _ _ _ _) = True"
| "is_started _ = False"

fun is_terminal_record :: "journal_record \<Rightarrow> bool" where
  "is_terminal_record (OperationTerminalRec _ _ _ _ _) = True"
| "is_terminal_record _ = False"

fun is_tool_started :: "journal_record \<Rightarrow> bool" where
  "is_tool_started (ToolStartedRec _ _ _ _ _ _) = True"
| "is_tool_started _ = False"

fun is_checkpoint :: "journal_record \<Rightarrow> bool" where
  "is_checkpoint (CheckpointCreatedRec _ _ _ _ _ _) = True"
| "is_checkpoint _ = False"

fun usage_of :: "journal_record \<Rightarrow> budget_usage option" where
  "usage_of (BudgetUsageRec _ _ _ _ u _ _) = Some u"
| "usage_of _ = None"

fun accounting_of :: "journal_record \<Rightarrow> string option" where
  "accounting_of (BudgetUsageRec _ _ _ _ _ _ a) = a"
| "accounting_of _ = None"

fun terminal_of :: "journal_record \<Rightarrow> operation_terminal option" where
  "terminal_of (OperationTerminalRec _ _ _ _ tm) = Some tm"
| "terminal_of _ = None"

subsection \<open>The journal and its queries\<close>

record journal_faults =
  fail_next_flush :: bool
  reject_terminal_without_checkpoint :: bool

definition no_faults :: journal_faults where
  "no_faults = \<lparr>fail_next_flush = False, reject_terminal_without_checkpoint = False\<rparr>"

record execution_journal =
  ej_operation_id :: string
  ej_committed :: "journal_record list"
  ej_pending :: "journal_record list"
  ej_next_ordinal :: nat
  ej_faults :: journal_faults
  ej_terminal_appended :: bool

definition set_faults :: "journal_faults \<Rightarrow> execution_journal \<Rightarrow> execution_journal" where
  "set_faults fs j = j\<lparr>ej_faults := fs\<rparr>"

text \<open>\<^verbatim>\<open>iter().find_map(f)\<close>.\<close>

fun find_map :: "('a \<Rightarrow> 'b option) \<Rightarrow> 'a list \<Rightarrow> 'b option" where
  "find_map f [] = None"
| "find_map f (x # xs) = (case f x of Some y \<Rightarrow> Some y | None \<Rightarrow> find_map f xs)"

definition has_terminal :: "execution_journal \<Rightarrow> bool" where
  "has_terminal j = ej_terminal_appended j"

definition journal_terminal :: "execution_journal \<Rightarrow> operation_terminal option" where
  "journal_terminal j = find_map terminal_of (rev (ej_committed j))"

definition latest_budget_usage :: "execution_journal \<Rightarrow> budget_usage option" where
  "latest_budget_usage j = find_map usage_of (rev (ej_committed j))"

definition operation_started_at_ms :: "execution_journal \<Rightarrow> nat option" where
  "operation_started_at_ms j =
     find_map (\<lambda>r. if is_started r then Some (jr_started_at_ms r) else None) (ej_committed j)"

definition operation_budget_spec :: "execution_journal \<Rightarrow> budget_spec option" where
  "operation_budget_spec j =
     find_map (\<lambda>r. if is_started r then Some (jr_budget_spec r) else None) (ej_committed j)"

definition has_budget_accounting_id :: "string \<Rightarrow> execution_journal \<Rightarrow> bool" where
  "has_budget_accounting_id a j = list_ex (\<lambda>r. accounting_of r = Some a) (ej_committed j)"

fun unmatched_step :: "journal_record list \<Rightarrow> journal_record \<Rightarrow> journal_record list" where
  "unmatched_step started (ToolStartedRec i t n s c m) = started @ [ToolStartedRec i t n s c m]"
| "unmatched_step started (ToolCompletedRec i t n s c st e) = filter (\<lambda>r. jr_tool_call_id r \<noteq> c) started"
| "unmatched_step started _ = started"

definition unmatched_in :: "journal_record list \<Rightarrow> journal_record list" where
  "unmatched_in rs = foldl unmatched_step [] rs"

definition unmatched_tool_starts :: "execution_journal \<Rightarrow> journal_record list" where
  "unmatched_tool_starts j = unmatched_in (ej_committed j)"

definition unmatched_tool_starts_including_pending :: "execution_journal \<Rightarrow> journal_record list" where
  "unmatched_tool_starts_including_pending j = unmatched_in (ej_committed j @ ej_pending j)"

definition last_checkpoint :: "execution_journal \<Rightarrow> journal_record option" where
  "last_checkpoint j = find is_checkpoint (rev (ej_committed j))"

subsection \<open>Appending\<close>

datatype ordering_error =
    StartedMustPrecede
  | TerminalMustBeFinal
  | StartedMustBeFirst
  | UsageMustBeMonotonic
  | AccountingIdOnce string
  | CompletedNeedsStart string
  | CheckpointNeedsSettledTools
  | StoppedNeedsCheckpoint

datatype journal_error =
    SchemaUnsupported nat
  | OperationMismatch string string
  | Ordering ordering_error

definition usage_below :: "budget_usage \<Rightarrow> budget_usage \<Rightarrow> bool" where
  "usage_below u v \<longleftrightarrow>
     turns u < turns v \<or> tool_calls u < tool_calls v \<or> cost_usd_micros u < cost_usd_micros v \<or> wall_time_ms u < wall_time_ms v"

definition validate_usage ::
    "journal_record list \<Rightarrow> budget_usage \<Rightarrow> string option \<Rightarrow> (ordering_error, unit) result" where
  "validate_usage known u accounting_id =
     (if is_some_and (find_map usage_of (rev known)) (\<lambda>previous. usage_below u previous) then Inl UsageMustBeMonotonic
      else
        (case accounting_id of
           Some a \<Rightarrow> if list_ex (\<lambda>r. accounting_of r = Some a) known then Inl (AccountingIdOnce a) else Inr ()
         | None \<Rightarrow> Inr ()))"

definition stopped_checkpoint :: "operation_terminal \<Rightarrow> string option" where
  "stopped_checkpoint tm = (case tm of StoppedTerminal _ _ c _ \<Rightarrow> Some c | _ \<Rightarrow> None)"

definition validate_ordering :: "execution_journal \<Rightarrow> journal_record \<Rightarrow> (ordering_error, unit) result" where
  "validate_ordering j r =
     (let known = ej_committed j @ ej_pending j
      in if \<not> is_started r \<and> \<not> list_ex is_started known then Inl StartedMustPrecede
         else if ej_terminal_appended j \<or> list_ex is_terminal_record known then Inl TerminalMustBeFinal
         else
           (case r of
              OperationStartedRec _ _ _ _ _ _ \<Rightarrow>
                if ej_committed j \<noteq> [] \<or> ej_pending j \<noteq> [] then Inl StartedMustBeFirst else Inr ()
            | BudgetUsageRec _ _ _ _ u _ a \<Rightarrow> validate_usage known u a
            | ToolCompletedRec _ _ _ _ c _ _ \<Rightarrow>
                if \<not> list_ex (\<lambda>s. jr_tool_call_id s = c) (unmatched_tool_starts_including_pending j)
                then Inl (CompletedNeedsStart c) else Inr ()
            | CheckpointCreatedRec _ _ _ _ _ _ \<Rightarrow>
                if unmatched_tool_starts_including_pending j \<noteq> [] then Inl CheckpointNeedsSettledTools else Inr ()
            | OperationTerminalRec _ _ _ _ tm \<Rightarrow>
                (case stopped_checkpoint tm of
                   Some c \<Rightarrow>
                     if \<not> list_ex (\<lambda>r. is_checkpoint r \<and> jr_checkpoint_id r = c) (ej_committed j)
                     then Inl StoppedNeedsCheckpoint else Inr ()
                 | None \<Rightarrow> Inr ())
            | _ \<Rightarrow> Inr ()))"

definition append_record ::
    "journal_record \<Rightarrow> execution_journal \<Rightarrow> (journal_error, unit) result \<times> execution_journal" where
  "append_record r j =
     (if jr_schema_version r \<noteq> journal_schema_version then (Inl (SchemaUnsupported (jr_schema_version r)), j)
      else if jr_operation_id r \<noteq> ej_operation_id j then (Inl (OperationMismatch (jr_operation_id r) (ej_operation_id j)), j)
      else
        (case validate_ordering j r of
           Inl e \<Rightarrow> (Inl (Ordering e), j)
         | Inr _ \<Rightarrow>
             (Inr (), j\<lparr>ej_next_ordinal := sat_add u64_max (ej_next_ordinal j) 1,
                        ej_pending := ej_pending j @ [stamp_ordinal r (ej_next_ordinal j)]\<rparr>)))"

text \<open>The builders of records: the operation and the next ordinal come from the journal.\<close>

definition record_operation_started :: "nat \<Rightarrow> execution_journal \<Rightarrow> journal_record" where
  "record_operation_started started_at_ms j =
     OperationStartedRec (ej_operation_id j) [] (ej_next_ordinal j) journal_schema_version started_at_ms unlimited_spec"

definition record_turn_started :: "string \<Rightarrow> execution_journal \<Rightarrow> journal_record" where
  "record_turn_started turn_id j =
     TurnStartedRec (ej_operation_id j) turn_id (ej_next_ordinal j) journal_schema_version"

definition record_model_response_of :: "string \<Rightarrow> string \<Rightarrow> string option \<Rightarrow> execution_journal \<Rightarrow> journal_record" where
  "record_model_response_of turn_id response_id final_message j =
     ModelResponseRec (ej_operation_id j) turn_id (ej_next_ordinal j) journal_schema_version response_id final_message"

definition record_tool_started :: "string \<Rightarrow> string \<Rightarrow> string \<Rightarrow> execution_journal \<Rightarrow> journal_record" where
  "record_tool_started turn_id tool_call_id tool_name j =
     ToolStartedRec (ej_operation_id j) turn_id (ej_next_ordinal j) journal_schema_version tool_call_id tool_name"

definition record_tool_completed_of ::
    "string \<Rightarrow> string \<Rightarrow> string \<Rightarrow> string option \<Rightarrow> execution_journal \<Rightarrow> journal_record" where
  "record_tool_completed_of turn_id tool_call_id status error j =
     ToolCompletedRec (ej_operation_id j) turn_id (ej_next_ordinal j) journal_schema_version tool_call_id status error"

definition record_checkpoint_of :: "string \<Rightarrow> string option \<Rightarrow> execution_journal \<Rightarrow> journal_record" where
  "record_checkpoint_of checkpoint_id message_id j =
     CheckpointCreatedRec (ej_operation_id j) [] (ej_next_ordinal j) journal_schema_version checkpoint_id message_id"

definition record_terminal_of :: "operation_terminal \<Rightarrow> execution_journal \<Rightarrow> journal_record" where
  "record_terminal_of tm j =
     OperationTerminalRec (ej_operation_id j) [] (ej_next_ordinal j) journal_schema_version tm"

definition completed_terminal :: "budget_usage \<Rightarrow> operation_terminal" where
  "completed_terminal u = Completed u"

definition stopped_terminal :: "stop_reason \<Rightarrow> budget_usage \<Rightarrow> string \<Rightarrow> bool \<Rightarrow> operation_terminal" where
  "stopped_terminal reason u checkpoint_id resumable = StoppedTerminal reason u checkpoint_id resumable"

subsection \<open>The file\<close>

text \<open>\<^verbatim>\<open>rposition\<close>, and the backward scan for the last newline in chunks of 4096 bytes.\<close>

definition last_position :: "('a \<Rightarrow> bool) \<Rightarrow> 'a list \<Rightarrow> nat option" where
  "last_position p xs = (case dropWhile (\<lambda>x. \<not> p x) (rev xs) of [] \<Rightarrow> None | y # ys \<Rightarrow> Some (length ys))"

abbreviation is_newline :: "char \<Rightarrow> bool" where
  "is_newline c \<equiv> c = CHR 0x0A"

function repair_from :: "string \<Rightarrow> nat \<Rightarrow> string" where
  "repair_from bytes offset =
     (let start = offset - 4096; buf = take (offset - start) (drop start bytes)
      in case last_position is_newline buf of
           Some relative \<Rightarrow>
             (let keep_through = start + relative;
                  new_len = (if keep_through + 1 = length bytes then length bytes else keep_through + 1)
              in if new_len \<noteq> length bytes then take new_len bytes else bytes)
         | None \<Rightarrow> if start = 0 then [] else repair_from bytes start)"
  by pat_completeness auto
termination by (relation "measure snd") auto

declare repair_from.simps [simp del]

definition repair_incomplete_final_line :: "string \<Rightarrow> string" where
  "repair_incomplete_final_line bytes = (if bytes = [] then [] else repair_from bytes (length bytes))"

text \<open>\<^verbatim>\<open>BufRead::lines\<close>.\<close>

definition strip_cr :: "string \<Rightarrow> string" where
  "strip_cr s = (if s \<noteq> [] \<and> last s = CHR 0x0D then butlast s else s)"

fun buf_lines_from :: "string \<Rightarrow> string \<Rightarrow> string list" where
  "buf_lines_from cur [] = (if cur = [] then [] else [cur])"
| "buf_lines_from cur (c # cs) =
     (if is_newline c then strip_cr cur # buf_lines_from [] cs else buf_lines_from (cur @ [c]) cs)"

definition buf_lines :: "string \<Rightarrow> string list" where
  "buf_lines s = buf_lines_from [] s"

type_synonym journal_file = "string option"

text \<open>
  Before it writes or reads, the journal opens its file and repairs it. Opening can fail; the repair can fail before or
  after it cut the file.
\<close>

datatype repair_io = RepairOk | OpenFailed | RepairFailed bool

fun opened_file :: "repair_io \<Rightarrow> journal_file \<Rightarrow> journal_file" where
  "opened_file RepairOk f = Some (repair_incomplete_final_line (case f of None \<Rightarrow> [] | Some b \<Rightarrow> b))"
| "opened_file OpenFailed f = f"
| "opened_file (RepairFailed was_cut) f =
     (let b = (case f of None \<Rightarrow> [] | Some b \<Rightarrow> b) in Some (if was_cut then repair_incomplete_final_line b else b))"

subsection \<open>Opening\<close>

datatype open_error =
    OpenIo
  | RecordNotUtf8 nat
  | RecordInvalid nat
  | RecordNoSchema nat
  | RecordSchema nat nat
  | RecordOrdinal nat nat nat
  | RecordOperation nat string string
  | RecordOrdering nat ordering_error

definition value_schema_version :: "json_value \<Rightarrow> nat option" where
  "value_schema_version v =
     (case as_object v of
        None \<Rightarrow> None
      | Some kvs \<Rightarrow> (case map_of kvs ''schema_version'' of None \<Rightarrow> None | Some s \<Rightarrow> as_u64 s))"

definition reload_record ::
    "(string \<Rightarrow> json_value option) \<Rightarrow> (json_value \<Rightarrow> journal_record option) \<Rightarrow> nat \<Rightarrow> nat \<Rightarrow> string \<Rightarrow> execution_journal
     \<Rightarrow> (open_error, execution_journal) result" where
  "reload_record from_str from_value index expected_ordinal line j =
     (case from_str line of
        None \<Rightarrow> Inl (RecordInvalid index)
      | Some v \<Rightarrow>
          (case value_schema_version v of
             None \<Rightarrow> Inl (RecordNoSchema index)
           | Some s \<Rightarrow>
               if s \<noteq> journal_schema_version then Inl (RecordSchema index s)
               else
                 (case from_value v of
                    None \<Rightarrow> Inl (RecordInvalid index)
                  | Some r \<Rightarrow>
                      if jr_ordinal r \<noteq> expected_ordinal then Inl (RecordOrdinal index (jr_ordinal r) expected_ordinal)
                      else if jr_operation_id r \<noteq> ej_operation_id j
                      then Inl (RecordOperation index (jr_operation_id r) (ej_operation_id j))
                      else
                        (case validate_ordering j r of
                           Inl e \<Rightarrow> Inl (RecordOrdering index e)
                         | Inr _ \<Rightarrow>
                             Inr (j\<lparr>ej_committed := ej_committed j @ [r],
                                    ej_terminal_appended := is_terminal_record r\<rparr>)))))"

fun reload_lines ::
    "(string \<Rightarrow> json_value option) \<Rightarrow> (json_value \<Rightarrow> journal_record option) \<Rightarrow> nat \<Rightarrow> nat \<Rightarrow> string list \<Rightarrow> execution_journal
     \<Rightarrow> (open_error, execution_journal) result" where
  "reload_lines from_str from_value index expected_ordinal [] j = Inr (j\<lparr>ej_next_ordinal := expected_ordinal\<rparr>)"
| "reload_lines from_str from_value index expected_ordinal (line # lines) j =
     (if \<not> valid_utf8 line then Inl (RecordNotUtf8 index)
      else if trim line = [] then reload_lines from_str from_value (Suc index) expected_ordinal lines j
      else
        try_bind (reload_record from_str from_value index expected_ordinal line j) (\<lambda>j.
          reload_lines from_str from_value (Suc index) (sat_add u64_max expected_ordinal 1) lines j))"

definition journal_new :: "string \<Rightarrow> execution_journal" where
  "journal_new i =
     \<lparr>ej_operation_id = i, ej_committed = [], ej_pending = [], ej_next_ordinal = 1, ej_faults = no_faults,
      ej_terminal_appended = False\<rparr>"

definition open_journal ::
    "(string \<Rightarrow> json_value option) \<Rightarrow> (json_value \<Rightarrow> journal_record option) \<Rightarrow> repair_io \<Rightarrow> bool \<Rightarrow> string \<Rightarrow> journal_file
     \<Rightarrow> (open_error, execution_journal) result \<times> journal_file" where
  "open_journal from_str from_value io readable i file =
     (case file of
        None \<Rightarrow> (Inr (journal_new i), None)
      | Some _ \<Rightarrow>
          (case (io, opened_file io file) of
             (RepairOk, Some bytes) \<Rightarrow>
               (if readable then reload_lines from_str from_value 0 1 (buf_lines bytes) (journal_new i) else Inl OpenIo,
                Some bytes)
           | (_, file') \<Rightarrow> (Inl OpenIo, file')))"

subsection \<open>Flushing\<close>

text \<open>
  The bytes a flush writes: the records in order, until one cannot be serialized. A write can fail after any number
  of them.
\<close>

datatype flush_io = Flushed | FlushOpen repair_io | WritesFail nat

datatype flush_error = InjectedFailure | FlushIo | NotSerializable

fun write_pending :: "(journal_record \<Rightarrow> string option) \<Rightarrow> journal_record list \<Rightarrow> string \<times> bool" where
  "write_pending to_vec [] = ([], True)"
| "write_pending to_vec (r # rs) =
     (case to_vec r of
        None \<Rightarrow> ([], False)
      | Some line \<Rightarrow> (case write_pending to_vec rs of (bytes, ok) \<Rightarrow> (line @ CHR 0x0A # bytes, ok)))"

definition flush_journal ::
    "(journal_record \<Rightarrow> string option) \<Rightarrow> flush_io \<Rightarrow> execution_journal \<Rightarrow> journal_file
     \<Rightarrow> (flush_error, unit) result \<times> execution_journal \<times> journal_file" where
  "flush_journal to_vec io j file =
     (if ej_pending j = [] then (Inr (), j, file)
      else if fail_next_flush (ej_faults j)
      then (Inl InjectedFailure, j\<lparr>ej_faults := (ej_faults j)\<lparr>fail_next_flush := False\<rparr>\<rparr>, file)
      else
        (case io of
           FlushOpen failed \<Rightarrow> (Inl FlushIo, j, opened_file failed file)
         | WritesFail n \<Rightarrow>
             (Inl FlushIo, j, Some (the (opened_file RepairOk file) @ take n (fst (write_pending to_vec (ej_pending j)))))
         | Flushed \<Rightarrow>
             (case write_pending to_vec (ej_pending j) of (bytes, ok) \<Rightarrow>
                if \<not> ok then (Inl NotSerializable, j, Some (the (opened_file RepairOk file) @ bytes))
                else
                  (let committed = ej_committed j @ ej_pending j
                   in (Inr (), j\<lparr>ej_committed := committed, ej_pending := [],
                                 ej_terminal_appended := list_ex is_terminal_record committed\<rparr>,
                       Some (the (opened_file RepairOk file) @ bytes))))))"

datatype durable_error = AppendRefused journal_error | FlushFailed flush_error

definition append_durable ::
    "(journal_record \<Rightarrow> string option) \<Rightarrow> flush_io \<Rightarrow> journal_record \<Rightarrow> execution_journal \<Rightarrow> journal_file
     \<Rightarrow> (durable_error, unit) result \<times> execution_journal \<times> journal_file" where
  "append_durable to_vec io r j file =
     (case append_record r j of
        (Inl e, j) \<Rightarrow> (Inl (AppendRefused e), j, file)
      | (Inr _, j) \<Rightarrow> (case flush_journal to_vec io j file of (res, j, file) \<Rightarrow> (map_err FlushFailed res, j, file)))"

text \<open>\<^verbatim>\<open>write_projection\<close>: the committed records as lines.\<close>

definition write_projection :: "(journal_record \<Rightarrow> string option) \<Rightarrow> execution_journal \<Rightarrow> string \<times> bool" where
  "write_projection to_vec j = write_pending to_vec (ej_committed j)"

end
