(* ===== verification/Journal_Order.thy ===== *)
theory Journal_Order
  imports Execution_Journal
begin

text \<open>
  What the records of a journal say about each other, whatever was appended, flushed and reopened: the order of the
  facts, the growth of usage, and which tools were settled at a checkpoint.
\<close>

subsection \<open>What one record requires of the records before it\<close>

definition follows :: "journal_record list \<Rightarrow> journal_record \<Rightarrow> bool" where
  "follows before r \<longleftrightarrow>
     (is_started r \<longleftrightarrow> before = []) \<and> \<not> list_ex is_terminal_record before
     \<and> (case r of
          BudgetUsageRec _ _ _ _ u _ a \<Rightarrow> validate_usage before u a = Inr ()
        | ToolCompletedRec _ _ _ _ c _ _ \<Rightarrow> list_ex (\<lambda>s. jr_tool_call_id s = c) (unmatched_in before)
        | CheckpointCreatedRec _ _ _ _ _ _ \<Rightarrow> unmatched_in before = []
        | OperationTerminalRec _ _ _ _ tm \<Rightarrow>
            (\<forall>c. stopped_checkpoint tm = Some c \<longrightarrow> list_ex (\<lambda>x. is_checkpoint x \<and> jr_checkpoint_id x = c) before)
        | _ \<Rightarrow> True)"

definition ordered :: "string \<Rightarrow> journal_record list \<Rightarrow> bool" where
  "ordered i rs \<longleftrightarrow>
     (\<forall>n < length rs.
        follows (take n rs) (rs ! n) \<and> jr_ordinal (rs ! n) = min u64_max (Suc n) \<and> jr_operation_id (rs ! n) = i)"

definition journal_ok :: "execution_journal \<Rightarrow> bool" where
  "journal_ok j \<longleftrightarrow>
     ordered (ej_operation_id j) (ej_committed j @ ej_pending j)
     \<and> ej_next_ordinal j = min u64_max (Suc (length (ej_committed j @ ej_pending j)))
     \<and> ej_terminal_appended j = list_ex is_terminal_record (ej_committed j)"

lemma ordered_Nil [simp]: "ordered i []"
  by (simp add: ordered_def)

lemma ordered_snoc:
  "ordered i (rs @ [r]) \<longleftrightarrow>
     ordered i rs \<and> follows rs r \<and> jr_ordinal r = min u64_max (Suc (length rs)) \<and> jr_operation_id r = i"
  by (auto simp: ordered_def nth_append less_Suc_eq)

lemma ordered_append: "ordered i (rs @ rs') \<Longrightarrow> ordered i rs"
  by (induction rs' rule: rev_induct) (simp_all add: ordered_snoc flip: append_assoc)

lemma stamp_simps [simp]:
  "jr_ordinal (stamp_ordinal r n) = n"
  "jr_operation_id (stamp_ordinal r n) = jr_operation_id r"
  "jr_schema_version (stamp_ordinal r n) = jr_schema_version r"
  "follows before (stamp_ordinal r n) = follows before r"
  by (cases r; simp add: follows_def)+

lemma next_ordinal_step:
  "sat_add u64_max (min u64_max (Suc n)) 1 = min u64_max (Suc (Suc n))"
  "sat_add u64_max (min u64_max (Suc n)) (Suc 0) = min u64_max (Suc (Suc n))"
  by (simp_all add: sat_add_def)

lemma ordered_first_started: "ordered i rs \<Longrightarrow> rs \<noteq> [] \<Longrightarrow> list_ex is_started rs"
  unfolding ordered_def follows_def by (cases rs) force+

lemma validate_follows:
  assumes "validate_ordering j r = Inr ()"
  shows "follows (ej_committed j @ ej_pending j) r"
  using assms
  by (cases r)
    (auto simp: validate_ordering_def follows_def Let_def unmatched_tool_starts_including_pending_def
      split: if_splits option.splits)

lemma follows_validate:
  assumes "follows (ej_committed j) r" "ej_pending j = []" "ordered i (ej_committed j)"
    and "ej_terminal_appended j = list_ex is_terminal_record (ej_committed j)"
  shows "validate_ordering j r = Inr ()"
  using assms ordered_first_started [OF assms(3)]
  by (cases r)
    (auto simp: validate_ordering_def follows_def Let_def unmatched_tool_starts_including_pending_def
      split: if_splits option.splits)

subsection \<open>Every journal in memory is ordered\<close>

lemma append_ok:
  assumes "journal_ok j"
  shows "journal_ok (snd (append_record r j))"
proof (cases "append_record r j")
  case (Pair res j')
  show ?thesis
  proof (cases "j' = j")
    case False
    with Pair have v: "validate_ordering j r = Inr ()" and op: "jr_operation_id r = ej_operation_id j"
      and j': "j' = j\<lparr>ej_next_ordinal := sat_add u64_max (ej_next_ordinal j) 1,
        ej_pending := ej_pending j @ [stamp_ordinal r (ej_next_ordinal j)]\<rparr>"
      by (auto simp: append_record_def split: if_splits sum.splits)
    have "ordered (ej_operation_id j) ((ej_committed j @ ej_pending j) @ [stamp_ordinal r (ej_next_ordinal j)])"
      using assms op validate_follows [OF v] unfolding ordered_snoc by (simp add: journal_ok_def)
    with assms show ?thesis
      by (simp add: Pair j' journal_ok_def next_ordinal_step)
  qed (use assms Pair in simp)
qed

lemma flush_ok:
  assumes "journal_ok j" "flush_journal to_vec io j f = (res, j', f')"
  shows "journal_ok j'" "ej_operation_id j' = ej_operation_id j"
    "ej_committed j' @ ej_pending j' = ej_committed j @ ej_pending j"
  using assms
  by (auto simp: flush_journal_def journal_ok_def Let_def split: if_splits flush_io.splits prod.splits)

definition loaded :: "execution_journal \<Rightarrow> bool" where
  "loaded j \<longleftrightarrow>
     ordered (ej_operation_id j) (ej_committed j) \<and> ej_pending j = []
     \<and> ej_terminal_appended j = list_ex is_terminal_record (ej_committed j)"

lemma loaded_ok: "loaded j \<Longrightarrow> journal_ok (j\<lparr>ej_next_ordinal := min u64_max (Suc (length (ej_committed j)))\<rparr>)"
  by (simp add: loaded_def journal_ok_def)

lemma reload_record_ok:
  assumes "reload_record from_str from_value index (min u64_max (Suc (length (ej_committed j)))) line j = Inr j'" "loaded j"
  shows "loaded j' \<and> length (ej_committed j') = Suc (length (ej_committed j)) \<and> ej_operation_id j' = ej_operation_id j"
proof -
  from assms(1) obtain r where r: "jr_ordinal r = min u64_max (Suc (length (ej_committed j)))"
      "jr_operation_id r = ej_operation_id j" "validate_ordering j r = Inr ()"
      "j' = j\<lparr>ej_committed := ej_committed j @ [r], ej_terminal_appended := is_terminal_record r\<rparr>"
    by (auto simp: reload_record_def split: option.splits if_splits sum.splits)
  have "follows (ej_committed j) r" using validate_follows [OF r(3)] assms(2) by (simp add: loaded_def)
  then have "ordered (ej_operation_id j) (ej_committed j @ [r])" "\<not> list_ex is_terminal_record (ej_committed j)"
    using assms(2) r unfolding ordered_snoc by (simp_all add: loaded_def follows_def)
  with assms(2) show ?thesis by (simp add: r(4) loaded_def)
qed

lemma reload_lines_ok:
  assumes "reload_lines from_str from_value index (min u64_max (Suc (length (ej_committed j)))) lines j = Inr j'" "loaded j"
  shows "journal_ok j' \<and> ej_operation_id j' = ej_operation_id j"
  using assms
proof (induction lines arbitrary: index j)
  case Nil
  then show ?case using loaded_ok by auto
next
  case (Cons line lines)
  show ?case
  proof (cases "trim line = []")
    case True
    with Cons show ?thesis by (auto split: if_splits)
  next
    case False
    with Cons.prems(1) obtain j1 where
        j1: "reload_record from_str from_value index (min u64_max (Suc (length (ej_committed j)))) line j = Inr j1"
      and rest: "reload_lines from_str from_value (Suc index) (sat_add u64_max (min u64_max (Suc (length (ej_committed j)))) 1)
        lines j1 = Inr j'"
      by (auto split: if_splits)
    note ok = reload_record_ok [OF j1 Cons.prems(2)]
    then have "sat_add u64_max (min u64_max (Suc (length (ej_committed j)))) 1 = min u64_max (Suc (length (ej_committed j1)))"
      by (simp add: next_ordinal_step)
    with ok rest Cons.IH show ?thesis by metis
  qed
qed

lemma journal_new_ok [simp]: "journal_ok (journal_new i)" "loaded (journal_new i)"
  by (simp_all add: journal_ok_def loaded_def journal_new_def u64_max_def)

lemma open_ok:
  assumes "open_journal from_str from_value io readable i f = (Inr j, f')"
  shows "journal_ok j \<and> ej_operation_id j = i"
proof (cases f)
  case None
  with assms show ?thesis by (auto simp: open_journal_def) (simp add: journal_new_def)
next
  case (Some b)
  with assms obtain bytes where
    "reload_lines from_str from_value 0 1 (buf_lines bytes) (journal_new i) = Inr j"
    by (auto simp: open_journal_def split: repair_io.splits option.splits if_splits)
  moreover have "1 = min u64_max (Suc (length (ej_committed (journal_new i))))"
    by (simp add: journal_new_def u64_max_def)
  moreover have "ej_operation_id (journal_new i) = i" by (simp add: journal_new_def)
  ultimately show ?thesis using reload_lines_ok [of from_str from_value 0 "journal_new i"] by simp
qed

text \<open>A journal in memory: opened from any file, then used and flushed in any way.\<close>

inductive live_journal ::
    "(string \<Rightarrow> json_value option) \<Rightarrow> (json_value \<Rightarrow> journal_record option) \<Rightarrow> (journal_record \<Rightarrow> string option)
     \<Rightarrow> execution_journal \<Rightarrow> bool"
  for from_str :: "string \<Rightarrow> json_value option" and from_value :: "json_value \<Rightarrow> journal_record option"
    and to_vec :: "journal_record \<Rightarrow> string option" where
  opened: "open_journal from_str from_value io readable i f = (Inr j, f') \<Longrightarrow> live_journal from_str from_value to_vec j"
| appended: "live_journal from_str from_value to_vec j \<Longrightarrow> live_journal from_str from_value to_vec (snd (append_record r j))"
| flushed: "live_journal from_str from_value to_vec j \<Longrightarrow> flush_journal to_vec io j f = (res, j', f') \<Longrightarrow>
    live_journal from_str from_value to_vec j'"
| faults: "live_journal from_str from_value to_vec j \<Longrightarrow> live_journal from_str from_value to_vec (set_faults fs j)"

lemma live_journal_ok: "live_journal from_str from_value to_vec j \<Longrightarrow> journal_ok j"
proof (induction rule: live_journal.induct)
  case (faults j fs)
  then show ?case by (simp add: set_faults_def journal_ok_def)
qed (auto dest: open_ok append_ok flush_ok)

subsection \<open>The order of the facts\<close>

fun completes :: "string \<Rightarrow> journal_record \<Rightarrow> bool" where
  "completes c (ToolCompletedRec _ _ _ _ c' _ _) = (c' = c)"
| "completes c _ = False"

lemma ordered_at: "ordered i (a @ r # b) \<Longrightarrow> follows a r"
  using ordered_append [of i "a @ [r]" b] by (simp add: ordered_snoc)

lemma snoc_split:
  "xs @ [x] = a @ y # b \<longleftrightarrow> b = [] \<and> a = xs \<and> y = x \<or> (\<exists>b'. b = b' @ [x] \<and> xs = a @ y # b')"
  by (cases b rule: rev_cases) auto

definition open_in :: "journal_record \<Rightarrow> journal_record list \<Rightarrow> bool" where
  "open_in s rs \<longleftrightarrow> (\<exists>a b. rs = a @ s # b \<and> (\<forall>x \<in> set b. \<not> completes (jr_tool_call_id s) x))"

lemma open_in_snoc: "open_in s (rs @ [r]) \<longleftrightarrow> s = r \<or> open_in s rs \<and> \<not> completes (jr_tool_call_id s) r"
proof
  assume "open_in s (rs @ [r])"
  then show "s = r \<or> open_in s rs \<and> \<not> completes (jr_tool_call_id s) r"
    unfolding open_in_def snoc_split by fastforce
next
  assume "s = r \<or> open_in s rs \<and> \<not> completes (jr_tool_call_id s) r"
  then show "open_in s (rs @ [r])"
  proof
    assume "open_in s rs \<and> \<not> completes (jr_tool_call_id s) r"
    then obtain a b where "rs @ [r] = a @ s # (b @ [r])" "\<forall>x \<in> set (b @ [r]). \<not> completes (jr_tool_call_id s) x"
      by (auto simp: open_in_def)
    then show ?thesis unfolding open_in_def by blast
  next
    assume "s = r"
    then have "rs @ [r] = rs @ s # []" by simp
    then show ?thesis unfolding open_in_def by fastforce
  qed
qed

lemma unmatched_iff: "s \<in> set (unmatched_in rs) \<longleftrightarrow> is_tool_started s \<and> open_in s rs"
proof (induction rs rule: rev_induct)
  case Nil
  then show ?case by (simp add: unmatched_in_def open_in_def)
next
  case (snoc r rs)
  then show ?case by (cases r) (auto simp: unmatched_in_def open_in_snoc)
qed

lemma find_map_rev_Some:
  "find_map f (rev xs) = Some y \<Longrightarrow> \<exists>a x b. xs = a @ x # b \<and> f x = Some y \<and> (\<forall>z \<in> set b. f z = None)"
proof (induction xs rule: rev_induct)
  case (snoc x xs)
  show ?case
  proof (cases "f x")
    case None
    with snoc obtain a z b where "xs = a @ z # b" "f z = Some y" "\<forall>z \<in> set b. f z = None" by auto
    with None show ?thesis by (intro exI [of _ a] exI [of _ z] exI [of _ "b @ [x]"]) simp
  next
    case (Some y')
    with snoc.prems show ?thesis by (intro exI [of _ xs] exI [of _ x] exI [of _ "[]"]) simp
  qed
qed simp

lemma find_map_rev_None: "find_map f (rev xs) = None \<longleftrightarrow> (\<forall>x \<in> set xs. f x = None)"
  by (induction xs rule: rev_induct) (auto split: option.splits)

lemma usage_not_below_trans: "\<not> usage_below v u \<Longrightarrow> \<not> usage_below w v \<Longrightarrow> \<not> usage_below w u"
  by (auto simp: usage_below_def)

lemma usage_not_below_refl [simp]: "\<not> usage_below u u"
  by (simp add: usage_below_def)

text \<open>No usage is below an earlier one, by induction on the records before it.\<close>

lemma ordered_usage:
  "ordered i (a @ r # b) \<Longrightarrow> usage_of r = Some v \<Longrightarrow> x \<in> set a \<Longrightarrow> usage_of x = Some u \<Longrightarrow> \<not> usage_below v u"
proof (induction "length a" arbitrary: a r b v rule: less_induct)
  case less
  from less.prems(2) have "validate_usage a v (accounting_of r) = Inr ()"
    using ordered_at [OF less.prems(1)] by (cases r) (auto simp: follows_def)
  moreover obtain w where w: "find_map usage_of (rev a) = Some w"
    using less.prems(3,4) find_map_rev_None [of usage_of a] by (cases "find_map usage_of (rev a)") force+
  ultimately have vw: "\<not> usage_below v w" by (auto simp: validate_usage_def split: if_splits)
  from find_map_rev_Some [OF w] obtain a' y b' where a: "a = a' @ y # b'" "usage_of y = Some w"
    "\<forall>z \<in> set b'. usage_of z = None" by blast
  have "\<not> usage_below w u"
  proof (cases "x = y")
    case False
    with a less.prems(3,4) have "x \<in> set a'" by auto
    with less.hyps [of a' y "b' @ r # b"] less.prems(1,4) a show ?thesis by simp
  qed (use a less.prems in simp)
  then show ?case using vw by (rule usage_not_below_trans)
qed

lemma ordered_accounting:
  "ordered i (a @ r # b) \<Longrightarrow> accounting_of r = Some c \<Longrightarrow> x \<in> set a \<Longrightarrow> accounting_of x \<noteq> Some c"
  using ordered_at [of i a r b]
  by (cases r) (auto simp: follows_def validate_usage_def list_ex_iff split: if_splits)

lemma ordered_completed:
  "ordered i (a @ r # b) \<Longrightarrow> completes c r \<Longrightarrow>
   \<exists>a1 s a2. a = a1 @ s # a2 \<and> is_tool_started s \<and> jr_tool_call_id s = c \<and> (\<forall>x \<in> set a2. \<not> completes c x)"
proof -
  assume "ordered i (a @ r # b)" "completes c r"
  then have "\<exists>s \<in> set (unmatched_in a). jr_tool_call_id s = c"
    using ordered_at [of i a r b] by (cases r) (auto simp: follows_def list_ex_iff)
  then show ?thesis unfolding Bex_def unmatched_iff open_in_def by blast
qed

lemma ordered_checkpoint:
  "ordered i (a @ r # b) \<Longrightarrow> is_checkpoint r \<Longrightarrow> a = a1 @ s # a2 \<Longrightarrow> is_tool_started s \<Longrightarrow>
   \<exists>x \<in> set a2. completes (jr_tool_call_id s) x"
  using ordered_at [of i a r b] unmatched_iff [of s a] unfolding open_in_def by (cases r) (auto simp: follows_def)

lemma ordered_terminal:
  assumes "ordered i (a @ r # b)" "is_terminal_record r"
  shows "b = []" "stopped_checkpoint (jr_terminal r) = Some c \<Longrightarrow> \<exists>x \<in> set a. is_checkpoint x \<and> jr_checkpoint_id x = c"
proof -
  show "b = []"
  proof (cases b)
    case (Cons x b')
    with assms ordered_at [of i "a @ [r]" x b'] show ?thesis by (simp add: follows_def)
  qed
qed (use assms ordered_at [of i a r b] in \<open>cases r; auto simp: follows_def list_ex_iff\<close>)

text \<open>
  C14: Whatever file a journal was opened from and however it was used, its records (durable ones first, then pending
  ones) are numbered from one, the start of the operation is the first and only the first, and nothing follows the
  terminal. Budget usage never goes down and an accounting id is used once. Every completed tool was open, every
  tool started before a checkpoint was completed before it, and a stop is only recorded after its checkpoint.
\<close>

theorem journal_facts_are_ordered:
  assumes "live_journal from_str from_value to_vec j" "ej_committed j @ ej_pending j = a @ r # b"
  shows "jr_ordinal r = min u64_max (Suc (length a)) \<and> jr_operation_id r = ej_operation_id j
    \<and> (is_started r \<longleftrightarrow> a = []) \<and> (is_terminal_record r \<longrightarrow> b = [])
    \<and> (\<forall>x \<in> set a. \<forall>u v. usage_of x = Some u \<and> usage_of r = Some v \<longrightarrow> \<not> usage_below v u)
    \<and> (\<forall>x \<in> set a. accounting_of r \<noteq> None \<longrightarrow> accounting_of x \<noteq> accounting_of r)
    \<and> (\<forall>c. completes c r \<longrightarrow>
         (\<exists>a1 s a2. a = a1 @ s # a2 \<and> is_tool_started s \<and> jr_tool_call_id s = c \<and> (\<forall>x \<in> set a2. \<not> completes c x)))
    \<and> (is_checkpoint r \<longrightarrow>
         (\<forall>a1 s a2. a = a1 @ s # a2 \<and> is_tool_started s \<longrightarrow> (\<exists>x \<in> set a2. completes (jr_tool_call_id s) x)))
    \<and> (\<forall>c. is_terminal_record r \<and> stopped_checkpoint (jr_terminal r) = Some c \<longrightarrow>
         (\<exists>x \<in> set a. is_checkpoint x \<and> jr_checkpoint_id x = c))
    \<and> (has_terminal j \<longleftrightarrow> (\<exists>x \<in> set (ej_committed j). is_terminal_record x))"
proof -
  from live_journal_ok [OF assms(1)] have ok: "journal_ok j" .
  then have o: "ordered (ej_operation_id j) (a @ r # b)" using assms(2) by (simp add: journal_ok_def)
  have "jr_ordinal r = min u64_max (Suc (length a)) \<and> jr_operation_id r = ej_operation_id j"
    using ordered_append [of _ "a @ [r]" b] o by (simp add: ordered_snoc)
  moreover have "is_started r \<longleftrightarrow> a = []" using ordered_at [OF o] by (simp add: follows_def)
  moreover have "has_terminal j \<longleftrightarrow> (\<exists>x \<in> set (ej_committed j). is_terminal_record x)"
    using ok by (simp add: has_terminal_def journal_ok_def list_ex_iff)
  moreover have "is_terminal_record r \<longrightarrow> b = []" using ordered_terminal(1) [OF o] by blast
  moreover have "\<forall>x \<in> set a. \<forall>u v. usage_of x = Some u \<and> usage_of r = Some v \<longrightarrow> \<not> usage_below v u"
    using ordered_usage [OF o] by blast
  moreover have "\<forall>x \<in> set a. accounting_of r \<noteq> None \<longrightarrow> accounting_of x \<noteq> accounting_of r"
    using ordered_accounting [OF o] by force
  ultimately show ?thesis
    using ordered_completed [OF o] ordered_checkpoint [OF o] ordered_terminal(2) [OF o] by simp
qed

end
