(* ===== verification/Journal_Recovery.thy ===== *)
theory Journal_Recovery
  imports Journal_Order "HOL-Library.Sublist"
begin

text \<open>
  The journal file across failures: what a torn or half written flush leaves behind, and what reopening recovers.
\<close>

subsection \<open>The repair\<close>

text \<open>The file without its last incomplete line.\<close>

definition complete_lines :: "string \<Rightarrow> string" where
  "complete_lines bytes = rev (dropWhile (\<lambda>c. \<not> is_newline c) (rev bytes))"

lemma complete_lines_none: "CHR 0x0A \<notin> set r \<Longrightarrow> complete_lines (a @ r) = complete_lines a"
  by (induction r arbitrary: a rule: rev_induct) (auto simp: complete_lines_def simp flip: append_assoc)

lemma complete_lines_end [simp]: "complete_lines (a @ [CHR 0x0A]) = a @ [CHR 0x0A]" "complete_lines [] = []"
  by (simp_all add: complete_lines_def)

lemma last_position_Some:
  assumes "last_position p xs = Some k"
  shows "k < length xs" "p (xs ! k)" "\<forall>x \<in> set (drop (Suc k) xs). \<not> p x"
proof -
  from assms obtain y ys where d: "dropWhile (\<lambda>x. \<not> p x) (rev xs) = y # ys" and k: "k = length ys"
    by (auto simp: last_position_def split: list.splits)
  have "p y" using d dropWhile_eq_Cons_conv [of "\<lambda>x. \<not> p x" "rev xs"] by auto
  have "rev xs = takeWhile (\<lambda>x. \<not> p x) (rev xs) @ y # ys" using d by (metis takeWhile_dropWhile_id)
  then have xs: "xs = rev ys @ y # rev (takeWhile (\<lambda>x. \<not> p x) (rev xs))"
    by (metis append.assoc append_Cons append_Nil rev.simps(2) rev_append rev_rev_ident)
  show "k < length xs" by (subst xs) (simp add: k)
  show "p (xs ! k)" using \<open>p y\<close> by (subst xs) (simp add: k nth_append)
  show "\<forall>x \<in> set (drop (Suc k) xs). \<not> p x"
    by (subst xs) (auto simp: k dest: set_takeWhileD)
qed

lemma last_position_None: "last_position p xs = None \<longleftrightarrow> (\<forall>x \<in> set xs. \<not> p x)"
proof -
  have "dropWhile (\<lambda>x. \<not> p x) (rev xs) = [] \<longleftrightarrow> (\<forall>x \<in> set xs. \<not> p x)" by (simp add: dropWhile_eq_Nil_conv)
  then show ?thesis by (cases "dropWhile (\<lambda>x. \<not> p x) (rev xs)") (simp_all only: last_position_def list.case, simp_all)
qed

lemma repair_from_complete:
  assumes "CHR 0x0A \<notin> set (drop offset bytes)" "offset \<le> length bytes"
  shows "repair_from bytes offset = complete_lines bytes"
  using assms
proof (induction bytes offset rule: repair_from.induct)
  case (1 bytes offset)
  let ?start = "offset - 4096"
  let ?buf = "take (offset - ?start) (drop ?start bytes)"
  have split: "bytes = take ?start bytes @ ?buf @ drop offset bytes"
    by (metis append_take_drop_id diff_le_self drop_drop le_add_diff_inverse2 add.commute)
  show ?case
  proof (cases "last_position is_newline ?buf")
    case None
    then have buf: "CHR 0x0A \<notin> set ?buf" by (simp add: last_position_None) blast
    with 1(2) split have rest: "CHR 0x0A \<notin> set (drop ?start bytes)"
      by (metis Un_iff append_take_drop_id same_append_eq set_append)
    show ?thesis
    proof (cases "?start = 0")
      case True
      with rest have "complete_lines ([] @ bytes) = complete_lines []" by (intro complete_lines_none) simp
      with None True show ?thesis by (subst repair_from.simps) simp
    next
      case False
      with None 1 rest show ?thesis by (subst repair_from.simps) (simp add: Let_def)
    qed
  next
    case (Some k)
    note k = last_position_Some [OF Some]
    let ?n = "Suc (?start + k)"
    have "take ?n bytes = take (?start + k) bytes @ [CHR 0x0A]"
    proof -
      have "?start + k < length bytes" using k(1) by auto
      then show ?thesis using k(1,2) by (simp add: take_Suc_conv_app_nth)
    qed
    moreover have "CHR 0x0A \<notin> set (drop ?n bytes)"
    proof -
      have "drop ?n bytes = drop (Suc k) ?buf @ drop offset bytes"
        using k(1) 1(3) by (subst (1) split) (simp add: drop_append)
      with k(3) 1(2) show ?thesis by auto
    qed
    ultimately have "complete_lines (take ?n bytes @ drop ?n bytes) = take ?n bytes"
      by (subst complete_lines_none) simp_all
    with Some show ?thesis by (subst repair_from.simps) (auto simp: Let_def)
  qed
qed

lemma repair_drops_only_the_torn_line: "repair_incomplete_final_line bytes = complete_lines bytes"
  using repair_from_complete [of "length bytes" bytes] by (simp add: repair_incomplete_final_line_def)

subsection \<open>Records as lines\<close>

text \<open>
  What the journal relies on of \<^verbatim>\<open>serde_json\<close>: a record is written as one line of UTF-8 that holds a JSON object, and
  reading that line back gives the record, its schema version among its fields.
\<close>

definition journal_codec ::
    "(journal_record \<Rightarrow> string option) \<Rightarrow> (string \<Rightarrow> json_value option) \<Rightarrow> (json_value \<Rightarrow> journal_record option) \<Rightarrow> bool" where
  "journal_codec to_vec from_str from_value \<longleftrightarrow>
     (\<forall>r b. to_vec r = Some b \<longrightarrow>
        valid_utf8 b \<and> CHR 0x0A \<notin> set b \<and> (\<exists>m. b = CHR ''{'' # m @ ''}'')
        \<and> (\<exists>v. from_str b = Some v \<and> value_schema_version v = Some (jr_schema_version r) \<and> from_value v = Some r))"

definition records_text :: "(journal_record \<Rightarrow> string option) \<Rightarrow> journal_record list \<Rightarrow> string" where
  "records_text to_vec rs = concat (map (\<lambda>r. the (to_vec r) @ [CHR 0x0A]) rs)"

lemma records_text_simps [simp]:
  "records_text to_vec [] = []"
  "records_text to_vec (r # rs) = the (to_vec r) @ CHR 0x0A # records_text to_vec rs"
  "records_text to_vec (rs @ rs') = records_text to_vec rs @ records_text to_vec rs'"
  by (simp_all add: records_text_def)

lemma write_pending_text:
  "write_pending to_vec rs =
     (records_text to_vec (takeWhile (\<lambda>r. to_vec r \<noteq> None) rs), list_all (\<lambda>r. to_vec r \<noteq> None) rs)"
  by (induction rs) (auto split: option.splits)

lemma trim_object: "trim (CHR ''{'' # m @ ''}'') = CHR ''{'' # m @ ''}''"
proof -
  have "strip_ws_start (CHR ''{'' # m @ ''}'') = None"
    by (simp add: strip_ws_start_None ws_seqs_code starts_with_def)
  moreover have "strip_ws_end (CHR ''{'' # m @ ''}'') = None"
  proof -
    have "\<forall>w \<in> set ws_seqs. last w \<noteq> CHR ''}''" by (simp add: ws_seqs_code)
    moreover have "last w = CHR ''}''" if "w \<in> set ws_seqs" "ends_with (CHR ''{'' # m @ ''}'') w" for w
      using that ws_seqs_nonempty by (auto simp: ends_with_iff) (metis last.simps last_append last_snoc list.distinct(1) append_is_Nil_conv)
    ultimately show ?thesis by (auto simp: strip_ws_end_def find_None_iff)
  qed
  ultimately show ?thesis by (simp add: trim_def trim_start.simps trim_end.simps)
qed

lemma buf_lines_from_line:
  "CHR 0x0A \<notin> set l \<Longrightarrow> buf_lines_from cur (l @ CHR 0x0A # rest) = strip_cr (cur @ l) # buf_lines_from [] rest"
  by (induction l arbitrary: cur) auto

lemma codec_line:
  assumes "journal_codec to_vec from_str from_value" "to_vec r = Some b"
  shows "valid_utf8 b" "CHR 0x0A \<notin> set b" "trim b = b" "b \<noteq> []" "strip_cr b = b"
proof -
  from assms obtain m where m: "b = CHR ''{'' # m @ ''}''" "valid_utf8 b" "CHR 0x0A \<notin> set b"
    unfolding journal_codec_def by blast
  then show "valid_utf8 b" "CHR 0x0A \<notin> set b" "trim b = b" "b \<noteq> []" "strip_cr b = b"
    by (simp_all add: trim_object strip_cr_def)
qed

lemma buf_lines_text:
  assumes "journal_codec to_vec from_str from_value" "\<forall>r \<in> set rs. to_vec r \<noteq> None"
  shows "buf_lines (records_text to_vec rs) = map (\<lambda>r. the (to_vec r)) rs"
  using assms(2)
proof (induction rs)
  case (Cons r rs)
  then obtain b where "to_vec r = Some b" by auto
  with Cons codec_line [OF assms(1)] show ?case by (simp add: buf_lines_def buf_lines_from_line)
qed (simp add: buf_lines_def)

text \<open>A journal whose records were all accepted reads back, record by record.\<close>

definition storable :: "(journal_record \<Rightarrow> string option) \<Rightarrow> journal_record list \<Rightarrow> bool" where
  "storable to_vec rs \<longleftrightarrow> (\<forall>r \<in> set rs. to_vec r \<noteq> None \<and> jr_schema_version r = journal_schema_version)"

lemma codec_reads:
  assumes "journal_codec to_vec from_str from_value" "storable to_vec [r]"
  obtains v where "from_str (the (to_vec r)) = Some v" "value_schema_version v = Some journal_schema_version" "from_value v = Some r"
proof -
  from assms(2) obtain b where "to_vec r = Some b" "jr_schema_version r = journal_schema_version"
    by (auto simp: storable_def)
  with assms(1) that show thesis unfolding journal_codec_def by (metis option.sel)
qed

lemma reload_lines_Cons:
  assumes "journal_codec to_vec from_str from_value" "storable to_vec [r]"
  shows "reload_lines from_str from_value index n (the (to_vec r) # lines) j =
    try_bind (reload_record from_str from_value index n (the (to_vec r)) j) (\<lambda>j.
      reload_lines from_str from_value (Suc index) (sat_add u64_max n 1) lines j)"
  using codec_line [OF assms(1)] assms(2) by (auto simp: storable_def)

lemma reload_step:
  assumes "journal_codec to_vec from_str from_value" "storable to_vec [r]" "loaded j"
    and "ordered (ej_operation_id j) (ej_committed j @ [r])"
  defines "j' \<equiv> j\<lparr>ej_committed := ej_committed j @ [r], ej_terminal_appended := is_terminal_record r\<rparr>"
  shows "reload_lines from_str from_value index (min u64_max (Suc (length (ej_committed j)))) (the (to_vec r) # lines) j =
      reload_lines from_str from_value (Suc index) (min u64_max (Suc (length (ej_committed j')))) lines j'" "loaded j'"
proof -
  from assms(4) have r: "follows (ej_committed j) r" "jr_ordinal r = min u64_max (Suc (length (ej_committed j)))"
    "jr_operation_id r = ej_operation_id j" by (simp_all add: ordered_snoc)
  have valid: "validate_ordering j r = Inr ()"
    using follows_validate [OF r(1), of "ej_operation_id j"] assms(3) by (simp add: loaded_def)
  obtain v where "from_str (the (to_vec r)) = Some v" "value_schema_version v = Some journal_schema_version"
    "from_value v = Some r" using codec_reads [OF assms(1,2)] .
  with valid r show "reload_lines from_str from_value index (min u64_max (Suc (length (ej_committed j)))) (the (to_vec r) # lines) j =
      reload_lines from_str from_value (Suc index) (min u64_max (Suc (length (ej_committed j')))) lines j'"
    unfolding reload_lines_Cons [OF assms(1,2)] by (simp add: reload_record_def j'_def next_ordinal_step)
  show "loaded j'" using assms(3,4) r(1) by (simp add: j'_def loaded_def follows_def)
qed

lemma reload_text:
  assumes "journal_codec to_vec from_str from_value" "storable to_vec rs" "loaded j"
    and "ordered (ej_operation_id j) (ej_committed j @ rs)"
  shows "\<exists>j'. loaded j' \<and> ej_committed j' = ej_committed j @ rs
    \<and> j' = j\<lparr>ej_committed := ej_committed j @ rs, ej_terminal_appended := list_ex is_terminal_record (ej_committed j @ rs)\<rparr>
    \<and> reload_lines from_str from_value index (min u64_max (Suc (length (ej_committed j)))) (map (\<lambda>r. the (to_vec r)) rs @ lines) j =
        reload_lines from_str from_value (index + length rs) (min u64_max (Suc (length (ej_committed j')))) lines j'"
  using assms(2-4)
proof (induction rs arbitrary: index j)
  case Nil
  then have "j = j\<lparr>ej_committed := ej_committed j, ej_terminal_appended := list_ex is_terminal_record (ej_committed j)\<rparr>"
    by (cases j) (simp add: loaded_def)
  with Nil show ?case by simp
next
  case (Cons r rs)
  let ?j = "j\<lparr>ej_committed := ej_committed j @ [r], ej_terminal_appended := is_terminal_record r\<rparr>"
  have o: "ordered (ej_operation_id j) (ej_committed j @ [r])"
    using Cons.prems(3) ordered_append [of _ "ej_committed j @ [r]" rs] by simp
  have st: "storable to_vec [r]" "storable to_vec rs" using Cons.prems(1) by (simp_all add: storable_def)
  note step = reload_step [OF assms(1) st(1) Cons.prems(2) o]
  from Cons.IH [OF st(2) step(2)] Cons.prems(3) step(1) [of index "map (\<lambda>r. the (to_vec r)) rs @ lines"]
  show ?case by simp
qed

subsection \<open>What a failed flush leaves\<close>

lemma complete_text: "complete_lines (records_text to_vec rs) = records_text to_vec rs"
proof (cases rs rule: rev_cases)
  case (snoc rs' r)
  have "complete_lines ((records_text to_vec rs' @ the (to_vec r)) @ [CHR 0x0A]) =
      (records_text to_vec rs' @ the (to_vec r)) @ [CHR 0x0A]"
    by (rule complete_lines_end)
  then show ?thesis by (simp add: snoc)
qed simp

lemma torn_text:
  assumes "journal_codec to_vec from_str from_value" "\<forall>r \<in> set ps. to_vec r \<noteq> None"
  shows "\<exists>k \<le> length ps. complete_lines (records_text to_vec rs @ take n (records_text to_vec ps)) =
      records_text to_vec (rs @ take k ps)
    \<and> (ps \<noteq> [] \<and> length (the (to_vec (hd ps))) < n \<longrightarrow> 0 < k)"
  using assms(2)
proof (induction ps arbitrary: rs n)
  case Nil
  then show ?case by (simp add: complete_text)
next
  case (Cons p ps)
  then obtain b where b: "to_vec p = Some b" by auto
  show ?case
  proof (cases "n \<le> length b")
    case True
    then have "complete_lines (records_text to_vec rs @ take n b) = complete_lines (records_text to_vec rs)"
      using codec_line(2) [OF assms(1) b] by (intro complete_lines_none) (blast dest: in_set_takeD)
    with True b show ?thesis by (intro exI [of _ 0]) (simp add: complete_text)
  next
    case False
    then obtain m where m: "n = length b + Suc m" by (metis add_Suc_right less_imp_Suc_add not_le)
    from Cons.IH [of "rs @ [p]" m] Cons.prems obtain k where "k \<le> length ps"
      "complete_lines (records_text to_vec (rs @ [p]) @ take m (records_text to_vec ps)) = records_text to_vec ((rs @ [p]) @ take k ps)"
      by auto
    with b m show ?thesis by (intro exI [of _ "Suc k"]) simp
  qed
qed

definition reloaded :: "string \<Rightarrow> journal_record list \<Rightarrow> execution_journal" where
  "reloaded i rs =
     (journal_new i)\<lparr>ej_committed := rs, ej_terminal_appended := list_ex is_terminal_record rs,
                     ej_next_ordinal := min u64_max (Suc (length rs))\<rparr>"

lemma reopen_text:
  assumes "journal_codec to_vec from_str from_value" "storable to_vec rs" "ordered i rs"
    and "complete_lines bytes = records_text to_vec rs"
  shows "open_journal from_str from_value RepairOk True i (Some bytes) = (Inr (reloaded i rs), Some (records_text to_vec rs))"
proof -
  have "\<forall>r \<in> set rs. to_vec r \<noteq> None" using assms(2) by (simp add: storable_def)
  note lines = buf_lines_text [OF assms(1) this]
  have "reload_lines from_str from_value 0 1 (map (\<lambda>r. the (to_vec r)) rs) (journal_new i) = Inr (reloaded i rs)"
    using reload_text [OF assms(1,2), of "journal_new i" 0 "[]"] assms(3)
    by (simp add: journal_new_def reloaded_def u64_max_def loaded_def)
  with lines assms(4) show ?thesis
    by (simp add: open_journal_def repair_drops_only_the_torn_line)
qed

text \<open>The file holds the committed records, and nothing else.\<close>

definition in_step :: "(journal_record \<Rightarrow> string option) \<Rightarrow> execution_journal \<Rightarrow> journal_file \<Rightarrow> bool" where
  "in_step to_vec j f \<longleftrightarrow>
     journal_ok j \<and> storable to_vec (ej_committed j)
     \<and> (\<forall>r \<in> set (ej_pending j). jr_schema_version r = journal_schema_version)
     \<and> (f = Some (records_text to_vec (ej_committed j)) \<or> f = None \<and> ej_committed j = [])"

lemma in_step_reloaded: "storable to_vec rs \<Longrightarrow> ordered i rs \<Longrightarrow> in_step to_vec (reloaded i rs) (Some (records_text to_vec rs))"
  by (simp add: in_step_def reloaded_def journal_new_def journal_ok_def)

lemma in_step_new [simp]: "in_step to_vec (journal_new i) None"
  by (simp add: in_step_def storable_def) (simp add: journal_new_def)

lemma opened_in_step:
  "in_step to_vec j f \<Longrightarrow> opened_file io f = f \<or> opened_file io f = Some (records_text to_vec (ej_committed j))"
  by (cases io) (auto simp: in_step_def repair_drops_only_the_torn_line complete_text Let_def)

lemma flush_file:
  assumes "in_step to_vec j f" "flush_journal to_vec io j f = (res, j', f')"
  shows "f' = f \<or> (\<exists>n. f' = Some (records_text to_vec (ej_committed j)
    @ take n (records_text to_vec (takeWhile (\<lambda>r. to_vec r \<noteq> None) (ej_pending j)))))"
proof -
  let ?c = "records_text to_vec (ej_committed j)"
  let ?p = "records_text to_vec (takeWhile (\<lambda>r. to_vec r \<noteq> None) (ej_pending j))"
  have opened: "opened_file RepairOk f = Some ?c"
    using assms(1) by (auto simp: in_step_def repair_drops_only_the_torn_line complete_text)
  have "f' = f \<or> f' = Some ?c \<or> (\<exists>n. f' = Some (?c @ take n ?p)) \<or> f' = Some (?c @ ?p)"
    using assms(2) opened_in_step [OF assms(1)]
    by (auto simp: flush_journal_def opened write_pending_text Let_def split: if_splits flush_io.splits simp del: opened_file.simps)
  moreover have "?c = ?c @ take 0 ?p" "?c @ ?p = ?c @ take (length ?p) ?p" by simp_all
  ultimately show ?thesis by metis
qed

lemma flush_serializable:
  assumes "ej_pending j \<noteq> []" "\<not> fail_next_flush (ej_faults j)" "\<forall>r \<in> set (ej_pending j). to_vec r \<noteq> None"
  shows "flush_journal to_vec Flushed j f =
      (Inr (), j\<lparr>ej_committed := ej_committed j @ ej_pending j, ej_pending := [],
                 ej_terminal_appended := list_ex is_terminal_record (ej_committed j @ ej_pending j)\<rparr>,
       Some (the (opened_file RepairOk f) @ records_text to_vec (ej_pending j)))"
    "flush_journal to_vec (WritesFail n) j f =
      (Inl FlushIo, j, Some (the (opened_file RepairOk f) @ take n (records_text to_vec (ej_pending j))))"
proof -
  have "takeWhile (\<lambda>r. to_vec r \<noteq> None) (ej_pending j) = ej_pending j" using assms(3) by simp
  moreover have "list_all (\<lambda>r. to_vec r \<noteq> None) (ej_pending j)" using assms(3) by (simp only: list_all_iff)
  ultimately have "write_pending to_vec (ej_pending j) = (records_text to_vec (ej_pending j), True)"
    by (simp only: write_pending_text)
  then show "flush_journal to_vec Flushed j f =
      (Inr (), j\<lparr>ej_committed := ej_committed j @ ej_pending j, ej_pending := [],
                 ej_terminal_appended := list_ex is_terminal_record (ej_committed j @ ej_pending j)\<rparr>,
       Some (the (opened_file RepairOk f) @ records_text to_vec (ej_pending j)))"
    "flush_journal to_vec (WritesFail n) j f =
      (Inl FlushIo, j, Some (the (opened_file RepairOk f) @ take n (records_text to_vec (ej_pending j))))"
    using assms(1,2) by (simp_all add: flush_journal_def Let_def del: opened_file.simps)
qed

lemma flush_done:
  assumes "in_step to_vec j f" "flush_journal to_vec io j f = (Inr (), j', f')"
  shows "in_step to_vec j' f' \<and> ej_committed j' = ej_committed j @ ej_pending j \<and> ej_pending j' = []"
proof (cases "ej_pending j = []")
  case True
  with assms show ?thesis by (auto simp: flush_journal_def)
next
  case False
  have opened: "opened_file RepairOk f = Some (records_text to_vec (ej_committed j))"
    using assms(1) by (auto simp: in_step_def repair_drops_only_the_torn_line complete_text)
  from False assms(2) have all: "\<forall>r \<in> set (ej_pending j). to_vec r \<noteq> None"
    and j': "j' = j\<lparr>ej_committed := ej_committed j @ ej_pending j, ej_pending := [],
        ej_terminal_appended := list_ex is_terminal_record (ej_committed j @ ej_pending j)\<rparr>"
    and f': "f' = Some (records_text to_vec (ej_committed j)
        @ records_text to_vec (takeWhile (\<lambda>r. to_vec r \<noteq> None) (ej_pending j)))"
    by (auto simp: flush_journal_def opened write_pending_text Let_def list_all_iff
        split: if_splits flush_io.splits simp del: opened_file.simps)
  from all have tw: "takeWhile (\<lambda>r. to_vec r \<noteq> None) (ej_pending j) = ej_pending j" by simp
  have "f' = Some (records_text to_vec (ej_committed j @ ej_pending j))" by (simp only: f' tw records_text_simps)
  with assms(1) all show ?thesis by (auto simp: j' in_step_def journal_ok_def storable_def)
qed

lemma reloaded_simps [simp]:
  "ej_committed (reloaded i rs) = rs" "ej_pending (reloaded i rs) = []" "ej_operation_id (reloaded i rs) = i"
  "ej_faults (reloaded i rs) = no_faults" "reloaded i [] = journal_new i"
  by (simp_all add: reloaded_def journal_new_def u64_max_def)

lemma recover_text:
  assumes "journal_codec to_vec from_str from_value" "in_step to_vec j f"
    and "\<forall>r \<in> set (take k (ej_pending j)). to_vec r \<noteq> None"
    and "complete_lines bytes = records_text to_vec (ej_committed j @ take k (ej_pending j))"
  shows "\<exists>f''. open_journal from_str from_value RepairOk True (ej_operation_id j) (Some bytes) =
      (Inr (reloaded (ej_operation_id j) (ej_committed j @ take k (ej_pending j))), f'')
    \<and> in_step to_vec (reloaded (ej_operation_id j) (ej_committed j @ take k (ej_pending j))) f''"
proof -
  have "storable to_vec (ej_committed j @ take k (ej_pending j))"
    using assms(2,3) by (auto simp: in_step_def storable_def dest: in_set_takeD)
  moreover have "ordered (ej_operation_id j) (ej_committed j @ take k (ej_pending j))"
    using assms(2) ordered_append [of _ "ej_committed j @ take k (ej_pending j)" "drop k (ej_pending j)"]
    by (simp add: in_step_def journal_ok_def)
  ultimately show ?thesis using reopen_text [OF assms(1) _ _ assms(4)] in_step_reloaded by blast
qed

lemma flush_recovers:
  assumes "journal_codec to_vec from_str from_value" "in_step to_vec j f" "flush_journal to_vec io j f = (res, j', f')"
  shows "\<exists>k f''. k \<le> length (ej_pending j)
    \<and> open_journal from_str from_value RepairOk True (ej_operation_id j) f' =
        (Inr (reloaded (ej_operation_id j) (ej_committed j @ take k (ej_pending j))), f'')
    \<and> in_step to_vec (reloaded (ej_operation_id j) (ej_committed j @ take k (ej_pending j))) f''"
proof -
  let ?ps = "takeWhile (\<lambda>r. to_vec r \<noteq> None) (ej_pending j)"
  consider "f' = None" "ej_committed j = []"
    | n where "f' = Some (records_text to_vec (ej_committed j) @ take n (records_text to_vec ?ps))"
    using flush_file [OF assms(2,3)] assms(2) by (force simp: in_step_def intro: that(2) [of 0])
  then show ?thesis
  proof cases
    case 1
    then show ?thesis by (intro exI [of _ 0] exI [of _ None]) (simp add: open_journal_def)
  next
    case (2 n)
    have "\<forall>r \<in> set ?ps. to_vec r \<noteq> None" by (blast dest: set_takeWhileD)
    from torn_text [OF assms(1) this] obtain k where k: "k \<le> length ?ps"
      "complete_lines (records_text to_vec (ej_committed j) @ take n (records_text to_vec ?ps)) =
         records_text to_vec (ej_committed j @ take k ?ps)" by blast
    have take: "take k ?ps = take k (ej_pending j)"
      using k(1) by (metis min.absorb1 take_take takeWhile_eq_take)
    then have "\<forall>r \<in> set (take k (ej_pending j)). to_vec r \<noteq> None"
      by (metis in_set_takeD set_takeWhileD)
    moreover have "k \<le> length (ej_pending j)" using k(1) length_takeWhile_le le_trans by blast
    ultimately show ?thesis
      using recover_text [OF assms(1,2)] k(2) 2 take by metis
  qed
qed

subsection \<open>Journals across restarts\<close>

text \<open>
  A process that reopens its journal whenever a flush fails, and that may die at any moment: during a flush, which then
  leaves what a failed write leaves, or between two operations.
\<close>

datatype journal_event = EvAppend journal_record | EvFlush flush_io | EvRestart

definition reopen ::
    "(string \<Rightarrow> json_value option) \<Rightarrow> (json_value \<Rightarrow> journal_record option) \<Rightarrow> execution_journal \<times> journal_file
     \<Rightarrow> execution_journal \<times> journal_file" where
  "reopen from_str from_value s =
     (case open_journal from_str from_value RepairOk True (ej_operation_id (fst s)) (snd s) of
        (Inr j, f) \<Rightarrow> (j, f)
      | (Inl _, f) \<Rightarrow> (journal_new (ej_operation_id (fst s)), f))"

fun journal_step ::
    "(journal_record \<Rightarrow> string option) \<Rightarrow> (string \<Rightarrow> json_value option) \<Rightarrow> (json_value \<Rightarrow> journal_record option)
     \<Rightarrow> journal_event \<Rightarrow> execution_journal \<times> journal_file \<Rightarrow> execution_journal \<times> journal_file" where
  "journal_step to_vec from_str from_value (EvAppend r) (j, f) = (snd (append_record r j), f)"
| "journal_step to_vec from_str from_value (EvFlush io) (j, f) =
     (case flush_journal to_vec io j f of
        (Inr _, s) \<Rightarrow> s
      | (Inl _, s) \<Rightarrow> reopen from_str from_value s)"
| "journal_step to_vec from_str from_value EvRestart s = reopen from_str from_value s"

lemma in_step_append:
  assumes "in_step to_vec j f"
  shows "in_step to_vec (snd (append_record r j)) f" "ej_committed (snd (append_record r j)) = ej_committed j"
proof -
  have "ej_committed (snd (append_record r j)) = ej_committed j
    \<and> (\<forall>x \<in> set (ej_pending (snd (append_record r j))). x \<in> set (ej_pending j) \<or> jr_schema_version x = journal_schema_version)"
    by (auto simp: append_record_def split: sum.splits)
  with assms append_ok [of j r] show "in_step to_vec (snd (append_record r j)) f"
    "ej_committed (snd (append_record r j)) = ej_committed j" by (auto simp: in_step_def)
qed

lemma reopen_in_step:
  assumes "journal_codec to_vec from_str from_value" "in_step to_vec j f"
  shows "open_journal from_str from_value RepairOk True (ej_operation_id j) f =
      (Inr (reloaded (ej_operation_id j) (ej_committed j)), f)"
    "reopen from_str from_value (j, f) = (reloaded (ej_operation_id j) (ej_committed j), f)"
    "in_step to_vec (reloaded (ej_operation_id j) (ej_committed j)) f"
proof -
  consider "f = None" "ej_committed j = []" | "f = Some (records_text to_vec (ej_committed j))"
    using assms(2) by (auto simp: in_step_def)
  then have "open_journal from_str from_value RepairOk True (ej_operation_id j) f =
      (Inr (reloaded (ej_operation_id j) (ej_committed j)), f)
    \<and> in_step to_vec (reloaded (ej_operation_id j) (ej_committed j)) f"
  proof cases
    case 1
    then show ?thesis by (simp add: open_journal_def)
  next
    case 2
    have "storable to_vec (ej_committed j)" "ordered (ej_operation_id j) (ej_committed j)"
      using assms(2) ordered_append by (auto simp: in_step_def journal_ok_def)
    with 2 show ?thesis using reopen_text [OF assms(1)] in_step_reloaded complete_text by blast
  qed
  then show "open_journal from_str from_value RepairOk True (ej_operation_id j) f =
      (Inr (reloaded (ej_operation_id j) (ej_committed j)), f)"
    "reopen from_str from_value (j, f) = (reloaded (ej_operation_id j) (ej_committed j), f)"
    "in_step to_vec (reloaded (ej_operation_id j) (ej_committed j)) f"
    by (simp_all add: reopen_def)
qed

text \<open>
  The system as a metered machine, provided that records are written and read back faithfully: the file stays in step
  with the committed records, and these only grow.
\<close>

definition journal_inv ::
    "(journal_record \<Rightarrow> string option) \<Rightarrow> (string \<Rightarrow> json_value option) \<Rightarrow> (json_value \<Rightarrow> journal_record option)
     \<Rightarrow> execution_journal \<times> journal_file \<Rightarrow> bool" where
  "journal_inv to_vec from_str from_value s \<longleftrightarrow>
     (journal_codec to_vec from_str from_value \<longrightarrow> in_step to_vec (fst s) (snd s))"

lemma flush_step:
  assumes "journal_codec to_vec from_str from_value" "in_step to_vec j f"
  shows "\<exists>k \<le> length (ej_pending j). \<exists>j' f'. journal_step to_vec from_str from_value (EvFlush io) (j, f) = (j', f')
    \<and> in_step to_vec j' f' \<and> ej_committed j' = ej_committed j @ take k (ej_pending j) \<and> ej_pending j' = []
    \<and> ej_operation_id j' = ej_operation_id j"
proof -
  obtain res j1 f1 where fl: "flush_journal to_vec io j f = (res, j1, f1)" by (metis prod_cases3)
  have op: "ej_operation_id j1 = ej_operation_id j"
    using flush_ok(2) [OF _ fl] assms(2) by (simp add: in_step_def)
  show ?thesis
  proof (cases res)
    case (Inl e)
    from flush_recovers [OF assms fl] obtain k f'' where "k \<le> length (ej_pending j)"
      "open_journal from_str from_value RepairOk True (ej_operation_id j) f1 =
         (Inr (reloaded (ej_operation_id j) (ej_committed j @ take k (ej_pending j))), f'')"
      "in_step to_vec (reloaded (ej_operation_id j) (ej_committed j @ take k (ej_pending j))) f''" by blast
    with Inl fl op show ?thesis by (intro exI [of _ k]) (simp add: reopen_def)
  next
    case (Inr u)
    with fl flush_done [OF assms(2), of io j1 f1] op show ?thesis
      by (intro exI [of _ "length (ej_pending j)"]) simp
  qed
qed

lemma journal_step_ok:
  assumes "journal_codec to_vec from_str from_value" "in_step to_vec j f"
    and "journal_step to_vec from_str from_value e (j, f) = (j', f')"
  shows "in_step to_vec j' f' \<and> (\<exists>more. ej_committed j' = ej_committed j @ more) \<and> ej_operation_id j' = ej_operation_id j"
proof (cases e)
  case (EvAppend r)
  have "ej_operation_id (snd (append_record r j)) = ej_operation_id j"
    by (auto simp: append_record_def split: sum.splits)
  with EvAppend assms in_step_append [OF assms(2)] show ?thesis by auto
next
  case (EvFlush io)
  with flush_step [OF assms(1,2), of io] assms(3) show ?thesis by auto
next
  case EvRestart
  with reopen_in_step [OF assms(1,2)] assms(3) show ?thesis by auto
qed

interpretation durable_journal: metered_machine "journal_step to_vec from_str from_value" "journal_inv to_vec from_str from_value"
  "\<lambda>s. ej_committed (fst s)" "\<lambda>a b. journal_codec to_vec from_str from_value \<longrightarrow> prefix a b"
proof
  fix s e
  assume inv: "journal_inv to_vec from_str from_value s"
  obtain j f j' f' where s: "s = (j, f)" "journal_step to_vec from_str from_value e (j, f) = (j', f')"
    by (metis surj_pair)
  with inv journal_step_ok [OF _ _ s(2)] show
    "journal_inv to_vec from_str from_value (journal_step to_vec from_str from_value e s)"
    "journal_codec to_vec from_str from_value \<longrightarrow>
       prefix (ej_committed (fst s)) (ej_committed (fst (journal_step to_vec from_str from_value e s)))"
    by (auto simp: journal_inv_def)
qed auto

definition journal_run ::
    "(journal_record \<Rightarrow> string option) \<Rightarrow> (string \<Rightarrow> json_value option) \<Rightarrow> (json_value \<Rightarrow> journal_record option)
     \<Rightarrow> string \<Rightarrow> journal_event list \<Rightarrow> execution_journal \<times> journal_file" where
  "journal_run to_vec from_str from_value i es = fold (journal_step to_vec from_str from_value) es (journal_new i, None)"

lemma journal_run_inv: "journal_inv to_vec from_str from_value (journal_run to_vec from_str from_value i es)"
  unfolding journal_run_def by (rule durable_journal.run_inv) (simp add: journal_inv_def)

lemma journal_run_op:
  assumes "journal_codec to_vec from_str from_value"
  shows "ej_operation_id (fst (journal_run to_vec from_str from_value i es)) = i"
proof (induction es rule: rev_induct)
  case Nil
  then show ?case by (simp add: journal_run_def journal_new_def)
next
  case (snoc e es)
  obtain j f j' f' where s: "journal_run to_vec from_str from_value i es = (j, f)"
    "journal_step to_vec from_str from_value e (j, f) = (j', f')" by (metis surj_pair)
  then have "journal_run to_vec from_str from_value i (es @ [e]) = (j', f')" by (simp add: journal_run_def)
  moreover have "in_step to_vec j f"
    using journal_run_inv [of to_vec from_str from_value i es] s(1) assms by (simp add: journal_inv_def)
  ultimately show ?case using snoc s journal_step_ok [OF assms _ s(2)] by simp
qed


text \<open>
  C15: A flush that fails part-way does not undo what it wrote and keeps its records pending, so that flushing again
  writes the first of them twice: the second flush reports success, and the file can never be opened again.
\<close>

theorem retried_flush_breaks_the_journal:
  assumes "journal_codec to_vec from_str from_value" "journal_run to_vec from_str from_value i es = (j, f)"
    and "ej_pending j = r # rs" "\<forall>x \<in> set (ej_pending j). to_vec x \<noteq> None" "\<not> fail_next_flush (ej_faults j)"
    and "length (the (to_vec r)) < n" "length (ej_committed j @ ej_pending j) < u64_max"
    and "flush_journal to_vec (WritesFail n) j f = (res1, j1, f1)" "flush_journal to_vec Flushed j1 f1 = (res2, j2, f2)"
  shows "res1 = Inl FlushIo \<and> res2 = Inr () \<and> ej_committed j2 = ej_committed j @ ej_pending j
    \<and> (\<exists>k > 0. fst (open_journal from_str from_value RepairOk True i f2) =
         Inl (RecordOrdinal (length (ej_committed j) + k) (Suc (length (ej_committed j))) (Suc (length (ej_committed j) + k))))"
proof -
  let ?c = "ej_committed j" and ?p = "ej_pending j"
  have sync: "in_step to_vec j f"
    using journal_run_inv [of to_vec from_str from_value i es] assms(1,2) by (simp add: journal_inv_def)
  have op: "ej_operation_id j = i" using journal_run_op [OF assms(1), of i es] assms(2) by simp
  have opened: "opened_file RepairOk f = Some (records_text to_vec ?c)"
    using sync by (auto simp: in_step_def repair_drops_only_the_torn_line complete_text)
  have ne: "?p \<noteq> []" using assms(3) by simp
  note fl = flush_serializable [OF ne assms(5,4)]
  have one: "res1 = Inl FlushIo" "j1 = j" "f1 = Some (records_text to_vec ?c @ take n (records_text to_vec ?p))"
    using assms(8) unfolding fl opened by auto
  from torn_text [OF assms(1,4), of ?c n] assms(3,6) obtain k where k: "k \<le> length ?p" "0 < k"
    "complete_lines (records_text to_vec ?c @ take n (records_text to_vec ?p)) = records_text to_vec (?c @ take k ?p)"
    by auto
  have opened1: "opened_file RepairOk f1 = Some (records_text to_vec (?c @ take k ?p))"
    using k(3) by (simp add: one repair_drops_only_the_torn_line)
  have two: "res2 = Inr ()" "ej_committed j2 = ?c @ ?p" "f2 = Some (records_text to_vec (?c @ take k ?p @ ?p))"
    using assms(9) unfolding one(2) fl opened1 by auto
  have ord: "ordered i (?c @ r # rs)" "ordered i ((?c @ take k ?p) @ drop k ?p)"
    using sync assms(3) op by (simp_all add: in_step_def journal_ok_def)
  have r: "jr_ordinal r = Suc (length ?c)"
    using ordered_append [of i "?c @ [r]" rs] ord(1) assms(7) by (simp add: ordered_snoc)
  have st: "storable to_vec (?c @ take k ?p @ ?p)" "storable to_vec (?c @ take k ?p)" "storable to_vec [r]"
  proof -
    have "storable to_vec ?c" "storable to_vec ?p" using sync assms(4) by (auto simp: in_step_def storable_def)
    then show "storable to_vec (?c @ take k ?p @ ?p)" "storable to_vec (?c @ take k ?p)" "storable to_vec [r]"
      using assms(3) set_take_subset [of k ?p] by (auto simp: storable_def simp del: take_Cons' take_Suc_Cons)
  qed
  have "buf_lines (records_text to_vec (?c @ take k ?p @ ?p)) = map (\<lambda>r. the (to_vec r)) (?c @ take k ?p @ ?p)"
    using st(1) by (intro buf_lines_text [OF assms(1)]) (simp add: storable_def)
  then have lines: "buf_lines (records_text to_vec (?c @ take k ?p @ ?p)) =
      map (\<lambda>r. the (to_vec r)) (?c @ take k ?p) @ the (to_vec r) # map (\<lambda>r. the (to_vec r)) rs"
    by (simp add: assms(3))
  obtain v where "from_str (the (to_vec r)) = Some v" "value_schema_version v = Some journal_schema_version"
    "from_value v = Some r" using codec_reads [OF assms(1) st(3)] .
  moreover have "min u64_max (Suc (length (?c @ take k ?p))) = Suc (length ?c + k)" "Suc (length ?c) \<noteq> Suc (length ?c + k)"
    using k(1,2) assms(7) by simp_all
  ultimately have bad: "reload_lines from_str from_value (length (?c @ take k ?p)) (min u64_max (Suc (length (?c @ take k ?p))))
      (the (to_vec r) # map (\<lambda>r. the (to_vec r)) rs) j0 =
      Inl (RecordOrdinal (length ?c + k) (Suc (length ?c)) (Suc (length ?c + k)))" for j0
    unfolding reload_lines_Cons [OF assms(1) st(3)] using k(1) by (simp add: reload_record_def r)
  have new: "ej_committed (journal_new i) = []" "ej_operation_id (journal_new i) = i" "min u64_max (Suc 0) = 1"
    by (simp_all add: journal_new_def u64_max_def)
  obtain j' where "ej_committed j' = ?c @ take k ?p"
    "reload_lines from_str from_value 0 1 (buf_lines (records_text to_vec (?c @ take k ?p @ ?p))) (journal_new i) =
       reload_lines from_str from_value (length (?c @ take k ?p)) (min u64_max (Suc (length (ej_committed j'))))
         (the (to_vec r) # map (\<lambda>r. the (to_vec r)) rs) j'"
    using reload_text [OF assms(1) st(2) journal_new_ok(2), of i 0 "the (to_vec r) # map (\<lambda>r. the (to_vec r)) rs"]
      ordered_append [OF ord(2)] unfolding lines new append_Nil add_0 list.size(3) by blast
  with bad have "reload_lines from_str from_value 0 1 (buf_lines (records_text to_vec (?c @ take k ?p @ ?p))) (journal_new i) =
      Inl (RecordOrdinal (length ?c + k) (Suc (length ?c)) (Suc (length ?c + k)))" by simp
  then have "fst (open_journal from_str from_value RepairOk True i f2) =
      Inl (RecordOrdinal (length ?c + k) (Suc (length ?c)) (Suc (length ?c + k)))"
    using complete_text [of to_vec "?c @ take k ?p @ ?p"] by (simp add: two(3) open_journal_def repair_drops_only_the_torn_line)
  with one two k(2) show ?thesis by blast
qed

subsection \<open>Sample runs\<close>

definition sample_started :: journal_record where
  "sample_started = OperationStartedRec ''op'' [] 1 2 0 unlimited_spec"

definition sample_turn :: journal_record where
  "sample_turn = TurnStartedRec ''op'' ''turn'' 2 2"

definition sample_to_vec :: "journal_record \<Rightarrow> string option" where
  "sample_to_vec r = (if r = sample_started then Some ''{1}'' else if r = sample_turn then Some ''{2}'' else None)"

definition sample_value :: "nat \<Rightarrow> json_value" where
  "sample_value n = JObject [(''schema_version'', JNumber (PosInt 2)), (''record'', JNumber (PosInt n))]"

definition sample_from_str :: "string \<Rightarrow> json_value option" where
  "sample_from_str s = (if s = ''{1}'' then Some (sample_value 1) else if s = ''{2}'' then Some (sample_value 2) else None)"

definition sample_from_value :: "json_value \<Rightarrow> journal_record option" where
  "sample_from_value v = (if v = sample_value 1 then Some sample_started else if v = sample_value 2 then Some sample_turn else None)"

lemma sample_codec: "journal_codec sample_to_vec sample_from_str sample_from_value"
proof -
  have "valid_utf8 ''{1}''" "valid_utf8 ''{2}''" by code_simp+
  then show ?thesis
    by (auto simp: journal_codec_def sample_to_vec_def sample_from_str_def sample_from_value_def sample_value_def
        sample_started_def sample_turn_def value_schema_version_def)
qed

definition sample_journal :: execution_journal where
  "sample_journal = (journal_new ''op'')\<lparr>ej_pending := [sample_started, sample_turn], ej_next_ordinal := 3\<rparr>"

lemma sample_appended: "snd (append_record sample_turn (snd (append_record sample_started (journal_new ''op'')))) = sample_journal"
  by (simp add: append_record_def validate_ordering_def journal_new_def sample_started_def sample_turn_def
      journal_schema_version_def sat_add_def u64_max_def sample_journal_def)

lemma sample_journal_run:
  "journal_run sample_to_vec sample_from_str sample_from_value ''op'' [EvAppend sample_started, EvAppend sample_turn] =
     (sample_journal, None)"
  by (simp add: journal_run_def sample_appended)

lemma sample_fields:
  "ej_committed sample_journal = []" "ej_pending sample_journal = [sample_started, sample_turn]"
  "\<not> fail_next_flush (ej_faults sample_journal)" "length (the (sample_to_vec sample_started)) < 4" "2 < u64_max"
  "\<forall>r \<in> set (ej_pending sample_journal). sample_to_vec r \<noteq> None"
  by (simp_all add: sample_journal_def journal_new_def no_faults_def sample_to_vec_def u64_max_def)


theorem retried_flush_breaks_the_journal_witness:
  "\<exists>res1 j1 f1 res2 j2 f2. flush_journal sample_to_vec (WritesFail 4) sample_journal None = (res1, j1, f1)
     \<and> flush_journal sample_to_vec Flushed j1 f1 = (res2, j2, f2) \<and> res1 = Inl FlushIo \<and> res2 = Inr ()
     \<and> (\<exists>k > 0. fst (open_journal sample_from_str sample_from_value RepairOk True ''op'' f2) = Inl (RecordOrdinal k 1 (Suc k)))"
proof -
  obtain res1 j1 f1 where 1: "flush_journal sample_to_vec (WritesFail 4) sample_journal None = (res1, j1, f1)"
    by (metis prod_cases3)
  obtain res2 j2 f2 where 2: "flush_journal sample_to_vec Flushed j1 f1 = (res2, j2, f2)" by (metis prod_cases3)
  have "length (ej_committed sample_journal @ ej_pending sample_journal) < u64_max" using sample_fields(1,2,5) by simp
  from retried_flush_breaks_the_journal [OF sample_codec sample_journal_run sample_fields(2,6,3,4) this 1 2] 1 2 show ?thesis
    using sample_fields(1) by (intro exI [of _ res1] exI [of _ j1] exI [of _ f1] exI [of _ res2] exI [of _ j2] exI [of _ f2]) simp
qed

theorem journal_facts_are_ordered_witness:
  "jr_ordinal sample_turn = 2 \<and> \<not> is_started sample_turn \<and> \<not> has_terminal sample_journal"
proof -
  have "live_journal sample_from_str sample_from_value sample_to_vec (journal_new ''op'')"
    by (rule live_journal.opened [of _ _ RepairOk True "''op''" None]) (simp add: open_journal_def)
  then have "live_journal sample_from_str sample_from_value sample_to_vec sample_journal"
    unfolding sample_appended [symmetric] by (intro live_journal.appended)
  from journal_facts_are_ordered [OF this, of "[sample_started]" sample_turn "[]"] show ?thesis
    using sample_fields(1,2,5) by simp
qed

end
