(* ===== verification/Rust_Maps.thy ===== *)
theory Rust_Maps
  imports Contracts "HOL-Library.List_Lexorder" "HOL-Library.Char_ord"
begin

text \<open>
  \<^verbatim>\<open>BTreeMap\<close>, as the list of its entries in key order: lookup, insertion and in-place update.
  Strings are ordered byte by byte, as Rust orders \<^verbatim>\<open>String\<close>.
\<close>

type_synonym ('k, 'v) btree = "('k \<times> 'v) list"

abbreviation btree_get :: "('k, 'v) btree \<Rightarrow> 'k \<Rightarrow> 'v option" where
  "btree_get \<equiv> map_of"

fun btree_insert :: "'k::linorder \<Rightarrow> 'v \<Rightarrow> ('k, 'v) btree \<Rightarrow> ('k, 'v) btree" where
  "btree_insert k v [] = [(k, v)]"
| "btree_insert k v ((k', v') # m) =
     (if k = k' then (k, v) # m
      else if k < k' then (k, v) # (k', v') # m
      else (k', v') # btree_insert k v m)"

definition btree_wf :: "('k::linorder, 'v) btree \<Rightarrow> bool" where
  "btree_wf m \<longleftrightarrow> sorted (map fst m) \<and> distinct (map fst m)"

lemma btree_wf_Nil [simp]: "btree_wf []"
  by (simp add: btree_wf_def)

lemma btree_wf_Cons: "btree_wf ((k, v) # m) \<longleftrightarrow> (\<forall>k' \<in> fst ` set m. k < k') \<and> btree_wf m"
  by (auto simp: btree_wf_def image_iff less_le)

lemma keys_btree_insert [simp]: "fst ` set (btree_insert k v m) = insert k (fst ` set m)"
  by (induction k v m rule: btree_insert.induct) auto

lemma btree_wf_insert: "btree_wf m \<Longrightarrow> btree_wf (btree_insert k v m)"
proof (induction k v m rule: btree_insert.induct)
  case (2 k v k' v' m)
  then show ?case
    by (auto simp: btree_wf_Cons intro: less_trans)
qed (simp add: btree_wf_def)

lemma btree_get_insert:
  "btree_wf m \<Longrightarrow> btree_get (btree_insert k v m) j = (if j = k then Some v else btree_get m j)"
proof (induction k v m rule: btree_insert.induct)
  case (2 k v k' v' m)
  then show ?case by (auto simp: btree_wf_Cons)
qed simp

subsection \<open>Keyed stores\<close>

text \<open>What clients of a keyed store rely on: a write is read back and disturbs no other key.\<close>

locale keyed_store =
  fixes get :: "'m \<Rightarrow> 'k \<Rightarrow> 'v option"
    and put :: "'k \<Rightarrow> 'v \<Rightarrow> 'm \<Rightarrow> 'm"
    and wf :: "'m \<Rightarrow> bool"
  assumes put_wf: "wf m \<Longrightarrow> wf (put k v m)"
    and get_put: "wf m \<Longrightarrow> get (put k v m) j = (if j = k then Some v else get m j)"
begin

lemma get_put_same: "wf m \<Longrightarrow> get (put k v m) k = Some v"
  by (simp add: get_put)

lemma get_put_other: "wf m \<Longrightarrow> j \<noteq> k \<Longrightarrow> get (put k v m) j = get m j"
  by (simp add: get_put)

text \<open>A fact about every stored value survives a write that establishes it.\<close>

lemma put_all:
  assumes "wf m" "\<And>j w. get m j = Some w \<Longrightarrow> P j w" "P k v" "get (put k v m) j = Some w"
  shows "P j w"
  using assms by (auto simp: get_put split: if_splits)

end

interpretation btree: keyed_store btree_get btree_insert btree_wf
  by unfold_locales (simp_all add: btree_wf_insert btree_get_insert)

subsection \<open>Sums over a map\<close>

text \<open>Replacing or adding one entry changes a sum over all entries by that entry's share.\<close>

fun btree_sum :: "('v \<Rightarrow> nat) \<Rightarrow> ('k, 'v) btree \<Rightarrow> nat" where
  "btree_sum f [] = 0"
| "btree_sum f ((k, v) # m) = f v + btree_sum f m"

definition share :: "('v \<Rightarrow> nat) \<Rightarrow> 'v option \<Rightarrow> nat" where
  "share f x = (case x of None \<Rightarrow> 0 | Some v \<Rightarrow> f v)"

lemma btree_get_below:
  "\<forall>k' \<in> fst ` set m. (k::'k::linorder) < k' \<Longrightarrow> btree_get m k = None"
  by (auto simp: map_of_eq_None_iff)

lemma btree_sum_insert:
  "btree_wf m \<Longrightarrow> btree_sum f (btree_insert k v m) + share f (btree_get m k) = btree_sum f m + f v"
proof (induction k v m rule: btree_insert.induct)
  case (2 k v k' v' m)
  show ?case
  proof (cases "k < k'")
    case True
    then have "\<forall>k'' \<in> fst ` set m. k < k''"
      using "2.prems" by (auto simp: btree_wf_Cons intro: less_trans)
    with True have "btree_get ((k', v') # m) k = None" by (auto simp: btree_get_below)
    with True show ?thesis by (auto simp: share_def)
  next
    case False
    with 2 show ?thesis by (auto simp: btree_wf_Cons share_def split: if_splits option.splits)
  qed
qed (simp add: share_def)

end
