(* ===== verification/Child_Ledger.thy ===== *)
theory Child_Ledger
  imports Budget Rust_Maps
begin

text \<open>
  The durable ledger of child budget reservations,
  \<^verbatim>\<open>crates/orca-runtime/src/child_budget_ledger.rs\<close>. The ledger file of one path is explicit
  state; each transaction also takes the outcome of its file operations, so that every I/O error
  is a branch: a failed write may or may not have replaced the file.
\<close>

subsection \<open>The ledger and its file\<close>

record child_budget_reservation =
  rv_path :: string
  rv_id :: string
  rv_spec :: budget_spec

record ledger_entry =
  en_spec :: budget_spec
  en_receipt :: "budget_usage option"
  en_accounted :: bool
  en_task_id :: "string option"

type_synonym ledger = "(string, ledger_entry) btree"

datatype ledger_file = Absent | Stored ledger | Unreadable string

datatype write_outcome = Written | WriteFailed string bool

record ledger_io =
  io_dir_error :: "string option"
  io_lock_error :: "string option"
  io_write :: write_outcome

definition io_fine :: ledger_io where
  "io_fine = \<lparr>io_dir_error = None, io_lock_error = None, io_write = Written\<rparr>"

definition transaction ::
    "ledger_io \<Rightarrow> (ledger \<Rightarrow> (string, ledger \<times> 'a) result) \<Rightarrow> ledger_file
     \<Rightarrow> (string, 'a) result \<times> ledger_file" where
  "transaction io apply_fun file =
     (case io_dir_error io of Some e \<Rightarrow> (Inl e, file) | None \<Rightarrow>
     (case io_lock_error io of Some e \<Rightarrow> (Inl e, file) | None \<Rightarrow>
     (case (case file of Absent \<Rightarrow> Inr [] | Stored l \<Rightarrow> Inr l | Unreadable e \<Rightarrow> Inl e) of
        Inl e \<Rightarrow> (Inl e, file)
      | Inr l \<Rightarrow>
          (case apply_fun l of
             Inl e \<Rightarrow> (Inl e, file)
           | Inr (l', x) \<Rightarrow>
               (case io_write io of
                  Written \<Rightarrow> (Inr x, Stored l')
                | WriteFailed e landed \<Rightarrow> (Inl e, if landed then Stored l' else file))))))"

definition reserved_usage :: "budget_spec \<Rightarrow> budget_usage" where
  "reserved_usage s =
     \<lparr>turns = unwrap_or (max_turns s) 0, tool_calls = unwrap_or (max_tool_calls s) 0,
      cost_usd_micros = unwrap_or (max_cost_usd_micros s) 0, wall_time_ms = 0\<rparr>"

definition ledger_entries :: "ledger_io \<Rightarrow> ledger_file \<Rightarrow> (string, ledger) result" where
  "ledger_entries io file =
     (case file of
        Absent \<Rightarrow> Inr []
      | _ \<Rightarrow>
          (case io_lock_error io of Some e \<Rightarrow> Inl e | None \<Rightarrow>
             (case file of Stored l \<Rightarrow> Inr l | Unreadable e \<Rightarrow> Inl e | Absent \<Rightarrow> Inr [])))"

subsection \<open>What each transaction does to the ledger\<close>

definition get_entry :: "ledger \<Rightarrow> string \<Rightarrow> (string, ledger_entry) result" where
  "get_entry l i =
     (case btree_get l i of None \<Rightarrow> Inl ''unknown child budget reservation'' | Some e \<Rightarrow> Inr e)"

definition acknowledge_apply :: "string \<Rightarrow> ledger \<Rightarrow> (string, ledger \<times> unit) result" where
  "acknowledge_apply i l =
     try_bind (get_entry l i) (\<lambda>e.
       if en_receipt e = None then Inl ''cannot account for a missing child receipt''
       else Inr (btree_insert i (e\<lparr>en_accounted := True\<rparr>) l, ()))"

text \<open>The usage a new reservation is charged on top of.\<close>

definition charge_of :: "ledger_entry \<Rightarrow> budget_usage" where
  "charge_of e = unwrap_or (en_receipt e) (reserved_usage (en_spec e))"

definition charged :: "budget_usage \<Rightarrow> ledger \<Rightarrow> budget_usage" where
  "charged consumed l =
     foldl (\<lambda>u e. usage_merge u (charge_of e)) consumed
       (filter (\<lambda>e. \<not> en_accounted e) (map snd l))"

definition reserve_apply ::
    "string \<Rightarrow> budget_spec \<Rightarrow> budget_spec \<Rightarrow> budget_usage \<Rightarrow> ledger
     \<Rightarrow> (string, ledger \<times> unit) result" where
  "reserve_apply i s limit consumed l =
     (case btree_get l i of
        Some existing \<Rightarrow>
          if en_spec existing \<noteq> s then Inl ''child reservation changed during replay''
          else Inr (l, ())
      | None \<Rightarrow>
          (let c = usage_merge (charged consumed l) (reserved_usage s)
           in if is_some_and (max_turns limit) (\<lambda>m. turns c > m)
                 \<or> is_some_and (max_tool_calls limit) (\<lambda>m. tool_calls c > m)
                 \<or> is_some_and (max_cost_usd_micros limit) (\<lambda>m. cost_usd_micros c > m)
              then Inl ''child budget reservation exceeds unreserved parent capacity''
              else Inr (btree_insert i
                          \<lparr>en_spec = s, en_receipt = None, en_accounted = False, en_task_id = None\<rparr> l,
                        ())))"

definition bind_apply :: "string \<Rightarrow> string \<Rightarrow> ledger \<Rightarrow> (string, ledger \<times> unit) result" where
  "bind_apply i task l =
     try_bind (get_entry l i) (\<lambda>e.
       if is_some_and (en_task_id e) (\<lambda>t. t \<noteq> task) then Inl ''child budget is already bound''
       else Inr (btree_insert i (e\<lparr>en_task_id := Some task\<rparr>) l, ()))"

definition refund_apply :: "string \<Rightarrow> ledger \<Rightarrow> (string, ledger \<times> unit) result" where
  "refund_apply i l =
     try_bind (get_entry l i) (\<lambda>e.
       if en_task_id e = None \<and> en_receipt e = None
       then Inr (btree_insert i (e\<lparr>en_receipt := Some zero_usage\<rparr>) l, ())
       else Inr (l, ()))"

definition settle_apply ::
    "string \<Rightarrow> budget_spec \<Rightarrow> budget_usage \<Rightarrow> ledger \<Rightarrow> (string, ledger \<times> unit) result" where
  "settle_apply i s usage l =
     (let usage = usage\<lparr>wall_time_ms := 0\<rparr>
      in try_bind (get_entry l i) (\<lambda>e.
           if en_spec e \<noteq> s then Inl ''child budget binding mismatch''
           else
             (case en_receipt e of
                Some previous \<Rightarrow>
                  if previous \<noteq> usage then Inl ''conflicting child budget receipt'' else Inr (l, ())
              | None \<Rightarrow> Inr (btree_insert i (e\<lparr>en_receipt := Some usage\<rparr>) l, ()))))"

subsection \<open>The operations\<close>

definition acknowledge :: "ledger_io \<Rightarrow> string \<Rightarrow> ledger_file \<Rightarrow> (string, unit) result \<times> ledger_file" where
  "acknowledge io i = transaction io (acknowledge_apply i)"

definition existing ::
    "ledger_io \<Rightarrow> string \<Rightarrow> string \<Rightarrow> ledger_file \<Rightarrow> (string, child_budget_reservation option) result" where
  "existing io path i file =
     try_bind (ledger_entries io file) (\<lambda>l.
       Inr (map_option (\<lambda>e. \<lparr>rv_path = path, rv_id = i, rv_spec = en_spec e\<rparr>) (btree_get l i)))"

definition bound_task ::
    "ledger_io \<Rightarrow> child_budget_reservation \<Rightarrow> ledger_file \<Rightarrow> (string, string option) result" where
  "bound_task io r file =
     try_bind (ledger_entries io file) (\<lambda>l.
       case btree_get l (rv_id r) of
         None \<Rightarrow> Inl ''missing child budget binding''
       | Some e \<Rightarrow> Inr (en_task_id e))"

definition settled_without_submission ::
    "ledger_io \<Rightarrow> child_budget_reservation \<Rightarrow> ledger_file \<Rightarrow> (string, bool) result" where
  "settled_without_submission io r file =
     try_bind (ledger_entries io file) (\<lambda>l.
       case btree_get l (rv_id r) of
         None \<Rightarrow> Inl ''missing child budget binding''
       | Some e \<Rightarrow> Inr (en_task_id e = None \<and> en_receipt e \<noteq> None))"

text \<open>The fields of the JSON observation.\<close>

record ledger_observation =
  ob_limit :: budget_spec
  ob_actual_usage :: "budget_usage option"
  ob_settlement :: string
  ob_parent_accounted :: "bool option"

definition observation ::
    "ledger_io \<Rightarrow> child_budget_reservation \<Rightarrow> ledger_file \<Rightarrow> ledger_observation" where
  "observation io r file =
     (case try_bind (ledger_entries io file) (\<lambda>l.
             case btree_get l (rv_id r) of
               None \<Rightarrow> Inl ''missing child budget reservation''
             | Some e \<Rightarrow> Inr e) of
        Inr e \<Rightarrow>
          \<lparr>ob_limit = en_spec e, ob_actual_usage = en_receipt e,
           ob_settlement = (if en_receipt e \<noteq> None then ''settled'' else ''unsettled''),
           ob_parent_accounted = Some (en_accounted e)\<rparr>
      | Inl _ \<Rightarrow>
          \<lparr>ob_limit = rv_spec r, ob_actual_usage = None, ob_settlement = ''unavailable'',
           ob_parent_accounted = None\<rparr>)"

definition reserve ::
    "ledger_io \<Rightarrow> string \<Rightarrow> string \<Rightarrow> budget_spec \<Rightarrow> budget_spec \<Rightarrow> budget_usage \<Rightarrow> ledger_file
     \<Rightarrow> (string, child_budget_reservation) result \<times> ledger_file" where
  "reserve io path i s limit consumed file =
     (case transaction io (reserve_apply i s limit consumed) file of
        (Inl e, file') \<Rightarrow> (Inl e, file')
      | (Inr _, file') \<Rightarrow> (Inr \<lparr>rv_path = path, rv_id = i, rv_spec = s\<rparr>, file'))"

definition bind_task ::
    "ledger_io \<Rightarrow> child_budget_reservation \<Rightarrow> string \<Rightarrow> ledger_file
     \<Rightarrow> (string, unit) result \<times> ledger_file" where
  "bind_task io r task = transaction io (bind_apply (rv_id r) task)"

definition refund_unsubmitted ::
    "ledger_io \<Rightarrow> child_budget_reservation \<Rightarrow> ledger_file \<Rightarrow> (string, unit) result \<times> ledger_file" where
  "refund_unsubmitted io r = transaction io (refund_apply (rv_id r))"

definition settle ::
    "ledger_io \<Rightarrow> child_budget_reservation \<Rightarrow> budget_usage \<Rightarrow> ledger_file
     \<Rightarrow> (string, unit) result \<times> ledger_file" where
  "settle io r usage = transaction io (settle_apply (rv_id r) (rv_spec r) usage)"

text \<open>A queued launch: dropping it before it starts settles the reservation at zero.\<close>

record pending_child_budget =
  pc_reservation :: "child_budget_reservation option"
  pc_started :: bool

definition pending_new :: "child_budget_reservation option \<Rightarrow> pending_child_budget" where
  "pending_new r = \<lparr>pc_reservation = r, pc_started = False\<rparr>"

definition pending_start :: "pending_child_budget \<Rightarrow> pending_child_budget" where
  "pending_start p = p\<lparr>pc_started := True\<rparr>"

definition pending_drop :: "ledger_io \<Rightarrow> pending_child_budget \<Rightarrow> ledger_file \<Rightarrow> ledger_file" where
  "pending_drop io p file =
     (case pc_reservation p of
        Some r \<Rightarrow> if \<not> pc_started p then snd (settle io r zero_usage file) else file
      | None \<Rightarrow> file)"

subsection \<open>Runs of transactions\<close>

datatype ledger_op =
    OpReserve string budget_spec budget_spec budget_usage
  | OpBind string string
  | OpRefund string
  | OpSettle string budget_spec budget_usage
  | OpAcknowledge string

fun op_apply :: "ledger_op \<Rightarrow> ledger \<Rightarrow> (string, ledger \<times> unit) result" where
  "op_apply (OpReserve i s limit consumed) = reserve_apply i s limit consumed"
| "op_apply (OpBind i task) = bind_apply i task"
| "op_apply (OpRefund i) = refund_apply i"
| "op_apply (OpSettle i s usage) = settle_apply i s usage"
| "op_apply (OpAcknowledge i) = acknowledge_apply i"

definition ledger_step :: "ledger_io \<times> ledger_op \<Rightarrow> ledger_file \<Rightarrow> ledger_file" where
  "ledger_step = (\<lambda>(io, act) file. snd (transaction io (op_apply act) file))"

definition ledger_of :: "ledger_file \<Rightarrow> ledger" where
  "ledger_of file = (case file of Stored l \<Rightarrow> l | _ \<Rightarrow> [])"

definition entry_at :: "ledger_file \<Rightarrow> string \<Rightarrow> ledger_entry option" where
  "entry_at file i = btree_get (ledger_of file) i"

text \<open>Keys are in order, and only settled entries are accounted.\<close>

definition ledger_inv :: "ledger_file \<Rightarrow> bool" where
  "ledger_inv file \<longleftrightarrow>
     btree_wf (ledger_of file)
     \<and> (\<forall>i e. entry_at file i = Some e \<longrightarrow> en_accounted e \<longrightarrow> en_receipt e \<noteq> None)"

text \<open>How one transaction may change one entry.\<close>

definition advances :: "ledger_entry option \<Rightarrow> ledger_entry \<Rightarrow> bool" where
  "advances old new \<longleftrightarrow>
     (case old of
        None \<Rightarrow> en_receipt new = None \<and> \<not> en_accounted new \<and> en_task_id new = None
      | Some e \<Rightarrow>
          en_spec new = en_spec e
          \<and> (en_receipt e \<noteq> None \<longrightarrow> en_receipt new = en_receipt e)
          \<and> (en_task_id e \<noteq> None \<longrightarrow> en_task_id new = en_task_id e)
          \<and> (en_accounted e \<longrightarrow> en_accounted new)
          \<and> (en_accounted new \<longrightarrow> en_accounted e \<or> en_receipt new \<noteq> None))"

fun op_id :: "ledger_op \<Rightarrow> string" where
  "op_id (OpReserve i _ _ _) = i"
| "op_id (OpBind i _) = i"
| "op_id (OpRefund i) = i"
| "op_id (OpSettle i _ _) = i"
| "op_id (OpAcknowledge i) = i"

lemmas ledger_apply_defs =
  reserve_apply_def bind_apply_def refund_apply_def settle_apply_def acknowledge_apply_def
  get_entry_def try_bind_def

lemma op_apply_advances:
  assumes "op_apply act l = Inr (l', u)"
  shows "l' = l \<or> (\<exists>new. l' = btree_insert (op_id act) new l \<and> advances (btree_get l (op_id act)) new)"
proof (cases "l' = l")
  case False
  with assms show ?thesis
    by (cases act)
       (auto simp: ledger_apply_defs advances_def Let_def split: option.splits if_splits sum.splits)
qed simp

lemma transaction_cases:
  "ledger_step (io, act) file = file
   \<or> (\<exists>l'. ledger_step (io, act) file = Stored l' \<and> op_apply act (ledger_of file) = Inr (l', ()))"
  by (auto simp: ledger_step_def transaction_def ledger_of_def
      split: option.splits sum.splits ledger_file.splits write_outcome.splits prod.splits)

lemma transaction_Inr:
  assumes "transaction io f file = (Inr x, file')"
  shows "\<exists>l'. file' = Stored l' \<and> f (ledger_of file) = Inr (l', x)"
  using assms
  by (auto simp: transaction_def ledger_of_def
      split: option.splits sum.splits ledger_file.splits write_outcome.splits prod.splits)

lemma ledger_step_entry:
  assumes "ledger_inv file"
  shows "entry_at (ledger_step (io, act) file) i = entry_at file i
    \<or> (i = op_id act
       \<and> (\<exists>new. entry_at (ledger_step (io, act) file) i = Some new \<and> advances (entry_at file i) new))"
proof -
  from assms have wf: "btree_wf (ledger_of file)" by (simp add: ledger_inv_def)
  from transaction_cases [of io act "file"] show ?thesis
  proof
    assume "\<exists>l'. ledger_step (io, act) file = Stored l' \<and> op_apply act (ledger_of file) = Inr (l', ())"
    then obtain l' where l': "ledger_step (io, act) file = Stored l'"
      "op_apply act (ledger_of file) = Inr (l', ())" by blast
    with op_apply_advances [OF l'(2)] wf show ?thesis
      by (auto simp: entry_at_def ledger_of_def [of "Stored l'"] btree_get_insert split: if_splits)
  qed simp
qed

lemma ledger_step_inv:
  assumes "ledger_inv file"
  shows "ledger_inv (ledger_step ev file)"
proof -
  obtain io act where ev: "ev = (io, act)" by (cases ev)
  have "btree_wf (ledger_of (ledger_step ev file))"
    using transaction_cases [of io act "file"] assms op_apply_advances [of act "ledger_of file"]
    by (auto simp: ev ledger_inv_def ledger_of_def [of "Stored _"] btree_wf_insert)
  moreover have "en_receipt e \<noteq> None"
    if "entry_at (ledger_step ev file) i = Some e" "en_accounted e" for i e
    using ledger_step_entry [OF assms, of io act i] assms that
    by (auto simp: ev ledger_inv_def advances_def split: option.splits)
  ultimately show ?thesis by (auto simp: ledger_inv_def)
qed

definition receipt_at :: "string \<Rightarrow> ledger_file \<Rightarrow> budget_usage option" where
  "receipt_at i file = Option.bind (entry_at file i) en_receipt"

interpretation receipts: latching_machine ledger_step ledger_inv "receipt_at i" for i
proof
  fix e s v
  assume inv: "ledger_inv s"
  then show "ledger_inv (ledger_step e s)" by (rule ledger_step_inv)
  obtain io act where e: "e = (io, act)" by (cases e)
  assume "receipt_at i s = Some v"
  with ledger_step_entry [OF inv, of io act i] show "receipt_at i (ledger_step e s) = Some v"
    by (auto simp: receipt_at_def e advances_def bind_eq_Some_conv)
qed

text \<open>Only its own settlement gives a bound child a receipt.\<close>

lemma op_apply_bound:
  assumes "op_apply act l = Inr (l', u)" "btree_wf l" "btree_get l i = Some e"
    and "en_task_id e \<noteq> None" "en_receipt e = None" "\<nexists>s v. act = OpSettle i s v"
  shows "btree_get l' i = Some e"
proof (cases act)
  case (OpBind j t)
  with assms show ?thesis
    by (auto simp: ledger_apply_defs btree_get_insert split: option.splits if_splits)
qed (use assms in \<open>auto simp: ledger_apply_defs btree_get_insert Let_def
      split: option.splits if_splits sum.splits\<close>)

lemma bound_entry_kept:
  assumes "ledger_inv file" "entry_at file i = Some e" "en_task_id e \<noteq> None" "en_receipt e = None"
    and "list_all (\<lambda>(io, act). \<nexists>s v. act = OpSettle i s v) evs"
  shows "entry_at (fold ledger_step evs file) i = Some e"
  using assms(1,2,5)
proof (induction evs arbitrary: "file")
  case (Cons ev evs)
  obtain io act where ev: "ev = (io, act)" by (cases ev)
  have "entry_at (ledger_step ev file) i = Some e"
    using transaction_cases [of io act "file"]
      op_apply_bound [of act "ledger_of file" _ _ i e] Cons.prems assms(3,4)
    by (auto simp: ev ledger_inv_def entry_at_def ledger_of_def [of "Stored _"])
  with Cons.IH [of "ledger_step ev file"] Cons.prems ledger_step_inv show ?case by simp
qed simp

subsection \<open>Charged capacity\<close>

definition unaccounted :: "(budget_usage \<Rightarrow> nat) \<Rightarrow> ledger_entry \<Rightarrow> nat" where
  "unaccounted axis e = (if en_accounted e then 0 else axis (charge_of e))"

text \<open>Exactly what is consumed or promised in one dimension, without saturation.\<close>

definition committed :: "(budget_usage \<Rightarrow> nat) \<Rightarrow> budget_usage \<Rightarrow> ledger \<Rightarrow> nat" where
  "committed axis consumed l = axis consumed + btree_sum (unaccounted axis) l"

lemma foldl_merge:
  assumes "\<And>u v. axis (usage_merge u v) = sat_add m (axis u) (axis v)" "axis c \<le> m"
  shows "axis (foldl (\<lambda>u e. usage_merge u (charge_of e)) c (filter (\<lambda>e. \<not> en_accounted e) (map snd l)))
    = min m (axis c + btree_sum (unaccounted axis) l)"
  using assms(2)
proof (induction l arbitrary: c)
  case (Cons a l)
  show ?case
  proof (cases "en_accounted (snd a)")
    case True
    with Cons.IH [OF Cons.prems] show ?thesis by (cases a) (simp add: unaccounted_def)
  next
    case False
    have "axis (usage_merge c (charge_of (snd a))) \<le> m" by (simp add: assms(1))
    with Cons.IH [of "usage_merge c (charge_of (snd a))"] False show ?thesis
      by (cases a) (auto simp: unaccounted_def assms(1) sat_add_def)
  qed
qed (simp add: min_absorb2)

lemma committed_reserve:
  assumes "\<And>u v. axis (usage_merge u v) = sat_add m (axis u) (axis v)" "axis consumed \<le> m"
    and "btree_wf l" "btree_get l i = None"
    and "axis (usage_merge (charged consumed l) (reserved_usage s)) \<le> k" "k < m"
  shows "committed axis consumed
      (btree_insert i \<lparr>en_spec = s, en_receipt = None, en_accounted = False, en_task_id = None\<rparr> l) \<le> k"
proof -
  let ?e = "\<lparr>en_spec = s, en_receipt = None, en_accounted = False, en_task_id = None\<rparr>"
  have "axis (charged consumed l) = min m (committed axis consumed l)"
    unfolding charged_def committed_def using foldl_merge [OF assms(1,2)] .
  then have "sat_add m (min m (committed axis consumed l)) (axis (reserved_usage s)) \<le> k"
    using assms(5) by (simp add: assms(1))
  then have "committed axis consumed l + axis (reserved_usage s) \<le> k"
    using assms(6) by (auto simp: sat_add_def min_def split: if_splits)
  moreover have "btree_sum (unaccounted axis) (btree_insert i ?e l)
      = btree_sum (unaccounted axis) l + axis (reserved_usage s)"
    using btree_sum_insert [OF assms(3), of "unaccounted axis" i ?e] assms(4)
    by (simp add: share_def unaccounted_def charge_of_def)
  ultimately show ?thesis by (simp add: committed_def)
qed

subsection \<open>Properties\<close>

text \<open>
  C16: The ledger never promises more than the parent has. When a new reservation is accepted,
  what the parent consumed, what unaccounted receipts report and what unsettled reservations may
  still spend add up, exactly and with the new reservation included, to at most the parent's
  limit, in every limited dimension (for limits below the largest value of the counter).
\<close>

theorem reserve_within_capacity:
  assumes "reserve io path i s limit consumed file = (Inr r, file')"
    and "ledger_inv file" "entry_at file i = None"
    and "turns consumed \<le> u32_max" "tool_calls consumed \<le> u32_max" "cost_usd_micros consumed \<le> u64_max"
  shows "is_none_or (max_turns limit) (\<lambda>m. m < u32_max \<longrightarrow>
           committed turns consumed (ledger_of file') \<le> m)
       \<and> is_none_or (max_tool_calls limit) (\<lambda>m. m < u32_max \<longrightarrow>
           committed tool_calls consumed (ledger_of file') \<le> m)
       \<and> is_none_or (max_cost_usd_micros limit) (\<lambda>m. m < u64_max \<longrightarrow>
           committed cost_usd_micros consumed (ledger_of file') \<le> m)"
proof -
  let ?l = "ledger_of file"
  let ?e = "\<lparr>en_spec = s, en_receipt = None, en_accounted = False, en_task_id = None\<rparr>"
  let ?c = "usage_merge (charged consumed ?l) (reserved_usage s)"
  have "transaction io (reserve_apply i s limit consumed) file = (Inr (), file')"
    using assms(1)
    by (cases "transaction io (reserve_apply i s limit consumed) file";
        cases "fst (transaction io (reserve_apply i s limit consumed) file)")
       (auto simp: reserve_def)
  then have "\<exists>l'. file' = Stored l' \<and> reserve_apply i s limit consumed ?l = Inr (l', ())"
    by (rule transaction_Inr)
  then have file': "ledger_of file' = btree_insert i ?e ?l"
    and fits: "is_none_or (max_turns limit) (\<lambda>m. turns ?c \<le> m)"
      "is_none_or (max_tool_calls limit) (\<lambda>m. tool_calls ?c \<le> m)"
      "is_none_or (max_cost_usd_micros limit) (\<lambda>m. cost_usd_micros ?c \<le> m)"
    using assms(3)
    by (auto simp: reserve_apply_def entry_at_def Let_def ledger_of_def [of "Stored _"]
        is_none_or_iff is_some_and_iff not_less split: if_splits)
  have wf: "btree_wf ?l" "btree_get ?l i = None"
    using assms(2,3) by (auto simp: ledger_inv_def entry_at_def)
  note room = committed_reserve [OF _ _ wf]
  show ?thesis
    using fits assms(4-6) unfolding file'
    by (auto simp: is_none_or_iff usage_merge_def intro!: room)
qed

text \<open>
  C17: Receipts are final. Over any sequence of transactions, with any file errors between them,
  a recorded receipt is never changed or removed; and the reservation of a child bound to a task
  keeps its full charge until that child itself is settled, whatever happens to the others.
\<close>

theorem receipts_are_final:
  assumes "ledger_inv file"
  shows "(receipt_at i file = Some u \<longrightarrow> receipt_at i (fold ledger_step evs file) = Some u)
       \<and> (entry_at file i = Some e \<and> en_task_id e \<noteq> None \<and> en_receipt e = None
          \<and> list_all (\<lambda>(io, act). \<nexists>s v. act = OpSettle i s v) evs
          \<longrightarrow> entry_at (fold ledger_step evs file) i = Some e)"
  using assms receipts.run_verdict bound_entry_kept by blast

definition demo_spec :: budget_spec where
  "demo_spec = \<lparr>max_turns = Some 4, max_tool_calls = None, max_cost_usd_micros = None,
     max_wall_time_ms = None\<rparr>"

definition demo_entry :: ledger_entry where
  "demo_entry =
     \<lparr>en_spec = demo_spec, en_receipt = None, en_accounted = False, en_task_id = Some ''task-1''\<rparr>"

definition demo_file :: ledger_file where
  "demo_file = Stored [(''a'', demo_entry)]"

lemma demo_file_inv: "ledger_inv demo_file"
  by (auto simp: ledger_inv_def demo_file_def ledger_of_def entry_at_def btree_wf_def demo_entry_def
      split: if_splits)

theorem reserve_within_capacity_witness:
  "committed turns zero_usage
     (ledger_of (snd (reserve io_fine ''p'' ''b'' demo_spec (demo_spec\<lparr>max_turns := Some 9\<rparr>)
        zero_usage demo_file))) \<le> 9"
proof -
  let ?limit = "demo_spec\<lparr>max_turns := Some 9\<rparr>"
  obtain r file' where r: "reserve io_fine ''p'' ''b'' demo_spec ?limit zero_usage demo_file = (Inr r, file')"
    by (simp add: reserve_def transaction_def io_fine_def demo_file_def reserve_apply_def charged_def
        demo_entry_def charge_of_def reserved_usage_def demo_spec_def zero_usage_def usage_merge_def
        sat_add_def u32_max_def u64_max_def)
  have "entry_at demo_file ''b'' = None" by (simp add: entry_at_def ledger_of_def demo_file_def)
  with reserve_within_capacity [OF r demo_file_inv] r show ?thesis
    by (simp add: zero_usage_def demo_spec_def u32_max_def)
qed

theorem receipts_are_final_witness:
  "entry_at (fold ledger_step
     [(io_fine, OpRefund ''a''), (io_fine, OpAcknowledge ''a''), (io_fine, OpBind ''a'' ''task-2'')]
     demo_file) ''a'' = Some demo_entry"
proof -
  have "entry_at demo_file ''a'' = Some demo_entry"
    by (simp add: entry_at_def ledger_of_def demo_file_def)
  with receipts_are_final [OF demo_file_inv, of "''a''" zero_usage
      "[(io_fine, OpRefund ''a''), (io_fine, OpAcknowledge ''a''), (io_fine, OpBind ''a'' ''task-2'')]"
      demo_entry]
  show ?thesis by (simp add: demo_entry_def [THEN arg_cong [where f = en_task_id]]
        demo_entry_def [THEN arg_cong [where f = en_receipt]])
qed

text \<open>
  Every outcome of settling a child, with the file operations succeeding. The wall time is
  dropped from the receipt; an unknown reservation or another spec is refused; a first receipt is
  stored; an identical retry succeeds without a change; a conflicting receipt is refused. A
  refusal leaves the file as it was.
\<close>

theorem settle_outcomes:
  "settle io_fine r usage (Stored l) =
     (case btree_get l (rv_id r) of
        None \<Rightarrow> (Inl ''unknown child budget reservation'', Stored l)
      | Some e \<Rightarrow>
          if en_spec e \<noteq> rv_spec r then (Inl ''child budget binding mismatch'', Stored l)
          else if en_receipt e = Some (usage\<lparr>wall_time_ms := 0\<rparr>) then (Inr (), Stored l)
          else if en_receipt e = None
          then (Inr (), Stored (btree_insert (rv_id r)
                  (e\<lparr>en_receipt := Some (usage\<lparr>wall_time_ms := 0\<rparr>)\<rparr>) l))
          else (Inl ''conflicting child budget receipt'', Stored l))"
  by (auto simp: settle_def transaction_def io_fine_def ledger_apply_defs Let_def split: option.splits)

end
