(* ===== verification/Budget_Controller.thy ===== *)
theory Budget_Controller
  imports Child_Ledger
begin

text \<open>
  The budget controller and its child leases,
  \<^verbatim>\<open>crates/orca-runtime/src/budget_controller.rs\<close>. Instants are nanoseconds, and every operation
  that reads the clock takes the current instant. The reservation pool that a controller shares
  with its leases is a field of the controller; a lease operation that touches it takes the pool
  and returns it. A panic is a value of the error type.
\<close>

subsection \<open>Instants\<close>

type_synonym instant = int

text \<open>\<^verbatim>\<open>started_at.elapsed().as_millis() as u64\<close>.\<close>

definition elapsed_ms :: "instant \<Rightarrow> instant \<Rightarrow> nat" where
  "elapsed_ms now started = nat (max 0 (now - started) div 1000000) mod 2 ^ 64"

text \<open>\<^verbatim>\<open>now.checked_sub(duration)\<close>: the seconds of an instant are an \<^verbatim>\<open>i64\<close>.\<close>

definition instant_checked_sub_ms :: "instant \<Rightarrow> nat \<Rightarrow> instant option" where
  "instant_checked_sub_ms now ms =
     (let t = now - int ms * 1000000 in if t < i64_min * 1000000000 then None else Some t)"

subsection \<open>State\<close>

datatype terminal_state = Running | StoppedState stop_reason

record budget_controller =
  bc_spec :: budget_spec
  bc_usage :: budget_usage
  bc_started_at :: instant
  bc_state :: terminal_state
  bc_checkpoint_id :: "string option"
  bc_inner_turn_reminder_index :: nat
  bc_cost_reminder_index :: nat
  bc_pending_soft_landing :: "string option"
  bc_reserved :: budget_usage
  bc_external_reserved :: budget_usage

record budget_lease =
  bl_effective_spec :: budget_spec
  bl_usage :: budget_usage
  bl_started_at :: instant
  bl_reservations :: bool
  bl_settled :: bool
  bl_durable :: "child_budget_reservation option"

datatype lease_error = LeaseStop budget_stop | LeasePanic string

subsection \<open>Reminders\<close>

definition observe_inner_turn_soft_landing :: "budget_controller \<Rightarrow> budget_controller" where
  "observe_inner_turn_soft_landing c =
     (case max_turns (bc_spec c) of
        None \<Rightarrow> c
      | Some limit \<Rightarrow>
          (case pending_inner_turn_reminder limit (turns (bc_usage c)) (bc_inner_turn_reminder_index c) of
             None \<Rightarrow> c
           | Some r \<Rightarrow> c\<lparr>bc_inner_turn_reminder_index := sl_index r,
                         bc_pending_soft_landing := Some (format_soft_landing_message r)\<rparr>))"

definition observe_cost_soft_landing :: "budget_controller \<Rightarrow> budget_controller" where
  "observe_cost_soft_landing c =
     (case max_cost_usd_micros (bc_spec c) of
        None \<Rightarrow> c
      | Some limit \<Rightarrow>
          (case pending_cost_budget_reminder limit (cost_usd_micros (bc_usage c))
                  (bc_cost_reminder_index c) of
             None \<Rightarrow> c
           | Some r \<Rightarrow> c\<lparr>bc_cost_reminder_index := sl_index r,
                         bc_pending_soft_landing := Some (format_soft_landing_message r)\<rparr>))"

subsection \<open>Construction\<close>

definition controller_new :: "instant \<Rightarrow> budget_spec \<Rightarrow> budget_controller" where
  "controller_new now s =
     \<lparr>bc_spec =
        \<lparr>max_turns = option_filter (\<lambda>v. v > 0) (max_turns s),
         max_tool_calls = option_filter (\<lambda>v. v > 0) (max_tool_calls s),
         max_cost_usd_micros = option_filter (\<lambda>v. v > 0) (max_cost_usd_micros s),
         max_wall_time_ms = option_filter (\<lambda>v. v > 0) (max_wall_time_ms s)\<rparr>,
      bc_usage = zero_usage, bc_started_at = now, bc_state = Running, bc_checkpoint_id = None,
      bc_inner_turn_reminder_index = 0, bc_cost_reminder_index = 0, bc_pending_soft_landing = None,
      bc_reserved = zero_usage, bc_external_reserved = zero_usage\<rparr>"

definition from_durable_usage ::
    "instant \<Rightarrow> budget_spec \<Rightarrow> budget_usage \<Rightarrow> nat \<Rightarrow> budget_controller" where
  "from_durable_usage now s usage total_wall_time_ms =
     (let usage = usage\<lparr>wall_time_ms := max (wall_time_ms usage) total_wall_time_ms\<rparr>;
          started_at = unwrap_or (instant_checked_sub_ms now (wall_time_ms usage)) now;
          c = observe_cost_soft_landing (observe_inner_turn_soft_landing
                \<lparr>bc_spec = s, bc_usage = usage, bc_started_at = started_at, bc_state = Running,
                 bc_checkpoint_id = None, bc_inner_turn_reminder_index = 0,
                 bc_cost_reminder_index = 0, bc_pending_soft_landing = None,
                 bc_reserved = zero_usage, bc_external_reserved = zero_usage\<rparr>)
      in (case (max_cost_usd_micros (bc_spec c), max_wall_time_ms (bc_spec c)) of
            (Some m, w) \<Rightarrow>
              if cost_usd_micros (bc_usage c) > m then c\<lparr>bc_state := StoppedState (CostBudget m)\<rparr>
              else (case w of
                      Some n \<Rightarrow> if wall_time_ms (bc_usage c) > n
                                then c\<lparr>bc_state := StoppedState (WallTimeBudget n)\<rparr> else c
                    | None \<Rightarrow> c)
          | (None, Some n) \<Rightarrow>
              if wall_time_ms (bc_usage c) > n then c\<lparr>bc_state := StoppedState (WallTimeBudget n)\<rparr>
              else c
          | (None, None) \<Rightarrow> c))"

definition controller_is_unlimited :: "budget_controller \<Rightarrow> bool" where
  "controller_is_unlimited c = is_unlimited (bc_spec c)"

subsection \<open>Stop checks\<close>

definition sync_wall_time_inner :: "instant \<Rightarrow> budget_controller \<Rightarrow> budget_controller" where
  "sync_wall_time_inner now c =
     (let e = elapsed_ms now (bc_started_at c)
      in if e > wall_time_ms (bc_usage c) then c\<lparr>bc_usage := (bc_usage c)\<lparr>wall_time_ms := e\<rparr>\<rparr> else c)"

definition exhausted_dimension :: "bool \<Rightarrow> budget_controller \<Rightarrow> stop_reason option" where
  "exhausted_dimension skip_turn c =
     (let usage = usage_merge (bc_usage c) (bc_external_reserved c); s = bc_spec c
      in if \<not> skip_turn \<and> is_some_and (max_turns s) (\<lambda>m. turns usage \<ge> m)
         then map_option TurnBudget (max_turns s)
         else if is_some_and (max_tool_calls s) (\<lambda>m. tool_calls usage \<ge> m)
         then map_option ToolCallBudget (max_tool_calls s)
         else if is_some_and (max_cost_usd_micros s) (\<lambda>m. cost_usd_micros usage > m)
         then map_option CostBudget (max_cost_usd_micros s)
         else if is_some_and (max_wall_time_ms s) (\<lambda>m. wall_time_ms (bc_usage c) > m)
         then map_option WallTimeBudget (max_wall_time_ms s)
         else None)"

definition stop_if_exhausted :: "budget_controller \<Rightarrow> budget_stop option \<times> budget_controller" where
  "stop_if_exhausted c =
     (case (case bc_state c of StoppedState r \<Rightarrow> Some r | Running \<Rightarrow> exhausted_dimension False c) of
        None \<Rightarrow> (None, c)
      | Some r \<Rightarrow> (Some \<lparr>bt_reason = r, bt_usage = bc_usage c\<rparr>, c\<lparr>bc_state := StoppedState r\<rparr>))"

definition stop_if_exhausted_without_turn_dimension ::
    "budget_controller \<Rightarrow> budget_stop option \<times> budget_controller" where
  "stop_if_exhausted_without_turn_dimension c =
     (case (case bc_state c of StoppedState r \<Rightarrow> Some r | Running \<Rightarrow> exhausted_dimension True c) of
        None \<Rightarrow> (None, c)
      | Some r \<Rightarrow> (Some \<lparr>bt_reason = r, bt_usage = bc_usage c\<rparr>, c\<lparr>bc_state := StoppedState r\<rparr>))"

definition stop_if_wall_time_exhausted ::
    "budget_controller \<Rightarrow> budget_stop option \<times> budget_controller" where
  "stop_if_wall_time_exhausted c =
     (case (case bc_state c of
              StoppedState r \<Rightarrow> Some r
            | Running \<Rightarrow>
                (case max_wall_time_ms (bc_spec c) of
                   None \<Rightarrow> None
                 | Some m \<Rightarrow> if wall_time_ms (bc_usage c) \<le> m then None else Some (WallTimeBudget m))) of
        None \<Rightarrow> (None, c)
      | Some r \<Rightarrow> (Some \<lparr>bt_reason = r, bt_usage = bc_usage c\<rparr>, c\<lparr>bc_state := StoppedState r\<rparr>))"

subsection \<open>Admission and accounting\<close>

text \<open>\<^verbatim>\<open>stop.map_or(Ok(()), Err)\<close>.\<close>

fun stop_result :: "budget_stop option \<times> budget_controller \<Rightarrow> (budget_stop, unit) result \<times> budget_controller" where
  "stop_result (None, c) = (Inr (), c)"
| "stop_result (Some stop, c) = (Inl stop, c)"

definition admit_turn ::
    "instant \<Rightarrow> budget_controller \<Rightarrow> (budget_stop, unit) result \<times> budget_controller" where
  "admit_turn now c =
     (case stop_if_exhausted (sync_wall_time_inner now c) of
        (Some stop, c) \<Rightarrow> (Inl stop, c)
      | (None, c) \<Rightarrow> (Inr (), observe_inner_turn_soft_landing (c\<lparr>bc_usage := add_turn (bc_usage c)\<rparr>)))"

definition admit_tool_call ::
    "instant \<Rightarrow> budget_controller \<Rightarrow> (budget_stop, unit) result \<times> budget_controller" where
  "admit_tool_call now c =
     (case stop_if_exhausted_without_turn_dimension (sync_wall_time_inner now c) of
        (Some stop, c) \<Rightarrow> (Inl stop, c)
      | (None, c) \<Rightarrow> (Inr (), c\<lparr>bc_usage := add_tool_call (bc_usage c)\<rparr>))"

definition record_cost_usd_micros ::
    "instant \<Rightarrow> nat \<Rightarrow> budget_controller \<Rightarrow> (budget_stop, unit) result \<times> budget_controller" where
  "record_cost_usd_micros now cost c =
     (let c = sync_wall_time_inner now c;
          c = observe_cost_soft_landing (c\<lparr>bc_usage := add_cost_usd_micros cost (bc_usage c)\<rparr>)
      in stop_result (stop_if_exhausted_without_turn_dimension c))"

definition merge_child_usage ::
    "instant \<Rightarrow> budget_usage \<Rightarrow> budget_controller \<Rightarrow> (budget_stop, unit) result \<times> budget_controller" where
  "merge_child_usage now child_usage c =
     (let c = sync_wall_time_inner now c;
          c = observe_cost_soft_landing
                (c\<lparr>bc_usage := usage_merge (bc_usage c) (child_usage\<lparr>wall_time_ms := 0\<rparr>)\<rparr>)
      in stop_result (stop_if_exhausted c))"

definition record_checkpoint :: "string \<Rightarrow> budget_controller \<Rightarrow> budget_controller" where
  "record_checkpoint i c = c\<lparr>bc_checkpoint_id := Some i\<rparr>"

definition take_pending_soft_landing :: "budget_controller \<Rightarrow> string option \<times> budget_controller" where
  "take_pending_soft_landing c = (bc_pending_soft_landing c, c\<lparr>bc_pending_soft_landing := None\<rparr>)"

definition set_external_reservations :: "budget_usage \<Rightarrow> budget_controller \<Rightarrow> budget_controller" where
  "set_external_reservations usage c = c\<lparr>bc_external_reserved := usage\<rparr>"

definition sync_wall_time ::
    "instant \<Rightarrow> budget_controller \<Rightarrow> (budget_stop, unit) result \<times> budget_controller" where
  "sync_wall_time now c = stop_result (stop_if_wall_time_exhausted (sync_wall_time_inner now c))"

definition terminal :: "budget_controller \<Rightarrow> operation_terminal" where
  "terminal c =
     (case bc_state c of
        Running \<Rightarrow> Completed (bc_usage c)
      | StoppedState r \<Rightarrow>
          StoppedTerminal r (bc_usage c) (unwrap_or (bc_checkpoint_id c) '''') (bc_checkpoint_id c \<noteq> None))"

subsection \<open>Granting leases\<close>

definition remaining_spec_after :: "budget_controller \<Rightarrow> budget_usage \<Rightarrow> budget_spec" where
  "remaining_spec_after c reserved =
     (let r = usage_merge reserved (bc_external_reserved c); u = bc_usage c; s = bc_spec c
      in \<lparr>max_turns = map_option (\<lambda>m. m - turns u - turns r) (max_turns s),
          max_tool_calls = map_option (\<lambda>m. m - tool_calls u - tool_calls r) (max_tool_calls s),
          max_cost_usd_micros =
            map_option (\<lambda>m. m - cost_usd_micros u - cost_usd_micros r) (max_cost_usd_micros s),
          max_wall_time_ms =
            map_option (\<lambda>m. m - wall_time_ms u - wall_time_ms r) (max_wall_time_ms s)\<rparr>)"

definition intersect_limit_u64 :: "nat option \<Rightarrow> nat option \<Rightarrow> nat option" where
  "intersect_limit_u64 l r =
     (case (l, r) of
        (Some a, Some b) \<Rightarrow> Some (min a b)
      | (Some v, None) \<Rightarrow> Some v
      | (None, Some v) \<Rightarrow> Some v
      | (None, None) \<Rightarrow> None)"

definition reserved_additive_usage :: "budget_spec \<Rightarrow> budget_usage" where
  "reserved_additive_usage s =
     \<lparr>turns = unwrap_or (max_turns s) 0, tool_calls = unwrap_or (max_tool_calls s) 0,
      cost_usd_micros = unwrap_or (max_cost_usd_micros s) 0, wall_time_ms = 0\<rparr>"

definition exhausted_dimension_of :: "budget_spec \<Rightarrow> budget_spec \<Rightarrow> stop_reason option" where
  "exhausted_dimension_of remaining s =
     (if max_turns remaining = Some 0 then Some (TurnBudget (unwrap_or (max_turns s) 0))
      else if max_tool_calls remaining = Some 0
      then Some (ToolCallBudget (unwrap_or (max_tool_calls s) 0))
      else if max_cost_usd_micros remaining = Some 0
      then Some (CostBudget (unwrap_or (max_cost_usd_micros s) 0))
      else if max_wall_time_ms remaining = Some 0
      then Some (WallTimeBudget (unwrap_or (max_wall_time_ms s) 0))
      else None)"

definition lease_new :: "instant \<Rightarrow> budget_spec \<Rightarrow> budget_lease" where
  "lease_new now s =
     \<lparr>bl_effective_spec = s, bl_usage = zero_usage, bl_started_at = now, bl_reservations = True,
      bl_settled = False, bl_durable = None\<rparr>"

text \<open>\<^verbatim>\<open>split_u32\<close> and \<^verbatim>\<open>split_u64\<close>; \<open>w\<close> is the width the index is cast to.\<close>

definition split_limit :: "nat \<Rightarrow> nat \<Rightarrow> nat option \<Rightarrow> nat option \<Rightarrow> nat \<Rightarrow> nat option" where
  "split_limit w count available requested index =
     option_or
       (map_option (\<lambda>a.
          let share = a div count + (if index mod 2 ^ w < a mod count then 1 else 0)
          in (case requested of None \<Rightarrow> share | Some r \<Rightarrow> min share r)) available)
       requested"

text \<open>The loop that refuses a batch a finite dimension cannot cover.\<close>

fun first_short :: "nat \<Rightarrow> (nat option \<times> stop_reason option) list \<Rightarrow> stop_reason option option" where
  "first_short count [] = None"
| "first_short count ((available, reason) # rest) =
     (if is_some_and available (\<lambda>a. a < count) then Some reason else first_short count rest)"

definition child_leases ::
    "instant \<Rightarrow> budget_spec \<Rightarrow> nat \<Rightarrow> budget_controller
     \<Rightarrow> (lease_error, budget_lease list) result \<times> budget_controller" where
  "child_leases now child_spec child_count c =
     (if child_count = 0 then (Inr [], c)
      else (case validate_spec child_spec of
        Inl _ \<Rightarrow> (Inl (LeasePanic ''child budget spec must validate''), c)
      | Inr _ \<Rightarrow>
      (case stop_if_exhausted (sync_wall_time_inner now c) of
        (Some stop, c) \<Rightarrow> (Inl (LeaseStop stop), c)
      | (None, c) \<Rightarrow>
      (let remaining = remaining_spec_after c (bc_reserved c); s = bc_spec c in
      (case exhausted_dimension_of remaining s of
        Some r \<Rightarrow> (Inl (LeaseStop \<lparr>bt_reason = r, bt_usage = bc_usage c\<rparr>), c)
      | None \<Rightarrow>
      (let count_u32 = (if child_count \<le> u32_max then child_count else u32_max);
           count_u64 = (if child_count \<le> u64_max then child_count else u64_max) in
      (case first_short count_u64
              [(max_turns remaining, map_option TurnBudget (max_turns s)),
               (max_tool_calls remaining, map_option ToolCallBudget (max_tool_calls s)),
               (max_cost_usd_micros remaining, map_option CostBudget (max_cost_usd_micros s))] of
        Some (Some r) \<Rightarrow> (Inl (LeaseStop \<lparr>bt_reason = r, bt_usage = bc_usage c\<rparr>), c)
      | Some None \<Rightarrow> (Inl (LeasePanic ''finite remaining dimension has a configured reason''), c)
      | None \<Rightarrow>
      (let shared_wall = intersect_limit_u64 (max_wall_time_ms remaining) (max_wall_time_ms child_spec);
           effective = map (\<lambda>index.
             \<lparr>max_turns = split_limit 32 count_u32 (max_turns remaining) (max_turns child_spec) index,
              max_tool_calls =
                split_limit 32 count_u32 (max_tool_calls remaining) (max_tool_calls child_spec) index,
              max_cost_usd_micros =
                split_limit 64 count_u64 (max_cost_usd_micros remaining)
                  (max_cost_usd_micros child_spec) index,
              max_wall_time_ms = shared_wall\<rparr>) [0..<child_count]
       in (Inr (map (lease_new now) effective),
           c\<lparr>bc_reserved :=
               foldl (\<lambda>p s. usage_merge p (reserved_additive_usage s)) (bc_reserved c) effective\<rparr>)))))))))"

definition child_lease ::
    "instant \<Rightarrow> budget_spec \<Rightarrow> budget_controller \<Rightarrow> (lease_error, budget_lease) result \<times> budget_controller" where
  "child_lease now child_spec c =
     (case child_leases now child_spec 1 c of
        (Inl e, c) \<Rightarrow> (Inl e, c)
      | (Inr leases, c) \<Rightarrow>
          if leases = [] then (Inl (LeasePanic ''one requested child lease''), c)
          else (Inr (last leases), c))"

definition background_split :: "nat \<Rightarrow> nat option \<Rightarrow> nat option \<Rightarrow> nat option \<Rightarrow> nat option" where
  "background_split siblings available configured requested =
     option_or
       (map_option (\<lambda>v.
          let finish = div_ceil (unwrap_or configured 0) 10;
              share = (v - finish) div max siblings 1
          in (case requested of None \<Rightarrow> share | Some r \<Rightarrow> min r share)) available)
       requested"

definition background_child_lease ::
    "instant \<Rightarrow> budget_spec \<Rightarrow> nat \<Rightarrow> budget_controller
     \<Rightarrow> (lease_error, budget_lease) result \<times> budget_controller" where
  "background_child_lease now requested siblings c =
     (let available = remaining_spec_after c (bc_reserved c); configured = bc_spec c;
          s = \<lparr>max_turns =
                 background_split siblings (max_turns available) (max_turns configured) (max_turns requested),
               max_tool_calls =
                 background_split siblings (max_tool_calls available) (max_tool_calls configured)
                   (max_tool_calls requested),
               max_cost_usd_micros =
                 background_split siblings (max_cost_usd_micros available) (max_cost_usd_micros configured)
                   (max_cost_usd_micros requested),
               max_wall_time_ms = max_wall_time_ms available\<rparr>
      in (case exhausted_dimension_of s configured of
            Some r \<Rightarrow> (Inl (LeaseStop \<lparr>bt_reason = r, bt_usage = bc_usage c\<rparr>), c)
          | None \<Rightarrow> child_lease now s c))"

subsection \<open>Leases\<close>

definition lease_from_durable :: "instant \<Rightarrow> child_budget_reservation \<Rightarrow> budget_lease" where
  "lease_from_durable now r =
     \<lparr>bl_effective_spec = rv_spec r, bl_usage = zero_usage, bl_started_at = now,
      bl_reservations = False, bl_settled = True, bl_durable = Some r\<rparr>"

definition lease_usage :: "instant \<Rightarrow> budget_lease \<Rightarrow> budget_usage" where
  "lease_usage now l =
     (bl_usage l)\<lparr>wall_time_ms := max (wall_time_ms (bl_usage l)) (elapsed_ms now (bl_started_at l))\<rparr>"

definition lease_sync_wall_time_inner :: "instant \<Rightarrow> budget_lease \<Rightarrow> budget_lease" where
  "lease_sync_wall_time_inner now l = l\<lparr>bl_usage := lease_usage now l\<rparr>"

definition lease_stop_if_exhausted :: "budget_lease \<Rightarrow> budget_stop option" where
  "lease_stop_if_exhausted l =
     (let u = bl_usage l; s = bl_effective_spec l;
          stop = (\<lambda>r. \<lparr>bt_reason = r, bt_usage = u\<rparr>)
      in if is_some_and (max_turns s) (\<lambda>m. turns u \<ge> m)
         then map_option (stop \<circ> TurnBudget) (max_turns s)
         else if is_some_and (max_tool_calls s) (\<lambda>m. tool_calls u \<ge> m)
         then map_option (stop \<circ> ToolCallBudget) (max_tool_calls s)
         else if is_some_and (max_cost_usd_micros s) (\<lambda>m. cost_usd_micros u > m)
         then map_option (stop \<circ> CostBudget) (max_cost_usd_micros s)
         else if is_some_and (max_wall_time_ms s) (\<lambda>m. wall_time_ms u > m)
         then map_option (stop \<circ> WallTimeBudget) (max_wall_time_ms s)
         else None)"

text \<open>\<^verbatim>\<open>stop.map_or(Ok(()), Err)\<close> on a lease.\<close>

definition lease_result :: "budget_lease \<Rightarrow> (budget_stop, unit) result \<times> budget_lease" where
  "lease_result l = (case lease_stop_if_exhausted l of None \<Rightarrow> (Inr (), l) | Some s \<Rightarrow> (Inl s, l))"

definition lease_sync_wall_time ::
    "instant \<Rightarrow> budget_lease \<Rightarrow> (budget_stop, unit) result \<times> budget_lease" where
  "lease_sync_wall_time now l = lease_result (lease_sync_wall_time_inner now l)"

definition lease_admit_turn ::
    "instant \<Rightarrow> budget_lease \<Rightarrow> (budget_stop, unit) result \<times> budget_lease" where
  "lease_admit_turn now l =
     (case lease_sync_wall_time now l of
        (Inl stop, l) \<Rightarrow> (Inl stop, l)
      | (Inr _, l) \<Rightarrow>
          (case lease_stop_if_exhausted l of
             Some stop \<Rightarrow> (Inl stop, l)
           | None \<Rightarrow> (Inr (), l\<lparr>bl_usage := add_turn (bl_usage l)\<rparr>)))"

definition lease_admit_tool_call ::
    "instant \<Rightarrow> budget_lease \<Rightarrow> (budget_stop, unit) result \<times> budget_lease" where
  "lease_admit_tool_call now l =
     (case lease_sync_wall_time now l of
        (Inl stop, l) \<Rightarrow> (Inl stop, l)
      | (Inr _, l) \<Rightarrow>
          (case lease_stop_if_exhausted l of
             Some stop \<Rightarrow> (Inl stop, l)
           | None \<Rightarrow> (Inr (), l\<lparr>bl_usage := add_tool_call (bl_usage l)\<rparr>)))"

definition lease_record_cost_usd_micros ::
    "instant \<Rightarrow> nat \<Rightarrow> budget_lease \<Rightarrow> (budget_stop, unit) result \<times> budget_lease" where
  "lease_record_cost_usd_micros now cost l =
     (let l = lease_sync_wall_time_inner now l
      in lease_result (l\<lparr>bl_usage := add_cost_usd_micros cost (bl_usage l)\<rparr>))"

text \<open>A lease and the pool of the controller that granted it.\<close>

definition settle_reservation :: "budget_lease \<Rightarrow> budget_usage \<Rightarrow> budget_lease \<times> budget_usage" where
  "settle_reservation l pool =
     (if bl_settled l then (l, pool)
      else
        (let s = bl_effective_spec l; l' = l\<lparr>bl_settled := True\<rparr>
         in if bl_reservations l
            then (l'\<lparr>bl_reservations := False\<rparr>,
                  \<lparr>turns = turns pool - unwrap_or (max_turns s) 0,
                   tool_calls = tool_calls pool - unwrap_or (max_tool_calls s) 0,
                   cost_usd_micros = cost_usd_micros pool - unwrap_or (max_cost_usd_micros s) 0,
                   wall_time_ms = wall_time_ms pool\<rparr>)
            else (l', pool)))"

definition attach_durable ::
    "child_budget_reservation \<Rightarrow> budget_lease \<Rightarrow> budget_usage \<Rightarrow> budget_lease \<times> budget_usage" where
  "attach_durable r l pool =
     (case settle_reservation l pool of (l, pool) \<Rightarrow> (l\<lparr>bl_durable := Some r\<rparr>, pool))"

definition lease_drop ::
    "ledger_io \<Rightarrow> budget_lease \<Rightarrow> budget_usage \<Rightarrow> ledger_file \<Rightarrow> budget_usage \<times> ledger_file" where
  "lease_drop io l pool file =
     (case settle_reservation l pool of
        (l, pool) \<Rightarrow>
          (pool, case bl_durable l of None \<Rightarrow> file | Some r \<Rightarrow> snd (refund_unsubmitted io r file)))"

text \<open>\<^verbatim>\<open>finish\<close> consumes the lease, so the drop runs right after it.\<close>

definition finish ::
    "instant \<Rightarrow> ledger_io \<Rightarrow> budget_lease \<Rightarrow> budget_usage \<Rightarrow> ledger_file
     \<Rightarrow> budget_usage \<times> budget_usage \<times> ledger_file" where
  "finish now io l pool file =
     (case settle_reservation (lease_sync_wall_time_inner now l) pool of
        (l, pool) \<Rightarrow> (bl_usage l, lease_drop io l pool file))"

end
