(* ===== verification/Budget_Runs.thy ===== *)
theory Budget_Runs
  imports Budget_Controller
begin

text \<open>
  What the budget controller guarantees over any sequence of operations on it and on the leases
  it granted: usage never goes down, a stop is final, the reservation pool is exactly what the
  outstanding leases may spend, and children never spend a unit twice.
\<close>

subsection \<open>Ordered readings\<close>

definition usage_le :: "budget_usage \<Rightarrow> budget_usage \<Rightarrow> bool" where
  "usage_le u v \<longleftrightarrow>
     turns u \<le> turns v \<and> tool_calls u \<le> tool_calls v
     \<and> cost_usd_micros u \<le> cost_usd_micros v \<and> wall_time_ms u \<le> wall_time_ms v"

lemma usage_le_refl [simp]: "usage_le u u"
  by (simp add: usage_le_def)

lemma usage_le_trans: "usage_le u v \<Longrightarrow> usage_le v w \<Longrightarrow> usage_le u w"
  by (auto simp: usage_le_def)

text \<open>The ranges of the counters.\<close>

definition usage_wf :: "budget_usage \<Rightarrow> bool" where
  "usage_wf u \<longleftrightarrow>
     turns u \<le> u32_max \<and> tool_calls u \<le> u32_max \<and> cost_usd_micros u \<le> u64_max
     \<and> wall_time_ms u \<le> u64_max"

definition spec_wf :: "budget_spec \<Rightarrow> bool" where
  "spec_wf s \<longleftrightarrow>
     is_none_or (max_turns s) (\<lambda>m. m \<le> u32_max) \<and> is_none_or (max_tool_calls s) (\<lambda>m. m \<le> u32_max)
     \<and> is_none_or (max_cost_usd_micros s) (\<lambda>m. m \<le> u64_max)
     \<and> is_none_or (max_wall_time_ms s) (\<lambda>m. m \<le> u64_max)"

lemma elapsed_ms_bound: "elapsed_ms now st \<le> u64_max"
proof -
  have "elapsed_ms now st < 2 ^ 64" by (simp add: elapsed_ms_def)
  then show ?thesis by (simp add: u64_max_def)
qed

lemmas usage_defs = usage_le_def usage_wf_def add_turn_def add_tool_call_def add_cost_usd_micros_def
  usage_merge_def zero_usage_def

lemma usage_grows:
  assumes "usage_wf u"
  shows "usage_le u (add_turn u)" "usage_le u (add_tool_call u)" "usage_le u (add_cost_usd_micros k u)"
    "usage_le u (usage_merge u v)"
  using assms by (auto simp: usage_defs sat_add_def)

lemma usage_ops_wf:
  assumes "usage_wf u"
  shows "usage_wf (add_turn u)" "usage_wf (add_tool_call u)" "usage_wf (add_cost_usd_micros k u)"
  using assms by (auto simp: usage_defs)

lemma usage_merge_wf [simp]: "usage_wf (usage_merge u v)"
  by (simp add: usage_defs)

subsection \<open>What the internal steps leave alone\<close>

definition same_control :: "budget_controller \<Rightarrow> budget_controller \<Rightarrow> bool" where
  "same_control c c' \<longleftrightarrow>
     bc_spec c' = bc_spec c \<and> bc_started_at c' = bc_started_at c \<and> bc_reserved c' = bc_reserved c
     \<and> bc_external_reserved c' = bc_external_reserved c \<and> bc_checkpoint_id c' = bc_checkpoint_id c"

lemma observe_inner_frame:
  "same_control c (observe_inner_turn_soft_landing c)
   \<and> bc_usage (observe_inner_turn_soft_landing c) = bc_usage c
   \<and> bc_state (observe_inner_turn_soft_landing c) = bc_state c"
  by (auto simp: observe_inner_turn_soft_landing_def same_control_def split: option.splits)

lemma observe_cost_frame:
  "same_control c (observe_cost_soft_landing c)
   \<and> bc_usage (observe_cost_soft_landing c) = bc_usage c
   \<and> bc_state (observe_cost_soft_landing c) = bc_state c"
  by (auto simp: observe_cost_soft_landing_def same_control_def split: option.splits)

lemma sync_frame:
  "same_control c (sync_wall_time_inner now c) \<and> bc_state (sync_wall_time_inner now c) = bc_state c
   \<and> usage_le (bc_usage c) (bc_usage (sync_wall_time_inner now c))
   \<and> turns (bc_usage (sync_wall_time_inner now c)) = turns (bc_usage c)
   \<and> tool_calls (bc_usage (sync_wall_time_inner now c)) = tool_calls (bc_usage c)
   \<and> cost_usd_micros (bc_usage (sync_wall_time_inner now c)) = cost_usd_micros (bc_usage c)"
  by (auto simp: sync_wall_time_inner_def same_control_def usage_le_def Let_def)

lemma sync_wf: "usage_wf (bc_usage c) \<Longrightarrow> usage_wf (bc_usage (sync_wall_time_inner now c))"
  by (auto simp: sync_wall_time_inner_def usage_wf_def Let_def elapsed_ms_bound)

text \<open>The three stop checks: they change only the state, and keep a stop that was latched.\<close>

definition stop_check :: "(budget_controller \<Rightarrow> stop_reason option) \<Rightarrow> budget_controller
    \<Rightarrow> budget_stop option \<times> budget_controller" where
  "stop_check chk c =
     (case (case bc_state c of StoppedState r \<Rightarrow> Some r | Running \<Rightarrow> chk c) of
        None \<Rightarrow> (None, c)
      | Some r \<Rightarrow> (Some \<lparr>bt_reason = r, bt_usage = bc_usage c\<rparr>, c\<lparr>bc_state := StoppedState r\<rparr>))"

definition wall_check :: "budget_controller \<Rightarrow> stop_reason option" where
  "wall_check c =
     (case max_wall_time_ms (bc_spec c) of
        None \<Rightarrow> None
      | Some m \<Rightarrow> if wall_time_ms (bc_usage c) \<le> m then None else Some (WallTimeBudget m))"

lemma stop_checks:
  "stop_if_exhausted = stop_check (exhausted_dimension False)"
  "stop_if_exhausted_without_turn_dimension = stop_check (exhausted_dimension True)"
  "stop_if_wall_time_exhausted = stop_check wall_check"
  by (auto simp: fun_eq_iff stop_if_exhausted_def stop_if_exhausted_without_turn_dimension_def
      stop_if_wall_time_exhausted_def stop_check_def wall_check_def split: terminal_state.splits)

definition stop_state :: "budget_controller \<Rightarrow> stop_reason option" where
  "stop_state c = (case bc_state c of Running \<Rightarrow> None | StoppedState r \<Rightarrow> Some r)"

lemma stop_check_frame:
  assumes "stop_check chk c = (out, c')"
  shows "same_control c c' \<and> bc_usage c' = bc_usage c
     \<and> (stop_state c = Some r \<longrightarrow> stop_state c' = Some r)"
  using assms
  by (auto simp: stop_check_def same_control_def stop_state_def split: option.splits terminal_state.splits)

lemma stop_check_out:
  "fst (stop_check chk c) =
     map_option (\<lambda>r. \<lparr>bt_reason = r, bt_usage = bc_usage c\<rparr>) (option_or (stop_state c) (chk c))"
  by (auto simp: stop_check_def stop_state_def split: option.splits terminal_state.splits)

lemma stop_check_state:
  "stop_state (snd (stop_check chk c)) = option_or (stop_state c) (chk c)"
  by (auto simp: stop_check_def stop_state_def split: option.splits terminal_state.splits)

lemma snd_stop_result [simp]: "snd (stop_result x) = snd x"
  by (cases x rule: stop_result.cases) auto

subsection \<open>The system of a controller and its leases\<close>

record budget_system =
  sy_ctrl :: budget_controller
  sy_leases :: "budget_lease list"

datatype budget_event =
    EvAdmitTurn instant
  | EvAdmitToolCall instant
  | EvRecordCost instant nat
  | EvMergeChild instant budget_usage
  | EvCheckpoint string
  | EvTakeReminder
  | EvExternal budget_usage
  | EvSyncWall instant
  | EvChildLeases instant budget_spec nat
  | EvBackgroundLease instant budget_spec nat
  | EvLeaseTurn nat instant
  | EvLeaseToolCall nat instant
  | EvLeaseCost nat instant nat
  | EvLeaseAttach nat child_budget_reservation
  | EvLeaseSettle nat

definition with_ctrl :: "budget_system \<Rightarrow> budget_controller \<Rightarrow> budget_system" where
  "with_ctrl sy c = sy\<lparr>sy_ctrl := c\<rparr>"

definition granting ::
    "budget_system \<Rightarrow> (lease_error, budget_lease list) result \<times> budget_controller \<Rightarrow> budget_system" where
  "granting sy out =
     (case out of
        (Inl _, c) \<Rightarrow> sy\<lparr>sy_ctrl := c\<rparr>
      | (Inr ls, c) \<Rightarrow> sy\<lparr>sy_ctrl := c, sy_leases := sy_leases sy @ ls\<rparr>)"

definition on_lease :: "nat \<Rightarrow> (budget_lease \<Rightarrow> budget_lease) \<Rightarrow> budget_system \<Rightarrow> budget_system" where
  "on_lease i f sy =
     (if i < length (sy_leases sy) then sy\<lparr>sy_leases := (sy_leases sy)[i := f (sy_leases sy ! i)]\<rparr> else sy)"

fun system_step :: "budget_event \<Rightarrow> budget_system \<Rightarrow> budget_system" where
  "system_step (EvAdmitTurn now) sy = with_ctrl sy (snd (admit_turn now (sy_ctrl sy)))"
| "system_step (EvAdmitToolCall now) sy = with_ctrl sy (snd (admit_tool_call now (sy_ctrl sy)))"
| "system_step (EvRecordCost now k) sy = with_ctrl sy (snd (record_cost_usd_micros now k (sy_ctrl sy)))"
| "system_step (EvMergeChild now u) sy = with_ctrl sy (snd (merge_child_usage now u (sy_ctrl sy)))"
| "system_step (EvCheckpoint i) sy = with_ctrl sy (record_checkpoint i (sy_ctrl sy))"
| "system_step EvTakeReminder sy = with_ctrl sy (snd (take_pending_soft_landing (sy_ctrl sy)))"
| "system_step (EvExternal u) sy = with_ctrl sy (set_external_reservations u (sy_ctrl sy))"
| "system_step (EvSyncWall now) sy = with_ctrl sy (snd (sync_wall_time now (sy_ctrl sy)))"
| "system_step (EvChildLeases now s n) sy =
     (if n \<le> usize_max then granting sy (child_leases now s n (sy_ctrl sy)) else sy)"
| "system_step (EvBackgroundLease now s n) sy =
     granting sy (map_prod (map_sum id (\<lambda>l. [l])) id (background_child_lease now s n (sy_ctrl sy)))"
| "system_step (EvLeaseTurn i now) sy = on_lease i (\<lambda>l. snd (lease_admit_turn now l)) sy"
| "system_step (EvLeaseToolCall i now) sy = on_lease i (\<lambda>l. snd (lease_admit_tool_call now l)) sy"
| "system_step (EvLeaseCost i now k) sy = on_lease i (\<lambda>l. snd (lease_record_cost_usd_micros now k l)) sy"
| "system_step (EvLeaseAttach i r) sy =
     (if i < length (sy_leases sy)
      then (case attach_durable r (sy_leases sy ! i) (bc_reserved (sy_ctrl sy)) of
              (l, pool) \<Rightarrow> sy\<lparr>sy_ctrl := (sy_ctrl sy)\<lparr>bc_reserved := pool\<rparr>,
                              sy_leases := (sy_leases sy)[i := l]\<rparr>)
      else sy)"
| "system_step (EvLeaseSettle i) sy =
     (if i < length (sy_leases sy)
      then (case settle_reservation (sy_leases sy ! i) (bc_reserved (sy_ctrl sy)) of
              (l, pool) \<Rightarrow> sy\<lparr>sy_ctrl := (sy_ctrl sy)\<lparr>bc_reserved := pool\<rparr>,
                              sy_leases := take i (sy_leases sy) @ drop (Suc i) (sy_leases sy)\<rparr>)
      else sy)"

subsection \<open>What a grant is\<close>

definition batch_spec :: "budget_spec \<Rightarrow> budget_spec \<Rightarrow> nat \<Rightarrow> nat \<Rightarrow> budget_spec" where
  "batch_spec remaining child n index =
     \<lparr>max_turns = split_limit 32 (min n u32_max) (max_turns remaining) (max_turns child) index,
      max_tool_calls = split_limit 32 (min n u32_max) (max_tool_calls remaining) (max_tool_calls child) index,
      max_cost_usd_micros =
        split_limit 64 (min n u64_max) (max_cost_usd_micros remaining) (max_cost_usd_micros child) index,
      max_wall_time_ms = intersect_limit_u64 (max_wall_time_ms remaining) (max_wall_time_ms child)\<rparr>"

definition covers :: "budget_spec \<Rightarrow> nat \<Rightarrow> bool" where
  "covers remaining n \<longleftrightarrow>
     is_none_or (max_turns remaining) (\<lambda>a. min n u64_max \<le> a)
     \<and> is_none_or (max_tool_calls remaining) (\<lambda>a. min n u64_max \<le> a)
     \<and> is_none_or (max_cost_usd_micros remaining) (\<lambda>a. min n u64_max \<le> a)"

lemma first_short_None:
  "first_short n [(a, x), (b, y), (d, z)] = None \<longleftrightarrow>
     is_none_or a (\<lambda>a. n \<le> a) \<and> is_none_or b (\<lambda>a. n \<le> a) \<and> is_none_or d (\<lambda>a. n \<le> a)"
  by (auto simp: is_some_and_iff is_none_or_iff not_less)

lemma remaining_update [simp]:
  "remaining_spec_after (c\<lparr>bc_reserved := p\<rparr>) = remaining_spec_after c"
  by (simp add: fun_eq_iff remaining_spec_after_def)

definition synced :: "instant \<Rightarrow> budget_controller \<Rightarrow> budget_controller" where
  "synced now c = snd (stop_if_exhausted (sync_wall_time_inner now c))"

lemma synced_frame:
  "same_control c (synced now c) \<and> usage_le (bc_usage c) (bc_usage (synced now c))
   \<and> turns (bc_usage (synced now c)) = turns (bc_usage c)
   \<and> tool_calls (bc_usage (synced now c)) = tool_calls (bc_usage c)
   \<and> cost_usd_micros (bc_usage (synced now c)) = cost_usd_micros (bc_usage c)
   \<and> (usage_wf (bc_usage c) \<longrightarrow> usage_wf (bc_usage (synced now c)))
   \<and> (stop_state c = Some r \<longrightarrow> stop_state (synced now c) = Some r)"
proof -
  obtain out c' where o: "stop_check (exhausted_dimension False) (sync_wall_time_inner now c) = (out, c')"
    by fastforce
  have "stop_state (sync_wall_time_inner now c) = stop_state c"
    using sync_frame [of c now] by (simp add: stop_state_def)
  with stop_check_frame [OF o, of r] sync_frame [of c now] sync_wf [of c now] o show ?thesis
    by (auto simp: synced_def stop_checks same_control_def)
qed

text \<open>The end of a grant, once the stop check has passed.\<close>

definition refused :: "budget_controller \<Rightarrow> budget_spec \<Rightarrow> nat
    \<Rightarrow> (lease_error, budget_lease list) result \<times> budget_controller" where
  "refused c remaining n =
     (case exhausted_dimension_of remaining (bc_spec c) of
        Some r \<Rightarrow> (Inl (LeaseStop \<lparr>bt_reason = r, bt_usage = bc_usage c\<rparr>), c)
      | None \<Rightarrow>
          (case first_short (min n u64_max)
                  [(max_turns remaining, map_option TurnBudget (max_turns (bc_spec c))),
                   (max_tool_calls remaining, map_option ToolCallBudget (max_tool_calls (bc_spec c))),
                   (max_cost_usd_micros remaining,
                    map_option CostBudget (max_cost_usd_micros (bc_spec c)))] of
             Some (Some r) \<Rightarrow> (Inl (LeaseStop \<lparr>bt_reason = r, bt_usage = bc_usage c\<rparr>), c)
           | _ \<Rightarrow> (Inl (LeasePanic ''finite remaining dimension has a configured reason''), c)))"

lemma child_leases_running:
  assumes "n \<noteq> 0" "validate_spec s = Inr u"
  shows "child_leases now s n c =
    (case stop_if_exhausted (sync_wall_time_inner now c) of
       (Some stop, c) \<Rightarrow> (Inl (LeaseStop stop), c)
     | (None, c) \<Rightarrow>
         (let remaining = remaining_spec_after c (bc_reserved c)
          in if exhausted_dimension_of remaining (bc_spec c) = None \<and> covers remaining n
             then (let eff = map (batch_spec remaining s n) [0..<n]
                   in (Inr (map (lease_new now) eff),
                       c\<lparr>bc_reserved :=
                           foldl (\<lambda>p s. usage_merge p (reserved_additive_usage s)) (bc_reserved c) eff\<rparr>))
             else refused c remaining n))"
proof -
  have short: "first_short (min n u64_max) [(max_turns r, x), (max_tool_calls r, y), (max_cost_usd_micros r, z)]
      = None \<longleftrightarrow> covers r n" for r x y z
    by (simp add: first_short_None covers_def del: first_short.simps)
  then have short_Some: "first_short (min n u64_max)
      [(max_turns r, x), (max_tool_calls r, y), (max_cost_usd_micros r, z)] = Some v \<Longrightarrow> \<not> covers r n"
    for r x y z v by (metis option.distinct(1))
  have min: "(if n \<le> k then n else k) = min n k" for k by (simp add: min_def)
  show ?thesis
    unfolding child_leases_def min Let_def refused_def
    using assms
    by (auto simp: batch_spec_def [abs_def] simp del: first_short.simps dest: short [THEN iffD1] short_Some
        split: option.splits prod.splits)
qed

text \<open>Either a grant leaves the controller as the stop check left it, or it is a full batch.\<close>

lemma child_leases_cases:
  assumes "child_leases now s n c = (out, c')"
  obtains (none) "\<And>ls. out = Inr ls \<Longrightarrow> ls = [] \<and> n = 0" "c' = c \<or> c' = synced now c"
  | (grant) remaining eff where
      "0 < n" "remaining = remaining_spec_after (synced now c) (bc_reserved c)"
      "eff = map (batch_spec remaining s n) [0..<n]" "covers remaining n"
      "exhausted_dimension_of remaining (bc_spec c) = None"
      "validate_spec s = Inr ()"
      "out = Inr (map (lease_new now) eff)" "stop_state (synced now c) = None"
      "c' = (synced now c)\<lparr>bc_reserved :=
         foldl (\<lambda>p s. usage_merge p (reserved_additive_usage s)) (bc_reserved c) eff\<rparr>"
proof -
  let ?c = "synced now c"
  let ?r = "remaining_spec_after ?c (bc_reserved c)"
  obtain stop c1 where sc: "stop_if_exhausted (sync_wall_time_inner now c) = (stop, c1)" by fastforce
  then have c1: "c1 = ?c" by (simp add: synced_def)
  have frame: "bc_reserved ?c = bc_reserved c" "bc_spec ?c = bc_spec c"
    using synced_frame [of c now] by (auto simp: same_control_def)
  show thesis
  proof (cases "n = 0")
    case True
    with assms show thesis by (intro none) (auto simp: child_leases_def)
  next
    case pos: False
    show thesis
    proof (cases "validate_spec s")
      case (Inl e)
      with assms pos show thesis by (intro none) (auto simp: child_leases_def)
    next
      case valid: (Inr u)
      show thesis
      proof (cases stop)
        case (Some st)
        with assms pos valid sc c1 show thesis by (intro none) (auto simp: child_leases_def)
      next
        case running: None
        then have st: "stop_state ?c = None"
          using sc stop_check_out [of "exhausted_dimension False" "sync_wall_time_inner now c"]
            stop_check_state [of "exhausted_dimension False" "sync_wall_time_inner now c"]
          by (auto simp: stop_checks synced_def)
        note unfold = child_leases_running [OF pos valid, of now c, unfolded sc running c1 frame]
        show thesis
        proof (cases "exhausted_dimension_of ?r (bc_spec c) = None \<and> covers ?r n")
          case True
          with assms unfold st pos valid frame show thesis
            by (intro grant [of ?r "map (batch_spec ?r s n) [0..<n]"]) (auto simp: Let_def)
        next
          case False
          with assms unfold frame show thesis
            by (intro none) (auto simp: refused_def Let_def simp del: first_short.simps
                split: option.splits if_splits)
        qed
      qed
    qed
  qed
qed

subsection \<open>Progress of the controller\<close>

definition ctrl_ok :: "budget_controller \<Rightarrow> budget_controller \<Rightarrow> bool" where
  "ctrl_ok c c' \<longleftrightarrow>
     bc_spec c' = bc_spec c \<and> usage_le (bc_usage c) (bc_usage c') \<and> usage_wf (bc_usage c')
     \<and> (\<forall>r. stop_state c = Some r \<longrightarrow> stop_state c' = Some r)"

lemma ctrl_ok_refl: "usage_wf (bc_usage c) \<Longrightarrow> ctrl_ok c c"
  by (simp add: ctrl_ok_def)

lemma ctrl_ok_trans: "ctrl_ok a b \<Longrightarrow> ctrl_ok b c \<Longrightarrow> ctrl_ok a c"
  by (auto simp: ctrl_ok_def intro: usage_le_trans)

lemma ctrl_ok_sync: "usage_wf (bc_usage c) \<Longrightarrow> ctrl_ok c (sync_wall_time_inner now c)"
  using sync_frame [of c now] sync_wf [of c now]
  by (auto simp: ctrl_ok_def same_control_def stop_state_def)

lemma ctrl_ok_stop_check:
  assumes "usage_wf (bc_usage c)"
  shows "ctrl_ok c (snd (stop_check chk c))"
proof -
  obtain out c' where o: "stop_check chk c = (out, c')" by fastforce
  with stop_check_frame [OF o] assms show ?thesis by (auto simp: ctrl_ok_def same_control_def)
qed

lemma ctrl_ok_observe:
  assumes "usage_wf (bc_usage c)"
  shows "ctrl_ok c (observe_inner_turn_soft_landing c)" "ctrl_ok c (observe_cost_soft_landing c)"
  using assms observe_inner_frame [of c] observe_cost_frame [of c]
  by (auto simp: ctrl_ok_def same_control_def stop_state_def)

lemma ctrl_ok_usage:
  "usage_le (bc_usage c) u \<Longrightarrow> usage_wf u \<Longrightarrow> ctrl_ok c (c\<lparr>bc_usage := u\<rparr>)"
  by (simp add: ctrl_ok_def stop_state_def)

lemma ctrl_ok_wf: "ctrl_ok c c' \<Longrightarrow> usage_wf (bc_usage c')"
  by (simp add: ctrl_ok_def)

lemma ctrl_ok_checked:
  assumes "usage_wf (bc_usage c)" "stop_check chk (sync_wall_time_inner now c) = (out, c')"
  shows "ctrl_ok c c'"
  using ctrl_ok_sync [OF assms(1), of now] ctrl_ok_stop_check [of "sync_wall_time_inner now c" chk] assms
  by (auto intro: ctrl_ok_trans dest: ctrl_ok_wf)

lemma admit_turn_ok:
  assumes "usage_wf (bc_usage c)"
  shows "ctrl_ok c (snd (admit_turn now c))"
proof -
  obtain out c' where o: "stop_check (exhausted_dimension False) (sync_wall_time_inner now c) = (out, c')"
    by fastforce
  note ok = ctrl_ok_checked [OF assms o]
  then have wf: "usage_wf (bc_usage c')" by (rule ctrl_ok_wf)
  have "ctrl_ok c' (c'\<lparr>bc_usage := add_turn (bc_usage c')\<rparr>)"
    using wf by (intro ctrl_ok_usage usage_grows usage_ops_wf)
  then have "ctrl_ok c' (observe_inner_turn_soft_landing (c'\<lparr>bc_usage := add_turn (bc_usage c')\<rparr>))"
    by (meson ctrl_ok_observe ctrl_ok_trans ctrl_ok_wf)
  with ok ctrl_ok_trans show ?thesis
    by (auto simp: admit_turn_def stop_checks o split: option.splits)
qed

lemma admit_tool_call_ok:
  assumes "usage_wf (bc_usage c)"
  shows "ctrl_ok c (snd (admit_tool_call now c))"
proof -
  obtain out c' where o: "stop_check (exhausted_dimension True) (sync_wall_time_inner now c) = (out, c')"
    by fastforce
  note ok = ctrl_ok_checked [OF assms o]
  then have "ctrl_ok c' (c'\<lparr>bc_usage := add_tool_call (bc_usage c')\<rparr>)"
    by (intro ctrl_ok_usage usage_grows usage_ops_wf) (auto dest: ctrl_ok_wf)
  with ok ctrl_ok_trans show ?thesis
    by (auto simp: admit_tool_call_def stop_checks o split: option.splits)
qed

text \<open>Recording what was already spent: sync, book, remind, check.\<close>

lemma booked_ok:
  assumes "usage_wf (bc_usage c)" "\<And>u. usage_wf u \<Longrightarrow> usage_le u (f u) \<and> usage_wf (f u)"
    and "c1 = sync_wall_time_inner now c"
  shows "ctrl_ok c (snd (stop_check chk (observe_cost_soft_landing (c1\<lparr>bc_usage := f (bc_usage c1)\<rparr>))))"
proof -
  have 1: "ctrl_ok c c1" using ctrl_ok_sync assms(1,3) by blast
  then have "ctrl_ok c1 (c1\<lparr>bc_usage := f (bc_usage c1)\<rparr>)"
    using assms(2) ctrl_ok_wf by (intro ctrl_ok_usage) blast+
  with 1 show ?thesis
    by (meson ctrl_ok_observe ctrl_ok_stop_check ctrl_ok_trans ctrl_ok_wf)
qed

lemma record_cost_ok:
  "usage_wf (bc_usage c) \<Longrightarrow> ctrl_ok c (snd (record_cost_usd_micros now k c))"
  unfolding record_cost_usd_micros_def Let_def stop_checks snd_stop_result
  by (rule booked_ok) (auto simp: usage_grows usage_ops_wf)

lemma merge_child_ok:
  "usage_wf (bc_usage c) \<Longrightarrow> ctrl_ok c (snd (merge_child_usage now u c))"
  unfolding merge_child_usage_def Let_def stop_checks snd_stop_result
  by (rule booked_ok [where f = "\<lambda>v. usage_merge v (u\<lparr>wall_time_ms := 0\<rparr>)"])
     (auto simp: usage_grows)

lemma sync_wall_time_ok: "usage_wf (bc_usage c) \<Longrightarrow> ctrl_ok c (snd (sync_wall_time now c))"
  unfolding sync_wall_time_def stop_checks snd_stop_result
  by (meson ctrl_ok_stop_check ctrl_ok_sync ctrl_ok_trans ctrl_ok_wf)

lemma ctrl_ok_reserved: "ctrl_ok c c' \<Longrightarrow> ctrl_ok c (c'\<lparr>bc_reserved := p\<rparr>)"
  by (simp add: ctrl_ok_def stop_state_def)

lemma ctrl_ok_synced: "usage_wf (bc_usage c) \<Longrightarrow> ctrl_ok c (synced now c)"
  unfolding synced_def stop_checks by (meson ctrl_ok_stop_check ctrl_ok_sync ctrl_ok_trans ctrl_ok_wf)

lemma child_leases_ok:
  assumes "usage_wf (bc_usage c)"
  shows "ctrl_ok c (snd (child_leases now s n c))"
proof -
  obtain out c' where o: "child_leases now s n c = (out, c')" by fastforce
  show ?thesis
    by (rule child_leases_cases [OF o])
       (use o assms ctrl_ok_refl ctrl_ok_synced ctrl_ok_reserved in auto)
qed

text \<open>A single lease is a batch of one.\<close>

lemma child_lease_batch:
  "child_lease now s c = (case child_leases now s 1 c of
     (Inl e, c') \<Rightarrow> (Inl e, c') | (Inr ls, c') \<Rightarrow>
       (if ls = [] then (Inl (LeasePanic ''one requested child lease''), c') else (Inr (hd ls), c')))"
proof -
  obtain out c' where o: "child_leases now s 1 c = (out, c')" by fastforce
  show ?thesis
    by (rule child_leases_cases [OF o]) (use o in \<open>auto simp: child_lease_def split: sum.splits\<close>)
qed

lemma snd_child_lease: "snd (child_lease now s c) = snd (child_leases now s 1 c)"
  by (auto simp: child_lease_batch split: prod.splits sum.splits)

lemma background_ok:
  assumes "usage_wf (bc_usage c)"
  shows "ctrl_ok c (snd (background_child_lease now s n c))"
  using assms child_leases_ok
  by (auto simp: background_child_lease_def Let_def snd_child_lease ctrl_ok_refl split: option.splits)

lemma ctrl_ok_other:
  assumes "usage_wf (bc_usage c)"
  shows "ctrl_ok c (record_checkpoint i c)" "ctrl_ok c (snd (take_pending_soft_landing c))"
    "ctrl_ok c (set_external_reservations u c)"
  using assms
  by (auto simp: record_checkpoint_def take_pending_soft_landing_def set_external_reservations_def
      ctrl_ok_def stop_state_def)

lemma snd_granting: "sy_ctrl (granting sy out) = snd out"
  by (auto simp: granting_def split: prod.splits sum.splits)

lemma system_step_ok:
  assumes "usage_wf (bc_usage (sy_ctrl sy))"
  shows "ctrl_ok (sy_ctrl sy) (sy_ctrl (system_step ev sy))"
  using assms
  by (cases ev)
     (auto simp: with_ctrl_def admit_turn_ok admit_tool_call_ok record_cost_ok merge_child_ok
        sync_wall_time_ok child_leases_ok background_ok snd_granting on_lease_def ctrl_ok_other
        ctrl_ok_refl ctrl_ok_reserved split: prod.splits)

definition ctrl_inv :: "budget_system \<Rightarrow> bool" where
  "ctrl_inv sy \<longleftrightarrow> usage_wf (bc_usage (sy_ctrl sy))"

interpretation metered: metered_machine system_step ctrl_inv "\<lambda>sy. bc_usage (sy_ctrl sy)" usage_le
proof
  fix s e r r' r''
  show "ctrl_inv s \<Longrightarrow> ctrl_inv (system_step e s)"
    using system_step_ok by (auto simp: ctrl_inv_def dest: ctrl_ok_wf)
  show "usage_le r r" by simp
  show "usage_le r r' \<Longrightarrow> usage_le r' r'' \<Longrightarrow> usage_le r r''" by (rule usage_le_trans)
  show "ctrl_inv s \<Longrightarrow> usage_le (bc_usage (sy_ctrl s)) (bc_usage (sy_ctrl (system_step e s)))"
    using system_step_ok by (auto simp: ctrl_inv_def ctrl_ok_def)
qed

interpretation latched: latching_machine system_step ctrl_inv "\<lambda>sy. stop_state (sy_ctrl sy)"
  by unfold_locales (use system_step_ok in \<open>auto simp: ctrl_inv_def ctrl_ok_def\<close>)

subsection \<open>One additive dimension of the budget\<close>

lemma sum_first: "(\<Sum>i \<leftarrow> [0..<n]. if i < k then 1 else 0) = min k (n :: nat)"
  by (induction n) auto

lemma sum_shares:
  assumes "0 < n"
  shows "(\<Sum>i \<leftarrow> [0..<n]. a div n + (if i < a mod n then 1 else 0)) = (a :: nat)"
proof -
  have "(\<Sum>i \<leftarrow> [0..<n]. a div n + (if i < a mod n then 1 else 0)) = n * (a div n) + min (a mod n) n"
    by (simp add: sum_list_addf sum_list_triv sum_first)
  also have "min (a mod n) n = a mod n" using assms by (simp add: min_absorb1 less_imp_le)
  finally show ?thesis by simp
qed

text \<open>The reserved ceiling of a lease in one dimension, while the pool still holds it.\<close>

definition held :: "(budget_spec \<Rightarrow> nat option) \<Rightarrow> budget_lease \<Rightarrow> nat" where
  "held cap l = (if bl_settled l \<or> \<not> bl_reservations l then 0 else unwrap_or (cap (bl_effective_spec l)) 0)"

definition outstanding :: "(budget_spec \<Rightarrow> nat option) \<Rightarrow> budget_lease list \<Rightarrow> nat" where
  "outstanding cap ls = (\<Sum>l \<leftarrow> ls. held cap l)"

subsection \<open>What only grants and settlements change\<close>

lemma reserved_frames [simp]:
  "bc_reserved (snd (stop_check chk c)) = bc_reserved c" "bc_spec (snd (stop_check chk c)) = bc_spec c"
  "bc_reserved (observe_inner_turn_soft_landing c) = bc_reserved c"
  "bc_spec (observe_inner_turn_soft_landing c) = bc_spec c"
  "bc_reserved (observe_cost_soft_landing c) = bc_reserved c"
  "bc_spec (observe_cost_soft_landing c) = bc_spec c"
  "bc_reserved (sync_wall_time_inner now c) = bc_reserved c"
  "bc_spec (sync_wall_time_inner now c) = bc_spec c"
  using stop_check_frame [of chk c "fst (stop_check chk c)" "snd (stop_check chk c)"]
    observe_inner_frame [of c] observe_cost_frame [of c] sync_frame [of c now]
  by (auto simp: same_control_def)

lemma op_frames [simp]:
  "bc_reserved (snd (admit_turn now c)) = bc_reserved c" "bc_spec (snd (admit_turn now c)) = bc_spec c"
  "bc_reserved (snd (admit_tool_call now c)) = bc_reserved c" "bc_spec (snd (admit_tool_call now c)) = bc_spec c"
  "bc_reserved (snd (record_cost_usd_micros now k c)) = bc_reserved c"
  "bc_spec (snd (record_cost_usd_micros now k c)) = bc_spec c"
  "bc_reserved (snd (merge_child_usage now u c)) = bc_reserved c"
  "bc_spec (snd (merge_child_usage now u c)) = bc_spec c"
  "bc_reserved (snd (sync_wall_time now c)) = bc_reserved c" "bc_spec (snd (sync_wall_time now c)) = bc_spec c"
proof -
  obtain o1 c1 where 1: "stop_check (exhausted_dimension False) (sync_wall_time_inner now c) = (o1, c1)"
    by fastforce
  obtain o2 c2 where 2: "stop_check (exhausted_dimension True) (sync_wall_time_inner now c) = (o2, c2)"
    by fastforce
  have "bc_reserved c1 = bc_reserved c \<and> bc_spec c1 = bc_spec c \<and> bc_reserved c2 = bc_reserved c
      \<and> bc_spec c2 = bc_spec c"
    using reserved_frames(1,2) [of "exhausted_dimension False" "sync_wall_time_inner now c"]
      reserved_frames(1,2) [of "exhausted_dimension True" "sync_wall_time_inner now c"] 1 2 by simp
  with 1 2 show "bc_reserved (snd (admit_turn now c)) = bc_reserved c" "bc_spec (snd (admit_turn now c)) = bc_spec c"
    "bc_reserved (snd (admit_tool_call now c)) = bc_reserved c" "bc_spec (snd (admit_tool_call now c)) = bc_spec c"
    by (auto simp: admit_turn_def admit_tool_call_def stop_checks split: option.splits)
qed (simp_all add: record_cost_usd_micros_def merge_child_usage_def sync_wall_time_def Let_def stop_checks)

text \<open>Lease operations change only the lease's own usage.\<close>

definition same_lease :: "budget_lease \<Rightarrow> budget_lease \<Rightarrow> bool" where
  "same_lease l l' \<longleftrightarrow>
     bl_effective_spec l' = bl_effective_spec l \<and> bl_settled l' = bl_settled l
     \<and> bl_reservations l' = bl_reservations l"

lemma lease_ops_frame:
  "same_lease l (snd (lease_admit_turn now l))" "same_lease l (snd (lease_admit_tool_call now l))"
  "same_lease l (snd (lease_record_cost_usd_micros now k l))"
  by (auto simp: same_lease_def lease_admit_turn_def lease_admit_tool_call_def
      lease_record_cost_usd_micros_def lease_sync_wall_time_def lease_result_def
      lease_sync_wall_time_inner_def Let_def split: option.splits)

lemma held_same: "same_lease l l' \<Longrightarrow> held cap l' = held cap l"
  by (simp add: same_lease_def held_def)

lemmas held_ops [simp] = lease_ops_frame [THEN held_same]

lemma attach_durable_eq:
  "attach_durable r l p = ((fst (settle_reservation l p))\<lparr>bl_durable := Some r\<rparr>, snd (settle_reservation l p))"
  by (simp add: attach_durable_def split: prod.splits)

lemma held_settled: "held cap ((fst (settle_reservation l p))\<lparr>bl_durable := d\<rparr>) = 0"
  by (auto simp: settle_reservation_def held_def Let_def)

lemma outstanding_update:
  assumes "i < length ls"
  shows "outstanding cap (ls[i := l]) = outstanding cap ls + held cap l - held cap (ls ! i)"
  using assms by (simp add: outstanding_def map_update sum_list_update)

lemma outstanding_remove:
  assumes "i < length ls"
  shows "outstanding cap ls = outstanding cap (take i ls @ drop (Suc i) ls) + held cap (ls ! i)"
proof -
  have "outstanding cap ls = outstanding cap (take i ls @ ls ! i # drop (Suc i) ls)"
    using assms by (simp add: id_take_nth_drop [symmetric])
  then show ?thesis by (simp add: outstanding_def)
qed

text \<open>A background lease is a batch of one with a smaller request.\<close>

definition background_spec :: "nat \<Rightarrow> budget_spec \<Rightarrow> budget_controller \<Rightarrow> budget_spec" where
  "background_spec k s c =
     (let r = remaining_spec_after c (bc_reserved c)
      in \<lparr>max_turns = background_split k (max_turns r) (max_turns (bc_spec c)) (max_turns s),
          max_tool_calls =
            background_split k (max_tool_calls r) (max_tool_calls (bc_spec c)) (max_tool_calls s),
          max_cost_usd_micros =
            background_split k (max_cost_usd_micros r) (max_cost_usd_micros (bc_spec c))
              (max_cost_usd_micros s),
          max_wall_time_ms = max_wall_time_ms r\<rparr>)"

lemma background_unfold:
  "background_child_lease now s k c =
     (case exhausted_dimension_of (background_spec k s c) (bc_spec c) of
        Some r \<Rightarrow> (Inl (LeaseStop \<lparr>bt_reason = r, bt_usage = bc_usage c\<rparr>), c)
      | None \<Rightarrow> child_lease now (background_spec k s c) c)"
  unfolding background_child_lease_def background_spec_def Let_def by (rule refl)

lemma exhausted_of_None: "exhausted_dimension_of r s = None \<longleftrightarrow> validate_spec r = Inr ()"
  by (simp add: exhausted_dimension_of_def validate_spec_def)

lemma first_short_Some:
  "first_short n [(a, x), (b, y), (d, z)] = Some v \<Longrightarrow>
     v = x \<and> a \<noteq> None \<or> v = y \<and> b \<noteq> None \<or> v = z \<and> d \<noteq> None"
  by (auto simp: is_some_and_iff split: if_splits)

lemma refused_no_panic:
  assumes "\<not> (exhausted_dimension_of (remaining_spec_after c p) (bc_spec c) = None
                \<and> covers (remaining_spec_after c p) n)"
  shows "fst (refused c (remaining_spec_after c p) n) \<noteq> Inl (LeasePanic msg)"
proof (cases "exhausted_dimension_of (remaining_spec_after c p) (bc_spec c)")
  case None
  let ?r = "remaining_spec_after c p"
  let ?short = "first_short (min n u64_max)
      [(max_turns ?r, map_option TurnBudget (max_turns (bc_spec c))),
       (max_tool_calls ?r, map_option ToolCallBudget (max_tool_calls (bc_spec c))),
       (max_cost_usd_micros ?r, map_option CostBudget (max_cost_usd_micros (bc_spec c)))]"
  have "?short \<noteq> None"
    using assms None by (simp add: first_short_None covers_def del: first_short.simps)
  then obtain v where v: "?short = Some v" by blast
  have "v \<noteq> None"
    using first_short_Some [OF v] by (auto simp: remaining_spec_after_def Let_def)
  with None v show ?thesis by (auto simp: refused_def simp del: first_short.simps)
qed (simp add: refused_def)

lemma child_leases_no_panic:
  assumes "validate_spec s = Inr ()"
  shows "fst (child_leases now s n c) \<noteq> Inl (LeasePanic msg)"
proof (cases "n = 0")
  case False
  with child_leases_running [OF False assms] refused_no_panic [of _ _ n msg] show ?thesis
    by (auto simp: Let_def split: prod.splits option.splits)
qed (simp add: child_leases_def)

lemma child_lease_no_panic:
  assumes "validate_spec s = Inr ()"
  shows "fst (child_lease now s c) \<noteq> Inl (LeasePanic msg)"
proof -
  obtain out c' where o: "child_leases now s 1 c = (out, c')" by fastforce
  have "out \<noteq> Inr []"
  proof (cases "stop_if_exhausted (sync_wall_time_inner now c)")
    case (Pair st c1)
    with o child_leases_running [OF one_neq_zero assms, of now c] show ?thesis
      by (auto simp: Let_def refused_def split: option.splits if_splits)
  qed
  with o child_leases_no_panic [OF assms, of now 1 c msg] show ?thesis
    by (auto simp: child_lease_def split: sum.splits)
qed

lemma granting_background:
  "granting sy (map_prod (map_sum id (\<lambda>l. [l])) id (background_child_lease now s n (sy_ctrl sy))) = sy
   \<or> (\<exists>s'. granting sy (map_prod (map_sum id (\<lambda>l. [l])) id (background_child_lease now s n (sy_ctrl sy)))
          = granting sy (child_leases now s' 1 (sy_ctrl sy)))"
proof -
  have one: "granting sy (map_prod (map_sum id (\<lambda>l. [l])) id (child_lease now s' (sy_ctrl sy)))
      = granting sy (child_leases now s' 1 (sy_ctrl sy))" for s'
  proof -
    obtain out c' where o: "child_leases now s' 1 (sy_ctrl sy) = (out, c')" by fastforce
    show ?thesis
      by (rule child_leases_cases [OF o])
         (use o in \<open>auto simp: child_lease_def granting_def split: sum.splits\<close>)
  qed
  show ?thesis
    by (auto simp: background_unfold one granting_def [of sy "(Inl _, _)"] split: option.splits)
qed

subsection \<open>The pool in one dimension\<close>

locale budget_axis =
  fixes axis :: "budget_usage \<Rightarrow> nat"
    and cap :: "budget_spec \<Rightarrow> nat option"
    and w :: nat
  assumes width: "w \<le> 64"
    and axis_merge: "axis (usage_merge u v) = sat_add (2 ^ w - 1) (axis u) (axis v)"
    and axis_reserved: "axis (reserved_additive_usage s) = unwrap_or (cap s) 0"
    and axis_synced: "axis (bc_usage (synced now c)) = axis (bc_usage c)"
    and cap_remaining: "cap (remaining_spec_after c p) =
          map_option (\<lambda>m. m - axis (bc_usage c) - axis (usage_merge p (bc_external_reserved c)))
            (cap (bc_spec c))"
    and cap_batch: "cap (batch_spec r s n i) = split_limit w (min n (2 ^ w - 1)) (cap r) (cap s) i"
    and cap_covers: "covers r n \<Longrightarrow> cap r = Some a \<Longrightarrow> min n u64_max \<le> a"
    and cap_valid: "validate_spec s = Inr () \<Longrightarrow> cap s \<noteq> Some 0"
    and cap_background: "cap (background_spec k s c) =
          background_split k (cap (remaining_spec_after c (bc_reserved c))) (cap (bc_spec c)) (cap s)"
    and axis_settle: "axis (snd (settle_reservation l p)) = axis p - held cap l"
begin

lemma width_max: "2 ^ w - 1 \<le> u64_max"
proof -
  have "(2 :: nat) ^ w \<le> 2 ^ 64" using width by (intro power_increasing) auto
  then show ?thesis by (simp add: u64_max_def)
qed

lemma foldl_reserved:
  "axis p \<le> 2 ^ w - 1 \<Longrightarrow>
   axis (foldl (\<lambda>p s. usage_merge p (reserved_additive_usage s)) p eff)
   = min (2 ^ w - 1) (axis p + (\<Sum>s \<leftarrow> eff. unwrap_or (cap s) 0))"
proof (induction eff arbitrary: p)
  case (Cons s eff)
  have "axis (usage_merge p (reserved_additive_usage s)) \<le> 2 ^ w - 1" by (simp add: axis_merge)
  from Cons.IH [OF this] show ?case by (auto simp: axis_merge axis_reserved sat_add_def min_def)
qed simp

text \<open>The ceilings of a batch never add up to more than what remains.\<close>

lemma batch_sum:
  assumes "0 < n" "cap r = Some a" "n \<le> a" "a \<le> 2 ^ w - 1"
  shows "(\<Sum>i \<leftarrow> [0..<n]. unwrap_or (cap (batch_spec r s n i)) 0) \<le> a"
proof -
  have "unwrap_or (cap (batch_spec r s n i)) 0 \<le> a div n + (if i < a mod n then 1 else 0)"
    if "i < n" for i
  proof -
    have "min n (2 ^ w - 1) = n" "i mod 2 ^ w = i" using assms that by auto
    with assms(2) show ?thesis
      by (auto simp: cap_batch split_limit_def Let_def split: option.splits)
  qed
  then have "(\<Sum>i \<leftarrow> [0..<n]. unwrap_or (cap (batch_spec r s n i)) 0)
      \<le> (\<Sum>i \<leftarrow> [0..<n]. a div n + (if i < a mod n then 1 else 0))"
    by (intro sum_list_mono) auto
  with sum_shares [OF assms(1)] show ?thesis by simp
qed

text \<open>The pool is what the outstanding leases hold, and no more than the limit.\<close>

definition pool_inv :: "budget_system \<Rightarrow> bool" where
  "pool_inv sy \<longleftrightarrow>
     (\<forall>m. cap (bc_spec (sy_ctrl sy)) = Some m \<longrightarrow> m \<le> 2 ^ w - 1
        \<and> axis (bc_reserved (sy_ctrl sy)) = outstanding cap (sy_leases sy)
        \<and> outstanding cap (sy_leases sy) \<le> m)"

lemma outstanding_simps [simp]:
  "outstanding cap (ls @ ls') = outstanding cap ls + outstanding cap ls'"
  "outstanding cap [] = 0" "outstanding cap [l] = held cap l"
  by (simp_all add: outstanding_def)

lemma outstanding_new:
  "outstanding cap (map (lease_new now) eff) = (\<Sum>s \<leftarrow> eff. unwrap_or (cap s) 0)"
  by (simp add: outstanding_def held_def lease_new_def o_def)

text \<open>A grant fits: usage, external reservations and all outstanding leases stay within the limit.\<close>

lemma grant_fits:
  assumes "child_leases now s n c = (Inr ls, c')" "0 < n" "cap (bc_spec c) = Some m" "m \<le> 2 ^ w - 1"
    and "axis (bc_reserved c) \<le> m" "n \<le> usize_max"
  shows "axis (bc_usage c') + axis (bc_external_reserved c') + axis (bc_reserved c') \<le> m \<or> ls = []"
    and "axis (bc_reserved c') = axis (bc_reserved c) + outstanding cap ls"
    and "axis (bc_reserved c') \<le> m"
    and "cap (bc_spec c') = Some m"
proof -
  have *: "(axis (bc_usage c') + axis (bc_external_reserved c') + axis (bc_reserved c') \<le> m \<or> ls = [])
      \<and> axis (bc_reserved c') = axis (bc_reserved c) + outstanding cap ls \<and> axis (bc_reserved c') \<le> m
      \<and> cap (bc_spec c') = Some m"
  proof (rule child_leases_cases [OF assms(1)])
    assume "\<And>ls'. Inr ls = Inr ls' \<Longrightarrow> ls' = [] \<and> n = 0" "c' = c \<or> c' = synced now c"
    with assms(3,5) synced_frame [of c now] show ?thesis by (auto simp: same_control_def)
  next
    fix remaining eff
    assume g: "remaining = remaining_spec_after (synced now c) (bc_reserved c)"
      "eff = map (batch_spec remaining s n) [0..<n]" "covers remaining n"
      "Inr ls = Inr (map (lease_new now) eff)"
      "c' = (synced now c)\<lparr>bc_reserved :=
         foldl (\<lambda>p s. usage_merge p (reserved_additive_usage s)) (bc_reserved c) eff\<rparr>"
    let ?used = "axis (bc_usage c)" and ?pool = "axis (bc_reserved c)"
    let ?ext = "axis (bc_external_reserved c)"
    let ?sum = "\<Sum>s \<leftarrow> eff. unwrap_or (cap s) 0"
    have frame: "bc_spec (synced now c) = bc_spec c" "bc_external_reserved (synced now c) = bc_external_reserved c"
      using synced_frame [of c now] by (auto simp: same_control_def)
    let ?a = "m - ?used - min (2 ^ w - 1) (?pool + ?ext)"
    have a: "cap remaining = Some ?a"
      by (simp add: g(1) cap_remaining frame assms(3) axis_synced axis_merge sat_add_def)
    have "?a \<le> 2 ^ w - 1" using assms(4) by simp
    moreover have "min n u64_max \<le> ?a" using cap_covers [OF g(3) a] .
    ultimately have n: "n \<le> ?a" using assms(6) by simp
    have "?sum \<le> ?a"
      using batch_sum [OF assms(2) a n, of s] \<open>?a \<le> 2 ^ w - 1\<close> by (simp add: g(2) o_def)
    with n assms(2,4) have fits: "?used + ?ext + ?pool + ?sum \<le> m"
      by (auto simp: min_def split: if_splits)
    then have "axis (bc_reserved c') = ?pool + ?sum"
      using foldl_reserved [of "bc_reserved c" eff] assms(4) by (simp add: g(5))
    moreover have "outstanding cap ls = ?sum" using g(4) by (simp add: outstanding_new)
    ultimately show ?thesis using fits assms(3) by (simp add: g(5) frame axis_synced)
  qed
  show "axis (bc_usage c') + axis (bc_external_reserved c') + axis (bc_reserved c') \<le> m \<or> ls = []"
    and "axis (bc_reserved c') = axis (bc_reserved c) + outstanding cap ls"
    and "axis (bc_reserved c') \<le> m" and "cap (bc_spec c') = Some m"
    using * by blast+
qed

lemma granting_pool:
  assumes "pool_inv sy" "n \<le> usize_max"
  shows "pool_inv (granting sy (child_leases now s n (sy_ctrl sy)))"
proof -
  obtain out c' where o: "child_leases now s n (sy_ctrl sy) = (out, c')" by fastforce
  have quiet: "bc_spec c' = bc_spec (sy_ctrl sy) \<and> bc_reserved c' = bc_reserved (sy_ctrl sy)"
    if "out = Inl e \<or> out = Inr []" for e
    using o synced_frame [of "sy_ctrl sy" now] that
    by (auto elim!: child_leases_cases simp: same_control_def)
  show ?thesis
  proof (cases out)
    case (Inl e)
    with quiet [of e] assms(1) o show ?thesis by (simp add: granting_def pool_inv_def)
  next
    case (Inr ls)
    show ?thesis
    proof (cases "n = 0")
      case True
      with o have "ls = []" "c' = sy_ctrl sy" using Inr by (auto simp: child_leases_def)
      with assms(1) o Inr show ?thesis by (simp add: granting_def pool_inv_def)
    next
      case False
      have "bc_spec c' = bc_spec (sy_ctrl sy)"
        using o synced_frame [of "sy_ctrl sy" now] by (auto elim!: child_leases_cases simp: same_control_def)
      with grant_fits [OF o [unfolded Inr]] False assms o Inr show ?thesis
        by (auto simp: granting_def pool_inv_def)
    qed
  qed
qed

lemma step_pool:
  assumes "pool_inv sy"
  shows "pool_inv (system_step ev sy)"
proof (cases ev)
  case (EvChildLeases now s n)
  with granting_pool assms show ?thesis by simp
next
  case (EvBackgroundLease now s n)
  have "1 \<le> usize_max" by (simp add: u64_max_def)
  with EvBackgroundLease granting_pool [OF assms] granting_background [of sy now s n] assms
  show ?thesis by auto
next
  case (EvLeaseAttach i r)
  with assms axis_settle outstanding_remove [of i "sy_leases sy" cap] show ?thesis
    by (auto simp: pool_inv_def attach_durable_eq outstanding_update held_settled)
next
  case (EvLeaseSettle i)
  with assms axis_settle [of "sy_leases sy ! i" "bc_reserved (sy_ctrl sy)"] outstanding_remove [of i "sy_leases sy" cap] show ?thesis
    by (auto simp: pool_inv_def split: prod.splits)
qed (use assms lease_ops_frame held_same in \<open>auto simp: pool_inv_def with_ctrl_def on_lease_def
      outstanding_update record_checkpoint_def take_pending_soft_landing_def set_external_reservations_def\<close>)

text \<open>A background grant keeps a tenth of the limit for the parent.\<close>

lemma background_fits:
  assumes "background_child_lease now s k c = (Inr l, c')" "cap (bc_spec c) = Some m" "m \<le> 2 ^ w - 1"
    and "axis (bc_reserved c) \<le> m"
  shows "axis (bc_usage c') + axis (bc_external_reserved c') + axis (bc_reserved c') + div_ceil m 10 \<le> m"
proof -
  let ?s = "background_spec k s c"
  have ex: "validate_spec ?s = Inr ()" and cl: "child_lease now ?s c = (Inr l, c')"
    using assms(1) by (auto simp: background_unfold exhausted_of_None split: option.splits)
  then have o: "child_leases now ?s 1 c = (Inr [l], c')"
  proof -
    obtain out d where o: "child_leases now ?s 1 c = (out, d)" by fastforce
    show ?thesis
      by (rule child_leases_cases [OF o]) (use o cl in \<open>auto simp: child_lease_def split: sum.splits if_splits\<close>)
  qed
  let ?used = "axis (bc_usage c)" and ?p = "axis (bc_reserved c)" and ?e = "axis (bc_external_reserved c)"
  let ?a = "m - ?used - min (2 ^ w - 1) (?p + ?e)"
  let ?b = "background_split k (Some ?a) (Some m) (cap s)"
  have frame: "bc_spec (synced now c) = bc_spec c" "bc_external_reserved (synced now c) = bc_external_reserved c"
    using synced_frame [of c now] by (auto simp: same_control_def)
  have a: "cap (remaining_spec_after (synced now c) (bc_reserved c)) = Some ?a"
    "cap (remaining_spec_after c (bc_reserved c)) = Some ?a"
    by (simp_all add: cap_remaining frame assms(2) axis_synced axis_merge sat_add_def)
  have b: "cap ?s = ?b" by (simp add: cap_background a assms(2))
  have le: "unwrap_or ?b 0 \<le> ?a - div_ceil m 10"
    by (auto simp: background_split_def Let_def div_le_dividend min_def split: option.splits
        intro: order_trans [OF div_le_dividend] order_trans)
  have new: "1 \<le> ?a \<and> cap (bl_effective_spec l) = split_limit w (min 1 (2 ^ w - 1)) (Some ?a) ?b 0
      \<and> held cap l = unwrap_or (cap (bl_effective_spec l)) 0"
  proof (rule child_leases_cases [OF o])
    fix r eff
    assume g: "r = remaining_spec_after (synced now c) (bc_reserved c)"
      "eff = map (batch_spec r ?s 1) [0..<1]" "covers r 1" "Inr [l] = Inr (map (lease_new now) eff)"
    have "min 1 u64_max \<le> ?a" using cap_covers [OF g(3)] g(1) a(1) by simp
    then have "1 \<le> ?a" by (simp add: u64_max_def)
    with g a(1) b show ?thesis by (simp add: lease_new_def held_def cap_batch)
  qed auto
  obtain A where A: "A = ?a" by blast
  obtain b0 where b0: "?b = Some b0" by (simp add: background_split_def Let_def)
  have "held cap l \<le> b0" using new unfolding b0 by (simp add: split_limit_def Let_def)
  moreover have "1 \<le> b0" using cap_valid [OF ex] b b0 by (cases b0) auto
  moreover have "axis (bc_reserved c') = ?p + held cap l"
    using grant_fits(2) [OF o _ assms(2-4)] by (simp add: u64_max_def)
  moreover have "axis (bc_usage c') = ?used \<and> axis (bc_external_reserved c') = ?e"
    using o frame axis_synced by (auto elim!: child_leases_cases)
  moreover have "b0 \<le> A - div_ceil m 10" using le unfolding b0 A by simp
  moreover have "A \<le> m - ?used - (?p + ?e)" "1 \<le> A"
    using new assms(3) unfolding A by (auto simp: min_def)
  ultimately show ?thesis by simp
qed

end

interpretation turn_axis: budget_axis turns max_turns 32
proof
  show "covers r n \<Longrightarrow> max_turns r = Some a \<Longrightarrow> min n u64_max \<le> a" for r n a
    by (simp add: covers_def)
qed (auto simp: usage_merge_def u32_max_def reserved_additive_usage_def synced_frame remaining_spec_after_def
    Let_def batch_spec_def background_spec_def settle_reservation_def held_def validate_spec_def
    split: if_splits)

interpretation tool_axis: budget_axis tool_calls max_tool_calls 32
proof
  show "covers r n \<Longrightarrow> max_tool_calls r = Some a \<Longrightarrow> min n u64_max \<le> a" for r n a
    by (simp add: covers_def)
qed (auto simp: usage_merge_def u32_max_def reserved_additive_usage_def synced_frame remaining_spec_after_def
    Let_def batch_spec_def background_spec_def settle_reservation_def held_def validate_spec_def
    split: if_splits)

interpretation cost_axis: budget_axis cost_usd_micros max_cost_usd_micros 64
proof
  show "covers r n \<Longrightarrow> max_cost_usd_micros r = Some a \<Longrightarrow> min n u64_max \<le> a" for r n a
    by (simp add: covers_def)
qed (auto simp: usage_merge_def u64_max_def reserved_additive_usage_def synced_frame remaining_spec_after_def
    Let_def batch_spec_def background_spec_def settle_reservation_def held_def validate_spec_def
    split: if_splits)

subsection \<open>Reachable systems\<close>

definition system_new :: "instant \<Rightarrow> budget_spec \<Rightarrow> budget_system" where
  "system_new now s = \<lparr>sy_ctrl = controller_new now s, sy_leases = []\<rparr>"

definition reach :: "instant \<Rightarrow> budget_spec \<Rightarrow> budget_event list \<Rightarrow> budget_system" where
  "reach now s evs = fold system_step evs (system_new now s)"

interpretation turn_pool: guarded_machine system_step turn_axis.pool_inv
  by unfold_locales (rule turn_axis.step_pool)

interpretation tool_pool: guarded_machine system_step tool_axis.pool_inv
  by unfold_locales (rule tool_axis.step_pool)

interpretation cost_pool: guarded_machine system_step cost_axis.pool_inv
  by unfold_locales (rule cost_axis.step_pool)

lemma reach_pools:
  assumes "spec_wf s"
  shows "turn_axis.pool_inv (reach now s evs)" "tool_axis.pool_inv (reach now s evs)"
    "cost_axis.pool_inv (reach now s evs)"
proof -
  have "turn_axis.pool_inv (system_new now s)" "tool_axis.pool_inv (system_new now s)"
    "cost_axis.pool_inv (system_new now s)"
    using assms
    by (auto simp: turn_axis.pool_inv_def tool_axis.pool_inv_def cost_axis.pool_inv_def system_new_def
        controller_new_def spec_wf_def option_filter_def zero_usage_def u32_max_def u64_max_def
        split: option.splits if_splits)
  then show "turn_axis.pool_inv (reach now s evs)" "tool_axis.pool_inv (reach now s evs)"
    "cost_axis.pool_inv (reach now s evs)"
    unfolding reach_def by (simp_all add: turn_pool.run_inv tool_pool.run_inv cost_pool.run_inv)
qed

lemma reach_ctrl_inv: "ctrl_inv (reach now s evs)"
proof -
  have "ctrl_inv (system_new now s)"
    by (simp add: ctrl_inv_def system_new_def controller_new_def usage_wf_def zero_usage_def)
  then show ?thesis unfolding reach_def by (rule metered.run_inv)
qed

lemma reach_spec: "bc_spec (sy_ctrl (reach now s evs)) = bc_spec (controller_new now s)"
proof (induction evs rule: rev_induct)
  case (snoc ev evs)
  have "usage_wf (bc_usage (sy_ctrl (reach now s evs)))" using reach_ctrl_inv by (simp add: ctrl_inv_def)
  from system_step_ok [OF this, of ev] snoc show ?case by (simp add: reach_def ctrl_ok_def)
qed (simp add: reach_def system_new_def)

subsection \<open>Checkpoints along a run\<close>

definition checkpoints :: "budget_event list \<Rightarrow> string list" where
  "checkpoints evs = List.map_filter (\<lambda>ev. case ev of EvCheckpoint i \<Rightarrow> Some i | _ \<Rightarrow> None) evs"

lemma same_control_checkpoint: "same_control c c' \<Longrightarrow> bc_checkpoint_id c' = bc_checkpoint_id c"
  by (simp add: same_control_def)

lemma checkpoint_frames [simp]:
  "bc_checkpoint_id (snd (stop_check chk c)) = bc_checkpoint_id c"
  "bc_checkpoint_id (observe_inner_turn_soft_landing c) = bc_checkpoint_id c"
  "bc_checkpoint_id (observe_cost_soft_landing c) = bc_checkpoint_id c"
  "bc_checkpoint_id (sync_wall_time_inner now c) = bc_checkpoint_id c"
  using stop_check_frame [of chk c "fst (stop_check chk c)" "snd (stop_check chk c)"]
    observe_inner_frame [of c] observe_cost_frame [of c] sync_frame [of c now]
  by (auto simp: same_control_def)

lemma checkpoint_ops [simp]:
  "bc_checkpoint_id (snd (admit_turn now c)) = bc_checkpoint_id c"
  "bc_checkpoint_id (snd (admit_tool_call now c)) = bc_checkpoint_id c"
  "bc_checkpoint_id (snd (record_cost_usd_micros now k c)) = bc_checkpoint_id c"
  "bc_checkpoint_id (snd (merge_child_usage now u c)) = bc_checkpoint_id c"
  "bc_checkpoint_id (snd (sync_wall_time now c)) = bc_checkpoint_id c"
  "bc_checkpoint_id (snd (child_leases now s n c)) = bc_checkpoint_id c"
  "bc_checkpoint_id (snd (background_child_lease now s n c)) = bc_checkpoint_id c"
proof -
  obtain o1 c1 where 1: "stop_check (exhausted_dimension False) (sync_wall_time_inner now c) = (o1, c1)"
    by fastforce
  obtain o2 c2 where 2: "stop_check (exhausted_dimension True) (sync_wall_time_inner now c) = (o2, c2)"
    by fastforce
  have "bc_checkpoint_id c1 = bc_checkpoint_id c \<and> bc_checkpoint_id c2 = bc_checkpoint_id c"
    using checkpoint_frames(1) [of "exhausted_dimension False" "sync_wall_time_inner now c"]
      checkpoint_frames(1) [of "exhausted_dimension True" "sync_wall_time_inner now c"] 1 2 by simp
  with 1 2 show "bc_checkpoint_id (snd (admit_turn now c)) = bc_checkpoint_id c"
    "bc_checkpoint_id (snd (admit_tool_call now c)) = bc_checkpoint_id c"
    by (auto simp: admit_turn_def admit_tool_call_def stop_checks split: option.splits)
  show *: "bc_checkpoint_id (snd (child_leases now s n c)) = bc_checkpoint_id c" for s n
  proof -
    obtain out c' where o: "child_leases now s n c = (out, c')" by fastforce
    show ?thesis
      by (rule child_leases_cases [OF o]) (use o synced_frame [of c now] in \<open>auto simp: same_control_def\<close>)
  qed
  show "bc_checkpoint_id (snd (background_child_lease now s n c)) = bc_checkpoint_id c"
    by (simp add: background_unfold snd_child_lease * split: option.splits)
qed (simp_all add: record_cost_usd_micros_def merge_child_usage_def sync_wall_time_def Let_def stop_checks)

lemma step_checkpoint:
  "bc_checkpoint_id (sy_ctrl (system_step ev sy)) =
     (case ev of EvCheckpoint i \<Rightarrow> Some i | _ \<Rightarrow> bc_checkpoint_id (sy_ctrl sy))"
  by (cases ev)
    (auto simp: with_ctrl_def on_lease_def snd_granting record_checkpoint_def
      take_pending_soft_landing_def set_external_reservations_def split: prod.splits)

lemma reach_checkpoint:
  "bc_checkpoint_id (sy_ctrl (reach now s evs)) =
     (if checkpoints evs = [] then None else Some (last (checkpoints evs)))"
proof (induction evs rule: rev_induct)
  case Nil
  then show ?case
    by (simp add: reach_def system_new_def controller_new_def checkpoints_def map_filter_simps)
next
  case (snoc ev evs)
  have "checkpoints (evs @ [ev]) = checkpoints evs @ (case ev of EvCheckpoint i \<Rightarrow> [i] | _ \<Rightarrow> [])"
    by (auto simp: checkpoints_def List.map_filter_def split: budget_event.splits)
  with snoc show ?case
    by (auto simp: reach_def step_checkpoint split: budget_event.splits)
qed

subsection \<open>Properties\<close>

text \<open>
  However an operation is driven, usage never goes down in any dimension, and a budget stop
  is final: once the controller has stopped, every later admission, receipt or grant leaves it
  stopped for the same reason.
\<close>

theorem usage_grows_and_stop_is_final:
  "usage_le (bc_usage (sy_ctrl (reach now s evs))) (bc_usage (sy_ctrl (reach now s (evs @ later))))
   \<and> (stop_state (sy_ctrl (reach now s evs)) = Some r
      \<longrightarrow> stop_state (sy_ctrl (reach now s (evs @ later))) = Some r)"
proof -
  have "reach now s (evs @ later) = fold system_step later (reach now s evs)" by (simp add: reach_def)
  then show ?thesis
    using reach_ctrl_inv metered.run_reading latched.run_verdict by (metis (no_types))
qed

text \<open>The facts that evaluate a concrete run.\<close>

lemmas budget_eval = reach_def system_new_def controller_new_def unlimited_spec_def with_ctrl_def
  admit_turn_def stop_if_exhausted_def sync_wall_time_inner_def elapsed_ms_def exhausted_dimension_def
  zero_usage_def add_turn_def usage_merge_def sat_add_def u32_max_def u64_max_def stop_state_def
  observe_inner_turn_soft_landing_def pending_inner_turn_reminder_def
  inner_turn_reminder_at_remaining_def

definition one_turn_spec :: budget_spec where
  "one_turn_spec = unlimited_spec\<lparr>max_turns := Some 1\<rparr>"

lemma one_turn_stops:
  "stop_state (sy_ctrl (reach 0 one_turn_spec [EvAdmitTurn 0, EvAdmitTurn 0])) = Some (TurnBudget 1)"
  by (simp add: budget_eval one_turn_spec_def)

theorem usage_grows_and_stop_is_final_witness:
  "stop_state (sy_ctrl (reach 0 one_turn_spec
     ([EvAdmitTurn 0, EvAdmitTurn 0] @ [EvMergeChild 5 zero_usage, EvChildLeases 9 unlimited_spec 2])))
   = Some (TurnBudget 1)"
  using usage_grows_and_stop_is_final one_turn_stops by blast

text \<open>
  C8: The reservation pool is exact. In every limited additive dimension it is at all times the
  sum of the ceilings of the leases that have not been settled, at most the limit: every grant is
  added once, and every lease, finished, dropped or handed to the ledger, is returned exactly once.
\<close>

theorem pool_is_outstanding_leases:
  assumes "spec_wf s" and "sy = reach now s evs" and "c = sy_ctrl sy"
  shows "is_none_or (max_turns (bc_spec c)) (\<lambda>m.
            turns (bc_reserved c) = outstanding max_turns (sy_leases sy)
            \<and> outstanding max_turns (sy_leases sy) \<le> m)
       \<and> is_none_or (max_tool_calls (bc_spec c)) (\<lambda>m.
            tool_calls (bc_reserved c) = outstanding max_tool_calls (sy_leases sy)
            \<and> outstanding max_tool_calls (sy_leases sy) \<le> m)
       \<and> is_none_or (max_cost_usd_micros (bc_spec c)) (\<lambda>m.
            cost_usd_micros (bc_reserved c) = outstanding max_cost_usd_micros (sy_leases sy)
            \<and> outstanding max_cost_usd_micros (sy_leases sy) \<le> m)"
  using reach_pools [OF assms(1), of now evs] assms(2,3)
  by (auto simp: is_none_or_iff turn_axis.pool_inv_def tool_axis.pool_inv_def cost_axis.pool_inv_def)

theorem pool_is_outstanding_leases_witness:
  "turns (bc_reserved (sy_ctrl (reach 0 demo_spec
     [EvChildLeases 0 unlimited_spec 2, EvLeaseTurn 0 1, EvLeaseSettle 0]))) \<le> 4"
proof -
  have "spec_wf demo_spec" by (simp add: spec_wf_def demo_spec_def u32_max_def)
  moreover have "max_turns (bc_spec (sy_ctrl (reach 0 demo_spec
     [EvChildLeases 0 unlimited_spec 2, EvLeaseTurn 0 1, EvLeaseSettle 0]))) = Some 4"
    by (simp add: reach_spec controller_new_def demo_spec_def)
  ultimately show ?thesis
    using pool_is_outstanding_leases [OF _ refl refl, of demo_spec 0
      "[EvChildLeases 0 unlimited_spec 2, EvLeaseTurn 0 1, EvLeaseSettle 0]"] by simp
qed

text \<open>
  C7: Children never double-spend the parent. Whenever a batch of leases is granted in any
  reachable state, what the parent has used, what the ledger reserves externally and the ceilings
  of all outstanding leases, the new ones included, together stay within every limit.
\<close>

theorem grants_never_double_spend:
  assumes "spec_wf s" "child_leases t child n (sy_ctrl (reach now s evs)) = (Inr ls, c)" "ls \<noteq> []"
    and "n \<le> usize_max" and "leases = sy_leases (reach now s evs) @ ls"
  shows "is_none_or (max_turns (bc_spec c)) (\<lambda>m. turns (bc_usage c) + turns (bc_external_reserved c)
            + outstanding max_turns leases \<le> m)
       \<and> is_none_or (max_tool_calls (bc_spec c)) (\<lambda>m. tool_calls (bc_usage c)
            + tool_calls (bc_external_reserved c) + outstanding max_tool_calls leases \<le> m)
       \<and> is_none_or (max_cost_usd_micros (bc_spec c)) (\<lambda>m. cost_usd_micros (bc_usage c)
            + cost_usd_micros (bc_external_reserved c) + outstanding max_cost_usd_micros leases \<le> m)"
proof -
  let ?sy = "reach now s evs"
  have n: "0 < n" using assms(2,3) by (auto simp: child_leases_def intro: gr0I)
  have spec: "bc_spec c = bc_spec (sy_ctrl ?sy)"
    using child_leases_ok [of "sy_ctrl ?sy" t child n] reach_ctrl_inv assms(2)
    by (auto simp: ctrl_inv_def ctrl_ok_def)
  have pools: "turn_axis.pool_inv ?sy" "tool_axis.pool_inv ?sy" "cost_axis.pool_inv ?sy"
    using reach_pools [OF assms(1)] by blast+
  note fits = turn_axis.grant_fits(1,2) [OF assms(2) n _ _ _ assms(4)]
    tool_axis.grant_fits(1,2) [OF assms(2) n _ _ _ assms(4)]
    cost_axis.grant_fits(1,2) [OF assms(2) n _ _ _ assms(4)]
  show ?thesis
    using pools fits assms(3,5)
    by (auto simp: is_none_or_iff spec turn_axis.pool_inv_def tool_axis.pool_inv_def cost_axis.pool_inv_def)
qed

lemmas grant_eval = child_leases_def validate_spec_def remaining_spec_after_def exhausted_dimension_of_def
  split_limit_def intersect_limit_u64_def reserved_additive_usage_def

lemma demo_grant:
  "child_leases 0 unlimited_spec 2 (controller_new 0 demo_spec) =
     (Inr (replicate 2 (lease_new 0 (unlimited_spec\<lparr>max_turns := Some 2\<rparr>))),
      (controller_new 0 demo_spec)\<lparr>bc_reserved := zero_usage\<lparr>turns := 4\<rparr>\<rparr>)"
proof -
  have two: "[0..<2] = [0, 1 :: nat]" "replicate 2 x = [x, x]" for x :: budget_lease
    by (simp_all add: upt_rec numeral_2_eq_2)
  show ?thesis by (simp add: grant_eval budget_eval demo_spec_def two)
qed

theorem grants_never_double_spend_witness:
  "outstanding max_turns (replicate 2 (lease_new 0 (unlimited_spec\<lparr>max_turns := Some 2\<rparr>))) \<le> 4"
proof -
  let ?ls = "replicate 2 (lease_new 0 (unlimited_spec\<lparr>max_turns := Some 2\<rparr>))"
  have s: "spec_wf demo_spec" by (simp add: spec_wf_def demo_spec_def u32_max_def)
  have r: "reach 0 demo_spec [] = \<lparr>sy_ctrl = controller_new 0 demo_spec, sy_leases = []\<rparr>"
    by (simp add: reach_def system_new_def)
  have "child_leases 0 unlimited_spec 2 (sy_ctrl (reach 0 demo_spec [])) = (Inr ?ls,
      (controller_new 0 demo_spec)\<lparr>bc_reserved := zero_usage\<lparr>turns := 4\<rparr>\<rparr>)"
    using demo_grant r by simp
  from grants_never_double_spend [OF s this _ _ refl] r show ?thesis
    by (simp add: controller_new_def demo_spec_def u64_max_def)
qed

text \<open>
  A batch without a request of its own shares what remains fairly and completely: in a
  dimension with \<open>a\<close> units left, \<open>n\<close> children get \<open>a\<close> units between them, the first ones one unit
  more than the others, and every child gets at least one.
\<close>

theorem batch_shares_fairly:
  assumes "child_leases t child n c = (Inr ls, c')" "0 < n" "n \<le> usize_max"
    and "max_turns (remaining_spec_after (synced t c) (bc_reserved c)) = Some a" "a \<le> u32_max"
    and "max_turns child = None"
  shows "map (\<lambda>l. max_turns (bl_effective_spec l)) ls =
           map (\<lambda>i. Some (a div n + (if i < a mod n then 1 else 0))) [0..<n]
         \<and> 1 \<le> a div n
         \<and> (\<Sum>l \<leftarrow> ls. unwrap_or (max_turns (bl_effective_spec l)) 0) = a"
proof (rule child_leases_cases [OF assms(1)])
  fix remaining eff
  assume g: "remaining = remaining_spec_after (synced t c) (bc_reserved c)"
    "eff = map (batch_spec remaining child n) [0..<n]" "covers remaining n"
    "Inr ls = Inr (map (lease_new t) eff)"
  have a: "max_turns remaining = Some a" using g(1) assms(4) by simp
  have "min n u64_max \<le> a" using turn_axis.cap_covers [OF g(3) a] .
  with assms(3) have n: "n \<le> a" by simp
  have index: "i mod 2 ^ 32 = i" if "i < n" for i
  proof -
    have "i < 2 ^ 32" using that n assms(5) by (simp add: u32_max_def)
    then show ?thesis by simp
  qed
  have shares: "map (\<lambda>l. max_turns (bl_effective_spec l)) ls =
      map (\<lambda>i. Some (a div n + (if i < a mod n then 1 else 0))) [0..<n]"
    using g(2,4) a assms(5,6) n index
    by (auto simp: lease_new_def batch_spec_def split_limit_def Let_def o_def)
  moreover have "(\<Sum>l \<leftarrow> ls. unwrap_or (max_turns (bl_effective_spec l)) 0)
      = (\<Sum>x \<leftarrow> map (\<lambda>l. max_turns (bl_effective_spec l)) ls. unwrap_or x 0)"
    by (simp add: o_def)
  ultimately have "(\<Sum>l \<leftarrow> ls. unwrap_or (max_turns (bl_effective_spec l)) 0) = a"
    using sum_shares [OF assms(2), of a] by (simp add: o_def)
  with shares n assms(2) show ?thesis by (auto simp: div_greater_zero_iff Suc_le_eq)
next
  assume "\<And>ls'. Inr ls = Inr ls' \<Longrightarrow> ls' = [] \<and> n = 0"
  with assms(2) show ?thesis by blast
qed

theorem batch_shares_fairly_witness:
  "(\<Sum>l \<leftarrow> replicate 2 (lease_new 0 (unlimited_spec\<lparr>max_turns := Some 2\<rparr>)).
      unwrap_or (max_turns (bl_effective_spec l)) 0) = 4"
proof -
  have "max_turns (remaining_spec_after (synced 0 (controller_new 0 demo_spec))
      (bc_reserved (controller_new 0 demo_spec))) = Some 4"
    by (simp add: synced_def remaining_spec_after_def budget_eval demo_spec_def Let_def)
  with batch_shares_fairly [OF demo_grant] show ?thesis
    by (simp add: u32_max_def u64_max_def unlimited_spec_def)
qed

text \<open>
  A background lease is never granted at the expense of the parent's own finish and never
  brings the runtime down. In any reachable state a granted background lease leaves a tenth of
  every limit (rounded up) unused and unreserved; a request that cannot be met, whatever its
  numbers, is refused with a budget stop and not with a panic.
\<close>

theorem background_lease_keeps_a_tenth:
  assumes "spec_wf s" "background_child_lease t request siblings (sy_ctrl (reach now s evs)) = (out, c)"
  shows "out \<noteq> Inl (LeasePanic msg)
       \<and> (out = Inr l \<longrightarrow>
            is_none_or (max_turns (bc_spec c)) (\<lambda>m.
              turns (bc_usage c) + turns (bc_external_reserved c) + turns (bc_reserved c)
              + div_ceil m 10 \<le> m)
          \<and> is_none_or (max_tool_calls (bc_spec c)) (\<lambda>m.
              tool_calls (bc_usage c) + tool_calls (bc_external_reserved c) + tool_calls (bc_reserved c)
              + div_ceil m 10 \<le> m)
          \<and> is_none_or (max_cost_usd_micros (bc_spec c)) (\<lambda>m.
              cost_usd_micros (bc_usage c) + cost_usd_micros (bc_external_reserved c)
              + cost_usd_micros (bc_reserved c) + div_ceil m 10 \<le> m))"
proof
  let ?sy = "reach now s evs"
  show "out \<noteq> Inl (LeasePanic msg)"
    using assms(2) child_lease_no_panic [of "background_spec siblings request (sy_ctrl ?sy)" t "sy_ctrl ?sy" msg]
    by (auto simp: background_unfold exhausted_of_None split: option.splits)
  have spec: "bc_spec c = bc_spec (sy_ctrl ?sy)"
    using background_ok [of "sy_ctrl ?sy" t request siblings] reach_ctrl_inv assms(2)
    by (auto simp: ctrl_inv_def ctrl_ok_def)
  have pools: "turn_axis.pool_inv ?sy" "tool_axis.pool_inv ?sy" "cost_axis.pool_inv ?sy"
    using reach_pools [OF assms(1)] by blast+
  note fits = turn_axis.background_fits [of t request siblings "sy_ctrl ?sy" l c]
    tool_axis.background_fits [of t request siblings "sy_ctrl ?sy" l c]
    cost_axis.background_fits [of t request siblings "sy_ctrl ?sy" l c]
  show "out = Inr l \<longrightarrow>
        is_none_or (max_turns (bc_spec c)) (\<lambda>m.
          turns (bc_usage c) + turns (bc_external_reserved c) + turns (bc_reserved c) + div_ceil m 10 \<le> m)
      \<and> is_none_or (max_tool_calls (bc_spec c)) (\<lambda>m.
          tool_calls (bc_usage c) + tool_calls (bc_external_reserved c) + tool_calls (bc_reserved c)
          + div_ceil m 10 \<le> m)
      \<and> is_none_or (max_cost_usd_micros (bc_spec c)) (\<lambda>m.
          cost_usd_micros (bc_usage c) + cost_usd_micros (bc_external_reserved c)
          + cost_usd_micros (bc_reserved c) + div_ceil m 10 \<le> m)"
    using pools fits assms(2)
    by (auto simp: is_none_or_iff spec turn_axis.pool_inv_def tool_axis.pool_inv_def cost_axis.pool_inv_def)
qed

theorem background_lease_keeps_a_tenth_witness:
  "\<exists>l c. background_child_lease 0 unlimited_spec 1 (sy_ctrl (reach 0 demo_spec [])) = (Inr l, c)
     \<and> turns (bc_reserved c) + 1 \<le> 4"
proof -
  have s: "spec_wf demo_spec" by (simp add: spec_wf_def demo_spec_def u32_max_def)
  obtain l c where g: "background_child_lease 0 unlimited_spec 1 (sy_ctrl (reach 0 demo_spec [])) = (Inr l, c)"
    and c: "max_turns (bc_spec c) = Some 4" "turns (bc_usage c) = 0" "turns (bc_external_reserved c) = 0"
    by (simp add: background_child_lease_def child_lease_def background_split_def div_ceil_def
        grant_eval budget_eval demo_spec_def Let_def)
  from background_lease_keeps_a_tenth [OF s g] c have "turns (bc_reserved c) + div_ceil 4 10 \<le> 4" by simp
  with g show ?thesis by (auto simp: div_ceil_def)
qed

text \<open>
  Admission is exact. A model turn is admitted exactly when the operation has not stopped and
  no limit is reached: turns and tool calls strictly below their limits, counting external
  reservations, and cost and wall time not above theirs. A tool call is admitted under the same
  conditions except that the turn limit does not count. An admitted turn adds exactly one turn.
\<close>

theorem admission_is_exact:
  assumes "spec_wf (bc_spec c)" and "u = bc_usage (sync_wall_time_inner now c)"
    and "e = bc_external_reserved c" "s = bc_spec c"
    and "rest = (stop_state c = None
          \<and> is_none_or (max_tool_calls s) (\<lambda>m. tool_calls u + tool_calls e < m)
          \<and> is_none_or (max_cost_usd_micros s) (\<lambda>m. min u64_max (cost_usd_micros u + cost_usd_micros e) \<le> m)
          \<and> is_none_or (max_wall_time_ms s) (\<lambda>m. wall_time_ms u \<le> m))"
  shows "(fst (admit_turn now c) = Inr () \<longleftrightarrow>
            rest \<and> is_none_or (max_turns s) (\<lambda>m. turns u + turns e < m))
       \<and> (fst (admit_tool_call now c) = Inr () \<longleftrightarrow> rest)
       \<and> (fst (admit_turn now c) = Inr () \<longrightarrow> bc_usage (snd (admit_turn now c)) = add_turn u)"
proof -
  let ?c = "sync_wall_time_inner now c"
  have frame: "bc_spec ?c = s" "bc_external_reserved ?c = e" "stop_state ?c = stop_state c"
    using sync_frame [of c now] assms(3,4) by (auto simp: same_control_def stop_state_def)
  have dims: "exhausted_dimension skip ?c = None \<longleftrightarrow>
      (skip \<or> is_none_or (max_turns s) (\<lambda>m. turns u + turns e < m))
      \<and> is_none_or (max_tool_calls s) (\<lambda>m. tool_calls u + tool_calls e < m)
      \<and> is_none_or (max_cost_usd_micros s) (\<lambda>m. min u64_max (cost_usd_micros u + cost_usd_micros e) \<le> m)
      \<and> is_none_or (max_wall_time_ms s) (\<lambda>m. wall_time_ms u \<le> m)" for skip
    using assms(1,2,4) frame
    by (auto simp: exhausted_dimension_def Let_def is_some_and_iff is_none_or_iff usage_merge_def
        sat_add_def spec_wf_def not_le not_less)
  have out: "fst (stop_check (exhausted_dimension skip) ?c) = None \<longleftrightarrow>
      stop_state c = None \<and> exhausted_dimension skip ?c = None" for skip
    by (cases "stop_state c") (auto simp: stop_check_out frame)
  obtain o1 c1 where 1: "stop_check (exhausted_dimension False) ?c = (o1, c1)" by fastforce
  obtain o2 c2 where 2: "stop_check (exhausted_dimension True) ?c = (o2, c2)" by fastforce
  have "fst (admit_turn now c) = Inr () \<longleftrightarrow> o1 = None" "fst (admit_tool_call now c) = Inr () \<longleftrightarrow> o2 = None"
    by (auto simp: admit_turn_def admit_tool_call_def stop_checks 1 2 split: option.splits)
  moreover have "bc_usage (snd (admit_turn now c)) = add_turn u" if "o1 = None"
    using that stop_check_frame [OF 1] assms(2)
      observe_inner_frame [of "c1\<lparr>bc_usage := add_turn (bc_usage c1)\<rparr>"]
    by (simp add: admit_turn_def stop_checks 1)
  moreover have "o1 = None \<longleftrightarrow> rest \<and> is_none_or (max_turns s) (\<lambda>m. turns u + turns e < m)" "o2 = None \<longleftrightarrow> rest"
    using out [of False] out [of True] unfolding dims assms(5) 1 2 by auto
  ultimately show ?thesis by simp
qed

theorem admission_is_exact_witness:
  "fst (admit_turn 0 (controller_new 0 one_turn_spec)) = Inr ()"
proof -
  have "spec_wf (bc_spec (controller_new 0 one_turn_spec))"
    by (simp add: spec_wf_def one_turn_spec_def controller_new_def unlimited_spec_def u32_max_def)
  from admission_is_exact [OF this refl refl refl refl, of 0] show ?thesis
    by (simp add: budget_eval one_turn_spec_def)
qed

text \<open>
  What a finished run reports. The terminal carries the final usage; it is a stop exactly
  when the controller stopped, with that reason, and it is resumable exactly when a checkpoint
  was recorded during the run, whose latest id it carries.
\<close>

theorem terminal_is_truthful:
  "terminal (sy_ctrl (reach now s evs)) =
     (case stop_state (sy_ctrl (reach now s evs)) of
        None \<Rightarrow> Completed (bc_usage (sy_ctrl (reach now s evs)))
      | Some r \<Rightarrow>
          StoppedTerminal r (bc_usage (sy_ctrl (reach now s evs)))
            (if checkpoints evs = [] then [] else last (checkpoints evs)) (checkpoints evs \<noteq> []))"
  by (auto simp: terminal_def stop_state_def reach_checkpoint split: terminal_state.splits)

text \<open>
  C9: A child lease treats its turn limit as a limit on everything. As soon as the last of its
  turns has been admitted, every further check of the lease fails with the turn budget: the
  tools of that turn, its cost receipt and the wall-clock check after its response. The parent
  controller with the same numbers still admits the tools of its last turn.
\<close>

theorem lease_stops_in_its_last_turn:
  assumes "max_turns (bl_effective_spec l) = Some m" "m \<le> turns (bl_usage l)"
  shows "(\<exists>u. fst (lease_admit_tool_call now l) = Inl \<lparr>bt_reason = TurnBudget m, bt_usage = u\<rparr>)
       \<and> (\<exists>u. fst (lease_record_cost_usd_micros now k l) = Inl \<lparr>bt_reason = TurnBudget m, bt_usage = u\<rparr>)
       \<and> (\<exists>u. fst (lease_sync_wall_time now l) = Inl \<lparr>bt_reason = TurnBudget m, bt_usage = u\<rparr>)
       \<and> (bc_spec c = bl_effective_spec l \<and> bc_usage c = bl_usage l
          \<and> bc_external_reserved c = zero_usage \<and> stop_state c = None \<and> spec_wf (bc_spec c)
          \<and> max_tool_calls (bc_spec c) = None \<and> max_cost_usd_micros (bc_spec c) = None
          \<and> max_wall_time_ms (bc_spec c) = None
          \<longrightarrow> fst (admit_tool_call now c) = Inr ())"
proof -
  have stop: "\<exists>u. lease_stop_if_exhausted l' = Some \<lparr>bt_reason = TurnBudget m, bt_usage = u\<rparr>"
    if "bl_effective_spec l' = bl_effective_spec l" "turns (bl_usage l') = turns (bl_usage l)" for l'
    using that assms by (simp add: lease_stop_if_exhausted_def Let_def)
  have sync: "bl_effective_spec (lease_sync_wall_time_inner now l) = bl_effective_spec l"
    "turns (bl_usage (lease_sync_wall_time_inner now l)) = turns (bl_usage l)"
    by (simp_all add: lease_sync_wall_time_inner_def lease_usage_def)
  have "fst (admit_tool_call now c) = Inr ()"
    if "stop_state c = None" "max_tool_calls (bc_spec c) = None" "max_cost_usd_micros (bc_spec c) = None"
      "max_wall_time_ms (bc_spec c) = None"
  proof -
    have "exhausted_dimension True (sync_wall_time_inner now c) = None"
      using that by (simp add: exhausted_dimension_def Let_def)
    moreover have "stop_state (sync_wall_time_inner now c) = None"
      using that(1) sync_frame [of c now] by (simp add: stop_state_def)
    ultimately have "fst (stop_check (exhausted_dimension True) (sync_wall_time_inner now c)) = None"
      by (simp add: stop_check_out)
    then show ?thesis by (auto simp: admit_tool_call_def stop_checks split: prod.splits)
  qed
  moreover obtain u where u: "lease_stop_if_exhausted (lease_sync_wall_time_inner now l)
      = Some \<lparr>bt_reason = TurnBudget m, bt_usage = u\<rparr>"
    using stop [OF sync] by blast
  moreover have "\<exists>u. fst (lease_record_cost_usd_micros now k l) = Inl \<lparr>bt_reason = TurnBudget m, bt_usage = u\<rparr>"
    using stop [of "(lease_sync_wall_time_inner now l)
        \<lparr>bl_usage := add_cost_usd_micros k (bl_usage (lease_sync_wall_time_inner now l))\<rparr>"] sync
    by (auto simp: lease_record_cost_usd_micros_def lease_result_def Let_def add_cost_usd_micros_def)
  ultimately show ?thesis
    by (auto simp: lease_admit_tool_call_def lease_sync_wall_time_def lease_result_def)
qed

theorem lease_stops_in_its_last_turn_witness:
  "\<exists>u. fst (lease_admit_tool_call 0 (snd (lease_admit_turn 0 (lease_new 0 one_turn_spec))))
     = Inl \<lparr>bt_reason = TurnBudget 1, bt_usage = u\<rparr>"
proof -
  let ?l = "snd (lease_admit_turn 0 (lease_new 0 one_turn_spec))"
  have "max_turns (bl_effective_spec ?l) = Some 1" "1 \<le> turns (bl_usage ?l)"
    by (simp_all add: lease_admit_turn_def lease_sync_wall_time_def lease_result_def
        lease_sync_wall_time_inner_def lease_usage_def lease_stop_if_exhausted_def lease_new_def
        one_turn_spec_def budget_eval Let_def)
  from lease_stops_in_its_last_turn [OF this] show ?thesis by blast
qed

end
