(* ===== verification/Operation_Context.thy ===== *)
theory Operation_Context
  imports Journal_Recovery Budget_Runs
begin

text \<open>
  The context of one operation, \<^verbatim>\<open>crates/orca-runtime/src/operation_context.rs\<close>: the budget controller with the journal
  that makes its decisions durable and the ledger of its children. The two files are part of the state. Clocks, the
  outcome of every file access, the task registry and the session writer are arguments.
\<close>

subsection \<open>State, errors and composition\<close>

record operation_context =
  oc_controller :: budget_controller
  oc_journal :: execution_journal
  oc_file :: journal_file
  oc_ledger :: ledger_file

datatype operation_error =
    JournalAppend journal_error
  | JournalFlush flush_error
  | JournalOpen open_error
  | LedgerError string
  | RegistryError string
  | SessionWriterError string
  | NoDurableSpec
  | BudgetChanged budget_spec budget_spec
  | NoDurableUsage
  | NoDurableStart
  | DeadlineNotRepresentable

type_synonym 'a operation = "operation_context \<Rightarrow> (operation_error, 'a) result \<times> operation_context"

definition op_return :: "'a \<Rightarrow> 'a operation" where
  "op_return x s = (Inr x, s)"

definition op_bind :: "'a operation \<Rightarrow> ('a \<Rightarrow> 'b operation) \<Rightarrow> 'b operation" where
  "op_bind m k s = (case m s of (Inl e, s) \<Rightarrow> (Inl e, s) | (Inr x, s) \<Rightarrow> k x s)"

definition op_get :: "operation_context operation" where
  "op_get s = (Inr s, s)"

definition op_fail :: "operation_error \<Rightarrow> 'a operation" where
  "op_fail e s = (Inl e, s)"

text \<open>What runs when an operation fails and its local values are dropped.\<close>

definition op_cleanup :: "'a operation \<Rightarrow> (operation_context \<Rightarrow> operation_context) \<Rightarrow> 'a operation" where
  "op_cleanup m h s = (case m s of (Inl e, s) \<Rightarrow> (Inl e, h s) | (Inr x, s) \<Rightarrow> (Inr x, s))"

definition on_controller :: "(budget_controller \<Rightarrow> 'a \<times> budget_controller) \<Rightarrow> 'a operation" where
  "on_controller f s = (case f (oc_controller s) of (x, c) \<Rightarrow> (Inr x, s\<lparr>oc_controller := c\<rparr>))"

definition op_append :: "journal_record \<Rightarrow> unit operation" where
  "op_append r s = (case append_record r (oc_journal s) of (res, j) \<Rightarrow> (map_err JournalAppend res, s\<lparr>oc_journal := j\<rparr>))"

definition op_flush :: "(journal_record \<Rightarrow> string option) \<Rightarrow> flush_io \<Rightarrow> unit operation" where
  "op_flush to_vec io s =
     (case flush_journal to_vec io (oc_journal s) (oc_file s) of (res, j, f) \<Rightarrow>
        (map_err JournalFlush res, s\<lparr>oc_journal := j, oc_file := f\<rparr>))"

definition op_append_durable :: "(journal_record \<Rightarrow> string option) \<Rightarrow> flush_io \<Rightarrow> journal_record \<Rightarrow> unit operation" where
  "op_append_durable to_vec io r = op_bind (op_append r) (\<lambda>_. op_flush to_vec io)"

definition op_operation_id :: "operation_context \<Rightarrow> string" where
  "op_operation_id s = ej_operation_id (oc_journal s)"

text \<open>What the environment does during one accounting step: the two clocks and the flush.\<close>

record step_env =
  se_now :: instant
  se_unix_ms :: nat
  se_flush :: flush_io

definition append_budget_usage :: "nat \<Rightarrow> string \<Rightarrow> string option \<Rightarrow> unit operation" where
  "append_budget_usage unix_ms turn_id accounting_id s =
     op_append (BudgetUsageRec (op_operation_id s) turn_id 0 journal_schema_version (bc_usage (oc_controller s)) unix_ms
       accounting_id) s"

subsection \<open>Opening\<close>

definition unix_elapsed :: "nat \<Rightarrow> nat \<Rightarrow> nat" where
  "unix_elapsed now started = now - started"

definition started_record :: "nat \<Rightarrow> budget_spec \<Rightarrow> string \<Rightarrow> journal_record" where
  "started_record started_at_ms spec i = OperationStartedRec i [] 0 journal_schema_version started_at_ms spec"

definition first_usage_record :: "nat \<Rightarrow> string \<Rightarrow> journal_record" where
  "first_usage_record started_at_ms i =
     BudgetUsageRec i [] 0 journal_schema_version zero_usage started_at_ms (Some ''operation-start'')"

text \<open>The journal, with its first two records written when it is fresh.\<close>

definition start_journal ::
    "(journal_record \<Rightarrow> string option) \<Rightarrow> flush_io \<Rightarrow> nat \<Rightarrow> budget_spec \<Rightarrow> string \<Rightarrow> execution_journal \<Rightarrow> journal_file
     \<Rightarrow> (operation_error, unit) result \<times> execution_journal \<times> journal_file" where
  "start_journal to_vec io started_at_ms spec i j file =
     (if ej_committed j \<noteq> [] then (Inr (), j, file)
      else
        (case append_record (started_record started_at_ms spec i) j of
           (Inl e, j) \<Rightarrow> (Inl (JournalAppend e), j, file)
         | (Inr _, j) \<Rightarrow>
             (case append_record (first_usage_record started_at_ms i) j of
                (Inl e, j) \<Rightarrow> (Inl (JournalAppend e), j, file)
              | (Inr _, j) \<Rightarrow>
                  (case flush_journal to_vec io j file of (res, j, file) \<Rightarrow> (map_err JournalFlush res, j, file)))))"

definition resume_controller ::
    "instant \<Rightarrow> nat \<Rightarrow> budget_spec \<Rightarrow> execution_journal \<Rightarrow> (operation_error, budget_controller) result" where
  "resume_controller now unix_ms spec j =
     (case operation_budget_spec j of
        None \<Rightarrow> Inl NoDurableSpec
      | Some durable_spec \<Rightarrow>
          if durable_spec \<noteq> spec then Inl (BudgetChanged durable_spec spec)
          else
            (case latest_budget_usage j of
               None \<Rightarrow> Inl NoDurableUsage
             | Some usage \<Rightarrow>
                 (case operation_started_at_ms j of
                    None \<Rightarrow> Inl NoDurableStart
                  | Some started_at_ms \<Rightarrow>
                      Inr (from_durable_usage now durable_spec usage (unix_elapsed unix_ms started_at_ms)))))"

definition open_at ::
    "(journal_record \<Rightarrow> string option) \<Rightarrow> (string \<Rightarrow> json_value option) \<Rightarrow> (json_value \<Rightarrow> journal_record option)
     \<Rightarrow> repair_io \<Rightarrow> bool \<Rightarrow> step_env \<Rightarrow> nat \<Rightarrow> budget_spec \<Rightarrow> string \<Rightarrow> journal_file \<Rightarrow> ledger_file
     \<Rightarrow> (operation_error, operation_context) result \<times> journal_file" where
  "open_at to_vec from_str from_value rio readable env started_ms spec i file ledger =
     (case open_journal from_str from_value rio readable i file of
        (Inl e, file) \<Rightarrow> (Inl (JournalOpen e), file)
      | (Inr j, file) \<Rightarrow>
          (case start_journal to_vec (se_flush env) started_ms spec i j file of
             (Inl e, j, file) \<Rightarrow> (Inl e, file)
           | (Inr _, j, file) \<Rightarrow>
               (case resume_controller (se_now env) (se_unix_ms env) spec j of
                  Inl e \<Rightarrow> (Inl e, file)
                | Inr c \<Rightarrow>
                    (Inr \<lparr>oc_controller = c, oc_journal = j, oc_file = file, oc_ledger = ledger\<rparr>, file))))"

subsection \<open>Child budgets\<close>

text \<open>\<^verbatim>\<open>refresh_child_budgets\<close>: what each entry of the ledger meets is an argument by its identifier.\<close>

record refresh_env =
  re_entries :: ledger_io
  re_step :: "string \<Rightarrow> step_env"
  re_ack :: "string \<Rightarrow> ledger_io"

definition on_ledger :: "(ledger_file \<Rightarrow> (string, 'a) result \<times> ledger_file) \<Rightarrow> 'a operation" where
  "on_ledger f s = (case f (oc_ledger s) of (res, l) \<Rightarrow> (map_err LedgerError res, s\<lparr>oc_ledger := l\<rparr>))"

definition receipt_accounting_id :: "string \<Rightarrow> string" where
  "receipt_accounting_id i = ''child-receipt:'' @ i"

definition charge_receipt :: "(journal_record \<Rightarrow> string option) \<Rightarrow> step_env \<Rightarrow> string \<Rightarrow> budget_usage \<Rightarrow> unit operation" where
  "charge_receipt to_vec env i receipt =
     op_bind op_get (\<lambda>t.
       if has_budget_accounting_id (receipt_accounting_id i) (oc_journal t) then op_return ()
       else
         op_bind (on_controller (merge_child_usage (se_now env) receipt)) (\<lambda>_.
         op_bind (append_budget_usage (se_unix_ms env) [] (Some (receipt_accounting_id i))) (\<lambda>_.
         op_flush to_vec (se_flush env))))"

fun refresh_entries ::
    "(journal_record \<Rightarrow> string option) \<Rightarrow> refresh_env \<Rightarrow> budget_usage \<Rightarrow> (string \<times> ledger_entry) list \<Rightarrow> budget_usage operation" where
  "refresh_entries to_vec env reserved [] = op_return reserved"
| "refresh_entries to_vec env reserved ((i, entry) # entries) =
     (if en_accounted entry then refresh_entries to_vec env reserved entries
      else
        (case en_receipt entry of
           Some receipt \<Rightarrow>
             op_bind (charge_receipt to_vec (re_step env i) i receipt) (\<lambda>_.
             op_bind (on_ledger (acknowledge (re_ack env i) i)) (\<lambda>_.
             refresh_entries to_vec env reserved entries))
         | None \<Rightarrow> refresh_entries to_vec env (usage_merge reserved (reserved_usage (en_spec entry))) entries))"

definition refresh_child_budgets :: "(journal_record \<Rightarrow> string option) \<Rightarrow> refresh_env \<Rightarrow> unit operation" where
  "refresh_child_budgets to_vec env =
     op_bind op_get (\<lambda>t.
       if oc_ledger t = Absent then op_return ()
       else
         op_bind (on_controller (\<lambda>c. ((), set_external_reservations zero_usage c))) (\<lambda>_.
         op_bind (on_ledger (\<lambda>l. (ledger_entries (re_entries env) l, l))) (\<lambda>entries.
         op_bind (refresh_entries to_vec env zero_usage entries) (\<lambda>reserved.
         on_controller (\<lambda>c. ((), set_external_reservations reserved c))))))"

subsection \<open>Admission and accounting\<close>

definition turn_accounting_id :: "string \<Rightarrow> nat \<Rightarrow> string" where
  "turn_accounting_id turn_id n = ''turn-admit:'' @ turn_id @ '':'' @ show_nat n"

definition tool_accounting_id :: "string \<Rightarrow> nat \<Rightarrow> string" where
  "tool_accounting_id turn_id n = ''tool-admit:'' @ turn_id @ '':'' @ show_nat n"

definition op_admit_turn ::
    "(journal_record \<Rightarrow> string option) \<Rightarrow> refresh_env \<Rightarrow> step_env \<Rightarrow> string \<Rightarrow> (budget_stop, unit) result operation" where
  "op_admit_turn to_vec renv env turn_id =
     op_bind (refresh_child_budgets to_vec renv) (\<lambda>_.
     op_bind (on_controller (admit_turn (se_now env))) (\<lambda>admitted.
       case admitted of
         Inl stop \<Rightarrow> op_return (Inl stop)
       | Inr _ \<Rightarrow>
           op_bind op_get (\<lambda>t.
           op_bind (op_append (TurnStartedRec (op_operation_id t) turn_id 0 journal_schema_version)) (\<lambda>_.
           op_bind (append_budget_usage (se_unix_ms env) turn_id
             (Some (turn_accounting_id turn_id (turns (bc_usage (oc_controller t)))))) (\<lambda>_.
           op_bind (op_flush to_vec (se_flush env)) (\<lambda>_. op_return (Inr ())))))))"

definition op_admit_tool_call ::
    "(journal_record \<Rightarrow> string option) \<Rightarrow> refresh_env \<Rightarrow> step_env \<Rightarrow> string \<Rightarrow> string \<Rightarrow> string
     \<Rightarrow> (budget_stop, unit) result operation" where
  "op_admit_tool_call to_vec renv env turn_id tool_call_id tool_name =
     op_bind (refresh_child_budgets to_vec renv) (\<lambda>_.
     op_bind (on_controller (admit_tool_call (se_now env))) (\<lambda>admitted.
       case admitted of
         Inl stop \<Rightarrow> op_return (Inl stop)
       | Inr _ \<Rightarrow>
           op_bind op_get (\<lambda>t.
           op_bind (op_append (ToolStartedRec (op_operation_id t) turn_id 0 journal_schema_version tool_call_id tool_name)) (\<lambda>_.
           op_bind (append_budget_usage (se_unix_ms env) turn_id
             (Some (tool_accounting_id turn_id (tool_calls (bc_usage (oc_controller t)))))) (\<lambda>_.
           op_bind (op_flush to_vec (se_flush env)) (\<lambda>_. op_return (Inr ())))))))"

definition op_record_tool_completed ::
    "(journal_record \<Rightarrow> string option) \<Rightarrow> step_env \<Rightarrow> string \<Rightarrow> string \<Rightarrow> string \<Rightarrow> string option \<Rightarrow> unit operation" where
  "op_record_tool_completed to_vec env turn_id tool_call_id status error =
     op_bind (on_controller (sync_wall_time (se_now env))) (\<lambda>_.
     op_bind op_get (\<lambda>t.
     op_bind (op_append (ToolCompletedRec (op_operation_id t) turn_id 0 journal_schema_version tool_call_id status error)) (\<lambda>_.
     op_bind (append_budget_usage (se_unix_ms env) turn_id None) (\<lambda>_.
     op_flush to_vec (se_flush env)))))"

text \<open>Charge the controller in some way, then publish its usage.\<close>

definition publish ::
    "(journal_record \<Rightarrow> string option) \<Rightarrow> step_env \<Rightarrow> string option \<Rightarrow> 'a \<Rightarrow> 'a operation" where
  "publish to_vec env accounting_id result =
     op_bind (append_budget_usage (se_unix_ms env) [] accounting_id) (\<lambda>_.
     op_bind (op_flush to_vec (se_flush env)) (\<lambda>_. op_return result))"

definition op_sync_wall_time :: "(journal_record \<Rightarrow> string option) \<Rightarrow> step_env \<Rightarrow> (budget_stop, unit) result operation" where
  "op_sync_wall_time to_vec env =
     op_bind (on_controller (sync_wall_time (se_now env))) (publish to_vec env None)"

definition op_record_cost_usd_micros ::
    "(journal_record \<Rightarrow> string option) \<Rightarrow> step_env \<Rightarrow> nat \<Rightarrow> string \<Rightarrow> (budget_stop, unit) result operation" where
  "op_record_cost_usd_micros to_vec env cost accounting_id =
     op_bind op_get (\<lambda>t.
       if has_budget_accounting_id accounting_id (oc_journal t)
       then op_bind (on_controller (sync_wall_time (se_now env))) (publish to_vec env None)
       else op_bind (on_controller (record_cost_usd_micros (se_now env) cost)) (publish to_vec env (Some accounting_id)))"

definition op_merge_child_usage ::
    "(journal_record \<Rightarrow> string option) \<Rightarrow> step_env \<Rightarrow> budget_usage \<Rightarrow> (budget_stop, unit) result operation" where
  "op_merge_child_usage to_vec env usage =
     op_bind (on_controller (merge_child_usage (se_now env) usage)) (publish to_vec env None)"

text \<open>\<^verbatim>\<open>Instant::now().checked_add(remaining)\<close>.\<close>

definition instant_checked_add_ms :: "instant \<Rightarrow> nat \<Rightarrow> instant option" where
  "instant_checked_add_ms now ms =
     (let t = now + int ms * 1000000 in if t \<ge> (i64_max + 1) * 1000000000 then None else Some t)"

definition remaining_deadline :: "instant \<Rightarrow> instant \<Rightarrow> instant option operation" where
  "remaining_deadline synced_at now =
     op_bind (on_controller (sync_wall_time synced_at)) (\<lambda>_.
     op_bind op_get (\<lambda>t.
       case max_wall_time_ms (bc_spec (oc_controller t)) of
         None \<Rightarrow> op_return None
       | Some limit \<Rightarrow>
           (case instant_checked_add_ms now (limit - wall_time_ms (bc_usage (oc_controller t))) of
              Some deadline \<Rightarrow> op_return (Some deadline)
            | None \<Rightarrow> op_fail DeadlineNotRepresentable)))"

subsection \<open>Background children\<close>

definition admission_id :: "string \<Rightarrow> execution_journal \<Rightarrow> string" where
  "admission_id i j =
     unwrap_or (find_map (\<lambda>r. if is_tool_started r \<and> jr_tool_call_id r = i then Some (i @ '':'' @ show_nat (jr_ordinal r)) else None)
       (rev (ej_committed j))) i"

record lease_env =
  le_before :: refresh_env
  le_existing :: ledger_io
  le_now :: instant
  le_reserve :: ledger_io
  le_drop :: ledger_io
  le_after :: refresh_env

text \<open>
  The lease of a child. When the ledger refuses it, or when the last refresh fails, the lease is dropped, which returns
  its share of the pool and refunds the reservation. A panic of the controller is the error it raises.
\<close>

definition drop_lease :: "ledger_io \<Rightarrow> budget_lease \<Rightarrow> operation_context \<Rightarrow> operation_context" where
  "drop_lease io lease s =
     (case lease_drop io lease (bc_reserved (oc_controller s)) (oc_ledger s) of (pool, l) \<Rightarrow>
        s\<lparr>oc_controller := (oc_controller s)\<lparr>bc_reserved := pool\<rparr>, oc_ledger := l\<rparr>)"

definition reserve_lease ::
    "(journal_record \<Rightarrow> string option) \<Rightarrow> lease_env \<Rightarrow> string \<Rightarrow> string \<Rightarrow> budget_lease \<Rightarrow> budget_lease operation" where
  "reserve_lease to_vec env path i lease =
     op_bind op_get (\<lambda>t.
     op_bind (op_cleanup
       (on_ledger (reserve (le_reserve env) path i (bl_effective_spec lease) (bc_spec (oc_controller t)) (bc_usage (oc_controller t))))
       (drop_lease (le_drop env) lease)) (\<lambda>reservation.
     op_bind (on_controller (\<lambda>c.
       case attach_durable reservation lease (bc_reserved c) of (lease, pool) \<Rightarrow> (lease, c\<lparr>bc_reserved := pool\<rparr>))) (\<lambda>lease.
     op_bind (op_cleanup (refresh_child_budgets to_vec (le_after env)) (drop_lease (le_drop env) lease)) (\<lambda>_.
     op_return lease))))"

definition op_background_child_lease ::
    "(journal_record \<Rightarrow> string option) \<Rightarrow> lease_env \<Rightarrow> string \<Rightarrow> budget_spec \<Rightarrow> nat \<Rightarrow> string
     \<Rightarrow> (lease_error, budget_lease) result operation" where
  "op_background_child_lease to_vec env path requested siblings tool_call_id =
     op_bind (refresh_child_budgets to_vec (le_before env)) (\<lambda>_.
     op_bind op_get (\<lambda>t.
       let i = admission_id tool_call_id (oc_journal t)
       in op_bind (on_ledger (\<lambda>l. (existing (le_existing env) path i l, l))) (\<lambda>binding.
            case binding of
              Some b \<Rightarrow> op_return (Inr (lease_from_durable (le_now env) b))
            | None \<Rightarrow>
                op_bind (on_controller (background_child_lease (le_now env) requested siblings)) (\<lambda>granted.
                  case granted of
                    Inl e \<Rightarrow> op_return (Inl e)
                  | Inr lease \<Rightarrow> op_bind (reserve_lease to_vec env path i lease) (\<lambda>lease. op_return (Inr lease))))))"

subsection \<open>Stops and terminals\<close>

definition session_checkpoint_reason :: "budget_stop \<Rightarrow> string" where
  "session_checkpoint_reason stop =
     (case bt_reason stop of
        CostBudget _ \<Rightarrow> ''cost_budget_exhausted''
      | TurnBudget _ \<Rightarrow> ''turn_budget_exhausted''
      | ToolCallBudget _ \<Rightarrow> ''tool_call_budget_exhausted''
      | WallTimeBudget _ \<Rightarrow> ''wall_time_budget_exhausted'')"

definition commit_budget_stop ::
    "(journal_record \<Rightarrow> string option) \<Rightarrow> flush_io \<Rightarrow> flush_io \<Rightarrow> string \<Rightarrow> string \<Rightarrow> string option \<Rightarrow> operation_terminal operation" where
  "commit_budget_stop to_vec io1 io2 turn_id checkpoint_id message_id =
     op_bind op_get (\<lambda>t.
     op_bind (op_append_durable to_vec io1
       (CheckpointCreatedRec (op_operation_id t) turn_id 0 journal_schema_version checkpoint_id message_id)) (\<lambda>_.
     op_bind (on_controller (\<lambda>c. ((), record_checkpoint checkpoint_id c))) (\<lambda>_.
     op_bind op_get (\<lambda>t.
       let tm = terminal (oc_controller t)
       in op_bind (op_append_durable to_vec io2 (OperationTerminalRec (op_operation_id t) turn_id 0 journal_schema_version tm))
            (\<lambda>_. op_return tm)))))"

fun with_checkpoint :: "string \<Rightarrow> operation_terminal \<Rightarrow> operation_terminal" where
  "with_checkpoint i (StoppedTerminal r u c resumable) = StoppedTerminal r u i resumable"
| "with_checkpoint i tm = tm"

definition commit_non_resumable_budget_stop ::
    "(journal_record \<Rightarrow> string option) \<Rightarrow> flush_io \<Rightarrow> flush_io \<Rightarrow> string \<Rightarrow> string \<Rightarrow> operation_terminal operation" where
  "commit_non_resumable_budget_stop to_vec io1 io2 turn_id checkpoint_id =
     op_bind op_get (\<lambda>t.
     op_bind (op_append_durable to_vec io1
       (CheckpointCreatedRec (op_operation_id t) turn_id 0 journal_schema_version checkpoint_id None)) (\<lambda>_.
     op_bind op_get (\<lambda>t.
       let tm = with_checkpoint checkpoint_id (terminal (oc_controller t))
       in op_bind (op_append_durable to_vec io2 (OperationTerminalRec (op_operation_id t) turn_id 0 journal_schema_version tm))
            (\<lambda>_. op_return tm))))"

text \<open>
  The children of the operation when it stops: what the registry answers for each active child (and the reservation of a
  child that never started), and what running children do to the ledger until they end.
\<close>

record children_env =
  ch_children :: "(string, ((string, unit) result \<times> (child_budget_reservation \<times> ledger_io) option) list) result"
  ch_meanwhile :: "(ledger_io \<times> ledger_op) list"

definition stop_child :: "(string, unit) result \<times> (child_budget_reservation \<times> ledger_io) option \<Rightarrow> unit operation" where
  "stop_child child =
     (case child of (stopped, binding) \<Rightarrow>
        (case stopped of
           Inl e \<Rightarrow> op_fail (RegistryError e)
         | Inr _ \<Rightarrow> (case binding of None \<Rightarrow> op_return () | Some (b, io) \<Rightarrow> on_ledger (settle io b zero_usage))))"

fun stop_children :: "((string, unit) result \<times> (child_budget_reservation \<times> ledger_io) option) list \<Rightarrow> unit operation" where
  "stop_children [] = op_return ()"
| "stop_children (c # cs) = op_bind (stop_child c) (\<lambda>_. stop_children cs)"

definition settle_children_for_stop :: "(journal_record \<Rightarrow> string option) \<Rightarrow> children_env option \<Rightarrow> refresh_env \<Rightarrow> unit operation" where
  "settle_children_for_stop to_vec scope renv =
     (case scope of
        None \<Rightarrow> refresh_child_budgets to_vec renv
      | Some env \<Rightarrow>
          (case ch_children env of
             Inl e \<Rightarrow> op_fail (RegistryError e)
           | Inr children \<Rightarrow>
               op_bind (stop_children children) (\<lambda>_.
               op_bind (on_ledger (\<lambda>l. (Inr (), fold ledger_step (ch_meanwhile env) l))) (\<lambda>_.
               refresh_child_budgets to_vec renv))))"

text \<open>The session writer: absent, failing, or the message it committed last.\<close>

definition commit_budget_stop_with_boundary ::
    "(journal_record \<Rightarrow> string option) \<Rightarrow> children_env option \<Rightarrow> refresh_env \<Rightarrow> flush_io \<Rightarrow> flush_io
     \<Rightarrow> (string, string option) result option \<Rightarrow> string \<Rightarrow> string \<Rightarrow> operation_terminal operation" where
  "commit_budget_stop_with_boundary to_vec scope renv io1 io2 session_writer turn_id events_run_id =
     op_bind (settle_children_for_stop to_vec scope renv) (\<lambda>_.
       let checkpoint_id = events_run_id @ ''-budget-stop''
       in case session_writer of
            Some (Inl e) \<Rightarrow> op_fail (SessionWriterError e)
          | Some (Inr message_id) \<Rightarrow> commit_budget_stop to_vec io1 io2 turn_id checkpoint_id message_id
          | None \<Rightarrow> commit_non_resumable_budget_stop to_vec io1 io2 turn_id checkpoint_id)"

fun with_usage :: "budget_usage \<Rightarrow> operation_terminal \<Rightarrow> operation_terminal" where
  "with_usage u (Completed _) = Completed u"
| "with_usage u (StoppedTerminal r _ c resumable) = StoppedTerminal r u c resumable"
| "with_usage u (BlockedTerminal b _) = BlockedTerminal b u"
| "with_usage u tm = tm"

definition commit_terminal ::
    "(journal_record \<Rightarrow> string option) \<Rightarrow> children_env option \<Rightarrow> refresh_env \<Rightarrow> flush_io \<Rightarrow> string \<Rightarrow> operation_terminal \<Rightarrow> unit operation" where
  "commit_terminal to_vec scope renv io turn_id tm =
     op_bind op_get (\<lambda>t.
       if has_terminal (oc_journal t) then op_return ()
       else
         op_bind (case tm of Completed _ \<Rightarrow> refresh_child_budgets to_vec renv | _ \<Rightarrow> settle_children_for_stop to_vec scope renv) (\<lambda>_.
         op_bind op_get (\<lambda>t.
           op_append_durable to_vec io
             (OperationTerminalRec (op_operation_id t) turn_id 0 journal_schema_version
               (with_usage (bc_usage (oc_controller t)) tm)))))"

text \<open>\<^verbatim>\<open>journal_path\<close>: the file name of an operation; every other character is one underscore.\<close>

definition journal_stem :: "string \<Rightarrow> string" where
  "journal_stem operation_id =
     map (\<lambda>c. if is_ascii_alphanumeric c \<or> c \<in> {CHR ''-'', CHR ''_'', CHR ''.''} then c else CHR ''_'')
       (filter (\<lambda>c. \<not> is_cont c) operation_id)"

definition journal_file_name :: "string \<Rightarrow> string" where
  "journal_file_name operation_id = journal_stem operation_id @ ''.jsonl''"

end
