(* ===== verification/Operation_Durability.thy ===== *)
theory Operation_Durability
  imports Operation_Context
begin

text \<open>
  What survives of an operation's accounting: every operation of the context keeps the journal in step with its file and
  leaves a file that reopens, even when it fails.
\<close>

subsection \<open>Sound operations\<close>

definition latest_known :: "execution_journal \<Rightarrow> budget_usage option" where
  "latest_known j = find_map usage_of (rev (ej_committed j @ ej_pending j))"

definition wf_usages :: "journal_record list \<Rightarrow> bool" where
  "wf_usages rs \<longleftrightarrow> (\<forall>r \<in> set rs. \<forall>u. usage_of r = Some u \<longrightarrow> usage_wf u)"

text \<open>In the course of an operation: nothing durable is lost, and the controller is at or ahead of the last usage recorded.\<close>

definition underway :: "(journal_record \<Rightarrow> string option) \<Rightarrow> string \<Rightarrow> journal_record list \<Rightarrow> operation_context \<Rightarrow> bool" where
  "underway to_vec i base s \<longleftrightarrow>
     in_step to_vec (oc_journal s) (oc_file s) \<and> ej_operation_id (oc_journal s) = i
     \<and> prefix base (ej_committed (oc_journal s)) \<and> find_map usage_of (rev base) \<noteq> None
     \<and> wf_usages (ej_committed (oc_journal s) @ ej_pending (oc_journal s)) \<and> usage_wf (bc_usage (oc_controller s))
     \<and> (\<exists>u. latest_known (oc_journal s) = Some u \<and> usage_le u (bc_usage (oc_controller s)))"

text \<open>
  After a failure: reopening the file gives back everything that was durable before, and no usage beyond what was
  charged.
\<close>

definition recoverable ::
    "(journal_record \<Rightarrow> string option) \<Rightarrow> (string \<Rightarrow> json_value option) \<Rightarrow> (json_value \<Rightarrow> journal_record option)
     \<Rightarrow> string \<Rightarrow> journal_record list \<Rightarrow> operation_context \<Rightarrow> bool" where
  "recoverable to_vec from_str from_value i base s \<longleftrightarrow>
     (\<exists>rs f u. open_journal from_str from_value RepairOk True i (oc_file s) = (Inr (reloaded i rs), f)
        \<and> in_step to_vec (reloaded i rs) f \<and> prefix base rs \<and> wf_usages rs
        \<and> find_map usage_of (rev rs) = Some u \<and> usage_le u (bc_usage (oc_controller s)))"

definition sound ::
    "(journal_record \<Rightarrow> string option) \<Rightarrow> (string \<Rightarrow> json_value option) \<Rightarrow> (json_value \<Rightarrow> journal_record option)
     \<Rightarrow> 'a operation \<Rightarrow> bool" where
  "sound to_vec from_str from_value m \<longleftrightarrow>
     (\<forall>i base s. underway to_vec i base s \<longrightarrow>
        (case m s of
           (Inr _, s') \<Rightarrow> underway to_vec i base s'
         | (Inl _, s') \<Rightarrow> recoverable to_vec from_str from_value i base s'))"

lemma latest_append:
  assumes "ordered i (a @ b)" "find_map usage_of (rev a) = Some u"
  obtains v where "find_map usage_of (rev (a @ b)) = Some v" "usage_le u v"
proof -
  from find_map_rev_Some [OF assms(2)] obtain a1 x a2 where a: "a = a1 @ x # a2" "usage_of x = Some u" by blast
  then obtain v where v: "find_map usage_of (rev (a @ b)) = Some v"
    using find_map_rev_None [of usage_of "a @ b"] by (cases "find_map usage_of (rev (a @ b))") force+
  from find_map_rev_Some [OF v] obtain c1 y c2 where c: "a @ b = c1 @ y # c2" "usage_of y = Some v"
    "\<forall>z \<in> set c2. usage_of z = None" by blast
  have "x \<in> set (c1 @ y # c2)" using a(1) c(1) by (metis Un_iff in_set_conv_decomp set_append)
  then consider "x = y" | "x \<in> set c1" using a(2) c(3) by force
  then have "usage_le u v"
  proof cases
    case 1
    then show ?thesis using a(2) c(2) by simp
  next
    case 2
    with ordered_usage [of i c1 y c2 v x u] assms(1) c a(2) have "\<not> usage_below v u" by simp
    then show ?thesis by (auto simp: usage_below_def usage_le_def)
  qed
  with v that show thesis by blast
qed

lemma latest_prefix:
  "prefix base rs \<Longrightarrow> find_map usage_of (rev base) \<noteq> None \<Longrightarrow> find_map usage_of (rev rs) \<noteq> None"
  by (auto simp: find_map_rev_None prefix_def)

lemma soundI:
  assumes "\<And>i base s x s'. underway to_vec i base s \<Longrightarrow> m s = (Inr x, s') \<Longrightarrow> underway to_vec i base s'"
    and "\<And>i base s e s'. underway to_vec i base s \<Longrightarrow> m s = (Inl e, s') \<Longrightarrow> recoverable to_vec from_str from_value i base s'"
  shows "sound to_vec from_str from_value m"
  unfolding sound_def by (auto split: prod.split sum.split intro: assms)

lemma soundD:
  assumes "sound to_vec from_str from_value m" "underway to_vec i base s"
  shows "m s = (Inr x, s') \<Longrightarrow> underway to_vec i base s'"
    and "m s = (Inl e, s') \<Longrightarrow> recoverable to_vec from_str from_value i base s'"
proof -
  have "case m s of (Inr _, s') \<Rightarrow> underway to_vec i base s' | (Inl _, s') \<Rightarrow> recoverable to_vec from_str from_value i base s'"
    using assms(1) [unfolded sound_def, rule_format, OF assms(2)] .
  then show "m s = (Inr x, s') \<Longrightarrow> underway to_vec i base s'"
    "m s = (Inl e, s') \<Longrightarrow> recoverable to_vec from_str from_value i base s'" by auto
qed

lemma underway_recoverable:
  assumes "journal_codec to_vec from_str from_value" "underway to_vec i base s" "oc_file s' = oc_file s"
    and "usage_le (bc_usage (oc_controller s)) (bc_usage (oc_controller s'))"
  shows "recoverable to_vec from_str from_value i base s'"
proof -
  let ?c = "ej_committed (oc_journal s)"
  from assms(2) have ok: "in_step to_vec (oc_journal s) (oc_file s)" "prefix base ?c" "ordered i (?c @ ej_pending (oc_journal s))"
    by (auto simp: underway_def in_step_def journal_ok_def)
  obtain u where u: "find_map usage_of (rev ?c) = Some u"
    using latest_prefix [OF ok(2)] assms(2) by (auto simp: underway_def)
  from latest_append [OF ok(3) this] obtain v where "latest_known (oc_journal s) = Some v" "usage_le u v"
    by (auto simp: latest_known_def)
  then have "usage_le u (bc_usage (oc_controller s'))"
    using assms(2,4) by (auto simp: underway_def intro: usage_le_trans)
  with reopen_in_step [OF assms(1) ok(1)] assms(2,3) u ok(2) show ?thesis
    by (auto simp: underway_def recoverable_def wf_usages_def)
qed

lemma sound_bind:
  assumes "sound to_vec from_str from_value m" "\<And>x. sound to_vec from_str from_value (k x)"
  shows "sound to_vec from_str from_value (op_bind m k)"
proof (rule soundI)
  fix i base s x s'
  assume u: "underway to_vec i base s" and "op_bind m k s = (Inr x, s')"
  then obtain y t where "m s = (Inr y, t)" "k y t = (Inr x, s')"
    by (auto simp: op_bind_def split: prod.splits sum.splits)
  then show "underway to_vec i base s'" using soundD(1) [OF assms(1) u] soundD(1) [OF assms(2)] by blast
next
  fix i base s e s'
  assume u: "underway to_vec i base s" and "op_bind m k s = (Inl e, s')"
  then consider "m s = (Inl e, s')" | y t where "m s = (Inr y, t)" "k y t = (Inl e, s')"
    by (auto simp: op_bind_def split: prod.splits sum.splits)
  then show "recoverable to_vec from_str from_value i base s'"
    using soundD [OF assms(1) u] soundD(2) [OF assms(2)] by cases blast+
qed

lemma sound_return [intro]: "sound to_vec from_str from_value (op_return x)"
  by (rule soundI) (simp_all add: op_return_def)

text \<open>An operation that fails leaves the state as it was, or fails without touching the journal.\<close>

lemma sound_pure:
  assumes "journal_codec to_vec from_str from_value"
    and "\<And>s res s'. m s = (res, s') \<Longrightarrow> usage_wf (bc_usage (oc_controller s)) \<Longrightarrow>
      oc_journal s' = oc_journal s \<and> oc_file s' = oc_file s
      \<and> usage_le (bc_usage (oc_controller s)) (bc_usage (oc_controller s')) \<and> usage_wf (bc_usage (oc_controller s'))"
  shows "sound to_vec from_str from_value m"
proof -
  have keep: "underway to_vec i base s'" if "underway to_vec i base s" "m s = (res, s')" for i base s res s'
    using that assms(2) [OF that(2)] by (auto simp: underway_def intro: usage_le_trans)
  then show ?thesis
    by (intro soundI) (blast, use keep underway_recoverable [OF assms(1)] usage_le_refl in blast)
qed

lemma sound_controller:
  assumes "journal_codec to_vec from_str from_value" "\<And>c. usage_wf (bc_usage c) \<Longrightarrow> ctrl_ok c (snd (f c))"
  shows "sound to_vec from_str from_value (on_controller f)"
  using assms(2)
  by (intro sound_pure [OF assms(1)]) (fastforce simp: on_controller_def ctrl_ok_def split: prod.splits)

lemma sound_ledger:
  assumes "journal_codec to_vec from_str from_value"
  shows "sound to_vec from_str from_value (on_ledger f)"
  by (rule sound_pure [OF assms]) (auto simp: on_ledger_def split: prod.splits)

lemma append_cases:
  obtains "fst (append_record r j) = Inr ()" "validate_ordering j r = Inr ()" "ej_committed (snd (append_record r j)) = ej_committed j"
      "ej_pending (snd (append_record r j)) = ej_pending j @ [stamp_ordinal r (ej_next_ordinal j)]"
      "ej_operation_id (snd (append_record r j)) = ej_operation_id j"
    | e where "append_record r j = (Inl e, j)"
  by (cases "append_record r j") (auto simp: append_record_def split: if_splits sum.splits)

lemma usage_of_stamp [simp]: "usage_of (stamp_ordinal r n) = usage_of r" "accounting_of (stamp_ordinal r n) = accounting_of r"
  by (cases r; simp)+

lemma latest_known_append:
  "ej_committed j' = ej_committed j \<Longrightarrow> ej_pending j' = ej_pending j @ [r] \<Longrightarrow>
   latest_known j' = (case usage_of r of Some u \<Rightarrow> Some u | None \<Rightarrow> latest_known j)"
  by (simp add: latest_known_def split: option.split)

lemma sound_appending:
  assumes "journal_codec to_vec from_str from_value"
    and "\<And>s u. usage_of (f s) = Some u \<Longrightarrow> u = bc_usage (oc_controller s)"
  shows "sound to_vec from_str from_value (\<lambda>s. op_append (f s) s)"
proof (rule soundI)
  fix i base s e s'
  assume u: "underway to_vec i base s" and "op_append (f s) s = (Inl e, s')"
  then have "oc_file s' = oc_file s" "oc_controller s' = oc_controller s" by (auto simp: op_append_def split: prod.splits)
  with underway_recoverable [OF assms(1) u] show "recoverable to_vec from_str from_value i base s'" by simp
next
  fix i base s x s'
  assume u: "underway to_vec i base s" and op: "op_append (f s) s = (Inr x, s')"
  let ?j = "snd (append_record (f s) (oc_journal s))"
  from op have s': "s' = s\<lparr>oc_journal := ?j\<rparr>" by (auto simp: op_append_def split: prod.splits)
  show "underway to_vec i base s'"
  proof (cases rule: append_cases [of "f s" "oc_journal s"])
    case 1
    have "latest_known ?j = (case usage_of (f s) of Some u \<Rightarrow> Some u | None \<Rightarrow> latest_known (oc_journal s))"
      using latest_known_append [OF 1(3,4)] by simp
    then have "\<exists>u. latest_known ?j = Some u \<and> usage_le u (bc_usage (oc_controller s))"
      using u assms(2) by (auto simp: underway_def split: option.splits)
    moreover have "wf_usages (ej_committed ?j @ ej_pending ?j)"
      using u assms(2) 1(3,4) by (auto simp: underway_def wf_usages_def)
    ultimately show ?thesis using u 1 in_step_append by (auto simp: underway_def s')
  next
    case (2 e)
    with op show ?thesis by (simp add: op_append_def)
  qed
qed

lemma sound_append:
  assumes "journal_codec to_vec from_str from_value" "usage_of r = None"
  shows "sound to_vec from_str from_value (op_append r)"
  using sound_appending [OF assms(1), of "\<lambda>_. r"] assms(2) by simp

lemma sound_append_usage:
  assumes "journal_codec to_vec from_str from_value"
  shows "sound to_vec from_str from_value (append_budget_usage n t a)"
  unfolding append_budget_usage_def by (rule sound_appending [OF assms]) auto

lemma sound_flush:
  assumes "journal_codec to_vec from_str from_value"
  shows "sound to_vec from_str from_value (op_flush to_vec io)"
proof (rule soundI)
  fix i base s x s'
  assume u: "underway to_vec i base s" and op: "op_flush to_vec io s = (Inr x, s')"
  obtain res j f where fl: "flush_journal to_vec io (oc_journal s) (oc_file s) = (res, j, f)" by (metis prod_cases3)
  with op have s': "s' = s\<lparr>oc_journal := j, oc_file := f\<rparr>" and res: "res = Inr ()"
    by (auto simp: op_flush_def)
  have j: "in_step to_vec j f \<and> ej_committed j = ej_committed (oc_journal s) @ ej_pending (oc_journal s) \<and> ej_pending j = []"
    using flush_done [of to_vec "oc_journal s" "oc_file s" io j f] fl res u by (simp add: underway_def)
  have "ej_operation_id j = i" using flush_ok(2) [OF _ fl] u by (simp add: underway_def in_step_def)
  with j u show "underway to_vec i base s'" by (auto simp: underway_def s' latest_known_def)
next
  fix i base s e s'
  assume u: "underway to_vec i base s" and op: "op_flush to_vec io s = (Inl e, s')"
  let ?c = "ej_committed (oc_journal s)" and ?p = "ej_pending (oc_journal s)"
  obtain res j f where fl: "flush_journal to_vec io (oc_journal s) (oc_file s) = (res, j, f)" by (metis prod_cases3)
  with op have s': "oc_file s' = f" "oc_controller s' = oc_controller s" by (auto simp: op_flush_def)
  have step: "in_step to_vec (oc_journal s) (oc_file s)" using u by (simp add: underway_def)
  from flush_recovers [OF assms step fl] u obtain k f'' where k:
    "open_journal from_str from_value RepairOk True i f = (Inr (reloaded i (?c @ take k ?p)), f'')"
    "in_step to_vec (reloaded i (?c @ take k ?p)) f''" by (auto simp: underway_def)
  have pre: "prefix base (?c @ take k ?p)" using u by (simp add: underway_def)
  then obtain v where v: "find_map usage_of (rev (?c @ take k ?p)) = Some v"
    using latest_prefix [OF pre] u by (auto simp: underway_def)
  have "ordered i ((?c @ take k ?p) @ drop k ?p)" using u by (auto simp: underway_def in_step_def journal_ok_def)
  from latest_append [OF this v] have "\<exists>w. latest_known (oc_journal s) = Some w \<and> usage_le v w"
    by (auto simp: latest_known_def simp flip: rev_append)
  then have "usage_le v (bc_usage (oc_controller s'))" using u s'(2) by (auto simp: underway_def intro: usage_le_trans)
  moreover have "wf_usages (?c @ take k ?p)" using u by (auto simp: underway_def wf_usages_def dest: in_set_takeD)
  ultimately show "recoverable to_vec from_str from_value i base s'"
    using k pre v unfolding recoverable_def s'(1) by blast
qed

lemma sound_append_durable:
  assumes "journal_codec to_vec from_str from_value" "usage_of r = None"
  shows "sound to_vec from_str from_value (op_append_durable to_vec io r)"
  unfolding op_append_durable_def using assms by (intro sound_bind sound_append sound_flush)

lemma sound_get [intro]: "sound to_vec from_str from_value op_get"
  by (rule soundI) (auto simp: op_get_def)

lemma sound_fail:
  assumes "journal_codec to_vec from_str from_value"
  shows "sound to_vec from_str from_value (op_fail e)"
  by (rule sound_pure [OF assms]) (auto simp: op_fail_def)

lemma sound_cleanup:
  assumes "sound to_vec from_str from_value m" "\<And>s. oc_file (h s) = oc_file s \<and> bc_usage (oc_controller (h s)) = bc_usage (oc_controller s)"
  shows "sound to_vec from_str from_value (op_cleanup m h)"
  using assms(2) soundD [OF assms(1)]
  by (intro soundI) (fastforce simp: op_cleanup_def recoverable_def split: prod.splits sum.splits)+

subsection \<open>Every operation of the context is sound\<close>

lemmas sound_intros = sound_bind sound_return sound_get sound_fail sound_controller sound_ledger sound_append sound_append_usage
  sound_flush sound_append_durable

lemma sound_charge_receipt:
  assumes "journal_codec to_vec from_str from_value"
  shows "sound to_vec from_str from_value (charge_receipt to_vec env i receipt)"
  unfolding charge_receipt_def using assms by (auto intro!: sound_intros merge_child_ok)

lemma sound_refresh_entries:
  assumes "journal_codec to_vec from_str from_value"
  shows "sound to_vec from_str from_value (refresh_entries to_vec env reserved entries)"
  using assms
  by (induction to_vec env reserved entries rule: refresh_entries.induct)
    (auto split: option.split intro!: sound_intros sound_charge_receipt)

lemma sound_refresh:
  assumes "journal_codec to_vec from_str from_value"
  shows "sound to_vec from_str from_value (refresh_child_budgets to_vec env)"
  unfolding refresh_child_budgets_def using assms by (auto intro!: sound_intros sound_refresh_entries ctrl_ok_other)

lemma sound_publish:
  assumes "journal_codec to_vec from_str from_value"
  shows "sound to_vec from_str from_value (publish to_vec env a x)"
  unfolding publish_def using assms by (auto intro!: sound_intros)

lemma sound_reserve_lease:
  assumes "journal_codec to_vec from_str from_value"
  shows "sound to_vec from_str from_value (reserve_lease to_vec env path i lease)"
proof -
  have "oc_file (drop_lease io l s) = oc_file s \<and> bc_usage (oc_controller (drop_lease io l s)) = bc_usage (oc_controller s)" for io l s
    by (simp add: drop_lease_def split: prod.split)
  moreover have "ctrl_ok c (snd (case attach_durable r l (bc_reserved c) of (l, pool) \<Rightarrow> (l, c\<lparr>bc_reserved := pool\<rparr>)))"
    if "usage_wf (bc_usage c)" for c r l
    using that ctrl_ok_refl ctrl_ok_reserved by (auto split: prod.split)
  ultimately show ?thesis
    unfolding reserve_lease_def using assms by (auto intro!: sound_intros sound_cleanup sound_refresh)
qed

lemma sound_stop_children:
  assumes "journal_codec to_vec from_str from_value"
  shows "sound to_vec from_str from_value (stop_children cs)"
  using assms
  by (induction cs) (auto simp: stop_child_def split: prod.split sum.split option.split intro!: sound_intros)

lemma sound_settle_children:
  assumes "journal_codec to_vec from_str from_value"
  shows "sound to_vec from_str from_value (settle_children_for_stop to_vec scope renv)"
  unfolding settle_children_for_stop_def
  using assms by (auto split: option.split sum.split intro!: sound_intros sound_refresh sound_stop_children)

lemma sound_operations:
  assumes "journal_codec to_vec from_str from_value"
  shows "sound to_vec from_str from_value (op_admit_turn to_vec renv env turn_id)"
    "sound to_vec from_str from_value (op_admit_tool_call to_vec renv env turn_id call name)"
    "sound to_vec from_str from_value (op_record_tool_completed to_vec env turn_id call st e)"
    "sound to_vec from_str from_value (op_sync_wall_time to_vec env)"
    "sound to_vec from_str from_value (op_record_cost_usd_micros to_vec env cost a)"
    "sound to_vec from_str from_value (op_merge_child_usage to_vec env u)"
    "sound to_vec from_str from_value (op_background_child_lease to_vec lenv path requested siblings call)"
    "sound to_vec from_str from_value (commit_budget_stop to_vec io1 io2 turn_id c m)"
    "sound to_vec from_str from_value (commit_non_resumable_budget_stop to_vec io1 io2 turn_id c)"
    "sound to_vec from_str from_value (commit_terminal to_vec scope renv io turn_id tm)"
    "sound to_vec from_str from_value (commit_budget_stop_with_boundary to_vec scope renv io1 io2 writer turn_id run)"
    "sound to_vec from_str from_value (remaining_deadline n1 n2)"
  unfolding op_admit_turn_def op_admit_tool_call_def op_record_tool_completed_def op_sync_wall_time_def op_record_cost_usd_micros_def
    op_merge_child_usage_def op_background_child_lease_def commit_budget_stop_def commit_non_resumable_budget_stop_def
    commit_terminal_def remaining_deadline_def commit_budget_stop_with_boundary_def
  using assms
  by (auto simp: Let_def split: sum.split option.split operation_terminal.split
      intro!: sound_intros sound_refresh sound_publish sound_reserve_lease sound_settle_children admit_turn_ok admit_tool_call_ok
        sync_wall_time_ok record_cost_ok merge_child_ok background_ok ctrl_ok_other)

end
