(* ===== verification/Operation_Recovery.thy ===== *)
theory Operation_Recovery
  imports Operation_Durability
begin

text \<open>
  An operation whose process dies or whose disk fails loses none of the work it was allowed to start: whatever a
  successful operation charged is durable, so reopening the context counts it again.
\<close>

subsection \<open>Successful operations publish what they charge\<close>

definition same_charges :: "budget_usage \<Rightarrow> budget_usage \<Rightarrow> bool" where
  "same_charges u v \<longleftrightarrow> turns u = turns v \<and> tool_calls u = tool_calls v \<and> cost_usd_micros u = cost_usd_micros v"

lemma same_charges_refl [simp]: "same_charges u u"
  by (simp add: same_charges_def)

lemma same_charges_trans: "same_charges u v \<Longrightarrow> same_charges v w \<Longrightarrow> same_charges u w"
  by (simp add: same_charges_def)

text \<open>Nothing is pending and the last durable usage is what the controller charged.\<close>

definition published :: "operation_context \<Rightarrow> bool" where
  "published s \<longleftrightarrow>
     ej_pending (oc_journal s) = []
     \<and> (\<exists>u. latest_budget_usage (oc_journal s) = Some u \<and> same_charges u (bc_usage (oc_controller s)))"

definition publishing :: "'a operation \<Rightarrow> bool" where
  "publishing m \<longleftrightarrow> (\<forall>s x s'. m s = (Inr x, s') \<longrightarrow> published s')"

definition publishes :: "'a operation \<Rightarrow> bool" where
  "publishes m \<longleftrightarrow> (\<forall>s x s'. published s \<longrightarrow> m s = (Inr x, s') \<longrightarrow> published s')"

lemma publishing_publishes: "publishing m \<Longrightarrow> publishes m"
  by (auto simp: publishing_def publishes_def)

lemma op_bind_Inr: "op_bind m k s = (Inr x, s') \<longleftrightarrow> (\<exists>y t. m s = (Inr y, t) \<and> k y t = (Inr x, s'))"
  by (auto simp: op_bind_def split: prod.splits sum.splits)

lemma publishing_bind: "(\<And>x. publishing (k x)) \<Longrightarrow> publishing (op_bind m k)"
  unfolding publishing_def op_bind_Inr by blast

lemma publishes_bind: "publishes m \<Longrightarrow> (\<And>x. publishes (k x)) \<Longrightarrow> publishes (op_bind m k)"
  unfolding publishes_def op_bind_Inr by blast

lemma publishes_simple [intro]: "publishes op_get" "publishes (op_return x)" "publishes (op_fail e)" "publishes (on_ledger f)"
  by (auto simp: publishes_def published_def op_get_def op_return_def op_fail_def on_ledger_def split: prod.splits)

lemma publishes_controller:
  assumes "\<And>c. same_charges (bc_usage c) (bc_usage (snd (f c)))"
  shows "publishes (on_controller f)"
  using assms
  by (fastforce simp: publishes_def published_def on_controller_def split: prod.splits intro: same_charges_trans)

text \<open>A charge that succeeds is published by what follows; a refusal charges nothing.\<close>

lemma publishes_charge:
  assumes "\<And>c. same_charges (bc_usage c) (bc_usage (snd (f c))) \<or> publishing (k (fst (f c)))" "\<And>x. publishes (k x)"
  shows "publishes (op_bind (on_controller f) k)"
  unfolding publishes_def op_bind_Inr
proof (intro allI impI, elim exE conjE)
  fix s x s' y t
  assume p: "published s" and c: "on_controller f s = (Inr y, t)" and k: "k y t = (Inr x, s')"
  from c have y: "y = fst (f (oc_controller s))" "t = s\<lparr>oc_controller := snd (f (oc_controller s))\<rparr>"
    by (auto simp: on_controller_def split: prod.splits)
  show "published s'"
  proof (cases "publishing (k y)")
    case True
    with k show ?thesis by (auto simp: publishing_def)
  next
    case False
    with assms(1) [of "oc_controller s"] y(1) have "same_charges (bc_usage (oc_controller s)) (bc_usage (snd (f (oc_controller s))))"
      by simp
    with p y(2) have "published t" by (auto simp: published_def intro: same_charges_trans)
    with assms(2) k show ?thesis by (auto simp: publishes_def)
  qed
qed

lemma flush_committed:
  "flush_journal to_vec io j f = (Inr (), j', f') \<Longrightarrow> ej_committed j' = ej_committed j @ ej_pending j \<and> ej_pending j' = []"
  by (auto simp: flush_journal_def Let_def split: if_splits flush_io.splits prod.splits)

lemma op_flush_Inr:
  assumes "op_flush to_vec io s = (Inr x, s')"
  shows "oc_controller s' = oc_controller s" "ej_pending (oc_journal s') = []"
    "ej_committed (oc_journal s') = ej_committed (oc_journal s) @ ej_pending (oc_journal s)"
  using assms flush_committed by (auto simp: op_flush_def split: prod.splits)

lemma op_append_Inr:
  assumes "op_append r s = (Inr x, s')"
  shows "oc_controller s' = oc_controller s" "ej_committed (oc_journal s') = ej_committed (oc_journal s)"
    "\<exists>n. ej_pending (oc_journal s') = ej_pending (oc_journal s) @ [stamp_ordinal r n]"
proof -
  from assms have s': "s' = s\<lparr>oc_journal := snd (append_record r (oc_journal s))\<rparr>" and "fst (append_record r (oc_journal s)) = Inr ()"
    by (auto simp: op_append_def split: prod.splits)
  then show "oc_controller s' = oc_controller s" "ej_committed (oc_journal s') = ej_committed (oc_journal s)"
    "\<exists>n. ej_pending (oc_journal s') = ej_pending (oc_journal s) @ [stamp_ordinal r n]"
    by (cases rule: append_cases [of r "oc_journal s"]; auto simp: s')+
qed

lemma publishing_usage: "publishing (op_bind (append_budget_usage n t' a) (\<lambda>_. op_flush to_vec io))"
  unfolding publishing_def op_bind_Inr append_budget_usage_def
proof (intro allI impI, elim exE conjE)
  fix s x s' y t
  assume a: "op_append (BudgetUsageRec (op_operation_id s) t' 0 journal_schema_version (bc_usage (oc_controller s)) n a) s = (Inr y, t)"
    and f: "op_flush to_vec io t = (Inr x, s')"
  from op_append_Inr [OF a] op_flush_Inr [OF f] show "published s'"
    by (auto simp: published_def latest_budget_usage_def)
qed

lemma op_bind_assoc: "op_bind (op_bind m k) h = op_bind m (\<lambda>x. op_bind (k x) h)"
  by (auto simp: fun_eq_iff op_bind_def split: prod.splits sum.splits)

lemma publishing_return: "publishing m \<Longrightarrow> publishing (op_bind m (\<lambda>_. op_return x))"
  unfolding publishing_def op_bind_Inr by (auto simp: op_return_def)

lemma publishing_usage_return:
  "publishing (op_bind (append_budget_usage n t a) (\<lambda>_. op_bind (op_flush to_vec io) (\<lambda>_. op_return x)))"
  using publishing_return [OF publishing_usage] by (simp add: op_bind_assoc)

lemma publishing_publish: "publishing (publish to_vec env a x)"
  unfolding publish_def by (rule publishing_usage_return)

lemma publishes_append_durable: "usage_of r = None \<Longrightarrow> publishes (op_append_durable to_vec io r)"
  unfolding publishes_def op_append_durable_def op_bind_Inr
proof (intro allI impI, elim exE conjE)
  fix s x s' y t
  assume r: "usage_of r = None" and p: "published s" and a: "op_append r s = (Inr y, t)" and f: "op_flush to_vec io t = (Inr x, s')"
  from r p op_append_Inr [OF a] op_flush_Inr [OF f] show "published s'"
    by (auto simp: published_def latest_budget_usage_def)
qed

lemma publishes_cleanup: "publishes m \<Longrightarrow> publishes (op_cleanup m h)"
  by (auto simp: publishes_def op_cleanup_def split: prod.splits sum.splits)

lemma stop_check_usage: "bc_usage (snd (stop_check chk c)) = bc_usage c"
  using stop_check_frame [of chk c] by (metis surj_pair snd_conv)

lemma same_charges_sync: "same_charges (bc_usage c) (bc_usage (sync_wall_time_inner now c))"
  using sync_frame [of c now] by (simp add: same_charges_def)

lemma same_charges_sync_wall: "same_charges (bc_usage c) (bc_usage (snd (sync_wall_time now c)))"
  by (simp add: sync_wall_time_def stop_checks snd_stop_result stop_check_usage same_charges_sync)

lemma same_charges_refusal:
  "fst (admit_turn now c) = Inl stop \<Longrightarrow> same_charges (bc_usage c) (bc_usage (snd (admit_turn now c)))"
  "fst (admit_tool_call now c) = Inl stop \<Longrightarrow> same_charges (bc_usage c) (bc_usage (snd (admit_tool_call now c)))"
  using same_charges_sync [of c now] stop_check_usage [of "exhausted_dimension False" "sync_wall_time_inner now c"]
    stop_check_usage [of "exhausted_dimension True" "sync_wall_time_inner now c"]
  by (auto simp: admit_turn_def admit_tool_call_def stop_checks split: prod.splits option.splits)

lemma same_charges_background: "same_charges (bc_usage c) (bc_usage (snd (background_child_lease now s n c)))"
proof -
  have leases: "same_charges (bc_usage c) (bc_usage (snd (child_leases now s k c)))" for s k
  proof -
    obtain out c' where o: "child_leases now s k c = (out, c')" by fastforce
    show ?thesis
      by (rule child_leases_cases [OF o]) (use o synced_frame [of c now] in \<open>auto simp: same_charges_def\<close>)
  qed
  then show ?thesis by (simp add: background_child_lease_def Let_def snd_child_lease split: option.split)
qed

subsection \<open>Every operation of the context publishes\<close>

lemmas publishes_intros = publishes_bind publishes_simple publishes_append_durable publishes_cleanup

lemma publishes_charge_receipt: "publishes (charge_receipt to_vec env i receipt)"
proof -
  have "publishes (op_bind (on_controller f) (\<lambda>_. op_bind (append_budget_usage n t a) (\<lambda>_. op_flush to_vec io)))"
    for f :: "budget_controller \<Rightarrow> (budget_stop, unit) result \<times> budget_controller" and n t a io
    by (intro publishing_publishes publishing_bind publishing_usage)
  then show ?thesis unfolding charge_receipt_def by (intro publishes_bind) (auto simp: publishes_simple)
qed

lemma publishes_refresh_entries: "publishes (refresh_entries to_vec env reserved entries)"
  by (induction to_vec env reserved entries rule: refresh_entries.induct)
    (auto split: option.split intro!: publishes_intros publishes_charge_receipt)

lemma publishes_refresh: "publishes (refresh_child_budgets to_vec env)"
  unfolding refresh_child_budgets_def
  by (auto simp: set_external_reservations_def intro!: publishes_intros publishes_controller publishes_refresh_entries)

lemma publishes_reserve_lease: "publishes (reserve_lease to_vec env path i lease)"
  unfolding reserve_lease_def
  by (auto split: prod.split intro!: publishes_intros publishes_controller publishes_refresh)

lemma publishes_stop_children: "publishes (stop_children cs)"
  by (induction cs) (auto simp: stop_child_def split: prod.split sum.split option.split intro!: publishes_intros)

lemma publishes_settle_children: "publishes (settle_children_for_stop to_vec scope renv)"
  unfolding settle_children_for_stop_def
  by (auto split: option.split sum.split intro!: publishes_intros publishes_refresh publishes_stop_children)

lemma publishes_admission:
  assumes "\<And>c stop. fst (admit c) = Inl stop \<Longrightarrow> same_charges (bc_usage c) (bc_usage (snd (admit c)))"
  shows "publishes (op_bind (on_controller admit) (\<lambda>admitted.
       case admitted of
         Inl stop \<Rightarrow> op_return (Inl stop)
       | Inr _ \<Rightarrow>
           op_bind op_get (\<lambda>t.
           op_bind (op_append (f t)) (\<lambda>_.
           op_bind (append_budget_usage n turn_id (g t)) (\<lambda>_.
           op_bind (op_flush to_vec io) (\<lambda>_. op_return (Inr ())))))))"
proof (rule publishes_charge)
  have ok: "publishing (op_bind op_get (\<lambda>t. op_bind (op_append (f t)) (\<lambda>_. op_bind (append_budget_usage n turn_id (g t)) (\<lambda>_.
      op_bind (op_flush to_vec io) (\<lambda>_. op_return (Inr ()))))))"
    by (intro publishing_bind publishing_usage_return)
  show "same_charges (bc_usage c) (bc_usage (snd (admit c))) \<or> publishing (case fst (admit c) of Inl stop \<Rightarrow> op_return (Inl stop)
       | Inr _ \<Rightarrow> op_bind op_get (\<lambda>t. op_bind (op_append (f t)) (\<lambda>_. op_bind (append_budget_usage n turn_id (g t)) (\<lambda>_.
           op_bind (op_flush to_vec io) (\<lambda>_. op_return (Inr ()))))))" for c
    using assms [of c] ok by (cases "fst (admit c)") auto
  show "publishes (case x of Inl stop \<Rightarrow> op_return (Inl stop)
       | Inr _ \<Rightarrow> op_bind op_get (\<lambda>t. op_bind (op_append (f t)) (\<lambda>_. op_bind (append_budget_usage n turn_id (g t)) (\<lambda>_.
           op_bind (op_flush to_vec io) (\<lambda>_. op_return (Inr ()))))))" for x
    using ok by (cases x) (auto intro: publishing_publishes publishes_simple)
qed

lemma publishes_operations:
  "publishes (op_admit_turn to_vec renv env turn_id)"
  "publishes (op_admit_tool_call to_vec renv env turn_id call name)"
  "publishes (op_record_tool_completed to_vec env turn_id call st e)"
  "publishes (op_sync_wall_time to_vec env)"
  "publishes (op_record_cost_usd_micros to_vec env cost a)"
  "publishes (op_merge_child_usage to_vec env u)"
  "publishes (op_background_child_lease to_vec lenv path requested siblings call)"
  "publishes (commit_terminal to_vec scope renv io turn_id tm)"
  "publishes (commit_budget_stop to_vec io1 io2 turn_id ck m)"
  "publishes (commit_non_resumable_budget_stop to_vec io1 io2 turn_id ck)"
  "publishes (commit_budget_stop_with_boundary to_vec scope renv io1 io2 writer turn_id run)"
  "publishes (remaining_deadline n1 n2)"
proof -
  show "publishes (op_admit_turn to_vec renv env turn_id)"
    unfolding op_admit_turn_def
    by (intro publishes_bind [OF publishes_refresh] publishes_admission same_charges_refusal)
  show "publishes (op_admit_tool_call to_vec renv env turn_id call name)"
    unfolding op_admit_tool_call_def
    by (intro publishes_bind [OF publishes_refresh] publishes_admission same_charges_refusal)
  show "publishes (op_record_tool_completed to_vec env turn_id call st e)"
    unfolding op_record_tool_completed_def by (intro publishing_publishes publishing_bind publishing_usage)
  show "publishes (op_sync_wall_time to_vec env)" "publishes (op_merge_child_usage to_vec env u)"
    unfolding op_sync_wall_time_def op_merge_child_usage_def by (intro publishing_publishes publishing_bind publishing_publish)+
  show "publishes (op_record_cost_usd_micros to_vec env cost a)"
    unfolding op_record_cost_usd_micros_def
    by (intro publishing_publishes publishing_bind) (simp add: publishing_bind publishing_publish)
  show "publishes (op_background_child_lease to_vec lenv path requested siblings call)"
    unfolding op_background_child_lease_def
    by (auto simp: Let_def split: sum.split option.split
        intro!: publishes_intros publishes_refresh publishes_controller same_charges_background publishes_reserve_lease)
  show "publishes (commit_terminal to_vec scope renv io turn_id tm)"
    unfolding commit_terminal_def
    by (auto split: operation_terminal.split intro!: publishes_intros publishes_refresh publishes_settle_children)
  show stops: "publishes (commit_budget_stop to_vec io1 io2 turn_id ck m)"
    "publishes (commit_non_resumable_budget_stop to_vec io1 io2 turn_id ck)" for ck m
    unfolding commit_budget_stop_def commit_non_resumable_budget_stop_def
    by (auto simp: Let_def record_checkpoint_def intro!: publishes_intros publishes_controller)
  show "publishes (commit_budget_stop_with_boundary to_vec scope renv io1 io2 writer turn_id run)"
    unfolding commit_budget_stop_with_boundary_def
    by (auto simp: Let_def split: option.split sum.split intro!: publishes_intros publishes_settle_children stops)
  show "publishes (remaining_deadline n1 n2)"
    unfolding remaining_deadline_def
    by (auto split: option.split intro!: publishes_intros publishes_controller same_charges_sync_wall)
qed

subsection \<open>The life of an operation\<close>

text \<open>The calls of an agent loop, each with what its environment does meanwhile.\<close>

datatype operation_event =
    EvAdmitTurn refresh_env step_env string
  | EvAdmitToolCall refresh_env step_env string string string
  | EvToolCompleted step_env string string string "string option"
  | EvSyncWallTime step_env
  | EvRecordCost step_env nat string
  | EvMergeChild step_env budget_usage
  | EvRefresh refresh_env
  | EvChildLease lease_env string budget_spec nat string
  | EvDeadline instant instant
  | EvBudgetStop "children_env option" refresh_env flush_io flush_io "(string, string option) result option" string string
  | EvStopWithoutBoundary flush_io flush_io string string
  | EvTerminal "children_env option" refresh_env flush_io string operation_terminal

fun op_step :: "(journal_record \<Rightarrow> string option) \<Rightarrow> operation_event \<Rightarrow> unit operation" where
  "op_step to_vec (EvAdmitTurn renv env turn_id) = op_bind (op_admit_turn to_vec renv env turn_id) (\<lambda>_. op_return ())"
| "op_step to_vec (EvAdmitToolCall renv env turn_id call name) =
     op_bind (op_admit_tool_call to_vec renv env turn_id call name) (\<lambda>_. op_return ())"
| "op_step to_vec (EvToolCompleted env turn_id call status error) = op_record_tool_completed to_vec env turn_id call status error"
| "op_step to_vec (EvSyncWallTime env) = op_bind (op_sync_wall_time to_vec env) (\<lambda>_. op_return ())"
| "op_step to_vec (EvRecordCost env cost a) = op_bind (op_record_cost_usd_micros to_vec env cost a) (\<lambda>_. op_return ())"
| "op_step to_vec (EvMergeChild env u) = op_bind (op_merge_child_usage to_vec env u) (\<lambda>_. op_return ())"
| "op_step to_vec (EvRefresh renv) = refresh_child_budgets to_vec renv"
| "op_step to_vec (EvChildLease lenv path requested siblings call) =
     op_bind (op_background_child_lease to_vec lenv path requested siblings call) (\<lambda>_. op_return ())"
| "op_step to_vec (EvDeadline synced_at now) = op_bind (remaining_deadline synced_at now) (\<lambda>_. op_return ())"
| "op_step to_vec (EvBudgetStop scope renv io1 io2 writer turn_id run) =
     op_bind (commit_budget_stop_with_boundary to_vec scope renv io1 io2 writer turn_id run) (\<lambda>_. op_return ())"
| "op_step to_vec (EvStopWithoutBoundary io1 io2 turn_id checkpoint_id) =
     op_bind (commit_non_resumable_budget_stop to_vec io1 io2 turn_id checkpoint_id) (\<lambda>_. op_return ())"
| "op_step to_vec (EvTerminal scope renv io turn_id tm) = commit_terminal to_vec scope renv io turn_id tm"

lemma op_step_sound: "journal_codec to_vec from_str from_value \<Longrightarrow> sound to_vec from_str from_value (op_step to_vec e)"
  by (cases e) (auto intro: sound_bind sound_operations sound_refresh)

lemma op_step_publishes: "publishes (op_step to_vec e)"
  by (cases e) (auto intro: publishes_bind publishes_simple publishes_operations publishes_refresh)

text \<open>
  The operation is opened on a fresh file, works while its children write to the ledger beside it, and is reopened by
  another process whenever the one that runs it dies, which may be in the middle of a call.
\<close>

inductive live_context ::
    "(journal_record \<Rightarrow> string option) \<Rightarrow> (string \<Rightarrow> json_value option) \<Rightarrow> (json_value \<Rightarrow> journal_record option)
     \<Rightarrow> budget_spec \<Rightarrow> string \<Rightarrow> operation_context \<Rightarrow> bool"
  for to_vec from_str from_value spec i where
    opened: "open_at to_vec from_str from_value rio readable env started_ms spec i None ledger = (Inr s, f) \<Longrightarrow>
      se_unix_ms env \<le> u64_max \<Longrightarrow> live_context to_vec from_str from_value spec i s"
  | called: "live_context to_vec from_str from_value spec i s \<Longrightarrow> op_step to_vec e s = (Inr (), s') \<Longrightarrow>
      live_context to_vec from_str from_value spec i s'"
  | ledger_written: "live_context to_vec from_str from_value spec i s \<Longrightarrow>
      live_context to_vec from_str from_value spec i (s\<lparr>oc_ledger := ledger\<rparr>)"
  | restarted: "live_context to_vec from_str from_value spec i s \<Longrightarrow> op_step to_vec e s = (res, s') \<Longrightarrow>
      open_at to_vec from_str from_value RepairOk True env started_ms spec i (oc_file s') ledger = (Inr s'', f) \<Longrightarrow>
      se_unix_ms env \<le> u64_max \<Longrightarrow> live_context to_vec from_str from_value spec i s''"

definition context_ok :: "(journal_record \<Rightarrow> string option) \<Rightarrow> budget_spec \<Rightarrow> string \<Rightarrow> operation_context \<Rightarrow> bool" where
  "context_ok to_vec spec i s \<longleftrightarrow>
     underway to_vec i (ej_committed (oc_journal s)) s \<and> published s
     \<and> (\<exists>r rs. ej_committed (oc_journal s) = r # rs \<and> is_started r \<and> jr_budget_spec r = spec)"

lemma durable_usage_charges:
  "same_charges u (bc_usage (from_durable_usage now spec u n))"
  "bc_usage (from_durable_usage now spec u n) = u\<lparr>wall_time_ms := max (wall_time_ms u) n\<rparr>"
  using observe_inner_frame observe_cost_frame
  by (auto simp: from_durable_usage_def Let_def same_charges_def split: option.splits)

text \<open>Reopening what an operation of the same budget left.\<close>

lemma open_at_recovers:
  assumes "open_journal from_str from_value RepairOk True i file = (Inr (reloaded i rs), f)"
    and "in_step to_vec (reloaded i rs) f" "wf_usages rs" "find_map usage_of (rev rs) = Some u"
    and "rs = r # rs'" "is_started r" "jr_budget_spec r = spec"
  shows "\<exists>s. open_at to_vec from_str from_value RepairOk True env started_ms spec i file ledger = (Inr s, f)
    \<and> same_charges u (bc_usage (oc_controller s)) \<and> ej_committed (oc_journal s) = rs
    \<and> (se_unix_ms env \<le> u64_max \<longrightarrow> context_ok to_vec spec i s)"
proof -
  let ?c = "from_durable_usage (se_now env) spec u (unix_elapsed (se_unix_ms env) (jr_started_at_ms r))"
  let ?s = "\<lparr>oc_controller = ?c, oc_journal = reloaded i rs, oc_file = f, oc_ledger = ledger\<rparr>"
  have "open_at to_vec from_str from_value RepairOk True env started_ms spec i file ledger = (Inr ?s, f)"
    using assms by (simp add: open_at_def start_journal_def resume_controller_def operation_budget_spec_def
        latest_budget_usage_def operation_started_at_ms_def)
  moreover have "context_ok to_vec spec i ?s" if "se_unix_ms env \<le> u64_max"
  proof -
    have "usage_wf u" using assms(3,4) find_map_rev_Some [OF assms(4)] by (auto simp: wf_usages_def)
    with that have "usage_wf (bc_usage ?c) \<and> usage_le u (bc_usage ?c)"
      by (auto simp: durable_usage_charges usage_wf_def usage_le_def unix_elapsed_def)
    with assms durable_usage_charges(1) show ?thesis
      by (auto simp: context_ok_def underway_def published_def latest_known_def latest_budget_usage_def)
  qed
  ultimately show ?thesis using durable_usage_charges(1) by auto
qed

lemma opened_ok:
  assumes "journal_codec to_vec from_str from_value"
    and "open_at to_vec from_str from_value rio readable env started_ms spec i None ledger = (Inr s, f)" "se_unix_ms env \<le> u64_max"
  shows "context_ok to_vec spec i s"
proof -
  define j1 where "j1 = snd (append_record (started_record started_ms spec i) (journal_new i))"
  define j2 where "j2 = snd (append_record (first_usage_record started_ms i) j1)"
  let ?r = "stamp_ordinal (started_record started_ms spec i) 1"
  note defs = append_record_def journal_new_def no_faults_def started_record_def first_usage_record_def
    validate_ordering_def validate_usage_def unmatched_tool_starts_including_pending_def unmatched_in_def
  have 1: "append_record (started_record started_ms spec i) (journal_new i) = (Inr (), j1)" by (simp add: defs j1_def)
  have 2: "append_record (first_usage_record started_ms i) j1 = (Inr (), j2)" by (simp add: defs j1_def j2_def)
  have j: "ej_committed j2 = []" "ej_pending j2 = [?r, stamp_ordinal (first_usage_record started_ms i) 2]" "ej_operation_id j2 = i"
    by (simp_all add: defs j1_def j2_def u64_max_def sat_add_def)
  have new: "ej_committed (journal_new i) = []" by (simp add: journal_new_def)
  obtain res j' f' where fl: "flush_journal to_vec (se_flush env) j2 None = (res, j', f')" by (metis prod_cases3)
  have step: "in_step to_vec j2 None" unfolding j1_def j2_def by (intro in_step_append in_step_new)
  from assms(2) have s: "res = Inr ()" "oc_journal s = j'" "oc_file s = f'" "resume_controller (se_now env) (se_unix_ms env) spec j' = Inr (oc_controller s)"
    using fl by (auto simp: open_at_def open_journal_def start_journal_def 1 2 new split: sum.splits)
  have flushed: "in_step to_vec j' f'" "ej_pending j' = []" "ej_committed j' = ej_committed j2 @ ej_pending j2"
    using flush_done [OF step fl [unfolded s(1)]] by simp_all
  have c: "ej_committed j' = [?r, stamp_ordinal (first_usage_record started_ms i) 2]" using flushed(3) j by simp
  have ctrl: "oc_controller s = from_durable_usage (se_now env) spec zero_usage (unix_elapsed (se_unix_ms env) started_ms)"
    using s(4) c by (simp add: resume_controller_def operation_budget_spec_def latest_budget_usage_def operation_started_at_ms_def
        started_record_def first_usage_record_def)
  have "usage_wf (bc_usage (oc_controller s))" "usage_le zero_usage (bc_usage (oc_controller s))"
    using assms(3) by (auto simp: ctrl durable_usage_charges usage_defs unix_elapsed_def)
  moreover have "usage_wf zero_usage" by (simp add: usage_defs)
  moreover have "ej_operation_id j' = i" using flush_ok(2) [OF _ fl] step j(3) by (simp add: in_step_def)
  ultimately show ?thesis
    using flushed(1,2) c s(2,3) durable_usage_charges(1) [of zero_usage]
    by (auto simp: context_ok_def underway_def published_def latest_known_def latest_budget_usage_def wf_usages_def ctrl
        started_record_def first_usage_record_def)
qed

lemma context_ok_called:
  assumes "journal_codec to_vec from_str from_value" "context_ok to_vec spec i s" "op_step to_vec e s = (Inr (), s')"
  shows "context_ok to_vec spec i s'"
proof -
  from assms(2) have u: "underway to_vec i (ej_committed (oc_journal s)) s" "published s" by (simp_all add: context_ok_def)
  from soundD(1) [OF op_step_sound [OF assms(1)] u(1) assms(3)] have u': "underway to_vec i (ej_committed (oc_journal s)) s'" .
  then have p: "prefix (ej_committed (oc_journal s)) (ej_committed (oc_journal s'))" by (simp add: underway_def)
  have "underway to_vec i (ej_committed (oc_journal s')) s'"
    using u' latest_prefix [OF p] by (auto simp: underway_def)
  moreover have "published s'" using op_step_publishes u(2) assms(3) unfolding publishes_def by blast
  ultimately show ?thesis using assms(2) p by (auto simp: context_ok_def prefix_def)
qed

text \<open>Whatever a call did, reopening counts what was counted before it, and nothing that was not charged.\<close>

definition charges_le :: "budget_usage \<Rightarrow> budget_usage \<Rightarrow> bool" where
  "charges_le u v \<longleftrightarrow> turns u \<le> turns v \<and> tool_calls u \<le> tool_calls v \<and> cost_usd_micros u \<le> cost_usd_micros v"

lemma context_ok_recovers:
  assumes "context_ok to_vec spec i s" "recoverable to_vec from_str from_value i (ej_committed (oc_journal s)) t"
  shows "\<exists>s' f. open_at to_vec from_str from_value RepairOk True env started_ms spec i (oc_file t) ledger = (Inr s', f)
    \<and> charges_le (bc_usage (oc_controller s)) (bc_usage (oc_controller s'))
    \<and> charges_le (bc_usage (oc_controller s')) (bc_usage (oc_controller t))
    \<and> (se_unix_ms env \<le> u64_max \<longrightarrow> context_ok to_vec spec i s')"
proof -
  from assms(2) obtain rs f v where rs: "open_journal from_str from_value RepairOk True i (oc_file t) = (Inr (reloaded i rs), f)"
    "in_step to_vec (reloaded i rs) f" "wf_usages rs" "find_map usage_of (rev rs) = Some v"
    "prefix (ej_committed (oc_journal s)) rs" "usage_le v (bc_usage (oc_controller t))" unfolding recoverable_def by blast
  then obtain b where b: "rs = ej_committed (oc_journal s) @ b" by (auto simp: prefix_def)
  from assms(1) obtain r rs0 where "ej_committed (oc_journal s) = r # rs0" "is_started r" "jr_budget_spec r = spec"
    by (auto simp: context_ok_def)
  with b have r: "rs = r # rs0 @ b" "is_started r" "jr_budget_spec r = spec" by simp_all
  from assms(1) obtain w where w: "find_map usage_of (rev (ej_committed (oc_journal s))) = Some w"
    "same_charges w (bc_usage (oc_controller s))" by (auto simp: context_ok_def published_def latest_budget_usage_def)
  have "ordered i (ej_committed (oc_journal s) @ b)" using rs(2) by (simp add: in_step_def journal_ok_def b)
  from latest_append [OF this w(1)] rs(4) b have "usage_le w v" by auto
  with open_at_recovers [OF rs(1-4) r] rs(6) w(2) show ?thesis
    by (fastforce simp: charges_le_def same_charges_def usage_le_def)
qed

lemma called_recoverable:
  assumes "journal_codec to_vec from_str from_value" "context_ok to_vec spec i s" "op_step to_vec e s = (res, s')"
  shows "recoverable to_vec from_str from_value i (ej_committed (oc_journal s)) s'"
proof -
  from assms(2) have u: "underway to_vec i (ej_committed (oc_journal s)) s" by (simp add: context_ok_def)
  note ok = soundD [OF op_step_sound [OF assms(1)] u]
  show ?thesis
  proof (cases res)
    case (Inl e)
    with ok(2) assms(3) show ?thesis by blast
  next
    case (Inr x)
    with ok(1) assms(3) show ?thesis by (blast intro: underway_recoverable [OF assms(1)] usage_le_refl)
  qed
qed

lemma live_context_ok:
  assumes "journal_codec to_vec from_str from_value" "live_context to_vec from_str from_value spec i s"
  shows "context_ok to_vec spec i s"
  using assms(2)
proof induction
  case (opened rio readable env started_ms ledger s f)
  with opened_ok [OF assms(1)] show ?case by blast
next
  case (called s e s')
  with context_ok_called [OF assms(1)] show ?case by blast
next
  case (ledger_written s ledger)
  then show ?case by (auto simp: context_ok_def underway_def published_def)
next
  case (restarted s e res s' env started_ms ledger s'' f)
  from context_ok_recovers [OF restarted(5) called_recoverable [OF assms(1) restarted(5,2)], of env started_ms ledger] restarted(3,4)
  show ?case by auto
qed

text \<open>
  C10: However often the process of an operation died before, and whatever happens during a call, whether it succeeds,
  is refused, meets an unwritable journal or ledger, or tears its last write: reopening the operation with its budget
  succeeds, and the controller counts at least the turns, tool calls and cost counted before the call and at most what
  the call charged. If the call succeeded, it counts exactly what the call left.
\<close>

theorem admitted_work_is_never_forgotten:
  assumes "journal_codec to_vec from_str from_value" "live_context to_vec from_str from_value spec i s"
    and "op_step to_vec e s = (res, s')"
  shows "\<exists>s'' f. open_at to_vec from_str from_value RepairOk True env started_ms spec i (oc_file s') ledger = (Inr s'', f)
    \<and> charges_le (bc_usage (oc_controller s)) (bc_usage (oc_controller s''))
    \<and> charges_le (bc_usage (oc_controller s'')) (bc_usage (oc_controller s'))
    \<and> (res = Inr () \<longrightarrow> same_charges (bc_usage (oc_controller s'')) (bc_usage (oc_controller s')))"
proof -
  note ok = live_context_ok [OF assms(1,2)]
  from context_ok_recovers [OF ok called_recoverable [OF assms(1) ok assms(3)], of env started_ms ledger] obtain s'' f where s'':
    "open_at to_vec from_str from_value RepairOk True env started_ms spec i (oc_file s') ledger = (Inr s'', f)"
    "charges_le (bc_usage (oc_controller s)) (bc_usage (oc_controller s''))"
    "charges_le (bc_usage (oc_controller s'')) (bc_usage (oc_controller s'))" by blast
  moreover have "charges_le (bc_usage (oc_controller s')) (bc_usage (oc_controller s''))" if "res = Inr ()"
  proof -
    have ok': "context_ok to_vec spec i s'" using context_ok_called [OF assms(1) ok] assms(3) that by simp
    then have "recoverable to_vec from_str from_value i (ej_committed (oc_journal s')) s'"
      by (intro underway_recoverable [OF assms(1)]) (auto simp: context_ok_def)
    from context_ok_recovers [OF ok' this, of env started_ms ledger] s''(1) show ?thesis by auto
  qed
  ultimately show ?thesis by (fastforce simp: charges_le_def same_charges_def)
qed

subsection \<open>Whole runs\<close>

text \<open>
  An operation whose process is replaced by a new one whenever a call fails. The clock of the new process is read
  as a \<^verbatim>\<open>u64\<close>.
\<close>

fun context_step ::
    "(journal_record \<Rightarrow> string option) \<Rightarrow> (string \<Rightarrow> json_value option) \<Rightarrow> (json_value \<Rightarrow> journal_record option)
     \<Rightarrow> budget_spec \<Rightarrow> string \<Rightarrow> operation_event \<times> step_env \<times> ledger_file \<Rightarrow> operation_context \<Rightarrow> operation_context" where
  "context_step to_vec from_str from_value spec i (e, env, ledger) s =
     (case op_step to_vec e s of
        (Inr _, s') \<Rightarrow> s'
      | (Inl _, s') \<Rightarrow>
          (case open_at to_vec from_str from_value RepairOk True (env\<lparr>se_unix_ms := se_unix_ms env mod 2 ^ 64\<rparr>) 0 spec i
                  (oc_file s') ledger of
             (Inr s'', _) \<Rightarrow> s''
           | (Inl _, _) \<Rightarrow> s'))"

lemma charges_le_trans: "charges_le u v \<Longrightarrow> charges_le v w \<Longrightarrow> charges_le u w"
  by (simp add: charges_le_def)

lemma context_step_ok:
  assumes "journal_codec to_vec from_str from_value" "context_ok to_vec spec i s"
    and s'_def: "s' = context_step to_vec from_str from_value spec i e s"
  shows "context_ok to_vec spec i s' \<and> charges_le (bc_usage (oc_controller s)) (bc_usage (oc_controller s'))"
proof -
  obtain ev env ledger where e: "e = (ev, env, ledger)" by (metis prod_cases3)
  let ?env = "env\<lparr>se_unix_ms := se_unix_ms env mod 2 ^ 64\<rparr>"
  obtain res t where step: "op_step to_vec ev s = (res, t)" by fastforce
  have unix: "se_unix_ms ?env \<le> u64_max" by (simp add: u64_max_def)
  from context_ok_recovers [OF assms(2) called_recoverable [OF assms(1,2) step], of ?env 0 ledger] unix obtain s'' f where s'':
    "open_at to_vec from_str from_value RepairOk True ?env 0 spec i (oc_file t) ledger = (Inr s'', f)"
    "charges_le (bc_usage (oc_controller s)) (bc_usage (oc_controller s''))"
    "charges_le (bc_usage (oc_controller s'')) (bc_usage (oc_controller t))" "context_ok to_vec spec i s''" by blast
  show ?thesis
  proof (cases res)
    case (Inl x)
    with s'' show ?thesis by (simp add: s'_def e step)
  next
    case (Inr x)
    then have "context_ok to_vec spec i t" using context_ok_called [OF assms(1,2)] step by simp
    with Inr s''(2,3) show ?thesis by (auto simp: s'_def e step intro: charges_le_trans)
  qed
qed

interpretation context_runs: metered_machine "context_step to_vec from_str from_value spec i"
  "\<lambda>s. journal_codec to_vec from_str from_value \<longrightarrow> context_ok to_vec spec i s"
  "\<lambda>s. bc_usage (oc_controller s)" "\<lambda>u v. journal_codec to_vec from_str from_value \<longrightarrow> charges_le u v"
  by unfold_locales (use context_step_ok [OF _ _ refl] charges_le_trans in \<open>auto simp: charges_le_def\<close>)

text \<open>From the first opening on, nothing that was charged is forgotten.\<close>

lemma charges_survive_runs:
  assumes "journal_codec to_vec from_str from_value" "live_context to_vec from_str from_value spec i s"
  shows "charges_le (bc_usage (oc_controller s))
    (bc_usage (oc_controller (fold (context_step to_vec from_str from_value spec i) es s)))"
  using context_runs.run_reading [of to_vec from_str from_value spec i s es] live_context_ok [OF assms] assms(1) by blast

subsection \<open>Retries within one process\<close>

lemma record_cost_value:
  "cost_usd_micros (bc_usage (snd (record_cost_usd_micros now k c))) = sat_add u64_max (cost_usd_micros (bc_usage c)) k"
  using sync_frame [of c now]
  by (simp add: record_cost_usd_micros_def Let_def stop_checks snd_stop_result stop_check_usage observe_cost_frame
      add_cost_usd_micros_def)

lemma flush_failed_journal:
  assumes "flush_journal to_vec io j f = (Inl e, j', f')"
  shows "ej_committed j' = ej_committed j" "ej_pending j' = ej_pending j" "ej_operation_id j' = ej_operation_id j"
    "ej_terminal_appended j' = ej_terminal_appended j"
  using assms by (auto simp: flush_journal_def Let_def split: if_splits flush_io.splits prod.splits)

text \<open>A charge whose flush failed is left pending, with its accounting id.\<close>

lemma unflushed_cost:
  assumes "op_record_cost_usd_micros to_vec env cost a s = (Inl (JournalFlush e), s')" "\<not> has_budget_accounting_id a (oc_journal s)"
  defines "u \<equiv> bc_usage (snd (record_cost_usd_micros (se_now env) cost (oc_controller s)))"
  shows "oc_controller s' = snd (record_cost_usd_micros (se_now env) cost (oc_controller s))"
    "ej_operation_id (oc_journal s') = ej_operation_id (oc_journal s)" "ej_committed (oc_journal s') = ej_committed (oc_journal s)"
    "\<exists>n. ej_pending (oc_journal s') = ej_pending (oc_journal s)
       @ [BudgetUsageRec (ej_operation_id (oc_journal s)) [] n journal_schema_version u (se_unix_ms env) (Some a)]"
    "list_ex is_started (ej_committed (oc_journal s') @ ej_pending (oc_journal s'))"
    "\<not> ej_terminal_appended (oc_journal s')" "\<not> list_ex is_terminal_record (ej_committed (oc_journal s') @ ej_pending (oc_journal s'))"
proof -
  let ?c = "snd (record_cost_usd_micros (se_now env) cost (oc_controller s))"
  let ?r = "BudgetUsageRec (ej_operation_id (oc_journal s)) [] 0 journal_schema_version u (se_unix_ms env) (Some a)"
  obtain res c where c: "record_cost_usd_micros (se_now env) cost (oc_controller s) = (res, c)" by fastforce
  obtain ares j where j: "append_record ?r (oc_journal s) = (ares, j)" by fastforce
  obtain fres j' f where f: "flush_journal to_vec (se_flush env) j (oc_file s) = (fres, j', f)" by (metis prod_cases3)
  from assms(1,2) c j f have s': "s' = s\<lparr>oc_controller := c, oc_journal := j', oc_file := f\<rparr>" and ares: "ares = Inr ()"
    and fres: "fres = Inl e"
    by (cases ares; cases fres; auto simp: op_record_cost_usd_micros_def publish_def append_budget_usage_def op_append_def op_flush_def op_operation_id_def
        op_bind_def op_get_def on_controller_def op_return_def u_def split: prod.splits sum.splits)+
  from j ares have v: "validate_ordering (oc_journal s) ?r = Inr ()"
    and j': "j = (oc_journal s)\<lparr>ej_next_ordinal := sat_add u64_max (ej_next_ordinal (oc_journal s)) 1,
        ej_pending := ej_pending (oc_journal s) @ [stamp_ordinal ?r (ej_next_ordinal (oc_journal s))]\<rparr>"
    by (auto simp: append_record_def split: if_splits sum.splits)
  note kept = flush_failed_journal [OF f [unfolded fres]]
  from v have "list_ex is_started (ej_committed (oc_journal s) @ ej_pending (oc_journal s))"
    "\<not> ej_terminal_appended (oc_journal s)" "\<not> list_ex is_terminal_record (ej_committed (oc_journal s) @ ej_pending (oc_journal s))"
    by (auto simp: validate_ordering_def Let_def split: if_splits)
  with kept j' show "list_ex is_started (ej_committed (oc_journal s') @ ej_pending (oc_journal s'))"
    "\<not> ej_terminal_appended (oc_journal s')" "\<not> list_ex is_terminal_record (ej_committed (oc_journal s') @ ej_pending (oc_journal s'))"
    by (auto simp: s')
  show "oc_controller s' = ?c" "ej_operation_id (oc_journal s') = ej_operation_id (oc_journal s)"
    "ej_committed (oc_journal s') = ej_committed (oc_journal s)"
    "\<exists>n. ej_pending (oc_journal s') = ej_pending (oc_journal s)
       @ [BudgetUsageRec (ej_operation_id (oc_journal s)) [] n journal_schema_version u (se_unix_ms env) (Some a)]"
    using kept j' c by (simp_all add: s')
qed

text \<open>
  C12: Retrying the settlement of a provider cost after a failed flush, in the same process: the accounting id is only
  looked up among the durable records, so the controller is charged a second time, and the journal then refuses the
  record because the id is already pending.
\<close>

theorem retried_cost_is_charged_twice:
  assumes "journal_codec to_vec from_str from_value" "live_context to_vec from_str from_value spec i s"
    and "\<not> has_budget_accounting_id a (oc_journal s)"
    and "op_record_cost_usd_micros to_vec env cost a s = (Inl (JournalFlush e), s')"
    and "cost_usd_micros (bc_usage (oc_controller s)) + 2 * cost \<le> u64_max"
  shows "\<exists>s''. op_record_cost_usd_micros to_vec env' cost a s' = (Inl (JournalAppend (Ordering (AccountingIdOnce a))), s'')
    \<and> cost_usd_micros (bc_usage (oc_controller s'')) = cost_usd_micros (bc_usage (oc_controller s)) + 2 * cost"
proof -
  note s' = unflushed_cost [OF assms(4,3)]
  let ?c1 = "snd (record_cost_usd_micros (se_now env) cost (oc_controller s))"
  obtain res c2 where c2: "record_cost_usd_micros (se_now env') cost ?c1 = (res, c2)" by fastforce
  have "usage_wf (bc_usage (oc_controller s))" using live_context_ok [OF assms(1,2)] by (auto simp: context_ok_def underway_def)
  then have "usage_wf (bc_usage ?c1)" using record_cost_ok by (auto simp: ctrl_ok_def)
  then have le: "usage_le (bc_usage ?c1) (bc_usage c2)" using record_cost_ok [of ?c1 "se_now env'" cost] c2 by (simp add: ctrl_ok_def)
  obtain n where n: "ej_pending (oc_journal s') = ej_pending (oc_journal s)
       @ [BudgetUsageRec (ej_operation_id (oc_journal s)) [] n journal_schema_version (bc_usage ?c1) (se_unix_ms env) (Some a)]"
    using s'(4) by blast
  let ?r = "BudgetUsageRec (ej_operation_id (oc_journal s')) [] 0 journal_schema_version (bc_usage c2) (se_unix_ms env') (Some a)"
  have "validate_ordering (oc_journal s') ?r = Inl (AccountingIdOnce a)"
    using s'(5-7) le n by (auto simp: validate_ordering_def validate_usage_def Let_def usage_below_def usage_le_def)
  then have "append_record ?r (oc_journal s') = (Inl (Ordering (AccountingIdOnce a)), oc_journal s')"
    by (simp add: append_record_def)
  moreover have "\<not> has_budget_accounting_id a (oc_journal s')" using assms(3) s'(3) by (simp add: has_budget_accounting_id_def)
  ultimately have "op_record_cost_usd_micros to_vec env' cost a s' =
      (Inl (JournalAppend (Ordering (AccountingIdOnce a))), s'\<lparr>oc_controller := c2\<rparr>)"
    using c2 s'(1) by (simp add: op_record_cost_usd_micros_def publish_def append_budget_usage_def op_append_def op_operation_id_def
        op_bind_def op_get_def on_controller_def)
  moreover have "cost_usd_micros (bc_usage c2) = cost_usd_micros (bc_usage (oc_controller s)) + 2 * cost"
    using record_cost_value [of "se_now env'" cost ?c1] record_cost_value [of "se_now env" cost "oc_controller s"] c2 assms(5)
    by (simp add: sat_add_def)
  ultimately show ?thesis by (intro exI [of _ "s'\<lparr>oc_controller := c2\<rparr>"]) simp
qed

text \<open>A journal that holds only the start of its operation, as a crash within its first flush leaves it, never opens again.\<close>

lemma start_alone_never_opens:
  assumes "open_journal from_str from_value rio readable i file = (Inr j, file')" "ej_committed j = [r]" "is_started r"
  shows "\<exists>e. fst (open_at to_vec from_str from_value rio readable env started_ms spec i file ledger) = Inl e
    \<and> (jr_budget_spec r = spec \<longrightarrow> e = NoDurableUsage)"
  using assms
  by (cases r) (auto simp: open_at_def start_journal_def resume_controller_def operation_budget_spec_def latest_budget_usage_def)

end
