(* ===== verification/Operation_Stops.thy ===== *)
theory Operation_Stops
  imports Operation_Recovery
begin

text \<open>
  How an operation ends when its budget is spent: the checkpoint is durable before the terminal, and the terminal is
  resumable only when the conversation has a durable boundary to resume from.
\<close>

subsection \<open>A recorded checkpoint is followed by a terminal\<close>

definition checkpoint_settled :: "operation_context \<Rightarrow> bool" where
  "checkpoint_settled s \<longleftrightarrow>
     (bc_checkpoint_id (oc_controller s) \<noteq> None \<longrightarrow> list_ex is_terminal_record (ej_committed (oc_journal s)))"

definition settles :: "'a operation \<Rightarrow> bool" where
  "settles m \<longleftrightarrow> (\<forall>s x s'. checkpoint_settled s \<longrightarrow> m s = (Inr x, s') \<longrightarrow> checkpoint_settled s')"

lemma settles_bind: "settles m \<Longrightarrow> (\<And>x. settles (k x)) \<Longrightarrow> settles (op_bind m k)"
  unfolding settles_def op_bind_Inr by blast

lemma settles_simple: "settles op_get" "settles (op_return x)" "settles (op_fail e)" "settles (on_ledger f)"
  by (auto simp: settles_def checkpoint_settled_def op_get_def op_return_def op_fail_def on_ledger_def split: prod.splits)

lemma settles_cleanup: "settles m \<Longrightarrow> settles (op_cleanup m h)"
  by (auto simp: settles_def op_cleanup_def split: prod.splits sum.splits)

lemma settles_append: "settles (op_append r)"
  unfolding settles_def checkpoint_settled_def by (auto simp: op_append_Inr)

lemma settles_usage: "settles (append_budget_usage n t a)"
  unfolding settles_def append_budget_usage_def checkpoint_settled_def by (auto simp: op_append_Inr)

lemma settles_flush: "settles (op_flush to_vec io)"
  unfolding settles_def checkpoint_settled_def by (auto simp: op_flush_Inr)

lemma settles_append_durable: "settles (op_append_durable to_vec io r)"
  unfolding op_append_durable_def by (intro settles_bind settles_append settles_flush)

lemma settles_controller:
  assumes "\<And>c. bc_checkpoint_id (snd (f c)) = bc_checkpoint_id c"
  shows "settles (on_controller f)"
  unfolding settles_def
proof (intro allI impI)
  fix s x s'
  assume "checkpoint_settled s" "on_controller f s = (Inr x, s')"
  then show "checkpoint_settled s'"
    using assms [of "oc_controller s"] by (auto simp: checkpoint_settled_def on_controller_def split: prod.splits)
qed

lemma checked_checkpoint:
  "bc_checkpoint_id (snd (stop_check chk c)) = bc_checkpoint_id c"
  "bc_checkpoint_id (sync_wall_time_inner now c) = bc_checkpoint_id c"
  "bc_checkpoint_id (synced now c) = bc_checkpoint_id c"
  "bc_checkpoint_id (observe_inner_turn_soft_landing c) = bc_checkpoint_id c"
  "bc_checkpoint_id (observe_cost_soft_landing c) = bc_checkpoint_id c"
  using stop_check_frame [of chk c "fst (stop_check chk c)" "snd (stop_check chk c)"] sync_frame [of c now] synced_frame [of c now]
    observe_inner_frame [of c] observe_cost_frame [of c]
  by (simp_all add: same_control_def)

lemma controller_checkpoint:
  "bc_checkpoint_id (snd (admit_turn now c)) = bc_checkpoint_id c"
  "bc_checkpoint_id (snd (admit_tool_call now c)) = bc_checkpoint_id c"
  "bc_checkpoint_id (snd (sync_wall_time now c)) = bc_checkpoint_id c"
  "bc_checkpoint_id (snd (record_cost_usd_micros now k c)) = bc_checkpoint_id c"
  "bc_checkpoint_id (snd (merge_child_usage now u c)) = bc_checkpoint_id c"
  "bc_checkpoint_id (snd (background_child_lease now sp n c)) = bc_checkpoint_id c"
proof -
  have checked: "bc_checkpoint_id c' = bc_checkpoint_id c" if "stop_check chk (sync_wall_time_inner now c) = (out, c')" for chk out c'
    using checked_checkpoint(1) [of chk "sync_wall_time_inner now c"] that checked_checkpoint(2) by simp
  show "bc_checkpoint_id (snd (admit_turn now c)) = bc_checkpoint_id c"
    "bc_checkpoint_id (snd (admit_tool_call now c)) = bc_checkpoint_id c"
    by (auto simp: admit_turn_def admit_tool_call_def stop_checks checked_checkpoint(4) split: prod.splits option.splits dest: checked)
  show "bc_checkpoint_id (snd (sync_wall_time now c)) = bc_checkpoint_id c"
    "bc_checkpoint_id (snd (record_cost_usd_micros now k c)) = bc_checkpoint_id c"
    "bc_checkpoint_id (snd (merge_child_usage now u c)) = bc_checkpoint_id c"
    by (simp_all add: sync_wall_time_def record_cost_usd_micros_def merge_child_usage_def Let_def stop_checks snd_stop_result
        checked_checkpoint)
  have "bc_checkpoint_id (snd (child_leases now sp k c)) = bc_checkpoint_id c" for sp k
  proof -
    obtain out c' where o: "child_leases now sp k c = (out, c')" by fastforce
    show ?thesis by (rule child_leases_cases [OF o]) (use o checked_checkpoint(3) in auto)
  qed
  then show "bc_checkpoint_id (snd (background_child_lease now sp n c)) = bc_checkpoint_id c"
    by (simp add: background_child_lease_def Let_def snd_child_lease split: option.split)
qed

lemmas settles_intros = settles_bind settles_simple settles_cleanup settles_append settles_usage settles_flush
  settles_append_durable settles_controller

lemma settles_refresh: "settles (refresh_child_budgets to_vec renv)"
proof -
  have "settles (charge_receipt to_vec env i receipt)" for env i receipt
    unfolding charge_receipt_def by (auto simp: controller_checkpoint intro!: settles_intros)
  then have "settles (refresh_entries to_vec env reserved entries)" for env reserved entries
    by (induction to_vec env reserved entries rule: refresh_entries.induct) (auto split: option.split intro!: settles_intros)
  then show ?thesis
    unfolding refresh_child_budgets_def by (auto simp: set_external_reservations_def intro!: settles_intros)
qed

lemma settles_settle_children: "settles (settle_children_for_stop to_vec scope renv)"
proof -
  have "settles (stop_children cs)" for cs
    by (induction cs) (auto simp: stop_child_def split: prod.split sum.split option.split intro!: settles_intros)
  then show ?thesis
    unfolding settle_children_for_stop_def by (auto split: option.split sum.split intro!: settles_intros settles_refresh)
qed

lemma durable_commits:
  assumes "op_append_durable to_vec io r s = (Inr x, s')"
  shows "oc_controller s' = oc_controller s" "ej_pending (oc_journal s') = []"
    "\<exists>n. ej_committed (oc_journal s') = ej_committed (oc_journal s) @ ej_pending (oc_journal s) @ [stamp_ordinal r n]"
proof -
  from assms obtain y t where a: "op_append r s = (Inr y, t)" and f: "op_flush to_vec io t = (Inr x, s')"
    by (auto simp: op_append_durable_def op_bind_Inr)
  from op_append_Inr [OF a] op_flush_Inr [OF f] show "oc_controller s' = oc_controller s" "ej_pending (oc_journal s') = []"
    "\<exists>n. ej_committed (oc_journal s') = ej_committed (oc_journal s) @ ej_pending (oc_journal s) @ [stamp_ordinal r n]"
    by auto
qed

lemma appended_open:
  assumes "op_append_durable to_vec io r s = (Inr x, s')"
  shows "\<not> list_ex is_terminal_record (ej_committed (oc_journal s))"
proof -
  from assms have "fst (append_record r (oc_journal s)) = Inr ()"
    by (auto simp: op_append_durable_def op_append_def op_bind_Inr split: prod.splits)
  then have "validate_ordering (oc_journal s) r = Inr ()"
    by (cases rule: append_cases [of r "oc_journal s"]) auto
  then show ?thesis by (auto simp: validate_ordering_def Let_def split: if_splits)
qed

subsection \<open>The two kinds of stop\<close>

lemma commit_budget_stop_Inr:
  assumes "commit_budget_stop to_vec io1 io2 turn_id ck m s = (Inr tm, s')"
  shows "\<exists>before o1 o2 n1 n2. ej_committed (oc_journal s') = before
      @ [CheckpointCreatedRec o1 turn_id n1 journal_schema_version ck m, OperationTerminalRec o2 turn_id n2 journal_schema_version tm]"
    "tm = terminal (record_checkpoint ck (oc_controller s))"
proof -
  from assms obtain x y t where 1: "op_append_durable to_vec io1
      (CheckpointCreatedRec (op_operation_id s) turn_id 0 journal_schema_version ck m) s = (Inr x, t)"
    and 2: "op_append_durable to_vec io2 (OperationTerminalRec (op_operation_id t) turn_id 0 journal_schema_version tm)
      (t\<lparr>oc_controller := record_checkpoint ck (oc_controller t)\<rparr>) = (Inr y, s')"
    and tm: "tm = terminal (record_checkpoint ck (oc_controller t))"
    by (auto simp: commit_budget_stop_def op_bind_Inr op_get_def op_return_def on_controller_def Let_def op_operation_id_def)
  show "tm = terminal (record_checkpoint ck (oc_controller s))" using tm durable_commits(1) [OF 1] by simp
  show "\<exists>before o1 o2 n1 n2. ej_committed (oc_journal s') = before
      @ [CheckpointCreatedRec o1 turn_id n1 journal_schema_version ck m, OperationTerminalRec o2 turn_id n2 journal_schema_version tm]"
    using durable_commits(2,3) [OF 1] durable_commits(3) [OF 2] by fastforce
qed

lemma commit_non_resumable_Inr:
  assumes "commit_non_resumable_budget_stop to_vec io1 io2 turn_id ck s = (Inr tm, s')" "checkpoint_settled s"
  shows "\<exists>before o1 o2 n1 n2. ej_committed (oc_journal s') = before
      @ [CheckpointCreatedRec o1 turn_id n1 journal_schema_version ck None, OperationTerminalRec o2 turn_id n2 journal_schema_version tm]"
    "tm = with_checkpoint ck (terminal (oc_controller s))" "bc_checkpoint_id (oc_controller s) = None"
proof -
  from assms(1) obtain x y t where 1: "op_append_durable to_vec io1
      (CheckpointCreatedRec (op_operation_id s) turn_id 0 journal_schema_version ck None) s = (Inr x, t)"
    and 2: "op_append_durable to_vec io2 (OperationTerminalRec (op_operation_id t) turn_id 0 journal_schema_version tm) t = (Inr y, s')"
    and tm: "tm = with_checkpoint ck (terminal (oc_controller t))"
    by (auto simp: commit_non_resumable_budget_stop_def op_bind_Inr op_get_def op_return_def Let_def)
  show "tm = with_checkpoint ck (terminal (oc_controller s))" using tm durable_commits(1) [OF 1] by simp
  show "bc_checkpoint_id (oc_controller s) = None" using assms(2) appended_open [OF 1] by (auto simp: checkpoint_settled_def)
  show "\<exists>before o1 o2 n1 n2. ej_committed (oc_journal s') = before
      @ [CheckpointCreatedRec o1 turn_id n1 journal_schema_version ck None, OperationTerminalRec o2 turn_id n2 journal_schema_version tm]"
    using durable_commits(2,3) [OF 1] durable_commits(3) [OF 2] by fastforce
qed

lemma settles_stop: "settles (commit_budget_stop to_vec io1 io2 turn_id ck m)"
  unfolding settles_def checkpoint_settled_def using commit_budget_stop_Inr(1) by fastforce

lemma settles_non_resumable: "settles (commit_non_resumable_budget_stop to_vec io1 io2 turn_id ck)"
  unfolding commit_non_resumable_budget_stop_def Let_def by (intro settles_intros)

lemma op_step_settles: "settles (op_step to_vec e)"
  by (cases e)
    (auto simp: op_admit_turn_def op_admit_tool_call_def op_record_tool_completed_def op_sync_wall_time_def publish_def
      op_record_cost_usd_micros_def op_merge_child_usage_def op_background_child_lease_def reserve_lease_def remaining_deadline_def
      commit_budget_stop_with_boundary_def commit_terminal_def Let_def controller_checkpoint
      split: sum.split option.split prod.split operation_terminal.split
      intro!: settles_intros settles_refresh settles_settle_children settles_stop settles_non_resumable)

lemma opened_checkpoint:
  assumes "open_at to_vec from_str from_value rio readable env started_ms spec i file ledger = (Inr s, f)"
  shows "bc_checkpoint_id (oc_controller s) = None"
proof -
  have "bc_checkpoint_id (from_durable_usage now sp u n) = None" for now sp u n
    by (auto simp: from_durable_usage_def Let_def checked_checkpoint split: option.splits)
  with assms show ?thesis
    by (auto simp: open_at_def resume_controller_def split: prod.splits sum.splits option.splits if_splits)
qed

lemma live_context_settled: "live_context to_vec from_str from_value spec i s \<Longrightarrow> checkpoint_settled s"
proof (induction rule: live_context.induct)
  case (called s e s')
  with op_step_settles [of to_vec e] show ?case unfolding settles_def by blast
qed (auto simp: checkpoint_settled_def dest: opened_checkpoint)


end
