(* ===== verification/Operation_Samples.thy ===== *)
theory Operation_Samples
  imports Operation_Stops
begin

text \<open>
  A small operation, step by step: it opens its journal, meets its turn limit, settles a provider cost and stops.
\<close>

definition turnless_spec :: budget_spec where
  "turnless_spec = unlimited_spec\<lparr>max_turns := Some 0\<rparr>"

definition demo_records :: "journal_record list" where
  "demo_records =
     [OperationStartedRec ''op'' [] 1 2 0 turnless_spec,
      BudgetUsageRec ''op'' [] 2 2 zero_usage 0 (Some ''operation-start''),
      BudgetUsageRec ''op'' [] 3 2 (zero_usage\<lparr>cost_usd_micros := 5\<rparr>) 0 (Some ''provider''),
      CheckpointCreatedRec ''op'' ''turn'' 3 2 ''run-budget-stop'' (Some ''message''),
      OperationTerminalRec ''op'' ''turn'' 4 2 (StoppedTerminal (TurnBudget 0) zero_usage ''run-budget-stop'' True)]"

definition demo_lines :: "string list" where
  "demo_lines = [''{1}'', ''{2}'', ''{3}'', ''{4}'', ''{5}'']"

definition demo_values :: "json_value list" where
  "demo_values = map sample_value [1, 2, 3, 4, 5]"

definition demo_to_vec :: "journal_record \<Rightarrow> string option" where
  "demo_to_vec r = map_of (zip demo_records demo_lines) r"

definition demo_from_str :: "string \<Rightarrow> json_value option" where
  "demo_from_str s = map_of (zip demo_lines demo_values) s"

definition demo_from_value :: "json_value \<Rightarrow> journal_record option" where
  "demo_from_value v = map_of (zip demo_values demo_records) v"

lemmas demo_tables = demo_records_def demo_lines_def demo_values_def demo_to_vec_def demo_from_str_def demo_from_value_def

lemma demo_codec: "journal_codec demo_to_vec demo_from_str demo_from_value"
proof -
  have utf8: "\<forall>l \<in> set demo_lines. valid_utf8 l" by code_simp
  have "\<exists>n < 5. r = demo_records ! n \<and> b = demo_lines ! n" if "demo_to_vec r = Some b" for r b
  proof -
    from that have "(r, b) \<in> set (zip demo_records demo_lines)" unfolding demo_to_vec_def by (rule map_of_SomeD)
    moreover have "length demo_records = 5" "length demo_lines = 5" by (simp_all add: demo_records_def demo_lines_def)
    ultimately show ?thesis unfolding set_zip by auto
  qed
  moreover have "CHR 0x0A \<notin> set (demo_lines ! n) \<and> (\<exists>m. demo_lines ! n = CHR ''{'' # m @ ''}'')
      \<and> (\<exists>v. demo_from_str (demo_lines ! n) = Some v \<and> value_schema_version v = Some (jr_schema_version (demo_records ! n))
           \<and> demo_from_value v = Some (demo_records ! n))" if "n < 5" for n
  proof -
    have "n = 0 \<or> n = 1 \<or> n = 2 \<or> n = 3 \<or> n = 4" using that by auto
    then show ?thesis by (elim disjE) (simp_all add: demo_tables sample_value_def value_schema_version_def)
  qed
  moreover have "valid_utf8 (demo_lines ! n)" if "n < 5" for n
    using utf8 nth_mem [of n demo_lines] that by (simp add: demo_lines_def [THEN arg_cong, of length])
  ultimately show ?thesis unfolding journal_codec_def by metis
qed

subsection \<open>The run\<close>

definition demo_env :: "flush_io \<Rightarrow> step_env" where
  "demo_env io = \<lparr>se_now = 0, se_unix_ms = 0, se_flush = io\<rparr>"

definition demo_refresh :: refresh_env where
  "demo_refresh = \<lparr>re_entries = io_fine, re_step = (\<lambda>_. demo_env Flushed), re_ack = (\<lambda>_. io_fine)\<rparr>"

definition demo_controller :: budget_controller where
  "demo_controller = from_durable_usage 0 turnless_spec zero_usage 0"

definition demo_context :: "journal_record list \<Rightarrow> budget_controller \<Rightarrow> operation_context" where
  "demo_context rs c =
     \<lparr>oc_controller = c, oc_journal = reloaded ''op'' rs, oc_file = Some (records_text demo_to_vec rs), oc_ledger = Absent\<rparr>"

lemma demo_opened:
  "open_at demo_to_vec demo_from_str demo_from_value RepairOk True (demo_env Flushed) 0 turnless_spec ''op'' None Absent =
     (Inr (demo_context (take 2 demo_records) demo_controller), Some (records_text demo_to_vec (take 2 demo_records)))"
  by (simp add: open_at_def open_journal_def start_journal_def append_record_def journal_new_def no_faults_def started_record_def first_usage_record_def
    validate_ordering_def validate_usage_def unmatched_tool_starts_including_pending_def unmatched_in_def demo_env_def
    demo_context_def demo_tables reloaded_def records_text_def flush_journal_def journal_schema_version_def u64_max_def sat_add_def
    resume_controller_def operation_budget_spec_def latest_budget_usage_def operation_started_at_ms_def unix_elapsed_def demo_controller_def
    repair_incomplete_final_line_def)

lemma demo_live: "live_context demo_to_vec demo_from_str demo_from_value turnless_spec ''op'' (demo_context (take 2 demo_records) demo_controller)"
  by (rule live_context.opened [OF demo_opened]) (simp add: demo_env_def)

lemma turnless_spec_fields:
  "max_turns turnless_spec = Some 0" "max_tool_calls turnless_spec = None" "max_cost_usd_micros turnless_spec = None" "max_wall_time_ms turnless_spec = None"
  by (simp_all add: turnless_spec_def unlimited_spec_def)

lemma demo_fields:
  "bc_usage demo_controller = zero_usage" "bc_state demo_controller = Running" "bc_spec demo_controller = turnless_spec"
  "bc_started_at demo_controller = 0" "bc_external_reserved demo_controller = zero_usage"
  using observe_inner_frame observe_cost_frame
  by (simp_all add: demo_controller_def from_durable_usage_def same_control_def Let_def turnless_spec_fields instant_checked_sub_ms_def
      i64_min_def zero_usage_def)

lemma demo_charges:
  "record_cost_usd_micros 0 5 demo_controller = (Inr (), demo_controller\<lparr>bc_usage := zero_usage\<lparr>cost_usd_micros := 5\<rparr>\<rparr>)"
  "admit_turn 0 demo_controller =
     (Inl \<lparr>bt_reason = TurnBudget 0, bt_usage = zero_usage\<rparr>, demo_controller\<lparr>bc_state := StoppedState (TurnBudget 0)\<rparr>)"
  by (simp_all add: record_cost_usd_micros_def admit_turn_def sync_wall_time_inner_def elapsed_ms_def demo_fields turnless_spec_fields
      observe_cost_soft_landing_def stop_if_exhausted_without_turn_dimension_def stop_if_exhausted_def exhausted_dimension_def
      add_cost_usd_micros_def usage_merge_def zero_usage_def sat_add_def u64_max_def)

lemma opened_text: "opened_file RepairOk (Some bytes) = Some (rev (dropWhile (\<lambda>c. \<not> is_newline c) (rev bytes)))"
  by (simp add: repair_drops_only_the_torn_line complete_lines_def)

lemmas demo_journal = append_record_def journal_new_def no_faults_def validate_ordering_def validate_usage_def
  unmatched_tool_starts_including_pending_def unmatched_in_def demo_env_def demo_context_def demo_tables reloaded_def
  flush_journal_def journal_schema_version_def u64_max_def sat_add_def usage_below_def zero_usage_def opened_text

lemmas demo_operations = op_bind_def op_get_def op_return_def op_append_def op_flush_def op_operation_id_def on_controller_def
  publish_def append_budget_usage_def

lemma demo_paid:
  "op_step demo_to_vec (EvRecordCost (demo_env Flushed) 5 ''provider'') (demo_context (take 2 demo_records) demo_controller) =
     (Inr (), demo_context (take 3 demo_records) (demo_controller\<lparr>bc_usage := zero_usage\<lparr>cost_usd_micros := 5\<rparr>\<rparr>))"
  by (simp add: op_record_cost_usd_micros_def has_budget_accounting_id_def demo_charges demo_fields demo_journal demo_operations
      del: opened_file.simps)

lemma demo_unpaid:
  "\<exists>s. op_record_cost_usd_micros demo_to_vec (demo_env (WritesFail 0)) 5 ''provider''
     (demo_context (take 2 demo_records) demo_controller) = (Inl (JournalFlush FlushIo), s)"
  by (simp add: op_record_cost_usd_micros_def has_budget_accounting_id_def demo_charges demo_fields demo_journal demo_operations
      del: opened_file.simps)

lemma demo_refused:
  "op_step demo_to_vec (EvAdmitTurn demo_refresh (demo_env Flushed) ''turn'') (demo_context (take 2 demo_records) demo_controller) =
     (Inr (), demo_context (take 2 demo_records) (demo_controller\<lparr>bc_state := StoppedState (TurnBudget 0)\<rparr>))"
  by (simp add: op_admit_turn_def refresh_child_budgets_def demo_charges demo_context_def demo_operations demo_env_def)

lemma demo_stopped:
  "\<exists>s. commit_budget_stop_with_boundary demo_to_vec None demo_refresh Flushed Flushed (Some (Inr (Some ''message''))) ''turn'' ''run''
     (demo_context (take 2 demo_records) (demo_controller\<lparr>bc_state := StoppedState (TurnBudget 0)\<rparr>)) =
     (Inr (StoppedTerminal (TurnBudget 0) zero_usage ''run-budget-stop'' True), s)"
  by (simp add: commit_budget_stop_with_boundary_def settle_children_for_stop_def refresh_child_budgets_def commit_budget_stop_def
      op_append_durable_def record_checkpoint_def terminal_def stopped_checkpoint_def Let_def demo_fields demo_journal demo_operations
      del: opened_file.simps)

subsection \<open>Witnesses\<close>

theorem admitted_work_is_never_forgotten_witness:
  "\<exists>s f. open_at demo_to_vec demo_from_str demo_from_value RepairOk True (demo_env Flushed) 0 turnless_spec ''op''
       (oc_file (snd (op_step demo_to_vec (EvRecordCost (demo_env (WritesFail 3)) 7 ''later'')
         (demo_context (take 3 demo_records) (demo_controller\<lparr>bc_usage := zero_usage\<lparr>cost_usd_micros := 5\<rparr>\<rparr>))))) Absent = (Inr s, f)
     \<and> 5 \<le> cost_usd_micros (bc_usage (oc_controller s))"
proof -
  let ?s = "demo_context (take 3 demo_records) (demo_controller\<lparr>bc_usage := zero_usage\<lparr>cost_usd_micros := 5\<rparr>\<rparr>)"
  let ?e = "EvRecordCost (demo_env (WritesFail 3)) 7 ''later''"
  obtain res s' where step: "op_step demo_to_vec ?e ?s = (res, s')" by fastforce
  have "live_context demo_to_vec demo_from_str demo_from_value turnless_spec ''op'' ?s"
    by (rule live_context.called [OF demo_live demo_paid])
  from admitted_work_is_never_forgotten [OF demo_codec this step, of "demo_env Flushed" 0 Absent] show ?thesis
    unfolding step by (auto simp: charges_le_def demo_context_def)
qed

theorem retried_cost_is_charged_twice_witness:
  "\<exists>s s'. op_record_cost_usd_micros demo_to_vec (demo_env (WritesFail 0)) 5 ''provider''
       (demo_context (take 2 demo_records) demo_controller) = (Inl (JournalFlush FlushIo), s)
     \<and> op_record_cost_usd_micros demo_to_vec (demo_env Flushed) 5 ''provider'' s =
         (Inl (JournalAppend (Ordering (AccountingIdOnce ''provider''))), s')
     \<and> cost_usd_micros (bc_usage (oc_controller s')) = 10"
proof -
  let ?s = "demo_context (take 2 demo_records) demo_controller"
  obtain s where s: "op_record_cost_usd_micros demo_to_vec (demo_env (WritesFail 0)) 5 ''provider'' ?s = (Inl (JournalFlush FlushIo), s)"
    using demo_unpaid by blast
  have "\<not> has_budget_accounting_id ''provider'' (oc_journal ?s)"
    by (simp add: has_budget_accounting_id_def demo_context_def demo_records_def)
  moreover have cost: "cost_usd_micros (bc_usage (oc_controller ?s)) = 0" by (simp add: demo_context_def demo_fields zero_usage_def)
  moreover have "cost_usd_micros (bc_usage (oc_controller ?s)) + 2 * 5 \<le> u64_max" using cost by (simp add: u64_max_def)
  ultimately show ?thesis
    using retried_cost_is_charged_twice [OF demo_codec demo_live _ s, of "demo_env Flushed"] s by auto
qed


end
