(* ===== verification/Rust_Paths.thy ===== *)
theory Rust_Paths
  imports Rust_Strings
begin

text \<open>
  \<^verbatim>\<open>std::path\<close> on Unix. Equality, ordering and \<^verbatim>\<open>starts_with\<close> of \<^verbatim>\<open>PathBuf\<close> are defined
  by the standard library on the list of path components, so a \<^verbatim>\<open>PathBuf\<close> is modelled by
  that list; \<open>path_of\<close> reads the components off the text as \<^verbatim>\<open>Path::components\<close> does.
\<close>

datatype component = RootDir | CurDir | ParentDir | Normal string

fun component_rank :: "component \<Rightarrow> nat" where
  "component_rank RootDir = 1"
| "component_rank CurDir = 2"
| "component_rank ParentDir = 3"
| "component_rank (Normal _) = 4"

fun component_name :: "component \<Rightarrow> string" where
  "component_name (Normal s) = s"
| "component_name _ = []"

text \<open>The derived order of \<^verbatim>\<open>Component\<close>: by variant, then by the bytes of the name.\<close>

instantiation component :: linorder
begin

definition less_eq_component :: "component \<Rightarrow> component \<Rightarrow> bool" where
  "less_eq_component a b \<longleftrightarrow>
     component_rank a < component_rank b
     \<or> (component_rank a = component_rank b \<and> component_name a \<le> component_name b)"

definition less_component :: "component \<Rightarrow> component \<Rightarrow> bool" where
  "less_component a b \<longleftrightarrow>
     component_rank a < component_rank b
     \<or> (component_rank a = component_rank b \<and> component_name a < component_name b)"

instance
proof
  fix a b c :: component
  show "a < b \<longleftrightarrow> a \<le> b \<and> \<not> b \<le> a"
    by (auto simp: less_eq_component_def less_component_def)
  show "a \<le> a" by (simp add: less_eq_component_def)
  show "a \<le> b \<Longrightarrow> b \<le> c \<Longrightarrow> a \<le> c"
    by (auto simp: less_eq_component_def)
  show "a \<le> b \<Longrightarrow> b \<le> a \<Longrightarrow> a = b"
    by (cases a; cases b) (auto simp: less_eq_component_def)
  show "a \<le> b \<or> b \<le> a"
    by (auto simp: less_eq_component_def)
qed

end

type_synonym path_buf = "component list"

fun split_char :: "char \<Rightarrow> string \<Rightarrow> string list" where
  "split_char c [] = [[]]"
| "split_char c (x # xs) =
     (case split_char c xs of
        [] \<Rightarrow> [[x]]
      | seg # segs \<Rightarrow> if x = c then [] # seg # segs else (x # seg) # segs)"

definition component_of :: "string \<Rightarrow> component" where
  "component_of seg = (if seg = ''..'' then ParentDir else Normal seg)"

definition path_of :: "string \<Rightarrow> path_buf" where
  "path_of s =
     (let segs = split_char (CHR ''/'') s
      in (if starts_with s ''/'' then [RootDir] else if hd segs = ''.'' then [CurDir] else [])
         @ map component_of (filter (\<lambda>seg. seg \<noteq> [] \<and> seg \<noteq> ''.'') segs))"

definition path_starts_with :: "path_buf \<Rightarrow> path_buf \<Rightarrow> bool" where
  "path_starts_with p base \<longleftrightarrow> take (length base) p = base"

definition is_absolute :: "path_buf \<Rightarrow> bool" where
  "is_absolute p = (case p of RootDir # _ \<Rightarrow> True | _ \<Rightarrow> False)"

text \<open>\<^verbatim>\<open>v.sort(); v.dedup();\<close> on a vector of paths.\<close>

definition sort_dedup :: "path_buf list \<Rightarrow> path_buf list" where
  "sort_dedup xs = remdups_adj (sort xs)"

lemma path_starts_with_iff: "path_starts_with p b \<longleftrightarrow> (\<exists>r. p = b @ r)"
  unfolding path_starts_with_def by (metis append_eq_conv_conj append_take_drop_id)

lemma path_starts_with_refl [simp]: "path_starts_with p p"
  by (simp add: path_starts_with_def)

lemma path_starts_with_trans:
  "path_starts_with a b \<Longrightarrow> path_starts_with b c \<Longrightarrow> path_starts_with a c"
  by (auto simp: path_starts_with_iff)

text \<open>Two ancestors of one path are comparable.\<close>

lemma path_ancestors_comparable:
  assumes "path_starts_with p a" "path_starts_with p b"
  shows "path_starts_with a b \<or> path_starts_with b a"
proof -
  from assms(1) obtain r where "p = a @ r" unfolding path_starts_with_iff ..
  moreover from assms(2) obtain s where "p = b @ s" unfolding path_starts_with_iff ..
  ultimately have "a @ r = b @ s" by simp
  then show ?thesis by (auto simp: append_eq_append_conv2 path_starts_with_iff)
qed

lemma set_sort_dedup [simp]: "set (sort_dedup xs) = set xs"
  by (simp add: sort_dedup_def)

lemma sorted_sort_dedup: "sorted (sort_dedup xs)"
  by (simp add: sort_dedup_def sorted_remdups_adj)

lemma distinct_sort_dedup: "distinct (sort_dedup xs)"
proof -
  have "sorted ys \<Longrightarrow> distinct (remdups_adj ys)" for ys :: "path_buf list"
  proof (induction ys rule: remdups_adj.induct)
    case (3 x y xs)
    then show ?case
    proof (cases "x = y")
      case False
      with 3 have "x \<notin> set (y # xs)" by fastforce
      with 3 False show ?thesis by simp
    qed simp
  qed simp_all
  then show ?thesis by (simp add: sort_dedup_def)
qed

subsection \<open>Regions of the file system\<close>

text \<open>
  The abstract meaning of a list of roots: the paths below one of them. \<open>None\<close> bounds
  nothing.
\<close>

definition region :: "path_buf list \<Rightarrow> path_buf set" where
  "region rs = {p. \<exists>r \<in> set rs. path_starts_with p r}"

definition region_opt :: "path_buf list option \<Rightarrow> path_buf set" where
  "region_opt rs = (case rs of None \<Rightarrow> UNIV | Some rs \<Rightarrow> region rs)"

lemma region_mono: "set rs \<subseteq> set ss \<Longrightarrow> region rs \<subseteq> region ss"
  by (auto simp: region_def)

lemma region_append [simp]: "region (rs @ ss) = region rs \<union> region ss"
  by (auto simp: region_def)

lemma region_sort_dedup [simp]: "region (sort_dedup rs) = region rs"
  by (simp add: region_def)

end
