(* ===== verification/Rust_Net.thy ===== *)
theory Rust_Net
  imports Rust_Strings "HOL-Library.Word"
begin

text \<open>
  Internet addresses of the standard library, as the network proxy uses them: \<^verbatim>\<open>std::net::IpAddr\<close> with its parser and the
  classifications it offers, and the string operations the proxy needs beside \<open>Rust_Strings\<close>.
\<close>

subsection \<open>Addresses\<close>

text \<open>An IPv4 address is its four octets, an IPv6 address its eight segments.\<close>

datatype ipv4_addr = Ipv4 "8 word" "8 word" "8 word" "8 word"

datatype ip_addr = V4 ipv4_addr | V6 "16 word list"

fun ipv4_bits :: "ipv4_addr \<Rightarrow> 32 word" where
  "ipv4_bits (Ipv4 a b c d) =
     word_of_nat (unat a * 2 ^ 24 + unat b * 2 ^ 16 + unat c * 2 ^ 8 + unat d)"

fun is_loopback_v4 :: "ipv4_addr \<Rightarrow> bool" where
  "is_loopback_v4 (Ipv4 a b c d) \<longleftrightarrow> a = 127"

fun is_private_v4 :: "ipv4_addr \<Rightarrow> bool" where
  "is_private_v4 (Ipv4 a b c d) \<longleftrightarrow> a = 10 \<or> (a = 172 \<and> 16 \<le> b \<and> b \<le> 31) \<or> (a = 192 \<and> b = 168)"

fun is_link_local_v4 :: "ipv4_addr \<Rightarrow> bool" where
  "is_link_local_v4 (Ipv4 a b c d) \<longleftrightarrow> a = 169 \<and> b = 254"

fun is_unspecified_v4 :: "ipv4_addr \<Rightarrow> bool" where
  "is_unspecified_v4 (Ipv4 a b c d) \<longleftrightarrow> a = 0 \<and> b = 0 \<and> c = 0 \<and> d = 0"

fun is_multicast_v4 :: "ipv4_addr \<Rightarrow> bool" where
  "is_multicast_v4 (Ipv4 a b c d) \<longleftrightarrow> 224 \<le> a \<and> a \<le> 239"

fun is_broadcast_v4 :: "ipv4_addr \<Rightarrow> bool" where
  "is_broadcast_v4 (Ipv4 a b c d) \<longleftrightarrow> a = 255 \<and> b = 255 \<and> c = 255 \<and> d = 255"

definition to_ipv4_mapped :: "16 word list \<Rightarrow> ipv4_addr option" where
  "to_ipv4_mapped s =
     (if take 6 s = [0, 0, 0, 0, 0, 0xffff]
      then Some (Ipv4 (ucast (drop_bit 8 (s ! 6))) (ucast (s ! 6)) (ucast (drop_bit 8 (s ! 7))) (ucast (s ! 7)))
      else None)"

definition is_loopback_v6 :: "16 word list \<Rightarrow> bool" where
  "is_loopback_v6 s \<longleftrightarrow> s = [0, 0, 0, 0, 0, 0, 0, 1]"

definition is_unspecified_v6 :: "16 word list \<Rightarrow> bool" where
  "is_unspecified_v6 s \<longleftrightarrow> s = [0, 0, 0, 0, 0, 0, 0, 0]"

definition is_multicast_v6 :: "16 word list \<Rightarrow> bool" where
  "is_multicast_v6 s \<longleftrightarrow> and (s ! 0) 0xff00 = 0xff00"

subsection \<open>Parsing addresses\<close>

definition to_digit :: "nat \<Rightarrow> char \<Rightarrow> nat option" where
  "to_digit radix c =
     (let b = byte_of c;
          v = (if is_digit c then Some (b - 48)
               else if 97 \<le> b \<and> b \<le> 122 then Some (b - 87)
               else if 65 \<le> b \<and> b \<le> 90 then Some (b - 55) else None)
      in option_filter (\<lambda>d. d < radix) v)"

text \<open>The digits at the front, at most so many of them; then the number they write.\<close>

fun read_digits :: "nat \<Rightarrow> nat \<Rightarrow> nat \<Rightarrow> nat \<Rightarrow> string \<Rightarrow> (nat \<times> nat \<times> string) option" where
  "read_digits radix max_digits acc n [] = Some (acc, n, [])"
| "read_digits radix max_digits acc n (c # cs) =
     (case to_digit radix c of
        None \<Rightarrow> Some (acc, n, c # cs)
      | Some d \<Rightarrow> if n + 1 > max_digits then None else read_digits radix max_digits (acc * radix + d) (n + 1) cs)"

definition read_number :: "nat \<Rightarrow> nat \<Rightarrow> bool \<Rightarrow> int \<Rightarrow> string \<Rightarrow> (nat \<times> string) option" where
  "read_number radix max_digits allow_zero_prefix bound s =
     (case read_digits radix max_digits 0 0 s of
        None \<Rightarrow> None
      | Some (v, n, rest) \<Rightarrow>
          if n = 0 then None
          else if \<not> allow_zero_prefix \<and> hd s = CHR ''0'' \<and> n > 1 then None
          else if int v \<ge> bound then None
          else Some (v, rest))"

definition read_separator :: "char \<Rightarrow> nat \<Rightarrow> (string \<Rightarrow> ('a \<times> string) option) \<Rightarrow> string \<Rightarrow> ('a \<times> string) option" where
  "read_separator sep index inner s =
     (if index > 0 then (case s of c # cs \<Rightarrow> if c = sep then inner cs else None | [] \<Rightarrow> None) else inner s)"

fun read_octets :: "nat \<Rightarrow> nat \<Rightarrow> string \<Rightarrow> (nat list \<times> string) option" where
  "read_octets i 0 s = Some ([], s)"
| "read_octets i (Suc left) s =
     (case read_separator CHR ''.'' i (read_number 10 3 False 256) s of
        None \<Rightarrow> None
      | Some (v, rest) \<Rightarrow> map_option (\<lambda>(vs, rest'). (v # vs, rest')) (read_octets (Suc i) left rest))"

definition read_ipv4_addr :: "string \<Rightarrow> (ipv4_addr \<times> string) option" where
  "read_ipv4_addr s =
     (case read_octets 0 4 s of
        Some ([a, b, c, d], rest) \<Rightarrow> Some (Ipv4 (word_of_nat a) (word_of_nat b) (word_of_nat c) (word_of_nat d), rest)
      | _ \<Rightarrow> None)"

fun ipv4_segments :: "ipv4_addr \<Rightarrow> 16 word list" where
  "ipv4_segments (Ipv4 a b c d) = [word_of_nat (unat a * 256 + unat b), word_of_nat (unat c * 256 + unat d)]"

text \<open>Groups of an IPv6 address, which may end in an IPv4 address when two groups are left.\<close>

fun read_groups :: "nat \<Rightarrow> nat \<Rightarrow> string \<Rightarrow> 16 word list \<times> bool \<times> string" where
  "read_groups i 0 s = ([], False, s)"
| "read_groups i (Suc left) s =
     (case (if left > 0 then read_separator CHR '':'' i read_ipv4_addr s else None) of
        Some (ip, rest) \<Rightarrow> (ipv4_segments ip, True, rest)
      | None \<Rightarrow>
          (case read_separator CHR '':'' i (read_number 16 4 True 65536) s of
             None \<Rightarrow> ([], False, s)
           | Some (g, rest) \<Rightarrow>
               (case read_groups (Suc i) left rest of (gs, v4, rest') \<Rightarrow> (word_of_nat g # gs, v4, rest'))))"

definition read_ipv6_addr :: "string \<Rightarrow> (16 word list \<times> string) option" where
  "read_ipv6_addr s =
     (case read_groups 0 8 s of
        (head, head_ipv4, rest) \<Rightarrow>
          if length head = 8 then Some (head, rest)
          else if head_ipv4 then None
          else if starts_with rest ''::'' then
            (case read_groups 0 (8 - (length head + 1)) (drop 2 rest) of
               (tail, _, rest') \<Rightarrow> Some (head @ replicate (8 - length head - length tail) 0 @ tail, rest'))
          else None)"

definition parse_ip :: "string \<Rightarrow> ip_addr option" where
  "parse_ip s =
     (case read_ipv4_addr s of
        Some (ip, rest) \<Rightarrow> if rest = [] then Some (V4 ip) else None
      | None \<Rightarrow>
          (case read_ipv6_addr s of
             Some (ip, rest) \<Rightarrow> if rest = [] then Some (V6 ip) else None
           | None \<Rightarrow> None))"

subsection \<open>Strings\<close>

definition parse_u16 :: "string \<Rightarrow> nat option" where
  "parse_u16 s =
     (let ds = (case s of c # cs \<Rightarrow> if c = CHR ''+'' then cs else s | [] \<Rightarrow> [])
      in if ds = [] then None else option_filter (\<lambda>n. int n < 65536) (parse_digits 0 ds))"

definition trim_end_chars :: "char list \<Rightarrow> string \<Rightarrow> string" where
  "trim_end_chars cs s = rev (dropWhile (\<lambda>c. c \<in> set cs) (rev s))"

definition trim_chars :: "char list \<Rightarrow> string \<Rightarrow> string" where
  "trim_chars cs s = trim_end_chars cs (dropWhile (\<lambda>c. c \<in> set cs) s)"

text \<open>\<^verbatim>\<open>split_whitespace\<close>: the maximal runs between white space characters.\<close>

function words_from :: "string \<Rightarrow> string \<Rightarrow> string list" where
  "words_from w s =
     (case strip_ws_start s of
        Some r \<Rightarrow> (if w = [] then [] else [w]) @ words_from [] r
      | None \<Rightarrow> (case s of [] \<Rightarrow> if w = [] then [] else [w] | c # cs \<Rightarrow> words_from (w @ [c]) cs))"
  by pat_completeness auto
termination by (relation "measure (\<lambda>(w, s). length s)") (auto dest: strip_ws_start_shorter)

declare words_from.simps [simp del]

definition split_whitespace :: "string \<Rightarrow> string list" where
  "split_whitespace s = words_from [] s"

end
