(* ===== verification/Network_Policy.thy ===== *)
theory Network_Policy
  imports Rust_Net "HOL-Library.AList" "HOL-Library.Multiset"
begin

text \<open>
  The network policy of commands, \<^verbatim>\<open>crates/orca-runtime/src/network_proxy.rs\<close>: which hosts a command may reach, and which
  addresses count as local. A hash map of domains is the list of its entries in the order the map iterates over
  them; that order is unspecified, so every operation that builds a map takes the order as an argument.
\<close>

subsection \<open>Hosts and ports\<close>

definition split_host_port :: "string \<Rightarrow> nat \<Rightarrow> string \<times> nat" where
  "split_host_port authority default_port =
     (let authority = trim_chars ''[]'' (trim authority)
      in case rsplit_once authority '':'' of
           Some (host, port) \<Rightarrow>
             (case parse_u16 port of
                Some port \<Rightarrow> (trim_chars ''[]'' host, port)
              | None \<Rightarrow> (authority, default_port))
         | None \<Rightarrow> (authority, default_port))"

definition normalize_host :: "string \<Rightarrow> string" where
  "normalize_host host = to_ascii_lowercase (trim_end_chars ''.'' (fst (split_host_port host 0)))"

definition domain_pattern_matches :: "string \<Rightarrow> string \<Rightarrow> bool" where
  "domain_pattern_matches pattern host =
     (case strip_prefix pattern ''**.'' of
        Some domain \<Rightarrow> host = domain \<or> ends_with host (''.'' @ domain)
      | None \<Rightarrow>
          (case strip_prefix pattern ''*.'' of
             Some domain \<Rightarrow> ends_with host (''.'' @ domain) \<and> host \<noteq> domain
           | None \<Rightarrow> pattern = host))"

subsection \<open>Local and private addresses\<close>

definition ipv4_in_cidr :: "ipv4_addr \<Rightarrow> ipv4_addr \<Rightarrow> nat \<Rightarrow> bool" where
  "ipv4_in_cidr ip base prefix =
     (let mask = (if prefix = 0 then 0 else push_bit (32 - prefix) (- 1 :: 32 word))
      in and (ipv4_bits ip) mask = and (ipv4_bits base) mask)"

definition is_local_or_private_ipv4 :: "ipv4_addr \<Rightarrow> bool" where
  "is_local_or_private_ipv4 ip \<longleftrightarrow>
     is_loopback_v4 ip \<or> is_private_v4 ip \<or> is_link_local_v4 ip \<or> is_unspecified_v4 ip \<or> is_multicast_v4 ip
     \<or> is_broadcast_v4 ip
     \<or> ipv4_in_cidr ip (Ipv4 0 0 0 0) 8
     \<or> ipv4_in_cidr ip (Ipv4 100 64 0 0) 10
     \<or> ipv4_in_cidr ip (Ipv4 192 0 0 0) 24
     \<or> ipv4_in_cidr ip (Ipv4 192 0 2 0) 24
     \<or> ipv4_in_cidr ip (Ipv4 198 18 0 0) 15
     \<or> ipv4_in_cidr ip (Ipv4 198 51 100 0) 24
     \<or> ipv4_in_cidr ip (Ipv4 203 0 113 0) 24
     \<or> ipv4_in_cidr ip (Ipv4 240 0 0 0) 4"

definition is_local_or_private_ipv6 :: "16 word list \<Rightarrow> bool" where
  "is_local_or_private_ipv6 ip =
     (case to_ipv4_mapped ip of
        Some v4 \<Rightarrow> is_local_or_private_ipv4 v4 \<or> is_loopback_v6 ip
      | None \<Rightarrow>
          is_loopback_v6 ip \<or> is_unspecified_v6 ip \<or> is_multicast_v6 ip
          \<or> and (ip ! 0) 0xfe00 = 0xfc00 \<or> and (ip ! 0) 0xffc0 = 0xfe80)"

fun is_local_or_private_ip :: "ip_addr \<Rightarrow> bool" where
  "is_local_or_private_ip (V4 ip) = is_local_or_private_ipv4 ip"
| "is_local_or_private_ip (V6 ip) = is_local_or_private_ipv6 ip"

definition is_local_or_private_host_literal :: "string \<Rightarrow> bool" where
  "is_local_or_private_host_literal host \<longleftrightarrow>
     host = ''localhost'' \<or> is_some_and (parse_ip host) is_local_or_private_ip"

subsection \<open>The policy\<close>

datatype network_access = AllowAccess | DenyAccess

type_synonym domain_map = "(string \<times> network_access) list"

type_synonym map_order = "domain_map \<Rightarrow> domain_map"

datatype block_reason = Allowlist | Denylist | NotAllowedLocal | PolicyReason

fun proxy_error :: "block_reason \<Rightarrow> string" where
  "proxy_error Allowlist = ''blocked-by-allowlist''"
| "proxy_error Denylist = ''blocked-by-denylist''"
| "proxy_error NotAllowedLocal = ''blocked-by-policy''"
| "proxy_error PolicyReason = ''blocked-by-policy''"

datatype network_decision = AllowHost | BlockHost block_reason

definition network_policy_new :: "map_order \<Rightarrow> domain_map \<Rightarrow> domain_map" where
  "network_policy_new order domains =
     order (fold (\<lambda>(domain, access) m. AList.update (normalize_host domain) access m) domains [])"

definition access_for_host :: "domain_map \<Rightarrow> string \<Rightarrow> network_access option" where
  "access_for_host domains host =
     (let host = normalize_host host
      in case map_of domains host of
           Some access \<Rightarrow> Some access
         | None \<Rightarrow> map_option snd (find (\<lambda>(pattern, _). domain_pattern_matches pattern host) domains))"

definition decision_for_host :: "domain_map \<Rightarrow> string \<Rightarrow> network_decision" where
  "decision_for_host domains host =
     (case access_for_host domains host of
        Some DenyAccess \<Rightarrow> BlockHost Denylist
      | Some AllowAccess \<Rightarrow> AllowHost
      | None \<Rightarrow>
          if is_local_or_private_host_literal (normalize_host host) then BlockHost NotAllowedLocal
          else if list_ex (\<lambda>(_, access). access = AllowAccess) domains then BlockHost Allowlist
          else AllowHost)"

definition with_allowed_host :: "map_order \<Rightarrow> domain_map \<Rightarrow> string \<Rightarrow> domain_map" where
  "with_allowed_host order domains host = order (AList.update (normalize_host host) AllowAccess domains)"

subsection \<open>Blocks of addresses\<close>

text \<open>Blocks of the address space by first address and prefix length, and the blocks reserved for special use.\<close>

fun in_block :: "nat \<Rightarrow> nat \<times> nat \<Rightarrow> bool" where
  "in_block v (base, prefix) \<longleftrightarrow> base \<le> v \<and> v < base + 2 ^ (32 - prefix)"

definition dotted :: "nat \<Rightarrow> nat \<Rightarrow> nat \<Rightarrow> nat \<Rightarrow> nat" where
  "dotted a b c d = a * 2 ^ 24 + b * 2 ^ 16 + c * 2 ^ 8 + d"

definition special_blocks :: "(nat \<times> nat) list" where
  "special_blocks =
     [(dotted 0 0 0 0, 8), (dotted 10 0 0 0, 8), (dotted 100 64 0 0, 10), (dotted 127 0 0 0, 8), (dotted 169 254 0 0, 16),
      (dotted 172 16 0 0, 12), (dotted 192 0 0 0, 24), (dotted 192 0 2 0, 24), (dotted 192 168 0 0, 16),
      (dotted 198 18 0 0, 15), (dotted 198 51 100 0, 24), (dotted 203 0 113 0, 24), (dotted 224 0 0 0, 4),
      (dotted 240 0 0 0, 4)]"

lemma and_high_bits: "and x (push_bit n (- 1)) = push_bit n (drop_bit n x)" for x :: "32 word"
  by (rule bit_eqI) (auto simp: bit_simps)

lemma high_bits_eq_iff:
  fixes x y :: "32 word"
  shows "and x (push_bit n (- 1)) = and y (push_bit n (- 1)) \<longleftrightarrow> unat x div 2 ^ n = unat y div 2 ^ n"
proof -
  have restore: "drop_bit n (push_bit n (drop_bit n z)) = drop_bit n z" for z :: "32 word"
    by (rule bit_eqI) (auto simp: bit_simps dest: bit_imp_le_length)
  have "push_bit n (drop_bit n x) = push_bit n (drop_bit n y) \<longleftrightarrow> drop_bit n x = drop_bit n y"
    using restore by metis
  also have "\<dots> \<longleftrightarrow> unat (drop_bit n x) = unat (drop_bit n y)"
    by (rule word_unat_eq_iff)
  finally show ?thesis
    by (simp only: and_high_bits unat_drop_bit_eq drop_bit_nat_def)
qed

lemma octet_less: "unat (x :: 8 word) < 256"
  using unsigned_less [of x] by simp

lemma unat_ipv4_bits: "unat (ipv4_bits (Ipv4 a b c d)) = dotted (unat a) (unat b) (unat c) (unat d)"
proof -
  let ?v = "dotted (unat a) (unat b) (unat c) (unat d)"
  have "?v < 2 ^ 32"
    using octet_less [of a] octet_less [of b] octet_less [of c] octet_less [of d] by (simp add: dotted_def)
  then have "unat (word_of_nat ?v :: 32 word) = ?v"
    by (simp only: unsigned_of_nat take_bit_nat_eq_self_iff len_bit0 len_num1 of_nat_id) simp
  then show ?thesis by (simp only: ipv4_bits.simps dotted_def)
qed

lemma block_div_iff:
  fixes v b k :: nat
  assumes "0 < k" "k dvd b"
  shows "v div k = b div k \<longleftrightarrow> b \<le> v \<and> v < b + k"
proof -
  from assms(2) obtain m where b: "b = k * m" by blast
  have "v div k = m \<longleftrightarrow> k * m \<le> v \<and> v < k * m + k"
    using assms(1) div_nat_eqI [of k m v] dividend_less_times_div [of k v] times_div_less_eq_dividend [of k v]
    by (auto simp: algebra_simps)
  with b assms(1) show ?thesis by simp
qed

lemma ipv4_in_cidr_block:
  assumes "0 < p" "p \<le> 32" "2 ^ (32 - p) dvd dotted (unat a) (unat b) (unat c) (unat d)"
  shows "ipv4_in_cidr ip (Ipv4 a b c d) p \<longleftrightarrow>
    in_block (unat (ipv4_bits ip)) (dotted (unat a) (unat b) (unat c) (unat d), p)"
proof -
  have "ipv4_in_cidr ip (Ipv4 a b c d) p \<longleftrightarrow>
    unat (ipv4_bits ip) div 2 ^ (32 - p) = dotted (unat a) (unat b) (unat c) (unat d) div 2 ^ (32 - p)"
    using assms(1) high_bits_eq_iff [of "ipv4_bits ip" "32 - p" "ipv4_bits (Ipv4 a b c d)"]
    by (simp only: ipv4_in_cidr_def Let_def unat_ipv4_bits) simp
  with assms(3) show ?thesis by (simp add: block_div_iff)
qed

text \<open>The classifications of the standard library as blocks, on the octets.\<close>

lemma second_octet_block:
  fixes a b c d :: nat
  assumes "b < 256" "c < 256" "d < 256" "hi < 256" "k = (hi + 1 - lo) * 2 ^ 16" "lo \<le> hi"
  shows "dotted e lo 0 0 \<le> dotted a b c d \<and> dotted a b c d < dotted e lo 0 0 + k \<longleftrightarrow> a = e \<and> lo \<le> b \<and> b \<le> hi"
proof
  assume v: "dotted e lo 0 0 \<le> dotted a b c d \<and> dotted a b c d < dotted e lo 0 0 + k"
  with assms have "a = e" by (auto simp: dotted_def)
  with v assms show "a = e \<and> lo \<le> b \<and> b \<le> hi" by (auto simp: dotted_def)
qed (use assms in \<open>auto simp: dotted_def\<close>)

lemma octet_blocks:
  fixes a b c d :: nat
  assumes "a < 256" "b < 256" "c < 256" "d < 256"
  shows "in_block (dotted a b c d) (dotted 127 0 0 0, 8) \<longleftrightarrow> a = 127"
    "in_block (dotted a b c d) (dotted 10 0 0 0, 8) \<longleftrightarrow> a = 10"
    "in_block (dotted a b c d) (dotted 224 0 0 0, 4) \<longleftrightarrow> 224 \<le> a \<and> a \<le> 239"
    "in_block (dotted a b c d) (dotted 0 0 0 0, 8) \<longleftrightarrow> a = 0"
    "in_block (dotted a b c d) (dotted 240 0 0 0, 4) \<longleftrightarrow> 240 \<le> a"
  using assms by (auto simp: dotted_def)

lemma octet_blocks2:
  fixes a b c d :: nat
  assumes "b < 256" "c < 256" "d < 256"
  shows "in_block (dotted a b c d) (dotted 172 16 0 0, 12) \<longleftrightarrow> a = 172 \<and> 16 \<le> b \<and> b \<le> 31"
    "in_block (dotted a b c d) (dotted 192 168 0 0, 16) \<longleftrightarrow> a = 192 \<and> b = 168"
    "in_block (dotted a b c d) (dotted 169 254 0 0, 16) \<longleftrightarrow> a = 169 \<and> b = 254"
  using second_octet_block [OF assms, of 31 "2 ^ 20" 16 172] second_octet_block [OF assms, of 168 "2 ^ 16" 168 192]
    second_octet_block [OF assms, of 254 "2 ^ 16" 254 169]
  by auto

lemma special_v4:
  "is_loopback_v4 ip = in_block (unat (ipv4_bits ip)) (dotted 127 0 0 0, 8)"
  "is_private_v4 ip \<longleftrightarrow> in_block (unat (ipv4_bits ip)) (dotted 10 0 0 0, 8)
     \<or> in_block (unat (ipv4_bits ip)) (dotted 172 16 0 0, 12) \<or> in_block (unat (ipv4_bits ip)) (dotted 192 168 0 0, 16)"
  "is_link_local_v4 ip = in_block (unat (ipv4_bits ip)) (dotted 169 254 0 0, 16)"
  "is_multicast_v4 ip = in_block (unat (ipv4_bits ip)) (dotted 224 0 0 0, 4)"
  "is_unspecified_v4 ip \<Longrightarrow> in_block (unat (ipv4_bits ip)) (dotted 0 0 0 0, 8)"
  "is_broadcast_v4 ip \<Longrightarrow> in_block (unat (ipv4_bits ip)) (dotted 240 0 0 0, 4)"
  by (cases ip; simp only: unat_ipv4_bits octet_blocks octet_blocks2 octet_less is_loopback_v4.simps is_private_v4.simps
      is_link_local_v4.simps is_multicast_v4.simps is_unspecified_v4.simps is_broadcast_v4.simps;
      simp add: word_unat_eq_iff word_le_nat_alt)+

text \<open>
  What counts as a local or private IPv4 address: exactly the addresses in the blocks reserved for special use,
  from 0.0.0.0/8 to 240.0.0.0/4.
\<close>

theorem private_ipv4_blocks:
  "is_local_or_private_ipv4 ip \<longleftrightarrow> list_ex (in_block (unat (ipv4_bits ip))) special_blocks"
proof -
  have cidr:
    "ipv4_in_cidr ip (Ipv4 0 0 0 0) 8 = in_block (unat (ipv4_bits ip)) (dotted 0 0 0 0, 8)"
    "ipv4_in_cidr ip (Ipv4 100 64 0 0) 10 = in_block (unat (ipv4_bits ip)) (dotted 100 64 0 0, 10)"
    "ipv4_in_cidr ip (Ipv4 192 0 0 0) 24 = in_block (unat (ipv4_bits ip)) (dotted 192 0 0 0, 24)"
    "ipv4_in_cidr ip (Ipv4 192 0 2 0) 24 = in_block (unat (ipv4_bits ip)) (dotted 192 0 2 0, 24)"
    "ipv4_in_cidr ip (Ipv4 198 18 0 0) 15 = in_block (unat (ipv4_bits ip)) (dotted 198 18 0 0, 15)"
    "ipv4_in_cidr ip (Ipv4 198 51 100 0) 24 = in_block (unat (ipv4_bits ip)) (dotted 198 51 100 0, 24)"
    "ipv4_in_cidr ip (Ipv4 203 0 113 0) 24 = in_block (unat (ipv4_bits ip)) (dotted 203 0 113 0, 24)"
    "ipv4_in_cidr ip (Ipv4 240 0 0 0) 4 = in_block (unat (ipv4_bits ip)) (dotted 240 0 0 0, 4)"
    by (subst ipv4_in_cidr_block; simp add: dotted_def)+
  show ?thesis
    unfolding is_local_or_private_ipv4_def special_blocks_def cidr special_v4(1-4)
    using special_v4(5,6) [of ip] by (simp only: list_ex_iff list.set bex_simps insert_iff empty_iff) blast
qed

subsection \<open>Decisions\<close>

text \<open>
  The entry that governs a host: the one with exactly its name, or else one whose pattern matches. A policy is
  unambiguous for a host when the patterns that could govern it agree.
\<close>

definition governs :: "domain_map \<Rightarrow> string \<Rightarrow> network_access \<Rightarrow> bool" where
  "governs domains host access \<longleftrightarrow>
     (if host \<in> fst ` set domains then (host, access) \<in> set domains
      else (\<exists>pattern. (pattern, access) \<in> set domains \<and> domain_pattern_matches pattern host))"

definition policy_ok :: "domain_map \<Rightarrow> bool" where
  "policy_ok domains \<longleftrightarrow> distinct (map fst domains)"

definition order_ok :: "map_order \<Rightarrow> bool" where
  "order_ok order \<longleftrightarrow> (\<forall>m. mset (order m) = mset m)"

definition unambiguous :: "domain_map \<Rightarrow> string \<Rightarrow> bool" where
  "unambiguous domains host \<longleftrightarrow> \<not> (governs domains host AllowAccess \<and> governs domains host DenyAccess)"

lemma order_okD:
  assumes "order_ok order"
  shows "set (order m) = set m" "distinct (map fst (order m)) = distinct (map fst m)"
proof -
  have "mset (order m) = mset m" using assms by (simp add: order_ok_def)
  then show "set (order m) = set m" "distinct (map fst (order m)) = distinct (map fst m)"
    by (metis mset_eq_setD, metis mset_map mset_eq_imp_distinct_iff)
qed

lemma policy_ok_network_new: "order_ok order \<Longrightarrow> policy_ok (network_policy_new order domains)"
proof -
  assume order: "order_ok order"
  have "distinct (map fst (fold (\<lambda>(domain, access) m. AList.update (normalize_host domain) access m) domains m))"
    if "distinct (map fst m)" for m
    using that by (induction domains arbitrary: m) (auto simp: distinct_update)
  with order show ?thesis by (simp add: policy_ok_def network_policy_new_def order_okD)
qed

lemma policy_ok_with_allowed_host:
  "order_ok order \<Longrightarrow> policy_ok domains \<Longrightarrow> policy_ok (with_allowed_host order domains host)"
  by (simp add: policy_ok_def with_allowed_host_def order_okD distinct_update)

lemma access_governs:
  assumes "policy_ok domains"
  shows "access_for_host domains host = Some access \<Longrightarrow> governs domains (normalize_host host) access"
    "access_for_host domains host = None \<longleftrightarrow> (\<forall>access. \<not> governs domains (normalize_host host) access)"
proof -
  let ?h = "normalize_host host"
  show "governs domains ?h access" if "access_for_host domains host = Some access"
    using that
    by (auto simp: access_for_host_def governs_def Let_def find_Some_iff map_of_eq_None_iff
        split: option.splits dest: map_of_SomeD dest!: nth_mem intro: rev_image_eqI)
  show "access_for_host domains host = None \<longleftrightarrow> (\<forall>access. \<not> governs domains ?h access)"
  proof (cases "map_of domains ?h")
    case None
    then have "?h \<notin> fst ` set domains" by (simp add: map_of_eq_None_iff)
    with None show ?thesis by (auto simp: access_for_host_def governs_def find_None_iff)
  next
    case (Some access)
    then have "governs domains ?h access" by (auto simp: governs_def dest: map_of_SomeD intro: rev_image_eqI)
    with Some show ?thesis by (auto simp: access_for_host_def)
  qed
qed

text \<open>
  What the policy decides, whatever order its map iterates in. For a host whose matching entries agree, the host is
  denied when the governing entry denies it and allowed when it allows it; with no such entry a local or private
  literal is blocked, any other host is blocked exactly when the policy allows anything at all, and allowed otherwise.
\<close>

theorem network_decision_table:
  assumes "policy_ok domains" "unambiguous domains (normalize_host host)"
  shows "decision_for_host domains host =
    (if governs domains (normalize_host host) DenyAccess then BlockHost Denylist
     else if governs domains (normalize_host host) AllowAccess then AllowHost
     else if is_local_or_private_host_literal (normalize_host host) then BlockHost NotAllowedLocal
     else if AllowAccess \<in> snd ` set domains then BlockHost Allowlist
     else AllowHost)"
proof (cases "access_for_host domains host")
  case None
  then have "\<not> governs domains (normalize_host host) access" for access
    using access_governs(2) [OF assms(1)] by blast
  moreover have "list_ex (\<lambda>(_, access). access = AllowAccess) domains \<longleftrightarrow> AllowAccess \<in> snd ` set domains"
    by (force simp: list_ex_iff)
  ultimately show ?thesis using None by (simp add: decision_for_host_def)
next
  case (Some access)
  with access_governs(1) [OF assms(1)] have "governs domains (normalize_host host) access" by blast
  with Some assms(2) show ?thesis
    by (cases access) (auto simp: decision_for_host_def unambiguous_def)
qed

text \<open>
  Where two matching patterns disagree, the order of the map decides: the same two entries allow or deny the host.
\<close>

definition overlapping :: domain_map where
  "overlapping = [(''**.example.com'', AllowAccess), (''*.internal.example.com'', DenyAccess)]"

lemma overlapping_patterns_depend_on_order:
  "decision_for_host overlapping ''db.internal.example.com'' = AllowHost"
  "decision_for_host (rev overlapping) ''db.internal.example.com'' = BlockHost Denylist"
  by code_simp+

text \<open>An IPv6 literal in the policy whose last group is decimal loses it, as if it were a port.\<close>

lemma ipv6_entry_is_lost:
  "decision_for_host (network_policy_new id [(''20::5'', DenyAccess)]) ''[20::5]:443'' = AllowHost"
  by code_simp

definition sample_domains :: domain_map where
  "sample_domains = [(''api.example.com'', AllowAccess), (''*.internal.example.com'', DenyAccess)]"

theorem network_decision_table_witness:
  "decision_for_host sample_domains ''DB.internal.example.com:443'' = BlockHost Denylist"
proof -
  have "policy_ok sample_domains" by (simp add: policy_ok_def sample_domains_def)
  moreover have h: "normalize_host ''DB.internal.example.com:443'' = ''db.internal.example.com''" by code_simp
  moreover have d: "domain_pattern_matches ''*.internal.example.com'' ''db.internal.example.com''"
    "\<not> domain_pattern_matches ''api.example.com'' ''db.internal.example.com''" by code_simp+
  ultimately show ?thesis
    using network_decision_table [of sample_domains "''DB.internal.example.com:443''"]
    by (auto simp: governs_def unambiguous_def sample_domains_def)
qed

end
