(* ===== verification/Network_Proxy.thy ===== *)
theory Network_Proxy
  imports Network_Policy Rust_Utf8
begin

text \<open>
  One connection of the network proxy, \<^verbatim>\<open>crates/orca-runtime/src/network_proxy.rs\<close>: reading a bounded request, deciding
  about its host, and connecting. The client's bytes arrive in pieces; everything else the proxy does to the outside is
  an effect in a trace, and the outcome of each effect is an argument.
\<close>

subsection \<open>Reading a request\<close>

definition max_proxy_request_line_bytes :: nat where "max_proxy_request_line_bytes = 8 * 1024"
definition max_proxy_header_line_bytes :: nat where "max_proxy_header_line_bytes = 16 * 1024"
definition max_proxy_header_bytes :: nat where "max_proxy_header_bytes = 64 * 1024"
definition max_proxy_headers :: nat where "max_proxy_headers = 100"

datatype net_error = TimedOut | NotFound | PermissionDenied | OtherIoError string

datatype proxy_frame_error = FrameIo net_error | TooLarge | Invalid

text \<open>What follows the pieces that still arrive: the end of the stream or an error.\<close>

datatype stream_end = Eof | Fails net_error

definition line_feed :: char where "line_feed = CHR 0x0A"

definition utf8_line :: "string \<Rightarrow> string list \<Rightarrow> (proxy_frame_error, string option \<times> string list) result" where
  "utf8_line line rest = (if utf8_error 0 line = None then Inr (Some line, rest) else Inl Invalid)"

fun line_length :: "string \<Rightarrow> nat" where
  "line_length [] = 0"
| "line_length (c # cs) = (if c = line_feed then 1 else 1 + line_length cs)"

fun read_bounded_utf8_line ::
    "nat \<Rightarrow> stream_end \<Rightarrow> string \<Rightarrow> string list \<Rightarrow> (proxy_frame_error, string option \<times> string list) result" where
  "read_bounded_utf8_line max_bytes ending line [] =
     (case ending of
        Fails e \<Rightarrow> Inl (FrameIo e)
      | Eof \<Rightarrow> if line = [] then Inr (None, []) else utf8_line line [])"
| "read_bounded_utf8_line max_bytes ending line (available # pieces) =
     (if available = [] then read_bounded_utf8_line max_bytes ending line pieces
      else
        let n = line_length available
        in if length line + n > max_bytes then Inl TooLarge
           else if last (take n available) = line_feed
           then utf8_line (line @ take n available) (drop n available # pieces)
           else read_bounded_utf8_line max_bytes ending (line @ take n available) pieces)"

record proxy_request =
  pr_request_line :: string
  pr_headers :: "string list"

function read_headers ::
    "stream_end \<Rightarrow> nat \<Rightarrow> string list \<Rightarrow> string list \<Rightarrow> (proxy_frame_error, string list) result" where
  "read_headers ending header_bytes headers pieces =
     try_bind (read_bounded_utf8_line max_proxy_header_line_bytes ending [] pieces) (\<lambda>(line, pieces').
       case line of
         None \<Rightarrow> Inr headers
       | Some line \<Rightarrow>
           if line = [CHR 0x0D, line_feed] \<or> line = [line_feed] then Inr headers
           else if header_bytes + length line > max_proxy_header_bytes \<or> length headers \<ge> max_proxy_headers
           then Inl TooLarge
           else read_headers ending (header_bytes + length line) (headers @ [line]) pieces')"
  by pat_completeness auto
termination
  by (relation "measure (\<lambda>(e, b, headers, p). Suc max_proxy_headers - length headers)") auto

declare read_headers.simps [simp del]

definition read_proxy_request ::
    "stream_end \<Rightarrow> string list \<Rightarrow> (proxy_frame_error, proxy_request option) result" where
  "read_proxy_request ending pieces =
     try_bind (read_bounded_utf8_line max_proxy_request_line_bytes ending [] pieces) (\<lambda>(line, pieces').
       case line of
         None \<Rightarrow> Inr None
       | Some line \<Rightarrow>
           try_bind (read_headers ending 0 [] pieces') (\<lambda>headers.
             Inr (Some \<lparr>pr_request_line = trim_end_chars [CHR 0x0D, line_feed] line, pr_headers = headers\<rparr>)))"

subsection \<open>Targets\<close>

definition proxy_target_host :: "string \<Rightarrow> string option" where
  "proxy_target_host target =
     (case strip_prefix target ''http://'' of
        Some rest \<Rightarrow> Some (takeWhile (\<lambda>c. c \<noteq> CHR ''/'') rest)
      | None \<Rightarrow>
          (case strip_prefix target ''https://'' of
             Some rest \<Rightarrow> Some (takeWhile (\<lambda>c. c \<noteq> CHR ''/'') rest)
           | None \<Rightarrow> if str_contains target '':'' then Some target else None))"

fun header_host :: "string list \<Rightarrow> string option" where
  "header_host [] = None"
| "header_host (header # headers) =
     (case split_once header '':'' of
        Some (name, v) \<Rightarrow> if eq_ignore_ascii_case name ''host'' then Some (trim v) else header_host headers
      | None \<Rightarrow> header_host headers)"

definition parse_http_target :: "string \<Rightarrow> string list \<Rightarrow> (string \<times> nat \<times> string) option" where
  "parse_http_target target headers =
     (case strip_prefix target ''http://'' of
        Some rest \<Rightarrow>
          (let (authority, path) = unwrap_or (split_once rest ''/'') (rest, []);
               (host, port) = split_host_port authority 80
           in Some (host, port, ''/'' @ path))
      | None \<Rightarrow>
          map_option (\<lambda>host. let (host, port) = split_host_port host 80 in (host, port, target)) (header_host headers))"

subsection \<open>Effects\<close>

record block_report =
  br_host :: string
  br_error :: string

datatype block_decision = GateAllow | GateDeny

datatype effect =
    Reported block_report
  | Asked block_report
  | ReadDnsConfig
  | Lookup string
  | Connect ip_addr nat
  | ToClient string
  | ShutdownClient
  | ToUpstream string
  | Relay
  | Tunnel

text \<open>The surroundings of a connection: channels, the resolver, and how each effect ends, given what happened before.\<close>

record surroundings =
  su_reporter :: bool
  su_gate :: "(block_report \<Rightarrow> block_decision option) option"
  su_lookup :: "effect list \<Rightarrow> string \<Rightarrow> (net_error, ip_addr list) result"
  su_outcome :: "effect list \<Rightarrow> effect \<Rightarrow> (net_error, unit) result"

type_synonym 'a io = "effect list \<Rightarrow> (net_error, 'a) result \<times> effect list"

definition io_return :: "(net_error, 'a) result \<Rightarrow> 'a io" where
  "io_return r = (\<lambda>tr. (r, tr))"

definition io_bind :: "'a io \<Rightarrow> ('a \<Rightarrow> 'b io) \<Rightarrow> 'b io" where
  "io_bind m f = (\<lambda>tr. case m tr of (Inl e, tr') \<Rightarrow> (Inl e, tr') | (Inr x, tr') \<Rightarrow> f x tr')"

definition perform :: "surroundings \<Rightarrow> effect \<Rightarrow> unit io" where
  "perform env e = (\<lambda>tr. (su_outcome env tr e, tr @ [e]))"

definition lookup_ip :: "surroundings \<Rightarrow> string \<Rightarrow> ip_addr list io" where
  "lookup_ip env host = (\<lambda>tr. (su_lookup env tr host, tr @ [Lookup host]))"

definition report_block :: "surroundings \<Rightarrow> string \<Rightarrow> block_reason \<Rightarrow> unit io" where
  "report_block env host reason =
     (\<lambda>tr. (Inr (),
        if su_reporter env then tr @ [Reported \<lparr>br_host = normalize_host host, br_error = proxy_error reason\<rparr>] else tr))"

definition request_network_permission :: "surroundings \<Rightarrow> string \<Rightarrow> block_reason \<Rightarrow> block_decision option io" where
  "request_network_permission env host reason =
     (\<lambda>tr. case su_gate env of
        None \<Rightarrow> (Inr None, tr)
      | Some gate \<Rightarrow>
          (let report = \<lparr>br_host = normalize_host host, br_error = proxy_error reason\<rparr>
           in (Inr (gate report), tr @ [Asked report])))"

definition crlf :: string where "crlf = [CHR 0x0D, line_feed]"

definition write_static_response :: "surroundings \<Rightarrow> string \<Rightarrow> unit io" where
  "write_static_response env response = io_bind (perform env (ToClient response)) (\<lambda>_. perform env ShutdownClient)"

definition write_header_too_large_response :: "surroundings \<Rightarrow> unit io" where
  "write_header_too_large_response env = write_static_response env
     (''HTTP/1.1 431 Request Header Fields Too Large'' @ crlf @ ''content-length: 0'' @ crlf
      @ ''x-proxy-error: request-too-large'' @ crlf @ ''connection: close'' @ crlf @ crlf)"

definition write_bad_request_response :: "surroundings \<Rightarrow> unit io" where
  "write_bad_request_response env = write_static_response env
     (''HTTP/1.1 400 Bad Request'' @ crlf @ ''content-length: 0'' @ crlf
      @ ''x-proxy-error: invalid-request'' @ crlf @ ''connection: close'' @ crlf @ crlf)"

definition write_forbidden :: "surroundings \<Rightarrow> block_reason \<Rightarrow> string option \<Rightarrow> unit io" where
  "write_forbidden env reason host =
     (let host_header =
        (case option_filter (\<lambda>h. h \<noteq> []) (map_option normalize_host host) of
           Some h \<Rightarrow> ''x-proxy-host: '' @ h @ crlf
         | None \<Rightarrow> [])
      in write_static_response env
           (''HTTP/1.1 403 Forbidden'' @ crlf @ ''content-length: 0'' @ crlf @ ''x-proxy-error: '' @ proxy_error reason
            @ crlf @ host_header @ crlf))"

subsection \<open>Connecting\<close>

fun check_addrs :: "bool \<Rightarrow> ip_addr list \<Rightarrow> (net_error, unit) result" where
  "check_addrs explicit [] = Inr ()"
| "check_addrs explicit (ip # ips) =
     (if is_local_or_private_ip ip \<and> \<not> explicit then Inl PermissionDenied else check_addrs explicit ips)"

definition checked_socket_addrs ::
    "string \<Rightarrow> domain_map \<Rightarrow> nat \<Rightarrow> ip_addr list \<Rightarrow> (net_error, (ip_addr \<times> nat) list) result" where
  "checked_socket_addrs host policy port resolved =
     (let normalized_host = normalize_host host;
          allow_explicit_local_literal =
            (is_local_or_private_host_literal normalized_host
             \<and> access_for_host policy normalized_host = Some AllowAccess)
      in try_bind (check_addrs allow_explicit_local_literal resolved) (\<lambda>_.
           if resolved = [] then Inl NotFound else Inr (map (\<lambda>ip. (ip, port)) resolved)))"

fun connect_first :: "surroundings \<Rightarrow> net_error option \<Rightarrow> (ip_addr \<times> nat) list \<Rightarrow> unit io" where
  "connect_first env last_error [] tr = (Inl (unwrap_or last_error NotFound), tr)"
| "connect_first env last_error ((ip, port) # addrs) tr =
     (case perform env (Connect ip port) tr of
        (Inr _, tr') \<Rightarrow> (Inr (), tr')
      | (Inl e, tr') \<Rightarrow> connect_first env (Some e) addrs tr')"

definition connect_checked_resolved :: "surroundings \<Rightarrow> string \<Rightarrow> nat \<Rightarrow> domain_map \<Rightarrow> unit io" where
  "connect_checked_resolved env host port policy =
     io_bind
       (case parse_ip host of
          Some ip \<Rightarrow> io_return (Inr [ip])
        | None \<Rightarrow>
            io_bind (perform env ReadDnsConfig) (\<lambda>_.
              \<lambda>tr. case lookup_ip env host tr of
                 (Inl e, tr') \<Rightarrow> (Inl (if e = TimedOut then TimedOut else NotFound), tr')
               | r \<Rightarrow> r))
       (\<lambda>resolved. io_bind (io_return (checked_socket_addrs host policy port resolved)) (connect_first env None))"

fun write_headers :: "surroundings \<Rightarrow> string list \<Rightarrow> unit io" where
  "write_headers env [] = io_return (Inr ())"
| "write_headers env (header # headers) =
     (if is_some_and (split_once header '':'') (\<lambda>(name, _). eq_ignore_ascii_case name ''proxy-connection'')
      then write_headers env headers
      else io_bind (perform env (ToUpstream header)) (\<lambda>_. write_headers env headers))"

definition proxy_http ::
    "surroundings \<Rightarrow> string \<Rightarrow> string \<Rightarrow> string \<Rightarrow> string list \<Rightarrow> domain_map \<Rightarrow> unit io" where
  "proxy_http env method_name target version headers policy =
     (case parse_http_target target headers of
        None \<Rightarrow> write_forbidden env PolicyReason None
      | Some (host, port, path) \<Rightarrow>
          io_bind (connect_checked_resolved env host port policy) (\<lambda>_.
          io_bind (perform env (ToUpstream (method_name @ '' '' @ path @ '' '' @ version @ crlf))) (\<lambda>_.
          io_bind (write_headers env headers) (\<lambda>_.
          io_bind (perform env (ToUpstream crlf)) (\<lambda>_.
          perform env Relay)))))"

definition proxy_connect :: "surroundings \<Rightarrow> string \<Rightarrow> domain_map \<Rightarrow> unit io" where
  "proxy_connect env target policy =
     (case split_host_port target 443 of
        (host, port) \<Rightarrow>
          io_bind (connect_checked_resolved env host port policy) (\<lambda>_.
          io_bind (perform env (ToClient (''HTTP/1.1 200 Connection Established'' @ crlf @ crlf))) (\<lambda>_.
          perform env Tunnel)))"

subsection \<open>Handling a connection\<close>

definition nth_word :: "string list \<Rightarrow> nat \<Rightarrow> string \<Rightarrow> string" where
  "nth_word ws n d = (if n < length ws then ws ! n else d)"

definition forward :: "surroundings \<Rightarrow> proxy_request \<Rightarrow> domain_map \<Rightarrow> string \<Rightarrow> unit io" where
  "forward env request policy host =
     (let parts = split_whitespace (pr_request_line request);
          method_name = nth_word parts 0 []; target = nth_word parts 1 []; version = nth_word parts 2 ''HTTP/1.1''
      in (\<lambda>tr.
        case (if eq_ignore_ascii_case method_name ''CONNECT'' then proxy_connect env target policy
               else proxy_http env method_name target version (pr_headers request) policy) tr of
           (Inl PermissionDenied, tr') \<Rightarrow>
             io_bind (report_block env host NotAllowedLocal) (\<lambda>_. write_forbidden env NotAllowedLocal (Some host)) tr'
         | r \<Rightarrow> r))"

definition handle_request :: "surroundings \<Rightarrow> map_order \<Rightarrow> domain_map \<Rightarrow> proxy_request \<Rightarrow> unit io" where
  "handle_request env order policy request =
     (let target = nth_word (split_whitespace (pr_request_line request)) 1 [];
          host = unwrap_or (option_or (proxy_target_host target) (header_host (pr_headers request))) []
      in if host = [] then write_forbidden env PolicyReason None
         else
           (case decision_for_host policy host of
              AllowHost \<Rightarrow> forward env request policy host
            | BlockHost reason \<Rightarrow>
                io_bind (report_block env host reason) (\<lambda>_.
                io_bind (request_network_permission env host reason) (\<lambda>decision.
                  if reason \<noteq> Denylist \<and> decision = Some GateAllow
                  then forward env request (with_allowed_host order policy host) host
                  else write_forbidden env reason (Some host)))))"

definition handle_proxy_connection ::
    "surroundings \<Rightarrow> map_order \<Rightarrow> domain_map \<Rightarrow> stream_end \<Rightarrow> string list \<Rightarrow> unit io" where
  "handle_proxy_connection env order policy ending pieces =
     (case read_proxy_request ending pieces of
        Inl TooLarge \<Rightarrow> write_header_too_large_response env
      | Inl Invalid \<Rightarrow> write_bad_request_response env
      | Inl (FrameIo e) \<Rightarrow> io_return (Inl e)
      | Inr None \<Rightarrow> io_return (Inr ())
      | Inr (Some request) \<Rightarrow> handle_request env order policy request)"

subsection \<open>Requests are bounded and do not depend on how they arrive\<close>

lemma line_length_append [simp]:
  "line_length (xs @ ys) = (if line_feed \<in> set xs then line_length xs else length xs + line_length ys)"
  by (induction xs) auto

lemma line_length_le: "line_length xs \<le> length xs"
  by (induction xs) auto

lemma line_length_no_line_feed: "line_feed \<notin> set xs \<Longrightarrow> line_length xs = length xs"
  by (induction xs) auto

lemma line_length_last:
  "xs \<noteq> [] \<Longrightarrow> last (take (line_length xs) xs) = line_feed \<longleftrightarrow> line_feed \<in> set xs"
proof (induction xs)
  case (Cons c cs)
  then show ?case by (cases cs) auto
qed simp

text \<open>Reading a line from all bytes at once.\<close>

definition whole_line :: "nat \<Rightarrow> stream_end \<Rightarrow> string \<Rightarrow> (proxy_frame_error, string option \<times> string) result" where
  "whole_line max_bytes ending bytes =
     (let n = line_length bytes
      in if n > max_bytes then Inl TooLarge
         else if line_feed \<in> set bytes
         then if utf8_error 0 (take n bytes) = None then Inr (Some (take n bytes), drop n bytes) else Inl Invalid
         else
           (case ending of
              Fails e \<Rightarrow> Inl (FrameIo e)
            | Eof \<Rightarrow>
                if bytes = [] then Inr (None, [])
                else if utf8_error 0 bytes = None then Inr (Some bytes, []) else Inl Invalid))"

lemma read_line_whole:
  "length line \<le> max_bytes \<Longrightarrow> line_feed \<notin> set line \<Longrightarrow>
   map_sum id (map_prod id concat) (read_bounded_utf8_line max_bytes ending line pieces)
     = whole_line max_bytes ending (line @ concat pieces)"
proof (induction pieces arbitrary: line)
  case Nil
  then show ?case
    by (cases ending) (auto simp: whole_line_def utf8_line_def line_length_no_line_feed)
next
  case (Cons p pieces)
  consider "p = []" | "line_feed \<in> set p" "p \<noteq> []" | "p \<noteq> []" "line_feed \<notin> set p" by auto
  then show ?case
  proof cases
    case 1
    with Cons show ?thesis by simp
  next
    case 2
    then have "line_length p \<le> length p" by (simp add: line_length_le)
    with 2 Cons.prems show ?thesis
      by (simp add: whole_line_def utf8_line_def Let_def line_length_last)
  next
    case 3
    then have p: "line_length p = length p" "last p \<noteq> line_feed"
      by (simp add: line_length_no_line_feed, metis last_in_set)
    show ?thesis
    proof (cases "length line + length p > max_bytes")
      case True
      with 3 p Cons.prems show ?thesis by (simp add: whole_line_def)
    next
      case False
      with 3 p Cons.prems Cons.IH [of "line @ p"] show ?thesis by simp
    qed
  qed
qed

text \<open>Two ways to cut the same bytes.\<close>

lemma read_line_pieces:
  assumes "concat pieces = concat pieces'"
  shows "map_sum id (map_prod id concat) (read_bounded_utf8_line m ending [] pieces)
       = map_sum id (map_prod id concat) (read_bounded_utf8_line m ending [] pieces')"
  using assms by (simp add: read_line_whole)

lemma read_line_cases:
  assumes "concat pieces = concat pieces'"
  obtains e where "read_bounded_utf8_line m ending [] pieces = Inl e" "read_bounded_utf8_line m ending [] pieces' = Inl e"
  | l r r' where "read_bounded_utf8_line m ending [] pieces = Inr (l, r)"
      "read_bounded_utf8_line m ending [] pieces' = Inr (l, r')" "concat r = concat r'"
  using read_line_pieces [OF assms, of m ending]
  by (cases "read_bounded_utf8_line m ending [] pieces"; cases "read_bounded_utf8_line m ending [] pieces'") auto

lemma read_headers_pieces:
  "concat pieces = concat pieces' \<Longrightarrow> read_headers ending b hs pieces = read_headers ending b hs pieces'"
proof (induction ending b hs pieces arbitrary: pieces' rule: read_headers.induct)
  case (1 ending b hs pieces)
  from "1.prems" show ?case
  proof (cases rule: read_line_cases [where m = max_proxy_header_line_bytes and ending = ending])
    case (1 e)
    then show ?thesis by (simp add: read_headers.simps [of ending b hs])
  next
    case (2 l r r')
    have next_header: "read_headers ending (b + length h) (hs @ [h]) r = read_headers ending (b + length h) (hs @ [h]) r'"
      if "l = Some h" "\<not> (h = [CHR 0x0D, line_feed] \<or> h = [line_feed])"
        "\<not> (max_proxy_header_bytes < b + length h \<or> max_proxy_headers \<le> length hs)" for h
      using "1.IH" [OF that 2(3)] .
    show ?thesis
      by (cases l) (use next_header in \<open>auto simp: read_headers.simps [of ending b hs] 2(1,2)\<close>)
  qed
qed

text \<open>The last header was read, or one more was.\<close>

lemma read_headers_cases:
  assumes "read_headers ending b hs pieces = Inr hs'"
  obtains "hs' = hs"
  | h r where "read_bounded_utf8_line max_proxy_header_line_bytes ending [] pieces = Inr (Some h, r)"
      "\<not> (h = [CHR 0x0D, line_feed] \<or> h = [line_feed])"
      "\<not> (max_proxy_header_bytes < b + length h \<or> max_proxy_headers \<le> length hs)"
      "read_headers ending (b + length h) (hs @ [h]) r = Inr hs'"
  using assms by (auto simp: read_headers.simps [of ending b hs] split: option.splits if_splits)

lemma read_line_bounded:
  assumes "read_bounded_utf8_line m ending [] pieces = Inr (Some l, r)"
  shows "length l \<le> m \<and> utf8_error 0 l = None"
proof -
  have "whole_line m ending (concat pieces) = Inr (Some l, concat r)"
    using assms read_line_whole [of "[]" m ending pieces] by simp
  then show ?thesis
    by (auto simp: whole_line_def Let_def line_length_no_line_feed split: if_splits stream_end.splits)
qed

lemma read_headers_bounded:
  "read_headers ending b hs pieces = Inr hs' \<Longrightarrow> b = sum_list (map length hs) \<Longrightarrow>
   b \<le> max_proxy_header_bytes \<Longrightarrow> length hs \<le> max_proxy_headers \<Longrightarrow>
   sum_list (map length hs') \<le> max_proxy_header_bytes \<and> length hs' \<le> max_proxy_headers"
proof (induction ending b hs pieces rule: read_headers.induct)
  case (1 ending b hs pieces)
  from "1.prems"(1) show ?case
  proof (cases rule: read_headers_cases)
    case 1
    with "1.prems" show ?thesis by simp
  next
    case (2 h r)
    from "1.IH" [OF refl 2(2-4)] "1.prems" 2(3) show ?thesis by auto
  qed
qed

lemma read_headers_lines:
  "read_headers ending b hs pieces = Inr hs' \<Longrightarrow> h \<in> set hs' \<Longrightarrow>
   h \<in> set hs \<or> (length h \<le> max_proxy_header_line_bytes \<and> utf8_error 0 h = None)"
proof (induction ending b hs pieces rule: read_headers.induct)
  case (1 ending b hs pieces)
  from "1.prems"(1) show ?case
  proof (cases rule: read_headers_cases)
    case 1
    with "1.prems" show ?thesis by simp
  next
    case (2 x r)
    from "1.IH" [OF refl 2(2-4) "1.prems"(2)] read_line_bounded [OF 2(1)] show ?thesis by auto
  qed
qed

lemma read_proxy_request_pieces:
  assumes "concat pieces = concat pieces'"
  shows "read_proxy_request ending pieces = read_proxy_request ending pieces'"
  using assms
proof (cases rule: read_line_cases [where m = max_proxy_request_line_bytes and ending = ending])
  case (2 l r r')
  then show ?thesis
    using read_headers_pieces [OF 2(3)] by (cases l) (simp_all add: read_proxy_request_def)
qed (simp add: read_proxy_request_def)

lemma read_proxy_request_bounded:
  assumes "read_proxy_request ending pieces = Inr (Some request)"
  shows "length (pr_request_line request) \<le> 8 * 1024
    \<and> length (pr_headers request) \<le> 100
    \<and> sum_list (map length (pr_headers request)) \<le> 64 * 1024
    \<and> (\<forall>h \<in> set (pr_headers request). length h \<le> 16 * 1024 \<and> utf8_error 0 h = None)"
proof -
  from assms obtain l r hs where l: "read_bounded_utf8_line max_proxy_request_line_bytes ending [] pieces = Inr (Some l, r)"
    and hs: "read_headers ending 0 [] r = Inr hs"
    and request: "request = \<lparr>pr_request_line = trim_end_chars [CHR 0x0D, line_feed] l, pr_headers = hs\<rparr>"
    by (auto simp: read_proxy_request_def split: option.splits)
  have "length (trim_end_chars [CHR 0x0D, line_feed] l) \<le> length l"
    by (simp add: trim_end_chars_def length_dropWhile_le [of _ "rev l", simplified])
  then show ?thesis
    using read_line_bounded [OF l] read_headers_bounded [OF hs] read_headers_lines [OF hs] request
    by (auto simp: max_proxy_request_line_bytes_def max_proxy_header_line_bytes_def max_proxy_header_bytes_def
        max_proxy_headers_def)
qed

text \<open>
  C21: A request the proxy accepts is bounded, and neither it nor the refusal depends on how the bytes arrive. Whatever
  pieces the client sends, the request line, each header, all headers together and their number stay within
  their limits and every header is valid UTF-8; and any other cut of the same bytes gives the same result.
\<close>

theorem proxy_requests_are_bounded:
  assumes "concat pieces = concat pieces'"
  shows "read_proxy_request ending pieces = read_proxy_request ending pieces'
    \<and> (\<forall>request. read_proxy_request ending pieces = Inr (Some request) \<longrightarrow>
        length (pr_request_line request) \<le> 8 * 1024
        \<and> length (pr_headers request) \<le> 100
        \<and> sum_list (map length (pr_headers request)) \<le> 64 * 1024
        \<and> (\<forall>h \<in> set (pr_headers request). length h \<le> 16 * 1024 \<and> utf8_error 0 h = None))"
  using read_proxy_request_pieces [OF assms] read_proxy_request_bounded by metis

subsection \<open>The effects of a computation\<close>

text \<open>Every effect a computation adds to the trace satisfies a predicate.\<close>

definition only :: "(effect \<Rightarrow> bool) \<Rightarrow> 'a io \<Rightarrow> bool" where
  "only P m \<longleftrightarrow> (\<forall>tr. \<exists>new. snd (m tr) = tr @ new \<and> list_all P new)"

named_theorems effects \<open>which effects the parts of a connection have\<close>

lemma onlyD: "only P m \<Longrightarrow> e \<in> set (snd (m [])) \<Longrightarrow> P e"
  by (metis only_def append_Nil list_all_iff)

lemma only_return [effects, simp]: "only P (io_return r)"
  by (simp add: only_def io_return_def)

lemma only_perform [effects]: "P e \<Longrightarrow> only P (perform env e)"
  by (simp add: only_def perform_def)

lemma only_bind_result:
  assumes "only P m" "\<And>x tr. fst (m tr) = Inr x \<Longrightarrow> only P (f x)"
  shows "only P (io_bind m f)"
  unfolding only_def
proof
  fix tr
  obtain r tr' where m: "m tr = (r, tr')" by (cases "m tr")
  with assms(1) obtain new where new: "tr' = tr @ new" "list_all P new"
    unfolding only_def by (metis snd_conv)
  show "\<exists>new. snd (io_bind m f tr) = tr @ new \<and> list_all P new"
  proof (cases r)
    case (Inr x)
    with assms(2) [of tr x] m obtain more where "snd (f x tr') = tr' @ more" "list_all P more"
      unfolding only_def by auto
    with m new Inr show ?thesis by (auto simp: io_bind_def)
  qed (use m new in \<open>auto simp: io_bind_def\<close>)
qed

lemma only_bind [effects]: "only P m \<Longrightarrow> (\<And>x. only P (f x)) \<Longrightarrow> only P (io_bind m f)"
  by (rule only_bind_result)

lemma only_bind_return [effects]: "(\<And>x. r = Inr x \<Longrightarrow> only P (f x)) \<Longrightarrow> only P (io_bind (io_return r) f)"
  by (cases r) (auto simp: only_def io_bind_def io_return_def)

lemma only_report_block [effects]: "(\<And>b. P (Reported b)) \<Longrightarrow> only P (report_block env host reason)"
  by (simp add: only_def report_block_def)

lemma only_request_permission [effects]: "(\<And>b. P (Asked b)) \<Longrightarrow> only P (request_network_permission env host reason)"
  by (simp add: only_def request_network_permission_def Let_def split: option.split)

lemma only_lookup [effects]: "P (Lookup host) \<Longrightarrow> only P (lookup_ip env host)"
  by (simp add: only_def lookup_ip_def)

text \<open>Effects on the client and the reports are of no concern below.\<close>

definition harmless :: "(effect \<Rightarrow> bool) \<Rightarrow> bool" where
  "harmless P \<longleftrightarrow> (\<forall>b. P (Reported b) \<and> P (Asked b)) \<and> (\<forall>s. P (ToClient s) \<and> P (ToUpstream s))
     \<and> P ShutdownClient \<and> P ReadDnsConfig \<and> P Relay \<and> P Tunnel"

lemma only_write_static [effects]: "harmless P \<Longrightarrow> only P (write_static_response env response)"
  by (auto simp: write_static_response_def harmless_def intro: effects)

lemma only_write_forbidden [effects]: "harmless P \<Longrightarrow> only P (write_forbidden env reason host)"
  by (auto simp: write_forbidden_def Let_def intro: effects)

lemma only_connect_first [effects]:
  "(\<And>ip port. (ip, port) \<in> set addrs \<Longrightarrow> P (Connect ip port)) \<Longrightarrow> only P (connect_first env last_error addrs)"
proof (induction addrs arbitrary: last_error)
  case (Cons a addrs)
  obtain ip port where a: "a = (ip, port)" by (cases a)
  show ?case
    unfolding only_def
  proof
    fix tr
    show "\<exists>new. snd (connect_first env last_error (a # addrs) tr) = tr @ new \<and> list_all P new"
    proof (cases "su_outcome env tr (Connect ip port)")
      case (Inl e)
      from Cons have "only P (connect_first env (Some e) addrs)" by simp
      then obtain more where "snd (connect_first env (Some e) addrs (tr @ [Connect ip port])) = (tr @ [Connect ip port]) @ more"
        "list_all P more" unfolding only_def by blast
      with Inl a Cons.prems [of ip port] show ?thesis by (auto simp: perform_def)
    next
      case (Inr u)
      with a Cons.prems [of ip port] show ?thesis by (auto simp: perform_def)
    qed
  qed
qed (simp add: only_def)

lemma only_write_headers [effects]: "harmless P \<Longrightarrow> only P (write_headers env headers)"
  by (induction headers) (auto simp: harmless_def intro: effects)

text \<open>A connection attempt performs its lookup, and connects to what passed the check.\<close>

lemma only_connect_checked:
  assumes "harmless P"
    "parse_ip host = None \<Longrightarrow> P (Lookup host)"
    "\<And>ip resolved. checked_socket_addrs host policy port resolved = Inr (map (\<lambda>ip. (ip, port)) resolved) \<Longrightarrow>
       ip \<in> set resolved \<Longrightarrow> (parse_ip host = None \<or> parse_ip host = Some ip) \<Longrightarrow> P (Connect ip port)"
  shows "only P (connect_checked_resolved env host port policy)"
proof (cases "parse_ip host")
  case None
  have lookup: "only P (\<lambda>tr. case lookup_ip env host tr of
      (Inl e, tr') \<Rightarrow> (Inl (if e = TimedOut then TimedOut else NotFound), tr') | r \<Rightarrow> r)"
    using assms(2) None
    by (auto simp: only_def lookup_ip_def split: sum.split)
  have connect: "only P (io_bind (io_return (checked_socket_addrs host policy port resolved)) (connect_first env None))"
    for resolved
    using assms(3) [of resolved] None
    by (intro effects)
      (auto simp: checked_socket_addrs_def Let_def split: if_splits)
  have "P ReadDnsConfig" using assms(1) by (simp add: harmless_def)
  then show ?thesis
    unfolding connect_checked_resolved_def None option.case
    by (rule only_bind [OF only_bind [OF only_perform lookup] connect])
next
  case (Some ip)
  have "only P (connect_first env None addrs)" if "checked_socket_addrs host policy port [ip] = Inr addrs" for addrs
    using that assms(3) [of "[ip]" ip] Some
    by (intro effects) (auto simp: checked_socket_addrs_def Let_def split: if_splits)
  then show ?thesis
    unfolding connect_checked_resolved_def Some
    by (auto intro!: only_bind_return)
qed

lemma only_proxy_http:
  assumes "harmless P" "\<And>host port path. parse_http_target target headers = Some (host, port, path) \<Longrightarrow>
    only P (connect_checked_resolved env host port policy)"
  shows "only P (proxy_http env method_name target version headers policy)"
  using assms
  by (auto simp: proxy_http_def harmless_def intro!: only_bind only_perform only_write_headers only_write_forbidden
      split: option.splits)

lemma only_proxy_connect:
  assumes "harmless P" "\<And>host port. split_host_port target 443 = (host, port) \<Longrightarrow>
    only P (connect_checked_resolved env host port policy)"
  shows "only P (proxy_connect env target policy)"
  using assms by (auto simp: proxy_connect_def harmless_def intro!: only_bind only_perform split: prod.splits)

text \<open>Forwarding a request: the connection it makes, and the refusal when that was denied.\<close>

lemma only_forward:
  assumes "harmless P"
    "only P (if eq_ignore_ascii_case (nth_word (split_whitespace (pr_request_line request)) 0 []) ''CONNECT''
       then proxy_connect env (nth_word (split_whitespace (pr_request_line request)) 1 []) policy
       else proxy_http env (nth_word (split_whitespace (pr_request_line request)) 0 [])
         (nth_word (split_whitespace (pr_request_line request)) 1 [])
         (nth_word (split_whitespace (pr_request_line request)) 2 ''HTTP/1.1'') (pr_headers request) policy)"
  shows "only P (forward env request policy host)"
proof -
  have refuse: "only P (io_bind (report_block env host NotAllowedLocal) (\<lambda>_. write_forbidden env NotAllowedLocal (Some host)))"
    using assms(1) by (intro effects) (simp_all add: harmless_def)
  have "only P (\<lambda>tr. case m tr of
      (Inl PermissionDenied, tr') \<Rightarrow>
        io_bind (report_block env host NotAllowedLocal) (\<lambda>_. write_forbidden env NotAllowedLocal (Some host)) tr'
    | r \<Rightarrow> r)" if m: "only P m" for m :: "unit io"
    unfolding only_def
  proof
    fix tr
    obtain r tr' where r: "m tr = (r, tr')" by (cases "m tr")
    with m obtain new where new: "tr' = tr @ new" "list_all P new"
      unfolding only_def by (metis snd_conv)
    show "\<exists>new. snd (case m tr of
      (Inl PermissionDenied, tr') \<Rightarrow>
        io_bind (report_block env host NotAllowedLocal) (\<lambda>_. write_forbidden env NotAllowedLocal (Some host)) tr'
    | r \<Rightarrow> r) = tr @ new \<and> list_all P new"
    proof (cases "r = Inl PermissionDenied")
      case True
      from refuse obtain more where "snd (io_bind (report_block env host NotAllowedLocal)
          (\<lambda>_. write_forbidden env NotAllowedLocal (Some host)) tr') = tr' @ more" "list_all P more"
        unfolding only_def by blast
      with True r new show ?thesis by auto
    next
      case False
      with r new show ?thesis by (auto split: sum.split net_error.split)
    qed
  qed
  from this [OF assms(2)] show ?thesis unfolding forward_def Let_def .
qed

subsection \<open>Which requests are forwarded\<close>

text \<open>The host a request is judged by, and when it is let through: allowed by the policy, or approved when asked.\<close>

definition request_target :: "proxy_request \<Rightarrow> string" where
  "request_target request = nth_word (split_whitespace (pr_request_line request)) 1 []"

definition is_connect :: "proxy_request \<Rightarrow> bool" where
  "is_connect request \<longleftrightarrow> eq_ignore_ascii_case (nth_word (split_whitespace (pr_request_line request)) 0 []) ''CONNECT''"

definition judged_host :: "proxy_request \<Rightarrow> string" where
  "judged_host request = unwrap_or (option_or (proxy_target_host (request_target request)) (header_host (pr_headers request))) []"

definition approved :: "surroundings \<Rightarrow> domain_map \<Rightarrow> string \<Rightarrow> bool" where
  "approved env policy host \<longleftrightarrow>
     (\<exists>reason gate. decision_for_host policy host = BlockHost reason \<and> reason \<noteq> Denylist \<and> su_gate env = Some gate
        \<and> gate \<lparr>br_host = normalize_host host, br_error = proxy_error reason\<rparr> = Some GateAllow)"

definition in_force :: "surroundings \<Rightarrow> map_order \<Rightarrow> domain_map \<Rightarrow> string \<Rightarrow> domain_map \<Rightarrow> bool" where
  "in_force env order policy host policy' \<longleftrightarrow>
     decision_for_host policy host = AllowHost \<and> policy' = policy
     \<or> approved env policy host \<and> policy' = with_allowed_host order policy host"

lemma only_handle_request:
  assumes "harmless P"
    "\<And>policy'. in_force env order policy (judged_host request) policy' \<Longrightarrow>
       only P (forward env request policy' (judged_host request))"
  shows "only P (handle_request env order policy request)"
proof (cases "judged_host request = []")
  case True
  with assms(1) show ?thesis
    unfolding handle_request_def Let_def judged_host_def request_target_def by (simp add: effects)
next
  case False
  show ?thesis
  proof (cases "decision_for_host policy (judged_host request)")
    case AllowHost
    with False assms(2) [of policy] show ?thesis
      unfolding handle_request_def Let_def judged_host_def request_target_def by (simp add: in_force_def)
  next
    case (BlockHost reason)
    have "only P (if reason \<noteq> Denylist \<and> decision = Some GateAllow
        then forward env request (with_allowed_host order policy (judged_host request)) (judged_host request)
        else write_forbidden env reason (Some (judged_host request)))"
      if "fst (request_network_permission env (judged_host request) reason tr) = Inr decision" for decision tr
      using that assms BlockHost
      by (auto simp: request_network_permission_def in_force_def approved_def Let_def split: option.splits
          intro: only_write_forbidden)
    then have "only P (io_bind (report_block env (judged_host request) reason) (\<lambda>_.
        io_bind (request_network_permission env (judged_host request) reason) (\<lambda>decision.
          if reason \<noteq> Denylist \<and> decision = Some GateAllow
          then forward env request (with_allowed_host order policy (judged_host request)) (judged_host request)
          else write_forbidden env reason (Some (judged_host request)))))"
      using assms(1) by (auto simp: harmless_def intro!: only_bind only_bind_result only_report_block only_request_permission)
    with False BlockHost show ?thesis
      unfolding handle_request_def Let_def judged_host_def request_target_def by simp
  qed
qed

lemma only_handle_connection:
  assumes "harmless P"
    "\<And>request. read_proxy_request ending pieces = Inr (Some request) \<Longrightarrow> only P (handle_request env order policy request)"
  shows "only P (handle_proxy_connection env order policy ending pieces)"
  using assms
  by (auto simp: handle_proxy_connection_def write_header_too_large_response_def write_bad_request_response_def
      intro: effects split: sum.split proxy_frame_error.split option.split)

subsection \<open>Private addresses\<close>

lemma check_addrs_ok:
  "check_addrs explicit ips = Inr () \<Longrightarrow> ip \<in> set ips \<Longrightarrow> is_local_or_private_ip ip \<Longrightarrow> explicit"
  by (induction explicit ips rule: check_addrs.induct) (auto split: if_splits)

definition explicitly_allowed :: "domain_map \<Rightarrow> string \<Rightarrow> bool" where
  "explicitly_allowed policy host \<longleftrightarrow>
     is_local_or_private_host_literal (normalize_host host)
     \<and> access_for_host policy (normalize_host host) = Some AllowAccess"

lemma connects_explicitly:
  assumes "harmless P" "\<And>host. P (Lookup host)"
    "\<And>ip port. is_local_or_private_ip ip \<Longrightarrow> explicitly_allowed policy host \<Longrightarrow> P (Connect ip port)"
    "\<And>ip port. \<not> is_local_or_private_ip ip \<Longrightarrow> P (Connect ip port)"
  shows "only P (connect_checked_resolved env host port policy)"
proof (rule only_connect_checked [OF assms(1)])
  fix ip resolved
  assume "checked_socket_addrs host policy port resolved = Inr (map (\<lambda>ip. (ip, port)) resolved)" "ip \<in> set resolved"
  then have "is_local_or_private_ip ip \<Longrightarrow> explicitly_allowed policy host"
    unfolding checked_socket_addrs_def Let_def explicitly_allowed_def
    by (auto dest: check_addrs_ok)
  with assms(3,4) show "P (Connect ip port)" by blast
qed (rule assms(2))


subsection \<open>The judged host and the connected host\<close>

lemma split_once_char:
  "split_once s [c] = (if c \<in> set s then Some (takeWhile (\<lambda>x. x \<noteq> c) s, drop 1 (dropWhile (\<lambda>x. x \<noteq> c) s)) else None)"
  by (induction s) (auto simp: starts_with_def)

lemma split_once_authority: "fst (unwrap_or (split_once rest ''/'') (rest, [])) = takeWhile (\<lambda>c. c \<noteq> CHR ''/'') rest"
proof (cases "CHR ''/'' \<in> set rest")
  case False
  then have "takeWhile (\<lambda>c. c \<noteq> CHR ''/'') rest = rest"
    by (simp only: takeWhile_eq_all_conv) blast
  with False show ?thesis by (simp only: split_once_char if_False option_ops_simps fst_conv)
qed (simp add: split_once_char)

lemma parse_http_absolute:
  assumes "parse_http_target (''http://'' @ rest) headers = Some (host, port, path)"
  shows "host = fst (split_host_port (takeWhile (\<lambda>c. c \<noteq> CHR ''/'') rest) 80)"
  using assms split_once_authority [of rest]
  unfolding parse_http_target_def strip_prefix_append option.case
  by (auto simp: Let_def split: prod.splits)

lemma split_host_port_host: "fst (split_host_port authority d) = fst (split_host_port authority d')"
  by (simp add: split_host_port_def Let_def split: option.split prod.split)

text \<open>
  The requests whose target itself names the host they connect to: a tunnel to a host with a port, or an absolute
  plain address. The authority is what the target names.
\<close>

definition names_authority :: "proxy_request \<Rightarrow> string \<Rightarrow> bool" where
  "names_authority request authority \<longleftrightarrow>
     authority \<noteq> []
     \<and> (is_connect request \<and> request_target request = authority \<and> str_contains authority '':''
          \<and> \<not> starts_with authority ''http://'' \<and> \<not> starts_with authority ''https://''
        \<or> \<not> is_connect request
          \<and> (\<exists>rest. request_target request = ''http://'' @ rest \<and> authority = takeWhile (\<lambda>c. c \<noteq> CHR ''/'') rest))"

lemma names_authority_judged: "names_authority request authority \<Longrightarrow> judged_host request = authority"
  by (auto simp: names_authority_def judged_host_def proxy_target_host_def strip_prefix_def starts_with_def)

definition named_host :: "string \<Rightarrow> string" where
  "named_host authority = fst (split_host_port authority 0)"

text \<open>
  C19: For a request whose target names its host, the proxy connects to no other host than the one the policy judged. Every
  lookup is of the host in the target, every connection is to it, and both happen only when the policy allows that
  host or the permission gate approved it while it was not denied.
\<close>

theorem named_targets_are_judged:
  assumes "names_authority request authority"
    "e \<in> set (snd (handle_request env order policy request []))"
  shows "(\<forall>host. e = Lookup host \<longrightarrow> host = named_host authority)
    \<and> (\<forall>ip port. e = Connect ip port \<longrightarrow> parse_ip (named_host authority) = None \<or> parse_ip (named_host authority) = Some ip)
    \<and> ((\<exists>host. e = Lookup host) \<or> (\<exists>ip port. e = Connect ip port) \<longrightarrow>
        decision_for_host policy authority = AllowHost \<or> approved env policy authority)"
proof -
  define P where "P e \<longleftrightarrow> (\<forall>host. e = Lookup host \<longrightarrow> host = named_host authority)
    \<and> (\<forall>ip port. e = Connect ip port \<longrightarrow> parse_ip (named_host authority) = None \<or> parse_ip (named_host authority) = Some ip)
    \<and> ((\<exists>host. e = Lookup host) \<or> (\<exists>ip port. e = Connect ip port) \<longrightarrow>
        decision_for_host policy authority = AllowHost \<or> approved env policy authority)" for e
  have harmless: "harmless P" by (simp add: harmless_def P_def)
  have "only P (handle_request env order policy request)"
  proof (intro only_handle_request only_forward harmless)
    fix policy'
    assume "in_force env order policy (judged_host request) policy'"
    then have let_through: "decision_for_host policy authority = AllowHost \<or> approved env policy authority"
      using names_authority_judged [OF assms(1)] by (auto simp: in_force_def)
    have connect: "only P (connect_checked_resolved env host port policy')" if "host = named_host authority" for host port
      using that let_through by (intro only_connect_checked harmless) (auto simp: P_def)
    show "only P (if eq_ignore_ascii_case (nth_word (split_whitespace (pr_request_line request)) 0 []) ''CONNECT''
       then proxy_connect env (nth_word (split_whitespace (pr_request_line request)) 1 []) policy'
       else proxy_http env (nth_word (split_whitespace (pr_request_line request)) 0 [])
         (nth_word (split_whitespace (pr_request_line request)) 1 [])
         (nth_word (split_whitespace (pr_request_line request)) 2 ''HTTP/1.1'') (pr_headers request) policy')"
    proof (cases "is_connect request")
      case True
      then have "fst (split_host_port (request_target request) 443) = named_host authority"
        using assms(1) by (auto simp: names_authority_def named_host_def split_host_port_host [of _ 443 0])
      with True connect show ?thesis
        by (auto simp: is_connect_def request_target_def intro!: only_proxy_connect harmless)
    next
      case False
      then obtain rest where rest: "request_target request = ''http://'' @ rest"
        "authority = takeWhile (\<lambda>c. c \<noteq> CHR ''/'') rest"
        using assms(1) by (auto simp: names_authority_def)
      have "host = named_host authority"
        if "parse_http_target (request_target request) (pr_headers request) = Some (host, port, path)" for host port path
        using that parse_http_absolute [of rest] rest split_host_port_host [of authority 80 0]
        by (simp only: named_host_def)
      with False connect show ?thesis
        by (auto simp: is_connect_def request_target_def intro!: only_proxy_http harmless)
    qed
  qed
  from onlyD [OF this assms(2)] show ?thesis unfolding P_def .
qed

text \<open>What was done stays in the trace.\<close>

lemma any_effect [simp]:
  "only (\<lambda>_. True) (perform env e)" "only (\<lambda>_. True) (connect_first env last_error addrs)"
  "only (\<lambda>_. True) m \<Longrightarrow> (\<And>x. only (\<lambda>_. True) (f x)) \<Longrightarrow> only (\<lambda>_. True) (io_bind m f)"
  "only (\<lambda>_. True) (report_block env host reason)" "only (\<lambda>_. True) (write_forbidden env reason h)"
  by (auto simp: harmless_def intro: effects)

lemma bind_keeps:
  assumes "e \<in> set (snd (m tr))" "\<And>x. only (\<lambda>_. True) (f x)"
  shows "e \<in> set (snd (io_bind m f tr))"
proof -
  obtain r tr' where m: "m tr = (r, tr')" by (cases "m tr")
  show ?thesis
  proof (cases r)
    case (Inr x)
    from assms(2) [of x] obtain new where "snd (f x tr') = tr' @ new" unfolding only_def by blast
    with assms(1) m Inr show ?thesis by (simp add: io_bind_def)
  qed (use assms(1) m in \<open>simp add: io_bind_def\<close>)
qed

lemma forward_keeps:
  assumes "e \<in> set (snd ((if eq_ignore_ascii_case (nth_word (split_whitespace (pr_request_line request)) 0 []) ''CONNECT''
       then proxy_connect env (nth_word (split_whitespace (pr_request_line request)) 1 []) policy
       else proxy_http env (nth_word (split_whitespace (pr_request_line request)) 0 [])
         (nth_word (split_whitespace (pr_request_line request)) 1 [])
         (nth_word (split_whitespace (pr_request_line request)) 2 ''HTTP/1.1'') (pr_headers request) policy) tr))"
    (is "e \<in> set (snd (?m tr))")
  shows "e \<in> set (snd (forward env request policy host tr))"
proof -
  obtain r tr' where m: "?m tr = (r, tr')" by (cases "?m tr")
  have "only (\<lambda>_. True) (io_bind (report_block env host NotAllowedLocal) (\<lambda>_. write_forbidden env NotAllowedLocal (Some host)))"
    by simp
  then obtain new where "snd (io_bind (report_block env host NotAllowedLocal)
      (\<lambda>_. write_forbidden env NotAllowedLocal (Some host)) tr') = tr' @ new"
    unfolding only_def by blast
  with assms m show ?thesis
    unfolding forward_def Let_def by (auto split: sum.split net_error.split)
qed


subsection \<open>Sample connections\<close>

definition sample_env :: surroundings where
  "sample_env = \<lparr>su_reporter = True, su_gate = None, su_lookup = (\<lambda>_ _. Inr [V4 (Ipv4 93 184 215 14)]),
     su_outcome = (\<lambda>_ _. Inr ())\<rparr>"

definition local_request :: "string list" where
  "local_request = [''GET http://127.0.0.1/ HT'', ''TP/1.1'' @ crlf @ ''A: b'' @ crlf @ crlf]"

definition local_policy :: domain_map where "local_policy = [(''127.0.0.1'', AllowAccess)]"

definition parsed_request :: proxy_request where
  "parsed_request = \<lparr>pr_request_line = ''GET http://127.0.0.1/ HTTP/1.1'', pr_headers = [''A: b'' @ crlf]\<rparr>"

lemma sample_read: "read_proxy_request Eof local_request = Inr (Some parsed_request)"
  by (simp add: read_proxy_request_def local_request_def parsed_request_def crlf_def line_feed_def utf8_line_def
      read_headers.simps max_proxy_request_line_bytes_def max_proxy_header_line_bytes_def max_proxy_header_bytes_def
      max_proxy_headers_def Let_def trim_end_chars_def in_range_def byte_of_def)

lemma sample_evaluated:
  "split_whitespace (pr_request_line parsed_request) = [''GET'', ''http://127.0.0.1/'', ''HTTP/1.1'']
   \<and> proxy_target_host ''http://127.0.0.1/'' = Some ''127.0.0.1''
   \<and> split_host_port ''127.0.0.1'' 80 = (''127.0.0.1'', 80)
   \<and> normalize_host ''127.0.0.1'' = ''127.0.0.1''
   \<and> \<not> eq_ignore_ascii_case ''GET'' ''CONNECT''
   \<and> read_octets 0 4 ''127.0.0.1'' = Some ([127, 0, 0, 1], [])"
  by code_simp

lemmas sample_words = sample_evaluated [THEN conjunct1]

lemma sample_target:
  "proxy_target_host ''http://127.0.0.1/'' = Some ''127.0.0.1''"
  "parse_http_target ''http://127.0.0.1/'' hs = Some (''127.0.0.1'', 80, ''/'')"
  "normalize_host ''127.0.0.1'' = ''127.0.0.1''"
  "\<not> eq_ignore_ascii_case ''GET'' ''CONNECT''"
  using sample_evaluated by (simp_all add: parse_http_target_def strip_prefix_def starts_with_def split_once_char)

lemma sample_ip: "parse_ip ''127.0.0.1'' = Some (V4 (Ipv4 127 0 0 1))"
  using sample_evaluated by (simp add: parse_ip_def read_ipv4_addr_def)

lemma sample_policy:
  "decision_for_host local_policy ''127.0.0.1'' = AllowHost" "access_for_host local_policy ''127.0.0.1'' = Some AllowAccess"
  by (simp_all add: decision_for_host_def access_for_host_def sample_target local_policy_def)

lemma sample_local: "is_local_or_private_ip (V4 (Ipv4 127 0 0 1))" "is_local_or_private_host_literal ''127.0.0.1''"
  by (simp_all add: is_local_or_private_ipv4_def is_local_or_private_host_literal_def sample_ip)

lemma sample_connects:
  "Connect (V4 (Ipv4 127 0 0 1)) 80 \<in> set (snd (connect_checked_resolved sample_env ''127.0.0.1'' 80 local_policy []))"
  unfolding connect_checked_resolved_def sample_ip option.case io_bind_def io_return_def prod.case sum.case
    checked_socket_addrs_def Let_def sample_target(3) sample_policy(2)
  by (simp add: sample_local perform_def sample_env_def)

lemma sample_handles:
  "Connect (V4 (Ipv4 127 0 0 1)) 80 \<in> set (snd (handle_request sample_env id local_policy parsed_request []))"
proof -
  have "Connect (V4 (Ipv4 127 0 0 1)) 80 \<in> set (snd (proxy_http sample_env ''GET'' ''http://127.0.0.1/'' v hs local_policy []))"
    for v hs
    unfolding proxy_http_def sample_target(2) option.case prod.case
    by (rule bind_keeps, rule sample_connects)
      (intro any_effect, rule only_write_headers, simp add: harmless_def)
  then have "Connect (V4 (Ipv4 127 0 0 1)) 80 \<in> set (snd (forward sample_env parsed_request local_policy ''127.0.0.1'' []))"
    by (intro forward_keeps) (simp add: sample_words nth_word_def sample_target)
  then show ?thesis
    by (simp add: handle_request_def sample_words nth_word_def sample_target sample_policy)
qed

theorem proxy_requests_are_bounded_witness:
  "read_proxy_request Eof [concat local_request] = Inr (Some parsed_request)"
  using proxy_requests_are_bounded [of "[concat local_request]" local_request Eof] sample_read by simp


theorem named_targets_are_judged_witness:
  "Connect (V4 (Ipv4 127 0 0 1)) 80 \<in> set (snd (handle_request sample_env id local_policy parsed_request []))
   \<and> (decision_for_host local_policy ''127.0.0.1'' = AllowHost \<or> approved sample_env local_policy ''127.0.0.1'')"
proof -
  have "names_authority parsed_request ''127.0.0.1''"
    using sample_target(4)
    by (auto simp: names_authority_def is_connect_def request_target_def sample_words nth_word_def)
  from named_targets_are_judged [OF this sample_handles] show ?thesis using sample_handles by blast
qed

definition tunnel_request :: proxy_request where
  "tunnel_request = \<lparr>pr_request_line = ''CONNECT denied.example HTTP/1.1'', pr_headers = [''Host: good.example'' @ crlf]\<rparr>"

definition tunnel_policy :: domain_map where
  "tunnel_policy = [(''good.example'', AllowAccess), (''denied.example'', DenyAccess)]"


end
