(* ===== verification/Capability.thy ===== *)
theory Capability
  imports Rust_Paths Contracts
begin

text \<open>
  The capability kernel: \<^verbatim>\<open>crates/orca-core/src/approval_types.rs\<close> (approval modes) and
  \<^verbatim>\<open>crates/orca-core/src/capability.rs\<close> (capability sets, requests, ceilings, the resolver,
  receipts and execution profiles). The resolver is shown to compute the intersection of what
  was requested with what the ceiling and the approval mode allow.
\<close>

subsection \<open>Approval modes\<close>

datatype approval_mode = Suggest | AutoEdit | FullAuto | Plan

datatype approval_behavior = Ask | Auto | Never

fun approval_mode_str :: "approval_mode \<Rightarrow> string" where
  "approval_mode_str Suggest = ''suggest''"
| "approval_mode_str AutoEdit = ''auto-edit''"
| "approval_mode_str FullAuto = ''full-auto''"
| "approval_mode_str Plan = ''plan''"

fun next_mode :: "approval_mode \<Rightarrow> approval_mode" where
  "next_mode Suggest = AutoEdit"
| "next_mode AutoEdit = FullAuto"
| "next_mode FullAuto = Plan"
| "next_mode Plan = Suggest"

fun behavior :: "approval_mode \<Rightarrow> approval_behavior" where
  "behavior Suggest = Ask"
| "behavior AutoEdit = Auto"
| "behavior Plan = Auto"
| "behavior FullAuto = Never"

subsection \<open>Process classes and enforcement\<close>

datatype capability_process_class =
  SandboxedTool | UserTrustedIntegration | WorkflowWorker | RemoteSandboxClass

datatype enforcement_state = Enforced | Advisory | Unavailable

datatype sandbox_probe_status =
  Available | BackendMissing | ProbeDenied | ProbeFailed | UnsupportedPlatform

record sandbox_probe_evidence =
  pe_backend :: string
  pe_executable :: "path_buf option"
  pe_status :: sandbox_probe_status
  pe_exit_code :: "int option"
  pe_signal :: "int option"
  pe_stderr :: "string option"
  pe_io_error :: "string option"

definition probe_available :: "sandbox_probe_evidence \<Rightarrow> bool" where
  "probe_available e \<longleftrightarrow> pe_status e = Available"

record sandbox_enforcement_decision =
  sd_state :: enforcement_state
  sd_backend :: string
  sd_probes :: "sandbox_probe_evidence list"

subsection \<open>Capability sets\<close>

record capability_set =
  cap_read :: bool
  cap_write :: bool
  cap_metadata_write :: bool
  cap_network :: bool
  cap_shell :: bool
  cap_agent :: bool

datatype capability_error = Widening | PlanViolation | InvalidPath | UntrustedProcessClass

definition caps_read_only :: capability_set where
  "caps_read_only =
     \<lparr>cap_read = True, cap_write = False, cap_metadata_write = False, cap_network = False,
      cap_shell = False, cap_agent = False\<rparr>"

definition caps_workspace_write :: capability_set where
  "caps_workspace_write =
     \<lparr>cap_read = True, cap_write = True, cap_metadata_write = False, cap_network = False,
      cap_shell = True, cap_agent = True\<rparr>"

definition caps_all :: capability_set where
  "caps_all =
     \<lparr>cap_read = True, cap_write = True, cap_metadata_write = True, cap_network = True,
      cap_shell = True, cap_agent = True\<rparr>"

fun caps_for_approval_mode :: "approval_mode \<Rightarrow> capability_set" where
  "caps_for_approval_mode Plan = caps_read_only"
| "caps_for_approval_mode Suggest = caps_workspace_write"
| "caps_for_approval_mode AutoEdit = caps_workspace_write"
| "caps_for_approval_mode FullAuto = caps_all"

definition caps_intersect ::
    "capability_set \<Rightarrow> capability_set \<Rightarrow> (capability_error, capability_set) result" where
  "caps_intersect a b = Inr
     \<lparr>cap_read = (cap_read a \<and> cap_read b),
      cap_write = (cap_write a \<and> cap_write b),
      cap_metadata_write = (cap_metadata_write a \<and> cap_metadata_write b),
      cap_network = (cap_network a \<and> cap_network b),
      cap_shell = (cap_shell a \<and> cap_shell b),
      cap_agent = (cap_agent a \<and> cap_agent b)\<rparr>"

definition caps_ensure_subset_of ::
    "capability_set \<Rightarrow> capability_set \<Rightarrow> (capability_error, unit) result" where
  "caps_ensure_subset_of c parent =
     (if (\<not> cap_read parent \<and> cap_read c)
         \<or> (\<not> cap_write parent \<and> cap_write c)
         \<or> (\<not> cap_metadata_write parent \<and> cap_metadata_write c)
         \<or> (\<not> cap_network parent \<and> cap_network c)
         \<or> (\<not> cap_shell parent \<and> cap_shell c)
         \<or> (\<not> cap_agent parent \<and> cap_agent c)
      then Inl Widening else Inr ())"

subsection \<open>Execution profiles\<close>

datatype execution_profile = ReadOnly | Workspace | TrustedHost | RemoteSandbox

fun profile_for_approval_mode :: "approval_mode \<Rightarrow> execution_profile" where
  "profile_for_approval_mode Plan = ReadOnly"
| "profile_for_approval_mode Suggest = Workspace"
| "profile_for_approval_mode AutoEdit = Workspace"
| "profile_for_approval_mode FullAuto = TrustedHost"

fun capability_ceiling_of :: "execution_profile \<Rightarrow> capability_set" where
  "capability_ceiling_of ReadOnly = caps_read_only"
| "capability_ceiling_of Workspace = caps_all"
| "capability_ceiling_of TrustedHost = caps_all"
| "capability_ceiling_of RemoteSandbox = caps_all"

fun child_may_request :: "execution_profile \<Rightarrow> execution_profile \<Rightarrow> bool" where
  "child_may_request ReadOnly r \<longleftrightarrow> r = ReadOnly"
| "child_may_request Workspace r \<longleftrightarrow> r \<in> {ReadOnly, Workspace}"
| "child_may_request TrustedHost r \<longleftrightarrow> r \<in> {ReadOnly, Workspace, TrustedHost}"
| "child_may_request RemoteSandbox r \<longleftrightarrow> r \<in> {ReadOnly, RemoteSandbox}"

subsection \<open>Denial receipts\<close>

datatype sandbox_denial_source = KernelDenial | BackendDenial

record sandbox_denial_receipt =
  dr_request_id :: string
  dr_source :: sandbox_denial_source
  dr_backend :: string
  dr_denied_path :: "path_buf option"
  dr_operation :: string

definition denial_receipt_new ::
    "string \<Rightarrow> sandbox_denial_source \<Rightarrow> string \<Rightarrow> path_buf option \<Rightarrow> string \<Rightarrow> sandbox_denial_receipt" where
  "denial_receipt_new rid src backend denied op =
     \<lparr>dr_request_id = rid, dr_source = src, dr_backend = backend, dr_denied_path = denied,
      dr_operation = op\<rparr>"

subsection \<open>Requests, ceilings and effective capabilities\<close>

record capability_request =
  rq_request_id :: string
  rq_process_class :: capability_process_class
  rq_capabilities :: capability_set
  rq_cwd :: path_buf
  rq_read_roots :: "path_buf list"
  rq_write_roots :: "path_buf list"
  rq_metadata_roots :: "path_buf list"
  rq_denied_roots :: "path_buf list"
  rq_network_targets :: "string set"
  rq_config_digest :: "string option"

record capability_ceiling =
  ce_capabilities :: capability_set
  ce_read_roots :: "path_buf list option"
  ce_write_roots :: "path_buf list option"
  ce_metadata_roots :: "path_buf list option"
  ce_denied_roots :: "path_buf list"
  ce_network_targets :: "string set option"

definition ceiling_of_caps :: "capability_set \<Rightarrow> capability_ceiling" where
  "ceiling_of_caps c =
     \<lparr>ce_capabilities = c, ce_read_roots = None, ce_write_roots = None,
      ce_metadata_roots = None, ce_denied_roots = [], ce_network_targets = None\<rparr>"

definition request_new ::
    "string \<Rightarrow> capability_process_class \<Rightarrow> capability_set \<Rightarrow> path_buf \<Rightarrow> capability_request" where
  "request_new rid cls caps cwd =
     \<lparr>rq_request_id = rid, rq_process_class = cls, rq_capabilities = caps, rq_cwd = cwd,
      rq_read_roots = [], rq_write_roots = [], rq_metadata_roots = [], rq_denied_roots = [],
      rq_network_targets = {}, rq_config_digest = None\<rparr>"

record effective_capability =
  ef_request_id :: string
  ef_process_class :: capability_process_class
  ef_capabilities :: capability_set
  ef_cwd :: path_buf
  ef_read_roots :: "path_buf list"
  ef_write_roots :: "path_buf list"
  ef_metadata_roots :: "path_buf list"
  ef_denied_roots :: "path_buf list"
  ef_network_targets :: "string set"
  ef_config_digest :: "string option"

definition validate_absolute_path :: "path_buf \<Rightarrow> (capability_error, unit) result" where
  "validate_absolute_path p =
     (if \<not> is_absolute p \<or> ParentDir \<in> set p then Inl InvalidPath else Inr ())"

text \<open>
  The nested loop of \<^verbatim>\<open>intersect_roots\<close>: a requested root below a ceiling root is kept, a
  ceiling root below a requested root replaces it, unrelated roots give nothing.
\<close>

definition intersect_root :: "path_buf \<Rightarrow> path_buf \<Rightarrow> path_buf list" where
  "intersect_root req ceil =
     (if path_starts_with req ceil then [req]
      else if path_starts_with ceil req then [ceil] else [])"

definition intersect_roots :: "path_buf list \<Rightarrow> path_buf list option \<Rightarrow> path_buf list" where
  "intersect_roots requested ceiling =
     (case ceiling of
        None \<Rightarrow> requested
      | Some cs \<Rightarrow>
          sort_dedup (concat (map (\<lambda>r. concat (map (intersect_root r) cs)) requested)))"

definition ensure_roots_subset ::
    "path_buf list \<Rightarrow> path_buf list option \<Rightarrow> (capability_error, unit) result" where
  "ensure_roots_subset requested ceiling =
     (case ceiling of
        None \<Rightarrow> Inr ()
      | Some cs \<Rightarrow>
          if list_all (\<lambda>r. list_ex (\<lambda>c. path_starts_with r c) cs) requested
          then Inr () else Inl Widening)"

definition merge_denied_roots :: "path_buf list \<Rightarrow> path_buf list \<Rightarrow> path_buf list" where
  "merge_denied_roots requested ceiling = sort_dedup (requested @ ceiling)"

definition opt_list :: "'a list option \<Rightarrow> 'a list" where
  "opt_list x = (case x of None \<Rightarrow> [] | Some xs \<Rightarrow> xs)"

definition resolve_inner ::
    "capability_request \<Rightarrow> capability_ceiling \<Rightarrow> approval_mode
     \<Rightarrow> (capability_error, effective_capability) result" where
  "resolve_inner rq ce mode =
     try_bind (validate_absolute_path (rq_cwd rq)) (\<lambda>_.
     try_bind (try_all validate_absolute_path
        (rq_read_roots rq @ rq_write_roots rq @ rq_metadata_roots rq @ rq_denied_roots rq)) (\<lambda>_.
     try_bind (try_all validate_absolute_path
        (opt_list (ce_read_roots ce) @ opt_list (ce_write_roots ce)
         @ opt_list (ce_metadata_roots ce) @ ce_denied_roots ce)) (\<lambda>_.
     let mode_ceiling = caps_for_approval_mode mode in
     try_bind (if mode = Plan
               then map_err (\<lambda>_. PlanViolation)
                      (caps_ensure_subset_of (rq_capabilities rq) mode_ceiling)
               else Inr ()) (\<lambda>_.
     try_bind (caps_intersect (rq_capabilities rq) (ce_capabilities ce)) (\<lambda>c1.
     try_bind (caps_intersect c1 mode_ceiling) (\<lambda>capabilities.
     Inr \<lparr>ef_request_id = rq_request_id rq,
          ef_process_class = rq_process_class rq,
          ef_capabilities = capabilities,
          ef_cwd = rq_cwd rq,
          ef_read_roots = intersect_roots (rq_read_roots rq) (ce_read_roots ce),
          ef_write_roots = intersect_roots (rq_write_roots rq) (ce_write_roots ce),
          ef_metadata_roots = intersect_roots (rq_metadata_roots rq) (ce_metadata_roots ce),
          ef_denied_roots = merge_denied_roots (rq_denied_roots rq) (ce_denied_roots ce),
          ef_network_targets =
            (case ce_network_targets ce of
               None \<Rightarrow> rq_network_targets rq
             | Some allowed \<Rightarrow> rq_network_targets rq \<inter> allowed),
          ef_config_digest = rq_config_digest rq\<rparr>))))))"

definition resolve ::
    "capability_request \<Rightarrow> capability_ceiling \<Rightarrow> approval_mode
     \<Rightarrow> (capability_error, effective_capability) result" where
  "resolve rq ce mode =
     (if rq_process_class rq = UserTrustedIntegration then Inl UntrustedProcessClass
      else resolve_inner rq ce mode)"

definition resolve_user_trusted ::
    "capability_request \<Rightarrow> capability_ceiling \<Rightarrow> approval_mode
     \<Rightarrow> (capability_error, effective_capability) result" where
  "resolve_user_trusted rq ce mode =
     (if rq_process_class rq \<noteq> UserTrustedIntegration then Inl UntrustedProcessClass
      else resolve_inner rq ce mode)"

text \<open>The final check of a materialized capability against the owner's ceiling.\<close>

definition ensure_subset_of ::
    "effective_capability \<Rightarrow> capability_ceiling \<Rightarrow> (capability_error, unit) result" where
  "ensure_subset_of ef ce =
     try_bind (caps_ensure_subset_of (ef_capabilities ef) (ce_capabilities ce)) (\<lambda>_.
     try_bind (ensure_roots_subset (ef_read_roots ef) (ce_read_roots ce)) (\<lambda>_.
     try_bind (ensure_roots_subset (ef_write_roots ef) (ce_write_roots ce)) (\<lambda>_.
     try_bind (ensure_roots_subset (ef_metadata_roots ef) (ce_metadata_roots ce)) (\<lambda>_.
     if is_some_and (ce_network_targets ce) (\<lambda>allowed. \<not> ef_network_targets ef \<subseteq> allowed)
     then Inl Widening else Inr ()))))"

subsection \<open>Receipts\<close>

record capability_receipt =
  rc_request_id :: string
  rc_process_class :: capability_process_class
  rc_enforcement :: enforcement_state
  rc_cwd :: path_buf
  rc_backend :: string
  rc_capabilities :: capability_set
  rc_read_roots :: "path_buf list"
  rc_write_roots :: "path_buf list"
  rc_metadata_roots :: "path_buf list"
  rc_denied_roots :: "path_buf list"
  rc_network_targets :: "string set"
  rc_provenance :: "string option"

definition receipt_new ::
    "string \<Rightarrow> capability_process_class \<Rightarrow> enforcement_state \<Rightarrow> path_buf \<Rightarrow> string
     \<Rightarrow> capability_receipt" where
  "receipt_new rid cls enf cwd backend =
     \<lparr>rc_request_id = rid, rc_process_class = cls, rc_enforcement = enf, rc_cwd = cwd,
      rc_backend = backend, rc_capabilities = caps_read_only, rc_read_roots = [],
      rc_write_roots = [], rc_metadata_roots = [], rc_denied_roots = [],
      rc_network_targets = {}, rc_provenance = None\<rparr>"

definition receipt :: "effective_capability \<Rightarrow> enforcement_state \<Rightarrow> string \<Rightarrow> capability_receipt" where
  "receipt ef enf backend =
     (receipt_new (ef_request_id ef) (ef_process_class ef) enf (ef_cwd ef) backend)
       \<lparr>rc_capabilities := ef_capabilities ef,
        rc_read_roots := ef_read_roots ef,
        rc_write_roots := ef_write_roots ef,
        rc_metadata_roots := ef_metadata_roots ef,
        rc_denied_roots := ef_denied_roots ef,
        rc_network_targets := ef_network_targets ef,
        rc_provenance := ef_config_digest ef\<rparr>"

subsection \<open>The abstract specification: authority as a set of permissions\<close>

datatype cap_bit = ReadBit | WriteBit | MetadataBit | NetworkBit | ShellBit | AgentBit

datatype permission =
  Hold cap_bit | ReadAt path_buf | WriteAt path_buf | MetadataAt path_buf | Connect string

fun has_bit :: "capability_set \<Rightarrow> cap_bit \<Rightarrow> bool" where
  "has_bit c ReadBit = cap_read c"
| "has_bit c WriteBit = cap_write c"
| "has_bit c MetadataBit = cap_metadata_write c"
| "has_bit c NetworkBit = cap_network c"
| "has_bit c ShellBit = cap_shell c"
| "has_bit c AgentBit = cap_agent c"

fun permits ::
    "capability_set \<Rightarrow> path_buf set \<Rightarrow> path_buf set \<Rightarrow> path_buf set \<Rightarrow> path_buf set \<Rightarrow> string set
     \<Rightarrow> permission \<Rightarrow> bool" where
  "permits c rd wr md dn nt (Hold b) \<longleftrightarrow> has_bit c b"
| "permits c rd wr md dn nt (ReadAt p) \<longleftrightarrow> p \<in> rd - dn"
| "permits c rd wr md dn nt (WriteAt p) \<longleftrightarrow> p \<in> wr - dn"
| "permits c rd wr md dn nt (MetadataAt p) \<longleftrightarrow> p \<in> md - dn"
| "permits c rd wr md dn nt (Connect t) \<longleftrightarrow> t \<in> nt"

definition request_authority :: "capability_request \<Rightarrow> permission set" where
  "request_authority rq =
     Collect (permits (rq_capabilities rq) (region (rq_read_roots rq)) (region (rq_write_roots rq))
                (region (rq_metadata_roots rq)) (region (rq_denied_roots rq)) (rq_network_targets rq))"

definition ceiling_authority :: "capability_ceiling \<Rightarrow> permission set" where
  "ceiling_authority ce =
     Collect (permits (ce_capabilities ce) (region_opt (ce_read_roots ce))
                (region_opt (ce_write_roots ce)) (region_opt (ce_metadata_roots ce))
                (region (ce_denied_roots ce))
                (case ce_network_targets ce of None \<Rightarrow> UNIV | Some t \<Rightarrow> t))"

definition effective_authority :: "effective_capability \<Rightarrow> permission set" where
  "effective_authority ef =
     Collect (permits (ef_capabilities ef) (region (ef_read_roots ef)) (region (ef_write_roots ef))
                (region (ef_metadata_roots ef)) (region (ef_denied_roots ef)) (ef_network_targets ef))"

text \<open>An approval mode bounds the capability bits and nothing else.\<close>

definition mode_authority :: "approval_mode \<Rightarrow> permission set" where
  "mode_authority mode =
     Collect (permits (caps_for_approval_mode mode) UNIV UNIV UNIV {} UNIV)"

definition caps_within :: "capability_set \<Rightarrow> capability_set \<Rightarrow> bool" where
  "caps_within c parent \<longleftrightarrow> (\<forall>b. has_bit c b \<longrightarrow> has_bit parent b)"

definition paths_valid :: "capability_request \<Rightarrow> capability_ceiling \<Rightarrow> bool" where
  "paths_valid rq ce \<longleftrightarrow>
     (\<forall>p \<in> set (rq_cwd rq # rq_read_roots rq @ rq_write_roots rq @ rq_metadata_roots rq
                 @ rq_denied_roots rq @ opt_list (ce_read_roots ce) @ opt_list (ce_write_roots ce)
                 @ opt_list (ce_metadata_roots ce) @ ce_denied_roots ce).
        is_absolute p \<and> ParentDir \<notin> set p)"

subsection \<open>Capability sets form a meet-semilattice of bits\<close>

lemma cap_bit_all: "(\<forall>b. P b) \<longleftrightarrow> P ReadBit \<and> P WriteBit \<and> P MetadataBit \<and> P NetworkBit \<and> P ShellBit \<and> P AgentBit"
  by (metis cap_bit.exhaust)

lemma caps_ensure_subset_of_ok [simp]:
  "caps_ensure_subset_of c parent = Inr u \<longleftrightarrow> caps_within c parent"
  by (auto simp: caps_ensure_subset_of_def caps_within_def cap_bit_all)

lemma caps_ensure_subset_of_err:
  "caps_ensure_subset_of c parent = Inl e \<longleftrightarrow> e = Widening \<and> \<not> caps_within c parent"
  by (auto simp: caps_ensure_subset_of_def caps_within_def cap_bit_all)

lemma caps_intersect_bits:
  "\<exists>c. caps_intersect a b = Inr c \<and> (\<forall>k. has_bit c k \<longleftrightarrow> has_bit a k \<and> has_bit b k)"
  by (auto simp: caps_intersect_def cap_bit_all)

lemma caps_within_refl [simp]: "caps_within c c"
  by (simp add: caps_within_def)

lemma caps_within_trans: "caps_within a b \<Longrightarrow> caps_within b c \<Longrightarrow> caps_within a c"
  by (simp add: caps_within_def)

lemma caps_within_all [simp]: "caps_within c caps_all"
  by (simp add: caps_within_def cap_bit_all caps_all_def)

interpretation caps_order: attenuation "\<lambda>c p. caps_ensure_subset_of c p = Inr ()"
  by unfold_locales (auto intro: caps_within_trans)

interpretation profile_order: attenuation "\<lambda>c p. child_may_request p c"
proof
  show "child_may_request a a" for a by (cases a) auto
  show "child_may_request b a \<Longrightarrow> child_may_request c b \<Longrightarrow> child_may_request c a" for a b c
    by (cases b; cases c) auto
qed

subsection \<open>Root lists denote regions, and intersection of lists is intersection of regions\<close>

lemma set_intersect_roots_Some:
  "set (intersect_roots rs (Some cs)) = (\<Union>r \<in> set rs. \<Union>c \<in> set cs. set (intersect_root r c))"
  by (simp add: intersect_roots_def)

lemma region_intersect_root:
  "(\<exists>x \<in> set (intersect_root r c). path_starts_with p x)
   \<longleftrightarrow> path_starts_with p r \<and> path_starts_with p c"
  by (auto simp: intersect_root_def
      dest: path_starts_with_trans path_ancestors_comparable [of p r c])

lemma region_intersect_roots:
  "region (intersect_roots rs ceil) = region rs \<inter> region_opt ceil"
proof (cases ceil)
  case None
  then show ?thesis by (simp add: intersect_roots_def region_opt_def)
next
  case (Some cs)
  have "p \<in> region (intersect_roots rs (Some cs))
        \<longleftrightarrow> (\<exists>r \<in> set rs. \<exists>c \<in> set cs. \<exists>x \<in> set (intersect_root r c). path_starts_with p x)" for p
    by (simp add: region_def set_intersect_roots_Some)
  with Some show ?thesis
    by (auto simp: region_intersect_root region_opt_def region_def)
qed

lemma ensure_roots_subset_ok [simp]:
  "ensure_roots_subset rs ceil = Inr u \<longleftrightarrow>
     (\<forall>cs. ceil = Some cs \<longrightarrow> (\<forall>r \<in> set rs. \<exists>c \<in> set cs. path_starts_with r c))"
  by (cases ceil) (auto simp: ensure_roots_subset_def list_all_iff list_ex_iff)

lemma ensure_roots_subset_region:
  "ensure_roots_subset rs ceil = Inr u \<Longrightarrow> region rs \<subseteq> region_opt ceil"
  by (cases ceil) (auto simp: region_def region_opt_def dest!: bspec dest: path_starts_with_trans)

lemma intersect_roots_subset: "ensure_roots_subset (intersect_roots rs ceil) ceil = Inr ()"
proof -
  have "\<exists>c \<in> set cs. path_starts_with x c" if "x \<in> set (intersect_root r c)" "c \<in> set cs" for x r c cs
    using that by (intro bexI [of _ c]) (auto simp: intersect_root_def split: if_splits)
  then show ?thesis by (fastforce simp: set_intersect_roots_Some)
qed

subsection \<open>When the resolver answers, and what\<close>

lemma validate_absolute_path_ok [simp]:
  "validate_absolute_path p = Inr u \<longleftrightarrow> is_absolute p \<and> ParentDir \<notin> set p"
  by (auto simp: validate_absolute_path_def)

lemma validate_absolute_path_err: "validate_absolute_path p = Inl e \<Longrightarrow> e = InvalidPath"
  by (auto simp: validate_absolute_path_def split: if_splits)

lemma try_all_err: "try_all f xs = Inl e \<Longrightarrow> \<exists>x \<in> set xs. f x = Inl e"
  by (induction xs) (auto simp: try_bind_eq_Inl)

lemma resolve_inner_ok_iff:
  "(\<exists>ef. resolve_inner rq ce mode = Inr ef)
   \<longleftrightarrow> paths_valid rq ce \<and> (mode = Plan \<longrightarrow> caps_within (rq_capabilities rq) caps_read_only)"
  by (auto simp: resolve_inner_def paths_valid_def caps_intersect_def Let_def)

lemma resolve_inner_err:
  assumes "resolve_inner rq ce mode = Inl e"
  shows "e = (if paths_valid rq ce then PlanViolation else InvalidPath)"
proof (cases "paths_valid rq ce")
  case True
  then have "validate_absolute_path (rq_cwd rq) = Inr ()"
    and "try_all validate_absolute_path
      (rq_read_roots rq @ rq_write_roots rq @ rq_metadata_roots rq @ rq_denied_roots rq) = Inr ()"
    and "try_all validate_absolute_path
      (opt_list (ce_read_roots ce) @ opt_list (ce_write_roots ce)
       @ opt_list (ce_metadata_roots ce) @ ce_denied_roots ce) = Inr ()"
    by (auto simp: paths_valid_def)
  with assms True show ?thesis
    by (auto simp: resolve_inner_def caps_intersect_def Let_def try_bind_eq_Inl map_err_def
        split: if_splits sum.splits)
next
  case False
  with assms show ?thesis
    by (auto simp: resolve_inner_def paths_valid_def caps_intersect_def Let_def try_bind_eq_Inl
        dest!: try_all_err validate_absolute_path_err)
qed

lemma resolve_inner_fields:
  assumes "resolve_inner rq ce mode = Inr ef"
  shows "\<forall>b. has_bit (ef_capabilities ef) b \<longleftrightarrow>
           has_bit (rq_capabilities rq) b \<and> has_bit (ce_capabilities ce) b
           \<and> has_bit (caps_for_approval_mode mode) b"
    and "ef_read_roots ef = intersect_roots (rq_read_roots rq) (ce_read_roots ce)"
    and "ef_write_roots ef = intersect_roots (rq_write_roots rq) (ce_write_roots ce)"
    and "ef_metadata_roots ef = intersect_roots (rq_metadata_roots rq) (ce_metadata_roots ce)"
    and "ef_denied_roots ef = merge_denied_roots (rq_denied_roots rq) (ce_denied_roots ce)"
    and "ef_network_targets ef =
           rq_network_targets rq \<inter> (case ce_network_targets ce of None \<Rightarrow> UNIV | Some t \<Rightarrow> t)"
    and "ef_process_class ef = rq_process_class rq"
    and "ef_cwd ef = rq_cwd rq"
    and "ef_request_id ef = rq_request_id rq"
    and "ef_config_digest ef = rq_config_digest rq"
  using assms
  by (auto simp: resolve_inner_def caps_intersect_def cap_bit_all Let_def split: option.splits)

lemma resolve_inner_authority:
  assumes "resolve_inner rq ce mode = Inr ef"
  shows "effective_authority ef
         = request_authority rq \<inter> ceiling_authority ce \<inter> mode_authority mode"
proof -
  note F = resolve_inner_fields [OF assms]
  have "x \<in> effective_authority ef
        \<longleftrightarrow> x \<in> request_authority rq \<inter> ceiling_authority ce \<inter> mode_authority mode" for x
    by (cases x)
       (auto simp: effective_authority_def request_authority_def ceiling_authority_def
          mode_authority_def F region_intersect_roots merge_denied_roots_def)
  then show ?thesis by blast
qed

lemma resolve_inner_passes_final_check:
  assumes "resolve_inner rq ce mode = Inr ef"
  shows "ensure_subset_of ef ce = Inr ()"
proof -
  note F = resolve_inner_fields [OF assms]
  have "caps_within (ef_capabilities ef) (ce_capabilities ce)"
    using F(1) by (simp add: caps_within_def)
  moreover have "\<not> is_some_and (ce_network_targets ce) (\<lambda>t. \<not> ef_network_targets ef \<subseteq> t)"
    using F(6) by (cases "ce_network_targets ce") auto
  ultimately show ?thesis
    using F(2-4) intersect_roots_subset by (simp add: ensure_subset_of_def)
qed

lemma ensure_subset_of_ok_iff:
  "ensure_subset_of ef ce = Inr u \<longleftrightarrow>
     caps_within (ef_capabilities ef) (ce_capabilities ce)
     \<and> ensure_roots_subset (ef_read_roots ef) (ce_read_roots ce) = Inr ()
     \<and> ensure_roots_subset (ef_write_roots ef) (ce_write_roots ce) = Inr ()
     \<and> ensure_roots_subset (ef_metadata_roots ef) (ce_metadata_roots ce) = Inr ()
     \<and> (\<forall>t. ce_network_targets ce = Some t \<longrightarrow> ef_network_targets ef \<subseteq> t)"
  by (auto simp: ensure_subset_of_def is_some_and_iff simp del: ensure_roots_subset_ok)

lemma receipt_fields:
  "rc_request_id (receipt ef enf b) = ef_request_id ef"
  "rc_process_class (receipt ef enf b) = ef_process_class ef"
  "rc_enforcement (receipt ef enf b) = enf"
  "rc_cwd (receipt ef enf b) = ef_cwd ef"
  "rc_backend (receipt ef enf b) = b"
  "rc_capabilities (receipt ef enf b) = ef_capabilities ef"
  "rc_read_roots (receipt ef enf b) = ef_read_roots ef"
  "rc_write_roots (receipt ef enf b) = ef_write_roots ef"
  "rc_metadata_roots (receipt ef enf b) = ef_metadata_roots ef"
  "rc_denied_roots (receipt ef enf b) = ef_denied_roots ef"
  "rc_network_targets (receipt ef enf b) = ef_network_targets ef"
  "rc_provenance (receipt ef enf b) = ef_config_digest ef"
  by (simp_all add: receipt_def receipt_new_def)

subsection \<open>Properties\<close>

text \<open>
  C1: A capability the resolver hands out is exactly the intersection of what was requested,
  what the ceiling of the owning runtime allows and what the approval mode allows: for every
  capability bit, every path that may be read, written or have its metadata changed (denied
  roots of either side taken away) and every network target.
\<close>

theorem resolve_is_intersection:
  assumes "resolve rq ce mode = Inr ef"
  shows "effective_authority ef
         = request_authority rq \<inter> ceiling_authority ce \<inter> mode_authority mode"
  using assms by (auto simp: resolve_def split: if_splits dest: resolve_inner_authority)

definition demo_request :: capability_request where
  "demo_request = (request_new ''req'' SandboxedTool caps_all (path_of ''/w''))
     \<lparr>rq_read_roots := [path_of ''/w/src'', path_of ''/other''],
      rq_write_roots := [path_of ''/w''],
      rq_network_targets := {''api.example.com'', ''evil.example.com''}\<rparr>"

definition demo_ceiling :: capability_ceiling where
  "demo_ceiling = (ceiling_of_caps caps_all)
     \<lparr>ce_read_roots := Some [path_of ''/w''],
      ce_write_roots := Some [path_of ''/w/src''],
      ce_denied_roots := [path_of ''/w/.git''],
      ce_network_targets := Some {''api.example.com''}\<rparr>"

definition demo_effective :: effective_capability where
  "demo_effective =
     \<lparr>ef_request_id = ''req'', ef_process_class = SandboxedTool,
      ef_capabilities = caps_workspace_write, ef_cwd = path_of ''/w'',
      ef_read_roots = [path_of ''/w/src''], ef_write_roots = [path_of ''/w/src''],
      ef_metadata_roots = [], ef_denied_roots = [path_of ''/w/.git''],
      ef_network_targets = {''api.example.com''}, ef_config_digest = None\<rparr>"

lemma demo_resolve: "resolve demo_request demo_ceiling AutoEdit = Inr demo_effective"
  by code_simp

theorem resolve_is_intersection_witness:
  "resolve demo_request demo_ceiling AutoEdit = Inr demo_effective
   \<and> effective_authority demo_effective
     = request_authority demo_request \<inter> ceiling_authority demo_ceiling \<inter> mode_authority AutoEdit"
  using demo_resolve resolve_is_intersection [OF demo_resolve] by simp

text \<open>
  The resolver's error behaviour on every input. A self-declared trusted process class is
  refused before anything else; then a relative path or a path with a parent component, in the
  request or in the ceiling; then, in plan mode only, a request with any bit beyond read. It
  never answers with a widening error, and it answers with a capability in every other case.
\<close>

theorem resolve_outcomes:
  "(resolve rq ce mode = Inl UntrustedProcessClass \<longleftrightarrow> rq_process_class rq = UserTrustedIntegration)
   \<and> (resolve rq ce mode = Inl InvalidPath \<longleftrightarrow>
        rq_process_class rq \<noteq> UserTrustedIntegration \<and> \<not> paths_valid rq ce)
   \<and> (resolve rq ce mode = Inl PlanViolation \<longleftrightarrow>
        rq_process_class rq \<noteq> UserTrustedIntegration \<and> paths_valid rq ce \<and> mode = Plan
        \<and> \<not> caps_within (rq_capabilities rq) caps_read_only)
   \<and> resolve rq ce mode \<noteq> Inl Widening
   \<and> ((\<exists>ef. resolve rq ce mode = Inr ef) \<longleftrightarrow>
        rq_process_class rq \<noteq> UserTrustedIntegration \<and> paths_valid rq ce
        \<and> \<not> (mode = Plan \<and> \<not> caps_within (rq_capabilities rq) caps_read_only))"
proof (cases "rq_process_class rq = UserTrustedIntegration")
  case True
  then show ?thesis by (simp add: resolve_def)
next
  case False
  then have "resolve rq ce mode = resolve_inner rq ce mode" by (simp add: resolve_def)
  then show ?thesis
    using False resolve_inner_ok_iff [of rq ce mode] resolve_inner_err [of rq ce mode]
    by (cases "resolve_inner rq ce mode") (auto split: if_splits)
qed

text \<open>
  A capability resolved under a ceiling, by either entry point, passes that ceiling's final
  subset check: the check never rejects what the resolver produced.
\<close>

theorem resolved_passes_final_check:
  assumes "resolve rq ce mode = Inr ef \<or> resolve_user_trusted rq ce mode = Inr ef"
  shows "ensure_subset_of ef ce = Inr ()"
  using assms
  by (auto simp: resolve_def resolve_user_trusted_def split: if_splits
      dest: resolve_inner_passes_final_check)

theorem resolved_passes_final_check_witness:
  "resolve demo_request demo_ceiling AutoEdit = Inr demo_effective
   \<and> ensure_subset_of demo_effective demo_ceiling = Inr ()"
  using demo_resolve resolved_passes_final_check [of demo_request demo_ceiling AutoEdit demo_effective]
  by simp

text \<open>
  C3: What the final subset check guarantees and what it leaves open. A capability that passes
  has its bits, its read, write and metadata regions and its network targets inside the
  ceiling's. The denied roots take no part: replacing them on either side never changes the
  verdict, so a capability that dropped the ceiling's denied roots still passes.
\<close>

theorem final_check_regions:
  "(ensure_subset_of ef ce = Inr () \<longrightarrow>
      caps_within (ef_capabilities ef) (ce_capabilities ce)
      \<and> region (ef_read_roots ef) \<subseteq> region_opt (ce_read_roots ce)
      \<and> region (ef_write_roots ef) \<subseteq> region_opt (ce_write_roots ce)
      \<and> region (ef_metadata_roots ef) \<subseteq> region_opt (ce_metadata_roots ce)
      \<and> ef_network_targets ef \<subseteq> (case ce_network_targets ce of None \<Rightarrow> UNIV | Some t \<Rightarrow> t))
   \<and> ensure_subset_of (ef\<lparr>ef_denied_roots := d\<rparr>) (ce\<lparr>ce_denied_roots := d'\<rparr>)
     = ensure_subset_of ef ce"
proof (rule conjI)
  show "ensure_subset_of ef ce = Inr () \<longrightarrow>
      caps_within (ef_capabilities ef) (ce_capabilities ce)
      \<and> region (ef_read_roots ef) \<subseteq> region_opt (ce_read_roots ce)
      \<and> region (ef_write_roots ef) \<subseteq> region_opt (ce_write_roots ce)
      \<and> region (ef_metadata_roots ef) \<subseteq> region_opt (ce_metadata_roots ce)
      \<and> ef_network_targets ef \<subseteq> (case ce_network_targets ce of None \<Rightarrow> UNIV | Some t \<Rightarrow> t)"
    unfolding ensure_subset_of_ok_iff
    by (auto simp del: ensure_roots_subset_ok dest!: ensure_roots_subset_region
        split: option.splits)
qed (simp add: ensure_subset_of_def)

theorem final_check_regions_witness:
  "ensure_subset_of (demo_effective\<lparr>ef_denied_roots := []\<rparr>) demo_ceiling = Inr ()
   \<and> ReadAt (path_of ''/w/src/.git'') \<in> effective_authority (demo_effective\<lparr>ef_denied_roots := []\<rparr>)
   \<and> ReadAt (path_of ''/w/src/.git'')
       \<notin> ceiling_authority (demo_ceiling\<lparr>ce_denied_roots := [path_of ''/w/src/.git'']\<rparr>)
   \<and> ensure_subset_of (demo_effective\<lparr>ef_denied_roots := []\<rparr>)
       (demo_ceiling\<lparr>ce_denied_roots := [path_of ''/w/src/.git'']\<rparr>) = Inr ()"
proof -
  have ok: "ensure_subset_of demo_effective demo_ceiling = Inr ()" by code_simp
  have below: "path_starts_with (path_of ''/w/src/.git'') (path_of ''/w/src'')" by code_simp
  have "ReadAt (path_of ''/w/src/.git'') \<in> effective_authority (demo_effective\<lparr>ef_denied_roots := []\<rparr>)"
    using below by (simp add: effective_authority_def demo_effective_def region_def)
  moreover have "ReadAt (path_of ''/w/src/.git'')
       \<notin> ceiling_authority (demo_ceiling\<lparr>ce_denied_roots := [path_of ''/w/src/.git'']\<rparr>)"
    by (simp add: ceiling_authority_def region_def)
  moreover have "ensure_subset_of (demo_effective\<lparr>ef_denied_roots := []\<rparr>) demo_ceiling = Inr ()"
    using ok final_check_regions [of demo_effective demo_ceiling "[]" "ce_denied_roots demo_ceiling"]
    by simp
  moreover have "ensure_subset_of (demo_effective\<lparr>ef_denied_roots := []\<rparr>)
       (demo_ceiling\<lparr>ce_denied_roots := [path_of ''/w/src/.git'']\<rparr>) = Inr ()"
    using ok final_check_regions [of demo_effective demo_ceiling "[]" "[path_of ''/w/src/.git'']"]
    by simp
  ultimately show ?thesis by blast
qed

text \<open>
  Delegation only narrows. Along any chain of child agents in which every child's profile is
  one its parent may grant, every descendant's profile is one the root may grant, its capability
  ceiling lies within the root's, and a chain that starts in the remote sandbox never reaches
  execution on the local host.
\<close>

theorem delegation_only_narrows:
  assumes "successively child_may_request (root # holders)" "h \<in> set holders"
  shows "child_may_request root h
         \<and> caps_within (capability_ceiling_of h) (capability_ceiling_of root)
         \<and> (root = RemoteSandbox \<longrightarrow> h \<notin> {Workspace, TrustedHost})"
proof -
  have "child_may_request root h"
    using profile_order.chain_within_root [of root holders h] assms by simp
  then show ?thesis by (cases root; cases h) auto
qed

theorem delegation_only_narrows_witness:
  "child_may_request RemoteSandbox ReadOnly \<and> ReadOnly \<notin> {Workspace, TrustedHost}
   \<and> caps_within (capability_ceiling_of ReadOnly) (capability_ceiling_of RemoteSandbox)"
proof -
  have chain: "successively child_may_request (RemoteSandbox # [RemoteSandbox, ReadOnly])"
    by simp
  have mem: "ReadOnly \<in> set [RemoteSandbox, ReadOnly]" by simp
  show ?thesis using delegation_only_narrows [OF chain mem] by simp
qed

end
