(* ===== verification/Turn_Permissions.thy ===== *)
theory Turn_Permissions
  imports Rust_Paths Network_Proxy Capability Contracts
begin

text \<open>
  Permissions granted during a turn, \<^verbatim>\<open>crates/orca-runtime/src/runtime_permission.rs\<close> and
  \<^verbatim>\<open>crates/orca-runtime/src/protocol/permissions.rs\<close>: requests for more access, the overlay that collects what was
  granted, and the deltas by which an overlay that grew in a worker is replayed on the canonical one. The file
  system is asked about metadata directories through an argument.
\<close>

subsection \<open>Requested permissions\<close>

datatype permission_response_decision = PermissionAllow | PermissionDeny

datatype permission_grant_scope = TurnScope | SessionScope

datatype file_system_access_mode = ReadAccess | WriteAccess | ReadWriteAccess

record file_system_sandbox_entry =
  fe_path :: path_buf
  fe_access :: file_system_access_mode

record request_file_system_permissions =
  fp_read :: "path_buf list option"
  fp_write :: "path_buf list option"
  fp_entries :: "file_system_sandbox_entry list option"

record request_network_permissions =
  np_enabled :: "bool option"
  np_domains :: "string \<rightharpoonup> network_access"

record request_permission_profile =
  rp_file_system :: "request_file_system_permissions option"
  rp_network :: "request_network_permissions option"

definition push_unique_path :: "path_buf list \<Rightarrow> path_buf \<Rightarrow> path_buf list" where
  "push_unique_path paths p = (if p \<in> set paths then paths else paths @ [p])"

definition normalize_entry ::
    "file_system_sandbox_entry \<Rightarrow> request_file_system_permissions \<Rightarrow> request_file_system_permissions" where
  "normalize_entry entry fs =
     (case fe_access entry of
        ReadAccess \<Rightarrow> fs\<lparr>fp_read := Some (push_unique_path (unwrap_or (fp_read fs) []) (fe_path entry))\<rparr>
      | WriteAccess \<Rightarrow> fs\<lparr>fp_write := Some (push_unique_path (unwrap_or (fp_write fs) []) (fe_path entry))\<rparr>
      | ReadWriteAccess \<Rightarrow>
          fs\<lparr>fp_read := Some (push_unique_path (unwrap_or (fp_read fs) []) (fe_path entry)),
             fp_write := Some (push_unique_path (unwrap_or (fp_write fs) []) (fe_path entry))\<rparr>)"

definition normalize_entries :: "request_file_system_permissions \<Rightarrow> request_file_system_permissions" where
  "normalize_entries fs = (fold normalize_entry (unwrap_or (fp_entries fs) []) fs)\<lparr>fp_entries := None\<rparr>"

definition normalize_file_system_entries :: "request_permission_profile \<Rightarrow> request_permission_profile" where
  "normalize_file_system_entries p =
     (case rp_file_system p of
        Some fs \<Rightarrow> p\<lparr>rp_file_system := Some (normalize_entries fs)\<rparr>
      | None \<Rightarrow> p)"

text \<open>Structured paths of the wire format, as the labels the sandbox understands.\<close>

datatype structured_special_path =
    SpecialRoot | SpecialMinimal | ProjectRoots "path_buf option" | Tmpdir | SlashTmp
  | UnknownSpecial string "path_buf option"

datatype structured_path =
    StructuredPath path_buf
  | GlobPattern string
  | SpecialPath structured_special_path

definition is_normal :: "component \<Rightarrow> bool" where
  "is_normal c = (case c of Normal _ \<Rightarrow> True | _ \<Rightarrow> False)"

definition special_path_label :: "string \<Rightarrow> path_buf option \<Rightarrow> path_buf" where
  "special_path_label base subpath =
     (case subpath of
        Some p \<Rightarrow> path_of base @ filter is_normal p
      | None \<Rightarrow> path_of base)"

fun special_into_label :: "structured_special_path \<Rightarrow> path_buf" where
  "special_into_label SpecialRoot = path_of '':root''"
| "special_into_label SpecialMinimal = path_of '':minimal''"
| "special_into_label (ProjectRoots subpath) = special_path_label '':workspace_roots'' subpath"
| "special_into_label Tmpdir = path_of '':tmpdir''"
| "special_into_label SlashTmp = path_of ''/tmp''"
| "special_into_label (UnknownSpecial p subpath) = special_path_label p subpath"

fun into_path_label :: "structured_path \<Rightarrow> path_buf" where
  "into_path_label (StructuredPath p) = p"
| "into_path_label (GlobPattern pattern) = path_of (''glob:'' @ pattern)"
| "into_path_label (SpecialPath v) = special_into_label v"

subsection \<open>Requests and decisions\<close>

datatype permission_origin = BashOrigin | CommandExecOrigin

fun origin_label :: "permission_origin \<Rightarrow> string" where
  "origin_label BashOrigin = ''bash''"
| "origin_label CommandExecOrigin = ''command/exec''"

datatype permission_request_kind = NetworkBlock | CapabilityBoundary

text \<open>The context of a request: the foreground, by origin, or a child agent with the identities of its owner.\<close>

datatype surface_permission_origin = SurfaceBash | SurfaceCommandExec | SurfaceSpecialTool | SurfaceChildAgent | SurfaceUnknown

fun surface_origin :: "permission_origin \<Rightarrow> surface_permission_origin" where
  "surface_origin BashOrigin = SurfaceBash"
| "surface_origin CommandExecOrigin = SurfaceCommandExec"

datatype permission_context =
    ForegroundContext surface_permission_origin
  | ChildContext (pc_task_id: string) (pc_task_revision: nat) (pc_agent_id: string) (pc_agent_revision: nat)
      (pc_activity_id: string) (pc_turn_id: string) (pc_tool_call_id: string) (pc_origin: surface_permission_origin)

definition child_context :: "string \<Rightarrow> nat \<Rightarrow> string \<Rightarrow> nat \<Rightarrow> string \<Rightarrow> string \<Rightarrow> string \<Rightarrow> permission_context" where
  "child_context task_id task_revision agent_id agent_revision activity_id turn_id tool_call_id =
     ChildContext task_id task_revision agent_id agent_revision activity_id turn_id tool_call_id SurfaceChildAgent"

record permission_request =
  pq_id :: string
  pq_reason :: "string option"
  pq_permissions :: request_permission_profile
  pq_context :: permission_context

record permission_response =
  ps_decision :: permission_response_decision
  ps_scope :: permission_grant_scope
  ps_permissions :: request_permission_profile
  ps_strict_auto_review :: bool

datatype prompt_decision = AutoAllow | PromptUser | RejectPrompt string

definition decide_request_permissions_prompt :: "approval_mode \<Rightarrow> bool \<Rightarrow> prompt_decision" where
  "decide_request_permissions_prompt mode handler_available =
     (if mode = FullAuto then AutoAllow
      else if handler_available then PromptUser
      else RejectPrompt
        ''request_permissions requires a runtime permission handler unless approval mode is full-auto'')"

record permission_decision =
  pd_origin :: permission_origin
  pd_kind :: permission_request_kind
  pd_request :: permission_request

datatype permission_evaluation =
    EvaluatedRequest permission_decision
  | EvaluatedDeny permission_origin permission_request_kind string

definition network_block_evaluation :: "string \<Rightarrow> permission_origin \<Rightarrow> block_report \<Rightarrow> permission_evaluation" where
  "network_block_evaluation request_id origin block =
     (if br_error block = ''blocked-by-denylist''
      then EvaluatedDeny origin NetworkBlock
        (origin_label origin @ '' network access to '' @ br_host block @ '' was denied by configured network policy'')
      else EvaluatedRequest
        \<lparr>pd_origin = origin, pd_kind = NetworkBlock,
         pd_request =
           \<lparr>pq_id = request_id,
            pq_reason = Some (origin_label origin @ '' attempted network access to '' @ br_host block @ '' ('' @ br_error block @ '')''),
            pq_permissions =
              \<lparr>rp_file_system = None,
               rp_network = Some \<lparr>np_enabled = None, np_domains = [br_host block \<mapsto> AllowAccess]\<rparr>\<rparr>,
            pq_context = ForegroundContext (surface_origin origin)\<rparr>\<rparr>)"

definition network_block_decision :: "string \<Rightarrow> permission_origin \<Rightarrow> block_report \<Rightarrow> permission_decision option" where
  "network_block_decision request_id origin block =
     (case network_block_evaluation request_id origin block of
        EvaluatedRequest decision \<Rightarrow> Some decision
      | EvaluatedDeny _ _ _ \<Rightarrow> None)"

definition allow_requested_permissions :: "permission_request \<Rightarrow> permission_response" where
  "allow_requested_permissions request =
     \<lparr>ps_decision = PermissionAllow, ps_scope = TurnScope, ps_permissions = pq_permissions request,
      ps_strict_auto_review = False\<rparr>"

subsection \<open>Metadata directories\<close>

text \<open>What \<^verbatim>\<open>symlink_metadata\<close> finds at a path.\<close>

datatype path_status = PathMissing | PathSymlink | PathOther | PathUnreadable

definition protected_metadata_dirs :: "string list" where
  "protected_metadata_dirs = [''.git'', ''.agents'', ''.codex'']"

definition file_name :: "path_buf \<Rightarrow> string option" where
  "file_name p = (if p = [] then None else (case last p of Normal name \<Rightarrow> Some name | _ \<Rightarrow> None))"

definition is_protected_metadata_root :: "path_buf \<Rightarrow> bool" where
  "is_protected_metadata_root p = is_some_and (file_name p) (\<lambda>name. name \<in> set protected_metadata_dirs)"

definition is_safe_metadata_writable_root :: "(path_buf \<Rightarrow> path_status) \<Rightarrow> path_buf \<Rightarrow> bool" where
  "is_safe_metadata_writable_root status p =
     (if \<not> is_protected_metadata_root p then False
      else (case status p of PathMissing \<Rightarrow> True | PathSymlink \<Rightarrow> False | PathOther \<Rightarrow> True | PathUnreadable \<Rightarrow> False))"

subsection \<open>The overlay\<close>

record turn_permission_overlay =
  to_additional_working_directories :: "path_buf list"
  to_metadata_writable_directories :: "path_buf list"
  to_network_domain_permissions :: "string \<rightharpoonup> network_access"
  to_strict_auto_review :: bool
  to_preapproved_tool_call_id :: "string option"
  to_git_metadata_write_approvals :: "string list"

definition overlay_default :: turn_permission_overlay where
  "overlay_default =
     \<lparr>to_additional_working_directories = [], to_metadata_writable_directories = [],
      to_network_domain_permissions = Map.empty, to_strict_auto_review = False, to_preapproved_tool_call_id = None,
      to_git_metadata_write_approvals = []\<rparr>"

record overlay_delta =
  td_additional_working_directories :: "path_buf list"
  td_metadata_writable_directories :: "path_buf list"
  td_network_domain_permissions :: "string \<rightharpoonup> network_access"
  td_strict_auto_review :: bool

definition set_preapproved_tool_call_id :: "string option \<Rightarrow> turn_permission_overlay \<Rightarrow> turn_permission_overlay" where
  "set_preapproved_tool_call_id i t = t\<lparr>to_preapproved_tool_call_id := i\<rparr>"

definition consume_preapproved_tool_call_id ::
    "string \<Rightarrow> turn_permission_overlay \<Rightarrow> bool \<times> turn_permission_overlay" where
  "consume_preapproved_tool_call_id i t =
     (if to_preapproved_tool_call_id t \<noteq> Some i then (False, t)
      else (True, t\<lparr>to_preapproved_tool_call_id := None\<rparr>))"

definition git_metadata_write_approved :: "string \<Rightarrow> turn_permission_overlay \<Rightarrow> bool" where
  "git_metadata_write_approved i t \<longleftrightarrow> i \<in> set (to_git_metadata_write_approvals t)"

definition approve_git_metadata_write :: "string \<Rightarrow> turn_permission_overlay \<Rightarrow> turn_permission_overlay" where
  "approve_git_metadata_write i t =
     (if git_metadata_write_approved i t then t
      else t\<lparr>to_git_metadata_write_approvals := to_git_metadata_write_approvals t @ [i]\<rparr>)"

text \<open>Adding the roots that are not there yet, in order.\<close>

definition add_roots :: "path_buf list \<Rightarrow> path_buf list \<Rightarrow> path_buf list" where
  "add_roots new roots = fold (\<lambda>root rs. if root \<in> set rs then rs else rs @ [root]) new roots"

definition overlay_merge :: "turn_permission_overlay \<Rightarrow> turn_permission_overlay \<Rightarrow> turn_permission_overlay" where
  "overlay_merge t other =
     t\<lparr>to_additional_working_directories := add_roots (to_additional_working_directories other) (to_additional_working_directories t),
       to_metadata_writable_directories := add_roots (to_metadata_writable_directories other) (to_metadata_writable_directories t),
       to_network_domain_permissions := to_network_domain_permissions t ++ to_network_domain_permissions other,
       to_strict_auto_review := to_strict_auto_review t \<or> to_strict_auto_review other\<rparr>"

definition delta_from :: "turn_permission_overlay \<Rightarrow> turn_permission_overlay \<Rightarrow> overlay_delta" where
  "delta_from t baseline =
     \<lparr>td_additional_working_directories =
        filter (\<lambda>root. root \<notin> set (to_additional_working_directories baseline)) (to_additional_working_directories t),
      td_metadata_writable_directories =
        filter (\<lambda>root. root \<notin> set (to_metadata_writable_directories baseline)) (to_metadata_writable_directories t),
      td_network_domain_permissions =
        (\<lambda>domain. if to_network_domain_permissions baseline domain \<noteq> to_network_domain_permissions t domain
                  then to_network_domain_permissions t domain else None),
      td_strict_auto_review = (to_strict_auto_review t \<and> \<not> to_strict_auto_review baseline)\<rparr>"

definition apply_delta :: "turn_permission_overlay \<Rightarrow> overlay_delta \<Rightarrow> turn_permission_overlay" where
  "apply_delta t delta =
     t\<lparr>to_additional_working_directories := add_roots (td_additional_working_directories delta) (to_additional_working_directories t),
       to_metadata_writable_directories := add_roots (td_metadata_writable_directories delta) (to_metadata_writable_directories t),
       to_network_domain_permissions := to_network_domain_permissions t ++ td_network_domain_permissions delta,
       to_strict_auto_review := to_strict_auto_review t \<or> td_strict_auto_review delta\<rparr>"

definition merge_network_permissions :: "request_permission_profile \<Rightarrow> turn_permission_overlay \<Rightarrow> turn_permission_overlay" where
  "merge_network_permissions p t =
     (case rp_network p of
        Some network \<Rightarrow> t\<lparr>to_network_domain_permissions := to_network_domain_permissions t ++ np_domains network\<rparr>
      | None \<Rightarrow> t)"

definition merge_strict_auto_review :: "bool \<Rightarrow> turn_permission_overlay \<Rightarrow> turn_permission_overlay" where
  "merge_strict_auto_review strict t = t\<lparr>to_strict_auto_review := to_strict_auto_review t \<or> strict\<rparr>"

definition merge_write_root ::
    "(path_buf \<Rightarrow> path_status) \<Rightarrow> path_buf \<Rightarrow> turn_permission_overlay \<Rightarrow> turn_permission_overlay" where
  "merge_write_root status root t =
     (if root = [] then t
      else if is_protected_metadata_root root
      then if is_safe_metadata_writable_root status root \<and> root \<notin> set (to_metadata_writable_directories t)
           then t\<lparr>to_metadata_writable_directories := to_metadata_writable_directories t @ [root]\<rparr> else t
      else if root \<notin> set (to_additional_working_directories t)
      then t\<lparr>to_additional_working_directories := to_additional_working_directories t @ [root]\<rparr> else t)"

definition merge_permissions ::
    "(path_buf \<Rightarrow> path_status) \<Rightarrow> request_permission_profile \<Rightarrow> turn_permission_overlay \<Rightarrow> turn_permission_overlay" where
  "merge_permissions status p t =
     merge_network_permissions p
       (case Option.bind (rp_file_system p) fp_write of
          Some roots \<Rightarrow> fold (merge_write_root status) roots t
        | None \<Rightarrow> t)"

text \<open>The handler's answer, or its error, is an argument.\<close>

definition request_and_merge ::
    "(path_buf \<Rightarrow> path_status) \<Rightarrow> (permission_request \<Rightarrow> ('e, permission_response) result) \<Rightarrow> permission_request
     \<Rightarrow> turn_permission_overlay \<Rightarrow> ('e, permission_response) result \<times> turn_permission_overlay" where
  "request_and_merge status handler request t =
     (case handler request of
        Inl e \<Rightarrow> (Inl e, t)
      | Inr response \<Rightarrow>
          (Inr response,
           if ps_decision response = PermissionAllow
           then merge_strict_auto_review (ps_strict_auto_review response) (merge_permissions status (ps_permissions response) t)
           else t))"

subsection \<open>Normalized requests\<close>

definition writes :: "file_system_sandbox_entry list \<Rightarrow> path_buf set" where
  "writes es = {fe_path e | e. e \<in> set es \<and> fe_access e \<noteq> ReadAccess}"

definition reads :: "file_system_sandbox_entry list \<Rightarrow> path_buf set" where
  "reads es = {fe_path e | e. e \<in> set es \<and> fe_access e \<noteq> WriteAccess}"

lemma set_push_unique [simp]: "set (push_unique_path ps p) = insert p (set ps)"
  by (auto simp: push_unique_path_def)

lemma fold_normalize_entry:
  "set (unwrap_or (fp_write (fold normalize_entry es fs)) []) = set (unwrap_or (fp_write fs) []) \<union> writes es"
  "set (unwrap_or (fp_read (fold normalize_entry es fs)) []) = set (unwrap_or (fp_read fs) []) \<union> reads es"
  by (induction es arbitrary: fs)
    (auto simp: normalize_entry_def writes_def reads_def split: file_system_access_mode.splits)

lemma normalized_access:
  "set (unwrap_or (fp_write (normalize_entries fs)) []) = set (unwrap_or (fp_write fs) []) \<union> writes (unwrap_or (fp_entries fs) [])"
  "set (unwrap_or (fp_read (normalize_entries fs)) []) = set (unwrap_or (fp_read fs) []) \<union> reads (unwrap_or (fp_entries fs) [])"
  "fp_entries (normalize_entries fs) = None"
  by (simp_all add: normalize_entries_def fold_normalize_entry)

subsection \<open>What a grant adds\<close>

lemma set_add_roots [simp]: "set (add_roots new roots) = set roots \<union> set new"
  unfolding add_roots_def by (induction new arbitrary: roots) auto

lemma distinct_add_roots: "distinct roots \<Longrightarrow> distinct (add_roots new roots)"
  unfolding add_roots_def by (induction new arbitrary: roots) auto

lemma add_roots_append:
  "distinct new \<Longrightarrow> set new \<inter> set roots = {} \<Longrightarrow> add_roots new roots = roots @ new"
  unfolding add_roots_def by (induction new arbitrary: roots) auto

lemma add_roots_prefix: "\<exists>xs. add_roots new roots = roots @ xs"
  unfolding add_roots_def
proof (induction new arbitrary: roots)
  case (Cons r new)
  show ?case
  proof (cases "r \<in> set roots")
    case False
    with Cons.IH [of "roots @ [r]"] show ?thesis by auto
  qed (use Cons.IH in auto)
qed simp

lemma merge_write_root_fields [simp]:
  "to_network_domain_permissions (merge_write_root status root t) = to_network_domain_permissions t"
  "to_strict_auto_review (merge_write_root status root t) = to_strict_auto_review t"
  "to_preapproved_tool_call_id (merge_write_root status root t) = to_preapproved_tool_call_id t"
  "to_git_metadata_write_approvals (merge_write_root status root t) = to_git_metadata_write_approvals t"
  by (simp_all add: merge_write_root_def)

lemma fold_merge_write_root_fields [simp]:
  "to_network_domain_permissions (fold (merge_write_root status) roots t) = to_network_domain_permissions t"
  "to_strict_auto_review (fold (merge_write_root status) roots t) = to_strict_auto_review t"
  "to_preapproved_tool_call_id (fold (merge_write_root status) roots t) = to_preapproved_tool_call_id t"
  "to_git_metadata_write_approvals (fold (merge_write_root status) roots t) = to_git_metadata_write_approvals t"
  by (induction roots arbitrary: t) simp_all

lemma merge_write_root_roots:
  "set (to_additional_working_directories (merge_write_root status r t)) =
     set (to_additional_working_directories t) \<union> {x. x = r \<and> r \<noteq> [] \<and> \<not> is_protected_metadata_root r}"
  "set (to_metadata_writable_directories (merge_write_root status r t)) =
     set (to_metadata_writable_directories t) \<union> {x. x = r \<and> is_safe_metadata_writable_root status r}"
proof -
  have "\<not> is_protected_metadata_root []" by (simp add: is_protected_metadata_root_def file_name_def)
  then show "set (to_additional_working_directories (merge_write_root status r t)) =
      set (to_additional_working_directories t) \<union> {x. x = r \<and> r \<noteq> [] \<and> \<not> is_protected_metadata_root r}"
    "set (to_metadata_writable_directories (merge_write_root status r t)) =
      set (to_metadata_writable_directories t) \<union> {x. x = r \<and> is_safe_metadata_writable_root status r}"
    by (auto simp: merge_write_root_def is_safe_metadata_writable_root_def)
qed

lemma fold_merge_write_root_roots:
  "set (to_additional_working_directories (fold (merge_write_root status) roots t)) =
     set (to_additional_working_directories t) \<union> {r \<in> set roots. r \<noteq> [] \<and> \<not> is_protected_metadata_root r}"
  "set (to_metadata_writable_directories (fold (merge_write_root status) roots t)) =
     set (to_metadata_writable_directories t) \<union> {r \<in> set roots. is_safe_metadata_writable_root status r}"
  by (induction roots arbitrary: t) (auto simp: merge_write_root_roots)

definition requested_writes :: "request_permission_profile \<Rightarrow> path_buf set" where
  "requested_writes p = set (unwrap_or (Option.bind (rp_file_system p) fp_write) [])"

definition requested_domains :: "request_permission_profile \<Rightarrow> (string \<rightharpoonup> network_access)" where
  "requested_domains p = (case rp_network p of Some n \<Rightarrow> np_domains n | None \<Rightarrow> Map.empty)"

lemma merge_permissions_adds:
  "set (to_additional_working_directories (merge_permissions status p t)) =
     set (to_additional_working_directories t) \<union> {r \<in> requested_writes p. r \<noteq> [] \<and> \<not> is_protected_metadata_root r}"
  "set (to_metadata_writable_directories (merge_permissions status p t)) =
     set (to_metadata_writable_directories t) \<union> {r \<in> requested_writes p. is_safe_metadata_writable_root status r}"
  "to_network_domain_permissions (merge_permissions status p t) = to_network_domain_permissions t ++ requested_domains p"
  "to_strict_auto_review (merge_permissions status p t) = to_strict_auto_review t"
  "to_preapproved_tool_call_id (merge_permissions status p t) = to_preapproved_tool_call_id t"
  "to_git_metadata_write_approvals (merge_permissions status p t) = to_git_metadata_write_approvals t"
  by (auto simp: merge_permissions_def merge_network_permissions_def requested_writes_def requested_domains_def
      fold_merge_write_root_roots split: option.splits)

subsection \<open>Overlays over time\<close>

text \<open>
  Overlays are cloned for workers, grow there, and are merged or replayed as deltas on other ones: a pool of overlays with
  every operation on any of them.
\<close>

datatype overlay_op =
    AskPermissions "path_buf \<Rightarrow> path_status" "permission_request \<Rightarrow> (net_error, permission_response) result" permission_request
  | MergeProfile "path_buf \<Rightarrow> path_status" request_permission_profile
  | MergeNetwork request_permission_profile
  | MergeStrict bool
  | SetPreapproved "string option"
  | ConsumePreapproved string
  | ApproveGitWrite string

fun overlay_step :: "overlay_op \<Rightarrow> turn_permission_overlay \<Rightarrow> turn_permission_overlay" where
  "overlay_step (AskPermissions status handler request) t = snd (request_and_merge status handler request t)"
| "overlay_step (MergeProfile status p) t = merge_permissions status p t"
| "overlay_step (MergeNetwork p) t = merge_network_permissions p t"
| "overlay_step (MergeStrict strict) t = merge_strict_auto_review strict t"
| "overlay_step (SetPreapproved i) t = set_preapproved_tool_call_id i t"
| "overlay_step (ConsumePreapproved i) t = snd (consume_preapproved_tool_call_id i t)"
| "overlay_step (ApproveGitWrite i) t = approve_git_metadata_write i t"

datatype pool_event =
    CloneOverlay nat
  | ChangeOverlay nat overlay_op
  | MergeOverlays nat nat
  | ReplayDelta nat nat nat

fun pool_step :: "pool_event \<Rightarrow> turn_permission_overlay list \<Rightarrow> turn_permission_overlay list" where
  "pool_step (CloneOverlay i) ts = (if i < length ts then ts @ [ts ! i] else ts)"
| "pool_step (ChangeOverlay i change) ts = (if i < length ts then ts[i := overlay_step change (ts ! i)] else ts)"
| "pool_step (MergeOverlays i j) ts =
     (if i < length ts \<and> j < length ts then ts[i := overlay_merge (ts ! i) (ts ! j)] else ts)"
| "pool_step (ReplayDelta i j k) ts =
     (if i < length ts \<and> j < length ts \<and> k < length ts
      then ts[i := apply_delta (ts ! i) (delta_from (ts ! j) (ts ! k))] else ts)"

definition overlay_ok :: "turn_permission_overlay \<Rightarrow> bool" where
  "overlay_ok t \<longleftrightarrow>
     distinct (to_additional_working_directories t) \<and> distinct (to_metadata_writable_directories t)
     \<and> (\<forall>r \<in> set (to_additional_working_directories t). r \<noteq> [] \<and> \<not> is_protected_metadata_root r)
     \<and> (\<forall>r \<in> set (to_metadata_writable_directories t). is_protected_metadata_root r)"

text \<open>An overlay that only grew: roots appended, domains kept or set anew, the review flag not taken back.\<close>

definition grew :: "turn_permission_overlay \<Rightarrow> turn_permission_overlay \<Rightarrow> bool" where
  "grew t t' \<longleftrightarrow>
     (\<exists>xs. to_additional_working_directories t' = to_additional_working_directories t @ xs)
     \<and> (\<exists>xs. to_metadata_writable_directories t' = to_metadata_writable_directories t @ xs)
     \<and> dom (to_network_domain_permissions t) \<subseteq> dom (to_network_domain_permissions t')
     \<and> (to_strict_auto_review t \<longrightarrow> to_strict_auto_review t')"

lemma grew_refl: "grew t t" by (simp add: grew_def)

lemma grew_trans: "grew a b \<Longrightarrow> grew b c \<Longrightarrow> grew a c" by (auto simp: grew_def)

lemma merge_write_root_grew: "grew t (merge_write_root status r t)"
  by (auto simp: grew_def merge_write_root_def)

lemma merge_write_root_distinct:
  "overlay_ok t \<Longrightarrow> overlay_ok (merge_write_root status r t)"
  by (auto simp: overlay_ok_def merge_write_root_def)

lemma fold_merge_write_root_ok:
  "overlay_ok t \<Longrightarrow> overlay_ok (fold (merge_write_root status) rs t) \<and> grew t (fold (merge_write_root status) rs t)"
proof (induction rs arbitrary: t)
  case (Cons r rs)
  then have "overlay_ok (fold (merge_write_root status) rs (merge_write_root status r t))
    \<and> grew (merge_write_root status r t) (fold (merge_write_root status) rs (merge_write_root status r t))"
    by (simp add: merge_write_root_distinct)
  with merge_write_root_grew [of t status r] show ?case by (auto intro: grew_trans)
qed (simp add: grew_refl)

lemma merge_network_ok: "overlay_ok t \<Longrightarrow> overlay_ok (merge_network_permissions p t) \<and> grew t (merge_network_permissions p t)"
  by (auto simp: overlay_ok_def grew_def merge_network_permissions_def split: option.splits)

lemma merge_strict_ok: "overlay_ok t \<Longrightarrow> overlay_ok (merge_strict_auto_review strict t) \<and> grew t (merge_strict_auto_review strict t)"
  by (auto simp: overlay_ok_def grew_def merge_strict_auto_review_def)

lemma merge_permissions_ok: "overlay_ok t \<Longrightarrow> overlay_ok (merge_permissions status p t) \<and> grew t (merge_permissions status p t)"
  unfolding merge_permissions_def
  by (cases "Option.bind (rp_file_system p) fp_write")
    (auto simp: merge_network_ok dest: fold_merge_write_root_ok merge_network_ok intro: grew_trans)

lemma request_and_merge_ok:
  assumes "overlay_ok t"
  shows "overlay_ok (snd (request_and_merge status handler request t)) \<and> grew t (snd (request_and_merge status handler request t))"
proof (cases "\<exists>r. handler request = Inr r \<and> ps_decision r = PermissionAllow")
  case True
  then obtain r where r: "handler request = Inr r" "ps_decision r = PermissionAllow" by blast
  from merge_permissions_ok [OF assms, of status "ps_permissions r"]
  have "overlay_ok (merge_permissions status (ps_permissions r) t)" "grew t (merge_permissions status (ps_permissions r) t)"
    by simp_all
  with merge_strict_ok [of "merge_permissions status (ps_permissions r) t" "ps_strict_auto_review r"] r show ?thesis
    by (auto simp: request_and_merge_def intro: grew_trans)
next
  case False
  with assms show ?thesis by (auto simp: request_and_merge_def grew_refl split: sum.split)
qed

lemma approvals_ok:
  "overlay_ok t \<Longrightarrow> overlay_ok (set_preapproved_tool_call_id j t) \<and> grew t (set_preapproved_tool_call_id j t)"
  "overlay_ok t \<Longrightarrow> overlay_ok (snd (consume_preapproved_tool_call_id i t)) \<and> grew t (snd (consume_preapproved_tool_call_id i t))"
  "overlay_ok t \<Longrightarrow> overlay_ok (approve_git_metadata_write i t) \<and> grew t (approve_git_metadata_write i t)"
  by (simp_all add: overlay_ok_def grew_def set_preapproved_tool_call_id_def consume_preapproved_tool_call_id_def
      approve_git_metadata_write_def)

lemma overlay_step_ok: "overlay_ok t \<Longrightarrow> overlay_ok (overlay_step change t) \<and> grew t (overlay_step change t)"
  by (cases change) (simp_all add: request_and_merge_ok merge_permissions_ok merge_network_ok merge_strict_ok approvals_ok)

interpretation overlay_growth: metered_machine overlay_step overlay_ok "\<lambda>t. t" grew
  by unfold_locales (auto simp: overlay_step_ok grew_refl intro: grew_trans)

lemma overlay_merge_ok: "overlay_ok t \<Longrightarrow> overlay_ok other \<Longrightarrow> overlay_ok (overlay_merge t other)"
  by (auto simp: overlay_ok_def overlay_merge_def distinct_add_roots)

lemma apply_delta_ok: "overlay_ok t \<Longrightarrow> overlay_ok other \<Longrightarrow> overlay_ok (apply_delta t (delta_from other baseline))"
  by (auto simp: overlay_ok_def apply_delta_def delta_from_def distinct_add_roots)

interpretation overlay_pool: guarded_machine pool_step "list_all overlay_ok"
proof
  fix ts e
  assume ok: "list_all overlay_ok ts"
  then show "list_all overlay_ok (pool_step e ts)"
    by (cases e) (auto simp: list_all_length nth_append nth_list_update overlay_step_ok overlay_merge_ok apply_delta_ok)
qed

lemma delta_replays_growth:
  assumes "overlay_ok t" "overlay_ok t'" "grew t t'"
  shows "apply_delta t (delta_from t' t) =
    t\<lparr>to_additional_working_directories := to_additional_working_directories t',
      to_metadata_writable_directories := to_metadata_writable_directories t',
      to_network_domain_permissions := to_network_domain_permissions t',
      to_strict_auto_review := to_strict_auto_review t'\<rparr>"
proof -
  have roots: "add_roots (filter (\<lambda>r. r \<notin> set ys) (ys @ xs)) ys = ys @ xs" if "distinct (ys @ xs)" for xs ys :: "path_buf list"
  proof -
    from that have "filter (\<lambda>r. r \<notin> set ys) xs = xs" by (auto simp: filter_id_conv)
    with that show ?thesis by (simp add: add_roots_append Int_commute)
  qed
  have domains: "to_network_domain_permissions t ++ td_network_domain_permissions (delta_from t' t) = to_network_domain_permissions t'"
    using assms(3) by (intro ext) (auto simp: grew_def delta_from_def map_add_def dom_def split: option.split)
  from assms(3) obtain xs ys where "to_additional_working_directories t' = to_additional_working_directories t @ xs"
    "to_metadata_writable_directories t' = to_metadata_writable_directories t @ ys" by (auto simp: grew_def)
  with assms roots [of "to_additional_working_directories t" xs] roots [of "to_metadata_writable_directories t" ys] domains
  show ?thesis
    by (auto simp: apply_delta_def delta_from_def overlay_ok_def grew_def)
qed

text \<open>A host on the denylist is refused without asking anyone.\<close>

lemma denylist_is_never_asked:
  "network_block_decision request_id origin \<lparr>br_host = host, br_error = proxy_error reason\<rparr> = None \<longleftrightarrow> reason = Denylist"
  by (cases reason) (simp_all add: network_block_decision_def network_block_evaluation_def)

text \<open>An approval ahead of a call is used up by the call.\<close>

lemma preapproval_is_used_once:
  "consume_preapproved_tool_call_id i t = (True, t') \<Longrightarrow> \<not> fst (consume_preapproved_tool_call_id j t')"
  by (auto simp: consume_preapproved_tool_call_id_def split: if_splits)

subsection \<open>Properties\<close>

text \<open>
  C22: What a permission request grants. A denied request or an error of the handler changes nothing. An allowed one adds exactly
  the write roots of the response: protected metadata directories go to their own list, and only when they are no
  symbolic link, every other root that is not empty becomes a working directory; the domains of the response are set, a
  requested strict review stays on, and approvals of single tool calls are untouched.
\<close>

theorem permission_grants_are_exact:
  "(case handler request of
      Inl e \<Rightarrow> request_and_merge status handler request t = (Inl e, t)
    | Inr response \<Rightarrow>
        if ps_decision response = PermissionDeny then request_and_merge status handler request t = (Inr response, t)
        else
          (let t' = snd (request_and_merge status handler request t); p = ps_permissions response
           in fst (request_and_merge status handler request t) = Inr response
              \<and> set (to_additional_working_directories t') =
                  set (to_additional_working_directories t) \<union> {r \<in> requested_writes p. r \<noteq> [] \<and> \<not> is_protected_metadata_root r}
              \<and> set (to_metadata_writable_directories t') =
                  set (to_metadata_writable_directories t)
                  \<union> {r \<in> requested_writes p. is_protected_metadata_root r \<and> status r \<in> {PathMissing, PathOther}}
              \<and> to_network_domain_permissions t' = to_network_domain_permissions t ++ requested_domains p
              \<and> to_strict_auto_review t' = (to_strict_auto_review t \<or> ps_strict_auto_review response)
              \<and> to_preapproved_tool_call_id t' = to_preapproved_tool_call_id t
              \<and> to_git_metadata_write_approvals t' = to_git_metadata_write_approvals t))"
proof (cases "handler request")
  case (Inr response)
  have safe: "is_safe_metadata_writable_root status r \<longleftrightarrow> is_protected_metadata_root r \<and> status r \<in> {PathMissing, PathOther}" for r
    by (auto simp: is_safe_metadata_writable_root_def split: path_status.split)
  from Inr show ?thesis
    by (cases "ps_decision response")
      (simp_all add: request_and_merge_def merge_strict_auto_review_def merge_permissions_adds safe Let_def)
qed (simp add: request_and_merge_def)

text \<open>
  Metadata directories stay apart. However overlays are cloned, extended, merged and replayed, in every overlay no
  working directory is empty or a protected metadata directory, only protected metadata directories are in their
  own list, and no root is listed twice.
\<close>

theorem metadata_grants_stay_separate:
  assumes "t \<in> set (fold pool_step events [overlay_default])"
  shows "distinct (to_additional_working_directories t) \<and> distinct (to_metadata_writable_directories t)
    \<and> (\<forall>r \<in> set (to_additional_working_directories t). r \<noteq> [] \<and> \<not> is_protected_metadata_root r)
    \<and> (\<forall>r \<in> set (to_metadata_writable_directories t). is_protected_metadata_root r)"
proof -
  have "list_all overlay_ok (fold pool_step events [overlay_default])"
    by (rule overlay_pool.run_inv) (simp add: overlay_ok_def overlay_default_def)
  with assms show ?thesis by (simp add: list_all_iff overlay_ok_def)
qed

text \<open>
  C23: Deltas replay what a worker was granted. Let a worker start from a clone of an overlay of any reachable pool and run any
  operations. The delta of its overlay, applied to the overlay it started from, gives exactly the worker's directories,
  domains and review flag, and leaves the approvals of single tool calls as they were.
\<close>

theorem overlay_delta_round_trip:
  assumes "t \<in> set (fold pool_step events [overlay_default])"
  shows "apply_delta t (delta_from (fold overlay_step changes t) t) =
    (fold overlay_step changes t)
      \<lparr>to_preapproved_tool_call_id := to_preapproved_tool_call_id t,
       to_git_metadata_write_approvals := to_git_metadata_write_approvals t\<rparr>"
proof -
  have "list_all overlay_ok (fold pool_step events [overlay_default])"
    by (rule overlay_pool.run_inv) (simp add: overlay_ok_def overlay_default_def)
  with assms have ok: "overlay_ok t" by (simp add: list_all_iff)
  show ?thesis
    using delta_replays_growth [OF ok overlay_growth.run_inv [OF ok] overlay_growth.run_reading [OF ok]] by simp
qed

subsection \<open>Witnesses\<close>

definition sample_profile :: request_permission_profile where
  "sample_profile =
     \<lparr>rp_file_system = Some \<lparr>fp_read = None, fp_write = Some [path_of ''/repo/.git'', path_of ''/repo''], fp_entries = None\<rparr>,
      rp_network = None\<rparr>"

definition sample_events :: "pool_event list" where
  "sample_events = [ChangeOverlay 0 (MergeProfile (\<lambda>_. PathOther) sample_profile), CloneOverlay 0]"

lemma sample_pool:
  "fold pool_step sample_events [overlay_default] = replicate 2
     (overlay_default\<lparr>to_additional_working_directories := [[RootDir, Normal ''repo'']],
        to_metadata_writable_directories := [[RootDir, Normal ''repo'', Normal ''.git'']]\<rparr>)"
  by (simp add: sample_events_def sample_profile_def merge_permissions_def merge_network_permissions_def merge_write_root_def
      is_protected_metadata_root_def is_safe_metadata_writable_root_def file_name_def protected_metadata_dirs_def
      path_of_def component_of_def starts_with_def overlay_default_def numeral_2_eq_2)

theorem metadata_grants_stay_separate_witness:
  "\<not> is_protected_metadata_root (hd (to_additional_working_directories (hd (fold pool_step sample_events [overlay_default]))))"
proof -
  let ?t = "hd (fold pool_step sample_events [overlay_default])"
  have "?t \<in> set (fold pool_step sample_events [overlay_default])"
    "hd (to_additional_working_directories ?t) \<in> set (to_additional_working_directories ?t)"
    by (simp_all add: sample_pool numeral_2_eq_2)
  with metadata_grants_stay_separate [of ?t sample_events] show ?thesis by blast
qed

theorem overlay_delta_round_trip_witness:
  "\<exists>t \<in> set (fold pool_step sample_events [overlay_default]).
     to_strict_auto_review (apply_delta t (delta_from (fold overlay_step [MergeStrict True, SetPreapproved (Some ''x'')] t) t))"
proof -
  let ?t = "fold pool_step sample_events [overlay_default] ! 1"
  have t: "?t \<in> set (fold pool_step sample_events [overlay_default])" by (simp add: sample_pool)
  have "to_strict_auto_review (apply_delta ?t (delta_from (fold overlay_step [MergeStrict True, SetPreapproved (Some ''x'')] ?t) ?t))"
    using overlay_delta_round_trip [OF t, of "[MergeStrict True, SetPreapproved (Some ''x'')]"]
    by (simp add: merge_strict_auto_review_def set_preapproved_tool_call_id_def)
  with t show ?thesis by blast
qed

end
