(* ===== verification/Detached_Permissions.thy ===== *)
theory Detached_Permissions
  imports Turn_Permissions Rust_Json Rust_Maps "HOL-Library.Word"
begin

unbundle bit_operations_syntax

text \<open>
  Permission requests of detached child agents, the mailbox of \<^verbatim>\<open>crates/orca-runtime/src/tasks.rs\<close> and the two
  permission handlers of \<^verbatim>\<open>child_permission.rs\<close>. A child that runs in another process writes its request to a file of the
  session, the actor that owns the session resolves it and signs what it allows, and the child consumes the answer.
  The registry is the one of a persistent session. SHA-256, Ed25519, the serialization of requests and the outcome of
  file operations are arguments.
\<close>

subsection \<open>Bindings\<close>

type_synonym bytes = "8 word list"

record operation_fence =
  of_thread_id :: bytes
  of_thread_owner_epoch :: nat
  of_operation_id :: bytes
  of_generation_id :: nat

text \<open>What the actor issued for one attempt of a child.\<close>

record detached_subagent_binding =
  db_task_id :: string
  db_subagent_id :: string
  db_parent_task_id :: "string option"
  db_task_revision :: nat
  db_attempt_id :: string
  db_parent_fence :: "operation_fence option"
  db_authority_digest :: bytes
  db_public_key :: bytes

datatype detached_error =
    RegistryUnavailable string
  | LockFailed string
  | StoreIsSymlink
  | StoreNotRegular
  | StoreUnreadable string
  | StoreWrite string
  | StoreTooLarge
  | NotSerializableRecord
  | TooManyRecords nat
  | BindingInvalid
  | FenceInvalid
  | FenceMissing
  | TaskNotFound string
  | NotASubagent string
  | ContinuationFailed string
  | NotBoundToAttempt
  | ParentInconsistent
  | BindingConflict
  | SignerGeneration string
  | RecordInvalid
  | OwnerMismatch
  | FieldLimits
  | BindingNotIssued
  | BindingInactive
  | RequestConflict
  | InteractionInvalid
  | RequestDisappeared
  | StaleDigest
  | DifferentResolution
  | NotChildScoped
  | BindingUnavailable
  | BindingMismatch
  | SignerUnavailable
  | SignerMismatch
  | BadSignature
  | AcknowledgementStale

definition all_zero :: "bytes \<Rightarrow> bool" where
  "all_zero bs = list_all (\<lambda>b. b = 0) bs"

definition text_id_ok :: "string \<Rightarrow> bool" where
  "text_id_ok s = (trim s \<noteq> [])"

definition validate_detached_subagent_binding ::
    "string option \<Rightarrow> detached_subagent_binding \<Rightarrow> (detached_error, unit) result" where
  "validate_detached_subagent_binding map_key b =
     (if is_some_and map_key (\<lambda>k. k \<noteq> db_task_id b) \<or> \<not> text_id_ok (db_task_id b) \<or> \<not> text_id_ok (db_subagent_id b)
         \<or> db_attempt_id b = [] \<or> db_task_revision b = 0 \<or> all_zero (db_authority_digest b) \<or> all_zero (db_public_key b)
      then Inl BindingInvalid
      else if is_some_and (db_parent_fence b)
                (\<lambda>f. all_zero (of_thread_id f) \<or> all_zero (of_operation_id f) \<or> of_thread_owner_epoch f = 0)
      then Inl FenceInvalid
      else Inr ())"

definition max_detached_bindings :: nat where "max_detached_bindings = 256"
definition max_detached_binding_entry_bytes :: nat where "max_detached_binding_entry_bytes = 64 * 1024"
definition max_detached_binding_file_bytes :: nat where "max_detached_binding_file_bytes = 4 * 1024 * 1024"

subsection \<open>Serialization and cryptography\<close>

definition detached_permission_schema_version :: nat where "detached_permission_schema_version = 3"
definition max_detached_permission_requests :: nat where "max_detached_permission_requests = 256"
definition max_detached_permission_request_id_bytes :: nat where "max_detached_permission_request_id_bytes = 256"
definition max_detached_permission_reason_bytes :: nat where "max_detached_permission_reason_bytes = 64 * 1024"
definition max_detached_permission_entry_bytes :: nat where "max_detached_permission_entry_bytes = 256 * 1024"
definition max_detached_permission_mailbox_bytes :: nat where "max_detached_permission_mailbox_bytes = 8 * 1024 * 1024"
definition max_detached_permission_file_bytes :: nat where "max_detached_permission_file_bytes = 16 * 1024 * 1024"
definition detached_permission_signature_bytes :: nat where "detached_permission_signature_bytes = 64"

record detached_permission_request =
  dp_schema_version :: nat
  dp_key :: string
  dp_interaction_id :: bytes
  dp_request :: permission_request
  dp_attempt_id :: string
  dp_authority_digest :: bytes
  dp_public_key :: bytes
  dp_request_digest :: bytes
  dp_response :: "permission_response option"
  dp_response_digest :: "bytes option"
  dp_response_signature :: "bytes option"

text \<open>
  The crates behind the mailbox: the derived serializers and the printer of JSON (and the lengths of what they write),
  the text of a UUID, SHA-256, and the verification of Ed25519 signatures.
\<close>

record mailbox_wire =
  mw_request_value :: "permission_request \<Rightarrow> json_value option"
  mw_response_value :: "permission_response \<Rightarrow> json_value option"
  mw_uuid :: "bytes \<Rightarrow> string"
  mw_to_vec :: "json_value \<Rightarrow> string option"
  mw_entry_bytes :: "detached_permission_request \<Rightarrow> nat option"
  mw_mailbox_bytes :: "(string \<times> detached_permission_request) list \<Rightarrow> nat option"
  mw_mailbox_pretty :: "(string \<times> detached_permission_request) list \<Rightarrow> nat option"
  mw_binding_bytes :: "detached_subagent_binding \<Rightarrow> nat option"
  mw_bindings_bytes :: "(string \<times> detached_subagent_binding) list \<Rightarrow> nat option"
  mw_bindings_pretty :: "(string \<times> detached_subagent_binding) list \<Rightarrow> nat option"
  mw_sha256 :: "string \<Rightarrow> bytes"
  mw_verify :: "bytes \<Rightarrow> string \<Rightarrow> bytes \<Rightarrow> bool"

text \<open>Objects get their keys sorted, at every depth; arrays keep their order.\<close>

fun canonicalize :: "json_value \<Rightarrow> json_value" where
  "canonicalize (JArray vs) = JArray (map canonicalize vs)"
| "canonicalize (JObject kvs) = JObject (map (\<lambda>(k, v). (k, canonicalize v)) (sort_key fst kvs))"
| "canonicalize v = v"

definition canonical_json_bytes :: "mailbox_wire \<Rightarrow> json_value option \<Rightarrow> string option" where
  "canonical_json_bytes w value = Option.bind value (\<lambda>v. mw_to_vec w (canonicalize v))"

definition bytes_value :: "bytes \<Rightarrow> json_value" where
  "bytes_value bs = JArray (map (\<lambda>b. JNumber (PosInt (unat b))) bs)"

definition request_tuple :: "mailbox_wire \<Rightarrow> permission_request \<Rightarrow> string \<Rightarrow> bytes \<Rightarrow> bytes \<Rightarrow> bytes \<Rightarrow> json_value option" where
  "request_tuple w request attempt authority interaction key =
     map_option (\<lambda>v. JArray [v, JString attempt, bytes_value authority, JString (mw_uuid w interaction), bytes_value key])
       (mw_request_value w request)"

definition detached_permission_request_digest ::
    "mailbox_wire \<Rightarrow> permission_request \<Rightarrow> string \<Rightarrow> bytes \<Rightarrow> bytes \<Rightarrow> bytes \<Rightarrow> bytes option" where
  "detached_permission_request_digest w request attempt authority interaction key =
     map_option (mw_sha256 w) (canonical_json_bytes w (request_tuple w request attempt authority interaction key))"

definition response_tuple :: "mailbox_wire \<Rightarrow> bytes \<Rightarrow> permission_response \<Rightarrow> json_value option" where
  "response_tuple w request_digest response =
     map_option (\<lambda>v. JArray [bytes_value request_digest, v]) (mw_response_value w response)"

definition detached_permission_response_digest :: "mailbox_wire \<Rightarrow> bytes \<Rightarrow> permission_response \<Rightarrow> bytes option" where
  "detached_permission_response_digest w request_digest response =
     map_option (mw_sha256 w) (canonical_json_bytes w (response_tuple w request_digest response))"

definition detached_permission_response_signing_bytes :: "mailbox_wire \<Rightarrow> bytes \<Rightarrow> permission_response \<Rightarrow> string option" where
  "detached_permission_response_signing_bytes w request_digest response =
     map_option (\<lambda>bs. ''orca.detached-permission.response.v1'' @ CHR 0x00 # bs)
       (canonical_json_bytes w (response_tuple w request_digest response))"

definition verify_detached_permission_response_signature ::
    "mailbox_wire \<Rightarrow> bytes \<Rightarrow> permission_response \<Rightarrow> bytes \<Rightarrow> bytes \<Rightarrow> bool" where
  "verify_detached_permission_response_signature w request_digest response signature key =
     (case detached_permission_response_signing_bytes w request_digest response of
        None \<Rightarrow> False
      | Some message \<Rightarrow> mw_verify w key message signature)"

definition detached_signer_key :: "string \<Rightarrow> string \<Rightarrow> string" where
  "detached_signer_key task_id attempt_id = task_id @ '':'' @ attempt_id"

definition owner_key :: "string \<Rightarrow> string \<Rightarrow> string \<Rightarrow> string" where
  "owner_key task_id attempt_id request_id = task_id @ '':'' @ attempt_id @ '':'' @ request_id"

definition is_uuid_v7 :: "bytes \<Rightarrow> bool" where
  "is_uuid_v7 bs \<longleftrightarrow> length bs = 16 \<and> drop_bit 4 (bs ! 6) = 7 \<and> drop_bit 6 (bs ! 8) = 2"

definition detached_permission_interaction_id ::
    "mailbox_wire \<Rightarrow> detached_subagent_binding \<Rightarrow> string \<Rightarrow> (detached_error, bytes) result" where
  "detached_permission_interaction_id w b request_id =
     (case canonical_json_bytes w (Some (JArray [JString ''orca.detached-permission.interaction.v1'', JString (db_task_id b),
         JString (db_subagent_id b), JNumber (PosInt (db_task_revision b)), JString (db_attempt_id b),
         bytes_value (db_authority_digest b), JString request_id])) of
        None \<Rightarrow> Inl NotSerializableRecord
      | Some material \<Rightarrow>
          (let bs = take 16 (mw_sha256 w material);
               bs = bs[6 := (bs ! 6 AND 0x0f) OR 0x70];
               bs = bs[8 := (bs ! 8 AND 0x3f) OR 0x80]
           in if is_uuid_v7 bs then Inr bs else Inl InteractionInvalid))"

subsection \<open>Checks on a record\<close>

definition is_pending :: "detached_permission_request \<Rightarrow> bool" where
  "is_pending e = (dp_response e = None)"

definition verify_request_digest :: "mailbox_wire \<Rightarrow> detached_permission_request \<Rightarrow> bool" where
  "verify_request_digest w e =
     (detached_permission_request_digest w (dp_request e) (dp_attempt_id e) (dp_authority_digest e) (dp_interaction_id e)
        (dp_public_key e) = Some (dp_request_digest e))"

definition verify_response_digest :: "mailbox_wire \<Rightarrow> detached_permission_request \<Rightarrow> bool" where
  "verify_response_digest w e =
     (case (dp_response e, dp_response_digest e) of
        (None, None) \<Rightarrow> True
      | (Some response, Some digest) \<Rightarrow>
          detached_permission_response_digest w (dp_request_digest e) response = Some digest
      | _ \<Rightarrow> False)"

definition verify_response_signature_with_key :: "mailbox_wire \<Rightarrow> bytes \<Rightarrow> detached_permission_request \<Rightarrow> bool" where
  "verify_response_signature_with_key w key e =
     (case (dp_response e, dp_response_signature e) of
        (None, None) \<Rightarrow> True
      | (Some response, None) \<Rightarrow> ps_decision response = PermissionDeny
      | (Some response, Some signature) \<Rightarrow>
          ps_decision response = PermissionAllow \<and> length signature = detached_permission_signature_bytes
          \<and> verify_detached_permission_response_signature w (dp_request_digest e) response signature key
      | _ \<Rightarrow> False)"

definition verify_response_signature :: "mailbox_wire \<Rightarrow> detached_permission_request \<Rightarrow> bool" where
  "verify_response_signature w e = verify_response_signature_with_key w (dp_public_key e) e"

definition owner_key_matches :: "detached_permission_request \<Rightarrow> bool" where
  "owner_key_matches e =
     (case pq_context (dp_request e) of
        ChildContext task_id _ agent_id _ _ _ tool_call_id origin \<Rightarrow>
          origin = SurfaceChildAgent \<and> pq_id (dp_request e) \<noteq> [] \<and> pq_id (dp_request e) = tool_call_id \<and> agent_id \<noteq> []
          \<and> dp_key e = owner_key task_id (dp_attempt_id e) (pq_id (dp_request e))
      | ForegroundContext _ \<Rightarrow> False)"

definition validate_detached_permission_entry ::
    "mailbox_wire \<Rightarrow> string option \<Rightarrow> detached_permission_request \<Rightarrow> (detached_error, unit) result" where
  "validate_detached_permission_entry w map_key e =
     (case mw_entry_bytes w e of
        None \<Rightarrow> Inl NotSerializableRecord
      | Some n \<Rightarrow>
          if dp_schema_version e \<noteq> detached_permission_schema_version \<or> n > max_detached_permission_entry_bytes
             \<or> is_some_and map_key (\<lambda>k. k \<noteq> dp_key e) \<or> \<not> owner_key_matches e \<or> all_zero (dp_public_key e)
             \<or> length (pq_id (dp_request e)) > max_detached_permission_request_id_bytes
             \<or> is_some_and (pq_reason (dp_request e)) (\<lambda>r. length r > max_detached_permission_reason_bytes)
             \<or> \<not> verify_request_digest w e \<or> \<not> verify_response_digest w e \<or> \<not> verify_response_signature w e
          then Inl RecordInvalid
          else Inr ())"

definition detached_permission_identity_matches ::
    "mailbox_wire \<Rightarrow> detached_permission_request \<Rightarrow> permission_request \<Rightarrow> detached_subagent_binding \<Rightarrow> bool" where
  "detached_permission_identity_matches w existing request b =
     (if dp_request existing \<noteq> request \<or> dp_attempt_id existing \<noteq> db_attempt_id b
         \<or> dp_authority_digest existing \<noteq> db_authority_digest b \<or> dp_public_key existing \<noteq> db_public_key b
      then False
      else
        (case detached_permission_interaction_id w b (pq_id request) of
           Inl _ \<Rightarrow> False
         | Inr expected \<Rightarrow>
             if dp_interaction_id existing \<noteq> expected then False
             else detached_permission_request_digest w request (db_attempt_id b) (db_authority_digest b) expected (db_public_key b) =
                    Some (dp_request_digest existing)))"

definition validate_detached_permission_binding ::
    "mailbox_wire \<Rightarrow> detached_permission_request \<Rightarrow> detached_subagent_binding \<Rightarrow> (detached_error, unit) result" where
  "validate_detached_permission_binding w e b =
     (let owner_matches =
            (case pq_context (dp_request e) of
               ChildContext task_id task_revision agent_id _ _ _ _ origin \<Rightarrow>
                 origin = SurfaceChildAgent \<and> task_id = db_task_id b \<and> task_revision = db_task_revision b \<and> agent_id = db_subagent_id b
             | ForegroundContext _ \<Rightarrow> False);
          request_digest_matches =
            (detached_permission_request_digest w (dp_request e) (dp_attempt_id e) (dp_authority_digest e) (dp_interaction_id e)
               (db_public_key b) = Some (dp_request_digest e));
          interaction_id_matches = (detached_permission_interaction_id w b (pq_id (dp_request e)) = Inr (dp_interaction_id e))
      in if \<not> owner_matches \<or> dp_key e \<noteq> owner_key (db_task_id b) (db_attempt_id b) (pq_id (dp_request e))
            \<or> dp_attempt_id e \<noteq> db_attempt_id b \<or> dp_authority_digest e \<noteq> db_authority_digest b
            \<or> dp_public_key e \<noteq> db_public_key b \<or> \<not> interaction_id_matches \<or> \<not> request_digest_matches
         then Inl BindingMismatch else Inr ())"

definition detached_permission_binding_from_map ::
    "mailbox_wire \<Rightarrow> (string \<times> detached_subagent_binding) list \<Rightarrow> detached_permission_request
     \<Rightarrow> (detached_error, detached_subagent_binding) result" where
  "detached_permission_binding_from_map w bindings e =
     (case pq_context (dp_request e) of
        ForegroundContext _ \<Rightarrow> Inl NotChildScoped
      | ChildContext task_id _ _ _ _ _ _ _ \<Rightarrow>
          (case map_of bindings task_id of
             None \<Rightarrow> Inl BindingUnavailable
           | Some b \<Rightarrow>
               try_bind (validate_detached_subagent_binding (Some task_id) b) (\<lambda>_.
               try_bind (validate_detached_permission_binding w e b) (\<lambda>_. Inr b))))"

subsection \<open>Checks on the two files\<close>

fun validate_all :: "('a \<Rightarrow> (detached_error, unit) result) \<Rightarrow> 'a list \<Rightarrow> (detached_error, unit) result" where
  "validate_all check [] = Inr ()"
| "validate_all check (x # xs) = try_bind (check x) (\<lambda>_. validate_all check xs)"

definition validate_detached_permission_map ::
    "mailbox_wire \<Rightarrow> (string \<times> detached_permission_request) list \<Rightarrow> (detached_error, unit) result" where
  "validate_detached_permission_map w entries =
     (if length entries > max_detached_permission_requests then Inl (TooManyRecords (length entries))
      else
        (case mw_mailbox_bytes w entries of
           None \<Rightarrow> Inl NotSerializableRecord
         | Some n \<Rightarrow>
             if n > max_detached_permission_mailbox_bytes then Inl StoreTooLarge
             else validate_all (\<lambda>(k, e). validate_detached_permission_entry w (Some k) e) entries))"

definition validate_binding_entry ::
    "mailbox_wire \<Rightarrow> string \<times> detached_subagent_binding \<Rightarrow> (detached_error, unit) result" where
  "validate_binding_entry w kb =
     (case mw_binding_bytes w (snd kb) of
        None \<Rightarrow> Inl NotSerializableRecord
      | Some n \<Rightarrow>
          if n > max_detached_binding_entry_bytes then Inl StoreTooLarge
          else validate_detached_subagent_binding (Some (fst kb)) (snd kb))"

definition validate_detached_subagent_binding_map ::
    "mailbox_wire \<Rightarrow> (string \<times> detached_subagent_binding) list \<Rightarrow> (detached_error, unit) result" where
  "validate_detached_subagent_binding_map w bindings =
     (if length bindings > max_detached_bindings then Inl (TooManyRecords (length bindings))
      else
        (case mw_bindings_bytes w bindings of
           None \<Rightarrow> Inl NotSerializableRecord
         | Some n \<Rightarrow>
             if n > max_detached_binding_file_bytes then Inl StoreTooLarge
             else validate_all (validate_binding_entry w) bindings))"

text \<open>A file of the session: what its name refers to, and what a bounded read of it gives.\<close>

datatype 'a stored = NotStored | SymlinkStored | IrregularStored | UnreadableStored string | Stored 'a

fun load_stored :: "('a list \<Rightarrow> (detached_error, unit) result) \<Rightarrow> 'a list stored \<Rightarrow> (detached_error, 'a list) result" where
  "load_stored validate NotStored = Inr []"
| "load_stored validate SymlinkStored = Inl StoreIsSymlink"
| "load_stored validate IrregularStored = Inl StoreNotRegular"
| "load_stored validate (UnreadableStored e) = Inl (StoreUnreadable e)"
| "load_stored validate (Stored xs) = try_bind (validate xs) (\<lambda>_. Inr xs)"

definition write_stored ::
    "('a list \<Rightarrow> (detached_error, unit) result) \<Rightarrow> ('a list \<Rightarrow> nat option) \<Rightarrow> nat \<Rightarrow> string option \<Rightarrow> 'a list \<Rightarrow> 'a list stored
     \<Rightarrow> (detached_error, unit) result \<times> 'a list stored" where
  "write_stored validate pretty limit failure xs file =
     (case validate xs of
        Inl e \<Rightarrow> (Inl e, file)
      | Inr _ \<Rightarrow>
          (case pretty xs of
             None \<Rightarrow> (Inl NotSerializableRecord, file)
           | Some n \<Rightarrow>
               if n > limit then (Inl StoreTooLarge, file)
               else (case failure of Some e \<Rightarrow> (Inl (StoreWrite e), file) | None \<Rightarrow> (Inr (), Stored xs))))"

type_synonym mailbox_file = "(string \<times> detached_permission_request) list stored"
type_synonym bindings_file = "(string \<times> detached_subagent_binding) list stored"

definition load_detached_permission_requests_unlocked ::
    "mailbox_wire \<Rightarrow> mailbox_file \<Rightarrow> (detached_error, (string \<times> detached_permission_request) list) result" where
  "load_detached_permission_requests_unlocked w file = load_stored (validate_detached_permission_map w) file"

definition write_detached_permission_requests_unlocked ::
    "mailbox_wire \<Rightarrow> string option \<Rightarrow> (string \<times> detached_permission_request) list \<Rightarrow> mailbox_file
     \<Rightarrow> (detached_error, unit) result \<times> mailbox_file" where
  "write_detached_permission_requests_unlocked w failure requests file =
     write_stored (validate_detached_permission_map w) (mw_mailbox_pretty w) max_detached_permission_file_bytes failure requests file"

definition load_detached_bindings_unlocked ::
    "mailbox_wire \<Rightarrow> bindings_file \<Rightarrow> (detached_error, (string \<times> detached_subagent_binding) list) result" where
  "load_detached_bindings_unlocked w file = load_stored (validate_detached_subagent_binding_map w) file"

definition write_detached_bindings_unlocked ::
    "mailbox_wire \<Rightarrow> string option \<Rightarrow> (string \<times> detached_subagent_binding) list \<Rightarrow> bindings_file
     \<Rightarrow> (detached_error, unit) result \<times> bindings_file" where
  "write_detached_bindings_unlocked w failure bindings file =
     write_stored (validate_detached_subagent_binding_map w) (mw_bindings_pretty w) max_detached_binding_file_bytes failure bindings file"

end
