(* ===== verification/Detached_Registry.thy ===== *)
theory Detached_Registry
  imports Detached_Permissions
begin

text \<open>
  The registry operations behind the mailbox of detached children, for a persistent session, and the two permission
  handlers that child agents use.
\<close>

subsection \<open>The registry\<close>

datatype task_type = MainSessionTask | WorkflowTask | SubagentTask | ShellTask | MonitorTask

datatype task_status =
    TaskQueued | TaskRunning | TaskPaused | TaskStopping | TaskStopped | TaskCompleted | TaskFailed | TaskApprovalRequired
  | TaskCancelled | TaskBlocked

record task_record =
  tk_task_type :: task_type
  tk_parent_task_id :: "string option"
  tk_status :: task_status
  tk_completed_at_ms :: "int option"
  tk_worker_pid :: "nat option"
  tk_lease_owner :: "string option"

record continuation_record =
  cn_latest_task_id :: string
  cn_attempt_id :: string
  cn_parent_task_id :: "string option"

text \<open>A key pair of the actor: its public half and what it signs.\<close>

record response_signer =
  rs_public_key :: bytes
  rs_sign :: "string \<Rightarrow> bytes"

record task_registry =
  tr_session_id :: string
  tr_open_error :: "string option"
  tr_tasks :: "string \<rightharpoonup> task_record"
  tr_continuations :: "(string, continuation_record list) result"
  tr_bindings :: "string \<rightharpoonup> detached_subagent_binding"
  tr_requests :: "string \<rightharpoonup> detached_permission_request"
  tr_signers :: "string \<rightharpoonup> response_signer"

record session_files =
  sf_mailbox :: mailbox_file
  sf_bindings :: bindings_file

text \<open>Outcomes of one operation on the session directory: taking the lock, and writing.\<close>

record mailbox_io =
  mi_lock :: "string option"
  mi_write :: "string option"

type_synonym 'a registry_op = "task_registry \<times> session_files \<Rightarrow> (detached_error, 'a) result \<times> task_registry \<times> session_files"

definition check_open :: "task_registry \<Rightarrow> (detached_error, unit) result" where
  "check_open r = (case tr_open_error r of Some e \<Rightarrow> Inl (RegistryUnavailable e) | None \<Rightarrow> Inr ())"

definition take_lock :: "mailbox_io \<Rightarrow> (detached_error, unit) result" where
  "take_lock io = (case mi_lock io of Some e \<Rightarrow> Inl (LockFailed e) | None \<Rightarrow> Inr ())"

definition load_bindings :: "mailbox_wire \<Rightarrow> mailbox_io \<Rightarrow> session_files \<Rightarrow> (detached_error, (string \<times> detached_subagent_binding) list) result" where
  "load_bindings w io f = try_bind (take_lock io) (\<lambda>_. load_detached_bindings_unlocked w (sf_bindings f))"

definition load_requests :: "mailbox_wire \<Rightarrow> mailbox_io \<Rightarrow> session_files \<Rightarrow> (detached_error, (string \<times> detached_permission_request) list) result" where
  "load_requests w io f =
     try_bind (take_lock io) (\<lambda>_.
     try_bind (load_detached_permission_requests_unlocked w (sf_mailbox f)) (\<lambda>requests.
     try_bind (validate_detached_permission_map w requests) (\<lambda>_. Inr requests)))"

definition store_requests ::
    "mailbox_wire \<Rightarrow> mailbox_io \<Rightarrow> (string \<times> detached_permission_request) list \<Rightarrow> session_files
     \<Rightarrow> (detached_error, unit) result \<times> session_files" where
  "store_requests w io requests f =
     (case write_detached_permission_requests_unlocked w (mi_write io) requests (sf_mailbox f) of (res, m) \<Rightarrow>
        (res, f\<lparr>sf_mailbox := m\<rparr>))"

definition remove_key :: "string \<Rightarrow> (string \<times> 'a) list \<Rightarrow> (string \<times> 'a) list" where
  "remove_key k xs = filter (\<lambda>(k', _). k' \<noteq> k) xs"

definition insert_key :: "string \<Rightarrow> 'a \<Rightarrow> (string \<times> 'a) list \<Rightarrow> (string \<times> 'a) list" where
  "insert_key k v xs = (k, v) # remove_key k xs"

subsection \<open>Bindings\<close>

definition same_admission ::
    "string \<Rightarrow> string option \<Rightarrow> nat \<Rightarrow> string \<Rightarrow> operation_fence option \<Rightarrow> detached_subagent_binding \<Rightarrow> bool" where
  "same_admission subagent_id parent_task_id task_revision attempt_id fence b \<longleftrightarrow>
     db_subagent_id b = subagent_id \<and> db_parent_task_id b = parent_task_id \<and> db_task_revision b = task_revision
     \<and> db_attempt_id b = attempt_id \<and> db_parent_fence b = fence"

text \<open>The authority is a digest over fresh bytes and the identities; the signer is fresh as well.\<close>

definition issued_binding ::
    "mailbox_wire \<Rightarrow> string \<Rightarrow> string \<Rightarrow> string \<Rightarrow> string \<Rightarrow> string option \<Rightarrow> nat \<Rightarrow> string \<Rightarrow> operation_fence option \<Rightarrow> response_signer
     \<Rightarrow> detached_subagent_binding" where
  "issued_binding w fresh session_id task_id subagent_id parent_task_id task_revision attempt_id fence signer =
     \<lparr>db_task_id = task_id, db_subagent_id = subagent_id, db_parent_task_id = parent_task_id, db_task_revision = task_revision,
      db_attempt_id = attempt_id, db_parent_fence = fence,
      db_authority_digest =
        mw_sha256 w (''orca.detached-subagent.authority.v1'' @ CHR 0x00 # fresh @ session_id @ task_id @ subagent_id @ attempt_id),
      db_public_key = rs_public_key signer\<rparr>"

definition reuse_binding ::
    "string \<Rightarrow> (detached_subagent_binding \<Rightarrow> bool) \<Rightarrow> detached_subagent_binding \<Rightarrow> detached_subagent_binding registry_op" where
  "reuse_binding key same b s =
     (case validate_detached_subagent_binding (Some key) b of
        Inl e \<Rightarrow> (Inl e, s)
      | Inr _ \<Rightarrow>
          if same b then (Inr b, (fst s)\<lparr>tr_bindings := (tr_bindings (fst s))(key \<mapsto> b)\<rparr>, snd s)
          else (Inl BindingConflict, s))"

text \<open>The last steps: the mirror, which may already hold a binding, and the signer.\<close>

definition install_binding ::
    "string \<Rightarrow> (detached_subagent_binding \<Rightarrow> bool) \<Rightarrow> detached_subagent_binding \<Rightarrow> response_signer \<Rightarrow> detached_subagent_binding registry_op" where
  "install_binding key same b signer s =
     (case tr_bindings (fst s) key of
        Some existing \<Rightarrow> if same existing then (Inr existing, s) else (Inl BindingConflict, s)
      | None \<Rightarrow>
          (Inr b, (fst s)\<lparr>tr_bindings := (tr_bindings (fst s))(key \<mapsto> b),
                          tr_signers := (tr_signers (fst s))(detached_signer_key (db_task_id b) (db_attempt_id b) \<mapsto> signer)\<rparr>, snd s))"

text \<open>What the caller has to be, before anything is looked up: a subagent whose continuation is at this attempt.\<close>

definition admitted_parent :: "task_registry \<Rightarrow> string \<Rightarrow> string \<Rightarrow> operation_fence option \<Rightarrow> (detached_error, string option) result" where
  "admitted_parent r task_id attempt_id fence =
     try_bind (check_open r) (\<lambda>_.
       if fence = None then Inl FenceMissing
       else
         (case tr_tasks r task_id of
            None \<Rightarrow> Inl (TaskNotFound task_id)
          | Some task \<Rightarrow>
              if tk_task_type task \<noteq> SubagentTask then Inl (NotASubagent task_id)
              else
                (case tr_continuations r of
                   Inl e \<Rightarrow> Inl (ContinuationFailed e)
                 | Inr cs \<Rightarrow>
                     (case find (\<lambda>c. cn_latest_task_id c = task_id \<and> cn_attempt_id c = attempt_id) cs of
                        None \<Rightarrow> Inl NotBoundToAttempt
                      | Some c \<Rightarrow>
                          if cn_parent_task_id c \<noteq> tk_parent_task_id task then Inl ParentInconsistent
                          else Inr (tk_parent_task_id task)))))"

definition register_detached_subagent_binding ::
    "mailbox_wire \<Rightarrow> mailbox_io \<Rightarrow> mailbox_io \<Rightarrow> string \<Rightarrow> (string, response_signer) result \<Rightarrow> session_files
     \<Rightarrow> string \<Rightarrow> string \<Rightarrow> string \<Rightarrow> nat \<Rightarrow> operation_fence option \<Rightarrow> detached_subagent_binding registry_op" where
  "register_detached_subagent_binding w io1 io2 fresh generated meanwhile task_id subagent_id attempt_id task_revision fence s =
     (case admitted_parent (fst s) task_id attempt_id fence of
        Inl e \<Rightarrow> (Inl e, s)
      | Inr parent \<Rightarrow>
          (let same = same_admission subagent_id parent task_revision attempt_id fence
           in case load_bindings w io1 (snd s) of
                Inl e \<Rightarrow> (Inl e, s)
              | Inr bindings \<Rightarrow>
                  (case map_of bindings task_id of
                     Some existing \<Rightarrow> reuse_binding task_id same existing s
                   | None \<Rightarrow>
                       (case generated of
                          Inl e \<Rightarrow> (Inl (SignerGeneration e), s)
                        | Inr signer \<Rightarrow>
                            (let b = issued_binding w fresh (tr_session_id (fst s)) task_id subagent_id parent task_revision attempt_id
                                       fence signer;
                                 s = (fst s, meanwhile)
                             in case validate_detached_subagent_binding (Some task_id) b of
                                  Inl e \<Rightarrow> (Inl e, s)
                                | Inr _ \<Rightarrow>
                                    (case load_bindings w io2 (snd s) of
                                       Inl e \<Rightarrow> (Inl e, s)
                                     | Inr bindings \<Rightarrow>
                                         (case map_of bindings task_id of
                                            Some existing \<Rightarrow> reuse_binding task_id same existing s
                                          | None \<Rightarrow>
                                              (case write_detached_bindings_unlocked w (mi_write io2) (insert_key task_id b bindings)
                                                      (sf_bindings (snd s)) of
                                                 (Inl e, file) \<Rightarrow> (Inl e, fst s, (snd s)\<lparr>sf_bindings := file\<rparr>)
                                               | (Inr _, file) \<Rightarrow>
                                                   install_binding task_id same b signer
                                                     (fst s, (snd s)\<lparr>sf_bindings := file\<rparr>)))))))))"

text \<open>The binding of a task, when the task and its continuation still agree with it.\<close>

definition current_detached_binding :: "mailbox_wire \<Rightarrow> mailbox_io \<Rightarrow> string \<Rightarrow> detached_subagent_binding option registry_op" where
  "current_detached_binding w io task_id s =
     (case try_bind (check_open (fst s)) (\<lambda>_. load_bindings w io (snd s)) of
        Inl e \<Rightarrow> (Inl e, s)
      | Inr bindings \<Rightarrow>
          (case map_of bindings task_id of
             None \<Rightarrow> (Inr None, s)
           | Some b \<Rightarrow>
               (case validate_detached_subagent_binding (Some task_id) b of
                  Inl e \<Rightarrow> (Inl e, s)
                | Inr _ \<Rightarrow>
                    (case tr_tasks (fst s) task_id of
                       None \<Rightarrow> (Inr None, s)
                     | Some task \<Rightarrow>
                         if tk_task_type task \<noteq> SubagentTask \<or> tk_parent_task_id task \<noteq> db_parent_task_id b then (Inr None, s)
                         else
                           (case tr_continuations (fst s) of
                              Inl e \<Rightarrow> (Inl (ContinuationFailed e), s)
                            | Inr cs \<Rightarrow>
                                if \<not> list_ex (\<lambda>c. cn_latest_task_id c = task_id \<and> cn_attempt_id c = db_attempt_id b) cs
                                then (Inr None, s)
                                else (Inr (Some b), (fst s)\<lparr>tr_bindings := (tr_bindings (fst s))(task_id \<mapsto> b)\<rparr>, snd s))))))"

subsection \<open>The mailbox\<close>

definition mirror_request :: "string \<Rightarrow> detached_permission_request \<Rightarrow> task_registry \<Rightarrow> task_registry" where
  "mirror_request key e r = r\<lparr>tr_requests := (tr_requests r)(key \<mapsto> e)\<rparr>"

definition lookup_request :: "mailbox_wire \<Rightarrow> mailbox_io \<Rightarrow> string \<Rightarrow> detached_permission_request option registry_op" where
  "lookup_request w io key s =
     (case try_bind (check_open (fst s)) (\<lambda>_. load_requests w io (snd s)) of
        Inl e \<Rightarrow> (Inl e, s)
      | Inr requests \<Rightarrow>
          (case map_of requests key of
             None \<Rightarrow> (Inr None, s)
           | Some e \<Rightarrow>
               (case validate_detached_permission_entry w (Some key) e of
                  Inl err \<Rightarrow> (Inl err, s)
                | Inr _ \<Rightarrow> (Inr (Some e), mirror_request key e (fst s), snd s))))"

definition list_requests :: "mailbox_wire \<Rightarrow> mailbox_io \<Rightarrow> task_registry \<times> session_files \<Rightarrow> (detached_error, detached_permission_request list) result" where
  "list_requests w io s =
     try_bind (check_open (fst s)) (\<lambda>_.
     try_bind (take_lock io) (\<lambda>_.
     try_bind (load_detached_permission_requests_unlocked w (sf_mailbox (snd s))) (\<lambda>entries.
     try_bind (validate_all (\<lambda>(k, e). validate_detached_permission_entry w (Some k) e) entries) (\<lambda>_.
       Inr (sort_key dp_key (map snd entries))))))"

definition has_pending_detached_permission_requests ::
    "mailbox_wire \<Rightarrow> mailbox_io \<Rightarrow> task_registry \<times> session_files \<Rightarrow> (detached_error, bool) result" where
  "has_pending_detached_permission_requests w io s = try_bind (list_requests w io s) (\<lambda>es. Inr (list_ex (\<lambda>e. dp_response e = None) es))"

definition request_owner_matches :: "detached_subagent_binding \<Rightarrow> permission_request \<Rightarrow> (detached_error, unit) result" where
  "request_owner_matches b request =
     (case pq_context request of
        ForegroundContext _ \<Rightarrow> Inl NotChildScoped
      | ChildContext task_id task_revision agent_id _ _ _ _ origin \<Rightarrow>
          if origin \<noteq> SurfaceChildAgent \<or> task_id \<noteq> db_task_id b \<or> task_revision \<noteq> db_task_revision b \<or> agent_id \<noteq> db_subagent_id b
             \<or> pq_id request = []
          then Inl OwnerMismatch
          else if length (pq_id request) > max_detached_permission_request_id_bytes
                  \<or> is_some_and (pq_reason request) (\<lambda>r. length r > max_detached_permission_reason_bytes)
          then Inl FieldLimits
          else Inr ())"

definition make_candidate ::
    "mailbox_wire \<Rightarrow> detached_subagent_binding \<Rightarrow> permission_request \<Rightarrow> (detached_error, detached_permission_request) result" where
  "make_candidate w b request =
     try_bind (detached_permission_interaction_id w b (pq_id request)) (\<lambda>interaction.
       case detached_permission_request_digest w request (db_attempt_id b) (db_authority_digest b) interaction (db_public_key b) of
         None \<Rightarrow> Inl NotSerializableRecord
       | Some digest \<Rightarrow>
           Inr \<lparr>dp_schema_version = detached_permission_schema_version,
                dp_key = owner_key (db_task_id b) (db_attempt_id b) (pq_id request),
                dp_interaction_id = interaction, dp_request = request, dp_attempt_id = db_attempt_id b,
                dp_authority_digest = db_authority_digest b, dp_public_key = db_public_key b, dp_request_digest = digest,
                dp_response = None, dp_response_digest = None, dp_response_signature = None\<rparr>)"

text \<open>The part of \<^verbatim>\<open>enqueue_detached_permission_request\<close> under the lock.\<close>

definition enqueue_candidate ::
    "mailbox_wire \<Rightarrow> mailbox_io \<Rightarrow> string \<Rightarrow> detached_subagent_binding \<Rightarrow> permission_request \<Rightarrow> string registry_op" where
  "enqueue_candidate w io key b request s =
     (case load_requests w io (snd s) of
        Inl e \<Rightarrow> (Inl e, s)
      | Inr requests \<Rightarrow>
          (case map_of requests key of
             Some existing \<Rightarrow>
               if \<not> detached_permission_identity_matches w existing request b then (Inl RequestConflict, s)
               else (Inr key, mirror_request key existing (fst s), snd s)
           | None \<Rightarrow>
               (case make_candidate w b request of
                  Inl e \<Rightarrow> (Inl e, s)
                | Inr candidate \<Rightarrow>
                    (case store_requests w io (insert_key key candidate requests) (snd s) of
                       (Inl e, f) \<Rightarrow> (Inl e, fst s, f)
                     | (Inr _, f) \<Rightarrow> (Inr key, mirror_request key candidate (fst s), f)))))"

definition enqueue_detached_permission_request ::
    "mailbox_wire \<Rightarrow> mailbox_io \<Rightarrow> mailbox_io \<Rightarrow> detached_subagent_binding \<Rightarrow> permission_request \<Rightarrow> string registry_op" where
  "enqueue_detached_permission_request w io1 io2 b request s =
     (case try_bind (request_owner_matches b request) (\<lambda>_. check_open (fst s)) of
        Inl e \<Rightarrow> (Inl e, s)
      | Inr _ \<Rightarrow>
          (let key = owner_key (db_task_id b) (db_attempt_id b) (pq_id request)
           in case current_detached_binding w io1 (db_task_id b) s of
                (Inl e, s) \<Rightarrow> (Inl e, s)
              | (Inr (Some registered), s) \<Rightarrow>
                  if registered \<noteq> b then (Inl BindingNotIssued, s) else enqueue_candidate w io2 key b request s
              | (Inr None, s) \<Rightarrow>
                  (case lookup_request w io2 key s of
                     (Inl e, s) \<Rightarrow> (Inl e, s)
                   | (Inr (Some existing), s) \<Rightarrow>
                       if detached_permission_identity_matches w existing request b then (Inr key, s) else (Inl BindingInactive, s)
                   | (Inr None, s) \<Rightarrow> (Inl BindingInactive, s))))"

text \<open>Settled denials of children that are over, with no worker left to read them.\<close>

definition is_reclaimable :: "(string \<rightharpoonup> task_record) \<Rightarrow> detached_permission_request \<Rightarrow> bool" where
  "is_reclaimable records e =
     (case dp_response e of
        None \<Rightarrow> False
      | Some response \<Rightarrow>
          if ps_decision response = PermissionAllow then False
          else
            (case pq_context (dp_request e) of
               ForegroundContext _ \<Rightarrow> False
             | ChildContext task_id _ _ _ _ _ _ _ \<Rightarrow>
                 (case records task_id of
                    None \<Rightarrow> False
                  | Some task \<Rightarrow>
                      tk_status task \<in> {TaskCompleted, TaskStopped, TaskFailed, TaskBlocked, TaskCancelled}
                      \<and> tk_completed_at_ms task \<noteq> None \<and> tk_worker_pid task = None \<and> tk_lease_owner task = None)))"

definition prune_detached_permission_requests ::
    "mailbox_wire \<Rightarrow> mailbox_io \<Rightarrow> (string, string \<rightharpoonup> task_record) result \<Rightarrow> nat registry_op" where
  "prune_detached_permission_requests w io session_records s =
     (case try_bind (check_open (fst s)) (\<lambda>_. take_lock io) of
        Inl e \<Rightarrow> (Inl e, s)
      | Inr _ \<Rightarrow>
          (case session_records of
             Inl e \<Rightarrow> (Inl (StoreUnreadable e), s)
           | Inr records \<Rightarrow>
               (case load_requests w io (snd s) of
                  Inl e \<Rightarrow> (Inl e, s)
                | Inr requests \<Rightarrow>
                    (let kept = filter (\<lambda>(_, e). \<not> is_reclaimable records e) requests;
                         removed = length requests - length kept
                     in if removed = 0 then (Inr 0, s)
                        else
                          (case store_requests w io kept (snd s) of
                             (Inl e, f) \<Rightarrow> (Inl e, fst s, f)
                           | (Inr _, f) \<Rightarrow> (Inr removed, (fst s)\<lparr>tr_requests := map_of kept\<rparr>, f))))))"

subsection \<open>Resolving and acknowledging\<close>

definition sign_detached_permission_response ::
    "mailbox_wire \<Rightarrow> task_registry \<Rightarrow> detached_permission_request \<Rightarrow> permission_response \<Rightarrow> detached_subagent_binding
     \<Rightarrow> (detached_error, bytes) result" where
  "sign_detached_permission_response w r e response b =
     try_bind (validate_detached_permission_binding w e b) (\<lambda>_.
       case tr_signers r (detached_signer_key (db_task_id b) (db_attempt_id b)) of
         None \<Rightarrow> Inl SignerUnavailable
       | Some signer \<Rightarrow>
           if length (rs_public_key signer) \<noteq> 32 \<or> rs_public_key signer \<noteq> db_public_key b then Inl SignerMismatch
           else
             (case detached_permission_response_signing_bytes w (dp_request_digest e) response of
                None \<Rightarrow> Inl NotSerializableRecord
              | Some message \<Rightarrow> Inr (rs_sign signer message)))"

text \<open>An allowed answer has to carry the signature of the actor that bound the child.\<close>

definition check_allow ::
    "mailbox_wire \<Rightarrow> (string \<times> detached_subagent_binding) list \<Rightarrow> detached_permission_request \<Rightarrow> permission_response
     \<Rightarrow> (detached_error, unit) result" where
  "check_allow w bindings e response =
     (if ps_decision response = PermissionAllow
      then try_bind (detached_permission_binding_from_map w bindings e) (\<lambda>b.
             if \<not> verify_response_signature_with_key w (db_public_key b) e then Inl BadSignature else Inr ())
      else Inr ())"

definition response_signature ::
    "mailbox_wire \<Rightarrow> task_registry \<Rightarrow> (string \<times> detached_subagent_binding) list \<Rightarrow> detached_permission_request \<Rightarrow> permission_response
     \<Rightarrow> (detached_error, bytes option) result" where
  "response_signature w r bindings e response =
     (if ps_decision response = PermissionAllow
      then try_bind (detached_permission_binding_from_map w bindings e) (\<lambda>b.
           try_bind (sign_detached_permission_response w r e response b) (\<lambda>signature. Inr (Some signature)))
      else Inr None)"

text \<open>Both files, read under one lock and checked.\<close>

definition load_session ::
    "mailbox_wire \<Rightarrow> mailbox_io \<Rightarrow> task_registry \<times> session_files
     \<Rightarrow> (detached_error, (string \<times> detached_permission_request) list \<times> (string \<times> detached_subagent_binding) list) result" where
  "load_session w io s =
     try_bind (check_open (fst s)) (\<lambda>_.
     try_bind (take_lock io) (\<lambda>_.
     try_bind (load_detached_permission_requests_unlocked w (sf_mailbox (snd s))) (\<lambda>requests.
     try_bind (load_detached_bindings_unlocked w (sf_bindings (snd s))) (\<lambda>bindings.
     try_bind (validate_all (\<lambda>(k, b). validate_detached_subagent_binding (Some k) b) bindings) (\<lambda>_.
     try_bind (validate_detached_permission_map w requests) (\<lambda>_. Inr (requests, bindings)))))))"

definition resolve_detached_permission_request ::
    "mailbox_wire \<Rightarrow> mailbox_io \<Rightarrow> string \<Rightarrow> bytes \<Rightarrow> permission_response \<Rightarrow> unit registry_op" where
  "resolve_detached_permission_request w io key request_digest response s =
     (case load_session w io s of
        Inl e \<Rightarrow> (Inl e, s)
      | Inr (requests, bindings) \<Rightarrow>
          (case map_of requests key of
             None \<Rightarrow> (Inl RequestDisappeared, s)
           | Some existing \<Rightarrow>
               if dp_request_digest existing \<noteq> request_digest then (Inl StaleDigest, s)
               else
                 (case dp_response existing of
                    Some current \<Rightarrow>
                      if current \<noteq> response then (Inl DifferentResolution, s)
                      else (check_allow w bindings existing current, s)
                  | None \<Rightarrow>
                      (case response_signature w (fst s) bindings existing response of
                         Inl e \<Rightarrow> (Inl e, s)
                       | Inr signature \<Rightarrow>
                           (case detached_permission_response_digest w request_digest response of
                              None \<Rightarrow> (Inl NotSerializableRecord, s)
                            | Some digest \<Rightarrow>
                                (let updated = existing\<lparr>dp_response := Some response, dp_response_digest := Some digest,
                                                        dp_response_signature := signature\<rparr>
                                 in case store_requests w io (insert_key key updated requests) (snd s) of
                                      (Inl e, f) \<Rightarrow> (Inl e, fst s, f)
                                    | (Inr _, f) \<Rightarrow> (Inr (), mirror_request key updated (fst s), f)))))))"

definition forget_request :: "string \<Rightarrow> task_registry \<Rightarrow> task_registry" where
  "forget_request key r = r\<lparr>tr_requests := (tr_requests r)(key := None)\<rparr>"

definition acknowledge_detached_permission_request ::
    "mailbox_wire \<Rightarrow> mailbox_io \<Rightarrow> string \<Rightarrow> bytes \<Rightarrow> bytes \<Rightarrow> unit registry_op" where
  "acknowledge_detached_permission_request w io key request_digest response_digest s =
     (case load_session w io s of
        Inl e \<Rightarrow> (Inl e, s)
      | Inr (requests, bindings) \<Rightarrow>
          (case map_of requests key of
             None \<Rightarrow> (Inr (), forget_request key (fst s), snd s)
           | Some entry \<Rightarrow>
               if dp_request_digest entry \<noteq> request_digest \<or> dp_response_digest entry \<noteq> Some response_digest
               then (Inl AcknowledgementStale, s)
               else
                 (case (case dp_response entry of None \<Rightarrow> Inr () | Some response \<Rightarrow> check_allow w bindings entry response) of
                    Inl e \<Rightarrow> (Inl e, s)
                  | Inr _ \<Rightarrow>
                      (case store_requests w io (remove_key key requests) (snd s) of
                         (Inl e, f) \<Rightarrow> (Inl e, fst s, f)
                       | (Inr _, f) \<Rightarrow> (Inr (), forget_request key (fst s), f)))))"

end
