(* ===== verification/Child_Permissions.thy ===== *)
theory Child_Permissions
  imports Detached_Registry
begin

text \<open>
  The permission handlers of child agents, \<^verbatim>\<open>crates/orca-runtime/src/child_permission.rs\<close>: every request is given the
  identity of its child, whatever context the model wrote; a detached child waits for the actor's answer in the mailbox.
\<close>

subsection \<open>The identity of a child\<close>

record child_permission_identity =
  ci_task_id :: "string option"
  ci_task_revision_floor :: "nat option"
  ci_agent_id :: "string option"
  ci_turn_id :: "string option"
  ci_revision :: "nat option"

datatype handler_error =
    MissingIdentity
  | MailboxFailed detached_error
  | RequestCancelled "handler_error option"
  | RequestTimedOut "handler_error option"
  | RecordDisappeared
  | WrongOwner
  | SignatureRefused
  | MissingResponseDigest
  | DenialOwner

definition identity_new :: "string \<Rightarrow> string \<Rightarrow> string \<Rightarrow> nat \<Rightarrow> child_permission_identity" where
  "identity_new task_id agent_id turn_id revision =
     \<lparr>ci_task_id = Some task_id, ci_task_revision_floor = Some 1, ci_agent_id = Some agent_id, ci_turn_id = Some turn_id,
      ci_revision = Some revision\<rparr>"

definition identity_with_task_revision :: "string \<Rightarrow> nat \<Rightarrow> string \<Rightarrow> string \<Rightarrow> nat \<Rightarrow> child_permission_identity" where
  "identity_with_task_revision task_id task_revision agent_id turn_id revision =
     \<lparr>ci_task_id = Some task_id, ci_task_revision_floor = Some task_revision, ci_agent_id = Some agent_id, ci_turn_id = Some turn_id,
      ci_revision = Some revision\<rparr>"

definition context_for :: "child_permission_identity \<Rightarrow> string \<Rightarrow> (handler_error, permission_context) result" where
  "context_for ident request_id =
     (case (ci_task_id ident, ci_task_revision_floor ident, ci_agent_id ident, ci_turn_id ident, ci_revision ident) of
        (Some task_id, Some task_revision, Some agent_id, Some turn_id, Some revision) \<Rightarrow>
          if request_id = [] \<or> revision = 0 \<or> \<not> text_id_ok request_id then Inl MissingIdentity
          else Inr (child_context task_id task_revision agent_id revision request_id turn_id request_id)
      | _ \<Rightarrow> Inl MissingIdentity)"

definition scoped_request :: "child_permission_identity \<Rightarrow> permission_request \<Rightarrow> (handler_error, permission_request) result" where
  "scoped_request ident request = try_bind (context_for ident (pq_id request)) (\<lambda>c. Inr (request\<lparr>pq_context := c\<rparr>))"

text \<open>A synchronous child passes the scoped request to the handler of its parent.\<close>

definition child_request_permissions ::
    "child_permission_identity \<Rightarrow> (permission_request \<Rightarrow> (handler_error, permission_response) result) \<Rightarrow> permission_request
     \<Rightarrow> (handler_error, permission_response) result" where
  "child_request_permissions ident parent request = try_bind (scoped_request ident request) parent"

subsection \<open>Detached children\<close>

text \<open>
  Other processes write to the session between any two operations of the worker, so each operation meets the files
  anew. One round of the loop: the clock and the cancel token at its three checks, and the files and outcomes at the
  lookup and at the acknowledgement.
\<close>

record denial_env =
  de_lookup :: "mailbox_io \<times> session_files"
  de_settle :: "mailbox_io \<times> session_files"
  de_again :: "mailbox_io \<times> session_files"
  de_last :: "mailbox_io \<times> session_files"

record poll =
  po_cancelled :: bool
  po_now :: int
  po_lookup :: "mailbox_io \<times> session_files"
  po_cancelled_before :: bool
  po_now_before :: int
  po_acknowledge :: "mailbox_io \<times> session_files"
  po_cancelled_after :: bool
  po_now_after :: int
  po_denial :: denial_env

definition on_session ::
    "(mailbox_io \<Rightarrow> 'a registry_op) \<Rightarrow> mailbox_io \<times> session_files \<Rightarrow> task_registry \<Rightarrow> (handler_error, 'a) result \<times> task_registry" where
  "on_session oper env r = (case oper (fst env) (r, snd env) of (res, r, f) \<Rightarrow> (map_err MailboxFailed res, r))"

definition denied_response :: permission_response where
  "denied_response =
     \<lparr>ps_decision = PermissionDeny, ps_scope = TurnScope, ps_permissions = \<lparr>rp_file_system = None, rp_network = None\<rparr>,
      ps_strict_auto_review = False\<rparr>"

definition denial_owner_matches :: "detached_subagent_binding \<Rightarrow> string \<Rightarrow> detached_permission_request \<Rightarrow> bool" where
  "denial_owner_matches b key e =
     ((case pq_context (dp_request e) of
         ChildContext task_id _ agent_id _ _ _ _ origin \<Rightarrow>
           origin = SurfaceChildAgent \<and> task_id = db_task_id b \<and> agent_id = db_subagent_id b
       | ForegroundContext _ \<Rightarrow> False)
      \<and> dp_key e = key \<and> dp_key e = owner_key (db_task_id b) (db_attempt_id b) (pq_id (dp_request e))
      \<and> dp_attempt_id e = db_attempt_id b \<and> dp_authority_digest e = db_authority_digest b)"

text \<open>The end of a denial that lost a race: acknowledge the answer that won.\<close>

definition settle_lost_denial ::
    "mailbox_wire \<Rightarrow> denial_env \<Rightarrow> string \<Rightarrow> bytes \<Rightarrow> handler_error \<Rightarrow> task_registry \<Rightarrow> (handler_error, unit) result \<times> task_registry" where
  "settle_lost_denial w env key request_digest error r =
     (case on_session (\<lambda>io. lookup_request w io key) (de_again env) r of
        (Inl e, r) \<Rightarrow> (Inl e, r)
      | (Inr None, r) \<Rightarrow> (Inr (), r)
      | (Inr (Some latest), r) \<Rightarrow>
          if dp_request_digest latest \<noteq> request_digest then (Inl error, r)
          else
            (case dp_response_digest latest of
               None \<Rightarrow> (Inl error, r)
             | Some digest \<Rightarrow>
                 if dp_response latest = None then (Inl error, r)
                 else on_session (\<lambda>io. acknowledge_detached_permission_request w io key (dp_request_digest latest) digest)
                        (de_last env) r))"

definition persist_terminal_deny ::
    "mailbox_wire \<Rightarrow> detached_subagent_binding \<Rightarrow> denial_env \<Rightarrow> string \<Rightarrow> task_registry \<Rightarrow> (handler_error, unit) result \<times> task_registry" where
  "persist_terminal_deny w b env key r =
     (case on_session (\<lambda>io. lookup_request w io key) (de_lookup env) r of
        (Inl e, r) \<Rightarrow> (Inl e, r)
      | (Inr None, r) \<Rightarrow> (Inr (), r)
      | (Inr (Some e), r) \<Rightarrow>
          (case validate_detached_permission_binding w e b of
             Inl err \<Rightarrow> (Inl (MailboxFailed err), r)
           | Inr _ \<Rightarrow>
               if \<not> denial_owner_matches b key e then (Inl DenialOwner, r)
               else
                 (case dp_response_digest e of
                    Some digest \<Rightarrow>
                      on_session (\<lambda>io. acknowledge_detached_permission_request w io key (dp_request_digest e) digest) (de_settle env) r
                  | None \<Rightarrow>
                      if dp_response e \<noteq> None then (Inl MissingResponseDigest, r)
                      else
                        (case on_session (\<lambda>io. resolve_detached_permission_request w io key (dp_request_digest e) denied_response)
                                (de_settle env) r of
                           (Inr _, r) \<Rightarrow> (Inr (), r)
                         | (Inl err, r) \<Rightarrow> settle_lost_denial w env key (dp_request_digest e) err r))))"

definition terminal_error ::
    "(handler_error option \<Rightarrow> handler_error) \<Rightarrow> mailbox_wire \<Rightarrow> detached_subagent_binding \<Rightarrow> denial_env \<Rightarrow> string \<Rightarrow> task_registry
     \<Rightarrow> handler_error \<times> task_registry" where
  "terminal_error kind w b env key r =
     (case persist_terminal_deny w b env key r of (res, r) \<Rightarrow> (kind (case res of Inl e \<Rightarrow> Some e | Inr _ \<Rightarrow> None), r))"

text \<open>The owner of a record, compared with what the worker was started with.\<close>

definition record_matches ::
    "mailbox_wire \<Rightarrow> detached_subagent_binding \<Rightarrow> permission_request \<Rightarrow> permission_request \<Rightarrow> string \<Rightarrow> detached_permission_request
     \<Rightarrow> (handler_error, bool) result" where
  "record_matches w b request scoped key e =
     (case detached_permission_interaction_id w b (pq_id request) of
        Inl err \<Rightarrow> Inl (MailboxFailed err)
      | Inr interaction \<Rightarrow>
          Inr ((case pq_context (dp_request e) of
                  ChildContext task_id task_revision agent_id _ _ _ tool_call_id origin \<Rightarrow>
                    origin = SurfaceChildAgent \<and> task_id = db_task_id b \<and> task_revision = db_task_revision b
                    \<and> agent_id = db_subagent_id b \<and> tool_call_id = pq_id request
                | ForegroundContext _ \<Rightarrow> False)
               \<and> dp_key e = key \<and> dp_key e = owner_key (db_task_id b) (db_attempt_id b) (pq_id request)
               \<and> dp_interaction_id e = interaction \<and> dp_request e = scoped \<and> dp_attempt_id e = db_attempt_id b
               \<and> dp_authority_digest e = db_authority_digest b \<and> dp_public_key e = db_public_key b))"

text \<open>Stop when the token is cancelled or the deadline has passed.\<close>

definition interrupted ::
    "mailbox_wire \<Rightarrow> detached_subagent_binding \<Rightarrow> denial_env \<Rightarrow> string \<Rightarrow> bool \<Rightarrow> int \<Rightarrow> int \<Rightarrow> task_registry
     \<Rightarrow> (handler_error \<times> task_registry) option" where
  "interrupted w b env key cancelled now deadline r =
     (if cancelled then Some (terminal_error RequestCancelled w b env key r)
      else if now \<ge> deadline then Some (terminal_error RequestTimedOut w b env key r)
      else None)"

text \<open>An answer is there: check it, acknowledge it, and look at the clock and the token once more.\<close>

definition consume_response ::
    "mailbox_wire \<Rightarrow> detached_subagent_binding \<Rightarrow> string \<Rightarrow> int \<Rightarrow> poll \<Rightarrow> detached_permission_request \<Rightarrow> permission_response
     \<Rightarrow> task_registry \<Rightarrow> (handler_error, permission_response) result \<times> task_registry" where
  "consume_response w b key deadline po e response r =
     (case interrupted w b (po_denial po) key (po_cancelled_before po) (po_now_before po) deadline r of
        Some (err, r) \<Rightarrow> (Inl err, r)
      | None \<Rightarrow>
          if dp_public_key e \<noteq> db_public_key b \<or> \<not> verify_response_signature_with_key w (db_public_key b) e
          then (Inl SignatureRefused, r)
          else
            (case dp_response_digest e of
               None \<Rightarrow> (Inl MissingResponseDigest, r)
             | Some digest \<Rightarrow>
                 (case on_session (\<lambda>io. acknowledge_detached_permission_request w io key (dp_request_digest e) digest)
                         (po_acknowledge po) r of
                    (Inl err, r) \<Rightarrow> (Inl err, r)
                  | (Inr _, r) \<Rightarrow>
                      (case interrupted w b (po_denial po) key (po_cancelled_after po) (po_now_after po) deadline r of
                         Some (err, r) \<Rightarrow> (Inl err, r)
                       | None \<Rightarrow> (Inr response, r)))))"

text \<open>One round; no result means that the answer is still awaited.\<close>

definition poll_once ::
    "mailbox_wire \<Rightarrow> detached_subagent_binding \<Rightarrow> permission_request \<Rightarrow> permission_request \<Rightarrow> string \<Rightarrow> int \<Rightarrow> poll \<Rightarrow> task_registry
     \<Rightarrow> (handler_error, permission_response) result option \<times> task_registry" where
  "poll_once w b request scoped key deadline po r =
     (case interrupted w b (po_denial po) key (po_cancelled po) (po_now po) deadline r of
        Some (err, r) \<Rightarrow> (Some (Inl err), r)
      | None \<Rightarrow>
          (case on_session (\<lambda>io. lookup_request w io key) (po_lookup po) r of
             (Inl err, r) \<Rightarrow> (Some (Inl err), r)
           | (Inr None, r) \<Rightarrow> (Some (Inl RecordDisappeared), r)
           | (Inr (Some e), r) \<Rightarrow>
               (case record_matches w b request scoped key e of
                  Inl err \<Rightarrow> (Some (Inl err), r)
                | Inr False \<Rightarrow> (Some (Inl WrongOwner), r)
                | Inr True \<Rightarrow>
                    (case dp_response e of
                       None \<Rightarrow> (None, r)
                     | Some response \<Rightarrow>
                         (case consume_response w b key deadline po e response r of (res, r) \<Rightarrow> (Some res, r))))))"

fun request_loop ::
    "mailbox_wire \<Rightarrow> detached_subagent_binding \<Rightarrow> permission_request \<Rightarrow> permission_request \<Rightarrow> string \<Rightarrow> int \<Rightarrow> poll list \<Rightarrow> task_registry
     \<Rightarrow> (handler_error, permission_response) result option \<times> task_registry" where
  "request_loop w b request scoped key deadline [] r = (None, r)"
| "request_loop w b request scoped key deadline (po # pos) r =
     (case poll_once w b request scoped key deadline po r of
        (Some res, r) \<Rightarrow> (Some res, r)
      | (None, r) \<Rightarrow> request_loop w b request scoped key deadline pos r)"

text \<open>\<^verbatim>\<open>wait_timeout\<close> is ten minutes.\<close>

definition wait_timeout :: int where "wait_timeout = 10 * 60 * 1000000000"

definition request_inner ::
    "mailbox_wire \<Rightarrow> detached_subagent_binding \<Rightarrow> child_permission_identity \<Rightarrow> mailbox_io \<Rightarrow> mailbox_io \<times> session_files \<Rightarrow> int
     \<Rightarrow> poll list \<Rightarrow> permission_request \<Rightarrow> task_registry \<Rightarrow> (handler_error, permission_response) result option \<times> task_registry" where
  "request_inner w b ident io env now pos request r =
     (case scoped_request ident request of
        Inl e \<Rightarrow> (Some (Inl e), r)
      | Inr scoped \<Rightarrow>
          (case on_session (\<lambda>io2. enqueue_detached_permission_request w io io2 b scoped) env r of
             (Inl e, r) \<Rightarrow> (Some (Inl e), r)
           | (Inr key, r) \<Rightarrow> request_loop w b request scoped key (now + wait_timeout) pos r))"

end
