(* ===== verification/Detached_Trust.thy ===== *)
theory Detached_Trust
  imports Child_Permissions
begin

text \<open>
  What a detached child can rely on although it shares the mailbox with processes it does not trust: an answer that
  allows anything was signed by the actor for the request of this very child.
\<close>

subsection \<open>What is signed\<close>

lemma try_bind_Inr: "try_bind m k = Inr y \<longleftrightarrow> (\<exists>x. m = Inr x \<and> k x = Inr y)"
  by (cases m) (simp_all add: try_bind_def)

text \<open>
  What the development relies on of the serializers: different JSON values are printed differently, and different
  answers have different canonical values.
\<close>

definition faithful_wire :: "mailbox_wire \<Rightarrow> bool" where
  "faithful_wire w \<longleftrightarrow>
     (\<forall>v v' s. mw_to_vec w v = Some s \<and> mw_to_vec w v' = Some s \<longrightarrow> v = v')
     \<and> (\<forall>a a' v v'. mw_response_value w a = Some v \<and> mw_response_value w a' = Some v' \<and> canonicalize v = canonicalize v' \<longrightarrow> a = a')"

lemma canonicalize_bytes [simp]: "canonicalize (bytes_value bs) = bytes_value bs"
  by (simp add: bytes_value_def)

lemma bytes_value_inj [simp]: "bytes_value bs = bytes_value bs' \<longleftrightarrow> bs = bs'"
proof -
  have "inj (\<lambda>b :: 8 word. JNumber (PosInt (unat b)))" by (intro injI) (simp add: word_unat_eq_iff)
  then show ?thesis by (auto simp: bytes_value_def dest: map_injective)
qed

lemma signing_bytes_inj:
  assumes "faithful_wire w" "detached_permission_response_signing_bytes w d a = Some m"
    and "detached_permission_response_signing_bytes w d' a' = Some m"
  shows "d = d' \<and> a = a'"
proof -
  from assms(2,3) obtain v v' s where v: "mw_response_value w a = Some v" "mw_response_value w a' = Some v'"
    and s: "mw_to_vec w (canonicalize (JArray [bytes_value d, v])) = Some s"
      "mw_to_vec w (canonicalize (JArray [bytes_value d', v'])) = Some s"
    by (auto simp: detached_permission_response_signing_bytes_def canonical_json_bytes_def response_tuple_def bind_eq_Some_conv)
  with assms(1) have "JArray [bytes_value d, canonicalize v] = JArray [bytes_value d', canonicalize v']"
    unfolding faithful_wire_def by (metis canonicalize.simps(1) canonicalize_bytes list.map)
  with assms(1) v show ?thesis unfolding faithful_wire_def by auto
qed

text \<open>A call of the actor to resolve a request, with the state it meets, and the message it signs, if any.\<close>

record actor_call =
  ac_io :: mailbox_io
  ac_key :: string
  ac_request_digest :: bytes
  ac_response :: permission_response
  ac_registry :: task_registry
  ac_files :: session_files

definition signed_message :: "mailbox_wire \<Rightarrow> actor_call \<Rightarrow> (bytes \<times> string) option" where
  "signed_message w c =
     (case load_session w (ac_io c) (ac_registry c, ac_files c) of
        Inl _ \<Rightarrow> None
      | Inr (requests, bindings) \<Rightarrow>
          (case map_of requests (ac_key c) of
             None \<Rightarrow> None
           | Some e \<Rightarrow>
               if dp_request_digest e \<noteq> ac_request_digest c \<or> dp_response e \<noteq> None \<or> ps_decision (ac_response c) \<noteq> PermissionAllow then None
               else
                 (case detached_permission_binding_from_map w bindings e of
                    Inl _ \<Rightarrow> None
                  | Inr b \<Rightarrow>
                      (case sign_detached_permission_response w (ac_registry c) e (ac_response c) b of
                         Inl _ \<Rightarrow> None
                       | Inr _ \<Rightarrow>
                           map_option (Pair (db_public_key b))
                             (detached_permission_response_signing_bytes w (dp_request_digest e) (ac_response c))))))"

lemma signed_message_Some:
  assumes "signed_message w c = Some (pk, m)"
  shows "detached_permission_response_signing_bytes w (ac_request_digest c) (ac_response c) = Some m"
    "ps_decision (ac_response c) = PermissionAllow"
  using assms by (auto simp: signed_message_def split: sum.splits prod.splits option.splits if_splits)

text \<open>The call is the only place where the actor signs: what it stores for an allowed answer is a signature of that message.\<close>

lemma resolve_stores_signed:
  assumes "resolve_detached_permission_request w (ac_io c) (ac_key c) (ac_request_digest c) (ac_response c) (ac_registry c, ac_files c) = (Inr (), r, f)"
    and "ps_decision (ac_response c) = PermissionAllow" "f \<noteq> ac_files c"
  shows "\<exists>requests e pk m (signer :: response_signer). sf_mailbox f = Stored requests \<and> map_of requests (ac_key c) = Some e
    \<and> dp_response e = Some (ac_response c) \<and> signed_message w c = Some (pk, m) \<and> rs_public_key signer = pk
    \<and> dp_response_signature e = Some (rs_sign signer m)"
proof -
  let ?s = "(ac_registry c, ac_files c)"
  from assms obtain requests bindings e where l: "load_session w (ac_io c) ?s = Inr (requests, bindings)"
    "map_of requests (ac_key c) = Some e" "dp_request_digest e = ac_request_digest c" "dp_response e = None"
    by (auto simp: resolve_detached_permission_request_def split: sum.splits option.splits if_splits prod.splits)
  with assms obtain b signature digest where b: "detached_permission_binding_from_map w bindings e = Inr b"
    "sign_detached_permission_response w (ac_registry c) e (ac_response c) b = Inr signature"
    "detached_permission_response_digest w (ac_request_digest c) (ac_response c) = Some digest"
    and st: "store_requests w (ac_io c) (insert_key (ac_key c) (e\<lparr>dp_response := Some (ac_response c),
       dp_response_digest := Some digest, dp_response_signature := Some signature\<rparr>) requests) (ac_files c) = (Inr (), f)"
    by (auto simp: resolve_detached_permission_request_def response_signature_def try_bind_Inr Let_def
        split: sum.splits option.splits if_splits prod.splits)
  from st have m: "sf_mailbox f = Stored (insert_key (ac_key c) (e\<lparr>dp_response := Some (ac_response c),
       dp_response_digest := Some digest, dp_response_signature := Some signature\<rparr>) requests)"
    by (auto simp: store_requests_def write_detached_permission_requests_unlocked_def write_stored_def
        split: prod.splits sum.splits option.splits if_splits)
  from b(2) obtain signer where signer: "tr_signers (ac_registry c) (detached_signer_key (db_task_id b) (db_attempt_id b)) = Some signer"
    "rs_public_key signer = db_public_key b"
    by (auto simp: sign_detached_permission_response_def try_bind_Inr split: option.splits if_splits)
  with b(2) obtain msg where sg: "detached_permission_response_signing_bytes w (dp_request_digest e) (ac_response c) = Some msg"
    "signature = rs_sign signer msg"
    by (auto simp: sign_detached_permission_response_def try_bind_Inr split: option.splits if_splits)
  have "signed_message w c = Some (db_public_key b, msg)"
    using l b sg(1) assms(2) by (simp add: signed_message_def)
  with m signer(2) sg(2) show ?thesis
    by (auto simp: insert_key_def)
qed

text \<open>An answered record keeps its answer, and a child whose binding is gone cannot add a record.\<close>

lemma answered_record_is_final:
  assumes "load_session w io s = Inr (requests, bindings)" "map_of requests key = Some e" "dp_response e \<noteq> None"
  shows "snd (resolve_detached_permission_request w io key d a s) = s"
  using assms by (auto simp: resolve_detached_permission_request_def)

lemma inactive_binding_adds_nothing:
  assumes "current_detached_binding w io1 (db_task_id b) s = (Inr None, s1)"
    and "enqueue_detached_permission_request w io1 io2 b request s = (res, s')"
  shows "snd s' = snd s1"
  using assms
  by (auto simp: enqueue_detached_permission_request_def lookup_request_def Let_def current_detached_binding_def
      split: sum.splits option.splits if_splits prod.splits)

subsection \<open>What the child consumes\<close>

lemma lookup_request_Some:
  assumes "lookup_request w io key s = (Inr (Some e), s')"
  shows "validate_detached_permission_entry w (Some key) e = Inr ()"
  using assms by (auto simp: lookup_request_def split: sum.splits option.splits)

definition consumed ::
    "mailbox_wire \<Rightarrow> detached_subagent_binding \<Rightarrow> permission_request \<Rightarrow> int \<Rightarrow> poll \<Rightarrow> permission_response \<Rightarrow> bool" where
  "consumed w b scoped deadline po response \<longleftrightarrow>
     \<not> po_cancelled po \<and> \<not> po_cancelled_before po \<and> \<not> po_cancelled_after po
     \<and> po_now po < deadline \<and> po_now_before po < deadline \<and> po_now_after po < deadline
     \<and> (\<exists>e interaction. dp_response e = Some response \<and> dp_request e = scoped
          \<and> detached_permission_interaction_id w b (pq_id scoped) = Inr interaction
          \<and> detached_permission_request_digest w scoped (db_attempt_id b) (db_authority_digest b) interaction (db_public_key b) =
              Some (dp_request_digest e)
          \<and> verify_response_signature_with_key w (db_public_key b) e)"

lemma poll_once_response:
  assumes "poll_once w b request scoped key deadline po r = (Some (Inr response), r')" "pq_id scoped = pq_id request"
  shows "consumed w b scoped deadline po response"
proof -
  from assms(1) obtain e r1 where clocks: "\<not> po_cancelled po" "po_now po < deadline"
    and look: "on_session (\<lambda>io. lookup_request w io key) (po_lookup po) r = (Inr (Some e), r1)"
    and matches: "record_matches w b request scoped key e = Inr True" and resp: "dp_response e = Some response"
    and cons: "consume_response w b key deadline po e response r1 = (Inr response, r')"
    by (auto simp: poll_once_def interrupted_def consume_response_def
        split: option.splits prod.splits sum.splits if_splits bool.splits)
  from look have valid: "verify_request_digest w e"
    by (auto simp: on_session_def validate_detached_permission_entry_def dest!: lookup_request_Some
        split: prod.splits option.splits if_splits)
  from cons have "\<not> po_cancelled_before po \<and> \<not> po_cancelled_after po \<and> po_now_before po < deadline \<and> po_now_after po < deadline
    \<and> verify_response_signature_with_key w (db_public_key b) e"
    by (auto simp: consume_response_def interrupted_def split: option.splits prod.splits sum.splits if_splits)
  with clocks matches resp valid assms(2) show ?thesis
    by (auto simp: consumed_def record_matches_def verify_request_digest_def split: sum.splits permission_context.splits)
qed

lemma request_loop_response:
  assumes "request_loop w b request scoped key deadline pos r = (Some (Inr response), r')" "pq_id scoped = pq_id request"
  shows "\<exists>po \<in> set pos. consumed w b scoped deadline po response"
  using assms
proof (induction w b request scoped key deadline pos r rule: request_loop.induct)
  case (2 w b request scoped key deadline po pos r)
  show ?case
  proof (cases "poll_once w b request scoped key deadline po r")
    case (Pair res r1)
    with 2 poll_once_response [of w b request scoped key deadline po r response r'] show ?thesis
      by (cases res) auto
  qed
qed simp

text \<open>The wait ends: the round that finds the deadline passed returns at the latest.\<close>

lemma waiting_ends:
  "\<exists>po \<in> set pos. po_cancelled po \<or> deadline \<le> po_now po \<Longrightarrow> fst (request_loop w b request scoped key deadline pos r) \<noteq> None"
proof (induction w b request scoped key deadline pos r rule: request_loop.induct)
  case (2 w b request scoped key deadline po pos r)
  show ?case
  proof (cases "po_cancelled po \<or> deadline \<le> po_now po")
    case True
    then show ?thesis by (auto simp: poll_once_def interrupted_def split: prod.splits)
  next
    case False
    with 2 show ?thesis by (auto split: prod.splits option.splits)
  qed
qed simp

lemma scoped_request_Inr:
  assumes "scoped_request ident request = Inr scoped"
  shows "pq_id scoped = pq_id request" "pq_permissions scoped = pq_permissions request" "pq_reason scoped = pq_reason request"
    "\<exists>task_id task_revision agent_id agent_revision turn_id. ci_task_id ident = Some task_id \<and> ci_task_revision_floor ident = Some task_revision
       \<and> ci_agent_id ident = Some agent_id \<and> ci_turn_id ident = Some turn_id
       \<and> pq_context scoped = ChildContext task_id task_revision agent_id agent_revision (pq_id request) turn_id (pq_id request) SurfaceChildAgent"
  using assms
  by (auto simp: scoped_request_def context_for_def child_context_def try_bind_Inr split: option.splits if_splits)

text \<open>
  C24: Whatever other processes write to the mailbox, and however long the child waits: if its request is answered with
  an allowance, then the actor itself resolved a request with exactly that answer and with the digest of the request of
  this child, made with the identity of the child and not with what the model wrote. The child was not cancelled and its
  deadline had not passed when it last looked. This rests on signatures under the key of the actor not being forged,
  and on the serialization being faithful.
\<close>

theorem detached_allow_was_granted:
  assumes "faithful_wire w"
    and "\<forall>m signature. mw_verify w (db_public_key b) m signature \<longrightarrow> (\<exists>c \<in> set calls. signed_message w c = Some (db_public_key b, m))"
    and "request_inner w b ident io env now pos request r = (Some (Inr response), r')"
    and "ps_decision response = PermissionAllow"
  shows "\<exists>c \<in> set calls. \<exists>scoped interaction. ac_response c = response
    \<and> scoped_request ident request = Inr scoped \<and> pq_permissions scoped = pq_permissions request
    \<and> detached_permission_interaction_id w b (pq_id request) = Inr interaction
    \<and> detached_permission_request_digest w scoped (db_attempt_id b) (db_authority_digest b) interaction (db_public_key b) =
        Some (ac_request_digest c)
    \<and> (\<exists>po \<in> set pos. \<not> po_cancelled_after po \<and> po_now_after po < now + wait_timeout)"
proof -
  from assms(3) obtain scoped key r1 where sc: "scoped_request ident request = Inr scoped"
    and loop: "request_loop w b request scoped key (now + wait_timeout) pos r1 = (Some (Inr response), r')"
    by (auto simp: request_inner_def split: sum.splits prod.splits)
  note ids = scoped_request_Inr [OF sc]
  from request_loop_response [OF loop ids(1)] obtain po e interaction where po: "po \<in> set pos" "\<not> po_cancelled_after po"
      "po_now_after po < now + wait_timeout"
    and e: "dp_response e = Some response" "detached_permission_interaction_id w b (pq_id request) = Inr interaction"
      "detached_permission_request_digest w scoped (db_attempt_id b) (db_authority_digest b) interaction (db_public_key b) =
         Some (dp_request_digest e)" "verify_response_signature_with_key w (db_public_key b) e"
    unfolding consumed_def ids(1) by blast
  from e(1,4) assms(4) obtain m signature where m: "detached_permission_response_signing_bytes w (dp_request_digest e) response = Some m"
    "mw_verify w (db_public_key b) m signature"
    by (auto simp: verify_response_signature_with_key_def verify_detached_permission_response_signature_def split: option.splits)
  with assms(2) obtain c where c: "c \<in> set calls" "signed_message w c = Some (db_public_key b, m)" by blast
  from signing_bytes_inj [OF assms(1) m(1) signed_message_Some(1) [OF c(2)]]
  have "dp_request_digest e = ac_request_digest c" "response = ac_response c" by simp_all
  with c(1) sc ids(2) e(2,3) po show ?thesis by metis
qed

end
