(* ===== verification/Detached_Samples.thy ===== *)
theory Detached_Samples
  imports Detached_Trust
begin

text \<open>One child, one request and one signed answer.\<close>

definition mail_key :: bytes where "mail_key = replicate 32 1"

definition mail_binding :: detached_subagent_binding where
  "mail_binding =
     \<lparr>db_task_id = ''t'', db_subagent_id = ''a'', db_parent_task_id = None, db_task_revision = 1, db_attempt_id = ''x'',
      db_parent_fence = None, db_authority_digest = mail_key, db_public_key = mail_key\<rparr>"

definition mail_profile :: request_permission_profile where
  "mail_profile = \<lparr>rp_file_system = None, rp_network = None\<rparr>"

definition mail_request :: permission_request where
  "mail_request = \<lparr>pq_id = ''q'', pq_reason = None, pq_permissions = mail_profile, pq_context = ForegroundContext SurfaceUnknown\<rparr>"

definition mail_scoped :: permission_request where
  "mail_scoped = mail_request\<lparr>pq_context := ChildContext ''t'' 1 ''a'' 1 ''q'' ''u'' ''q'' SurfaceChildAgent\<rparr>"

definition mail_identity :: child_permission_identity where
  "mail_identity = identity_new ''t'' ''a'' ''u'' 1"

definition mail_allow :: permission_response where
  "mail_allow = \<lparr>ps_decision = PermissionAllow, ps_scope = TurnScope, ps_permissions = mail_profile, ps_strict_auto_review = False\<rparr>"

definition mail_interaction :: bytes where
  "mail_interaction = (take 16 mail_key)[6 := 0x71, 8 := 0x81]"

definition mail_values :: "json_value list" where
  "mail_values =
     [JArray [JString ''orca.detached-permission.interaction.v1'', JString ''t'', JString ''a'', JNumber (PosInt 1), JString ''x'',
        bytes_value mail_key, JString ''q''],
      JArray [JNull, JString ''x'', bytes_value mail_key, JString ''u'', bytes_value mail_key],
      JArray [bytes_value mail_key, JNull]]"

definition mail_wire :: mailbox_wire where
  "mail_wire =
     \<lparr>mw_request_value = (\<lambda>_. Some JNull), mw_response_value = (\<lambda>a. if a = mail_allow then Some JNull else None),
      mw_uuid = (\<lambda>_. ''u''), mw_to_vec = map_of (zip mail_values [''1'', ''2'', ''3'']),
      mw_entry_bytes = (\<lambda>_. Some 0), mw_mailbox_bytes = (\<lambda>_. Some 0), mw_mailbox_pretty = (\<lambda>_. Some 0),
      mw_binding_bytes = (\<lambda>_. Some 0), mw_bindings_bytes = (\<lambda>_. Some 0), mw_bindings_pretty = (\<lambda>_. Some 0),
      mw_sha256 = (\<lambda>_. mail_key),
      mw_verify = (\<lambda>k m s. k = mail_key \<and> m = ''orca.detached-permission.response.v1'' @ CHR 0x00 # ''3'')\<rparr>"

lemma mail_faithful: "faithful_wire mail_wire"
proof -
  have "distinct mail_values" by (simp add: mail_values_def)
  then have "v = v'" if "mw_to_vec mail_wire v = Some s" "mw_to_vec mail_wire v' = Some s" for v v' s
    using that by (auto simp: mail_wire_def mail_values_def split: if_splits)
  then show ?thesis unfolding faithful_wire_def by (auto simp: mail_wire_def split: if_splits)
qed

lemma mail_interaction_id: "detached_permission_interaction_id mail_wire mail_binding ''q'' = Inr mail_interaction"
proof -
  have "length mail_interaction = 16" "mail_interaction ! 6 = 0x71" "mail_interaction ! 8 = 0x81"
    by (simp_all add: mail_interaction_def mail_key_def)
  moreover have "drop_bit 4 (0x71 :: 8 word) = 7" "drop_bit 6 (0x81 :: 8 word) = 2" by simp_all
  ultimately have "is_uuid_v7 mail_interaction" by (simp only: is_uuid_v7_def)
  then show ?thesis
    by (simp add: detached_permission_interaction_id_def canonical_json_bytes_def mail_wire_def mail_values_def mail_binding_def
        mail_interaction_def mail_key_def Let_def)
qed

subsection \<open>The files\<close>

definition mail_pending :: detached_permission_request where
  "mail_pending =
     \<lparr>dp_schema_version = 3, dp_key = ''t:x:q'', dp_interaction_id = mail_interaction, dp_request = mail_scoped,
      dp_attempt_id = ''x'', dp_authority_digest = mail_key, dp_public_key = mail_key, dp_request_digest = mail_key,
      dp_response = None, dp_response_digest = None, dp_response_signature = None\<rparr>"

definition mail_answered :: detached_permission_request where
  "mail_answered = mail_pending\<lparr>dp_response := Some mail_allow, dp_response_digest := Some mail_key,
     dp_response_signature := Some (replicate 64 0)\<rparr>"

definition mail_files :: "detached_permission_request list \<Rightarrow> session_files" where
  "mail_files es = \<lparr>sf_mailbox = Stored (map (Pair ''t:x:q'') es), sf_bindings = Stored [(''t'', mail_binding)]\<rparr>"

definition mail_registry :: task_registry where
  "mail_registry =
     \<lparr>tr_session_id = ''s'', tr_open_error = None,
      tr_tasks = [''t'' \<mapsto> \<lparr>tk_task_type = SubagentTask, tk_parent_task_id = None, tk_status = TaskRunning, tk_completed_at_ms = None,
                            tk_worker_pid = None, tk_lease_owner = None\<rparr>],
      tr_continuations = Inr [\<lparr>cn_latest_task_id = ''t'', cn_attempt_id = ''x'', cn_parent_task_id = None\<rparr>],
      tr_bindings = Map.empty, tr_requests = Map.empty,
      tr_signers = [''t:x'' \<mapsto> \<lparr>rs_public_key = mail_key, rs_sign = (\<lambda>_. replicate 64 0)\<rparr>]\<rparr>"

definition mail_io :: mailbox_io where "mail_io = \<lparr>mi_lock = None, mi_write = None\<rparr>"

lemma mail_trim: "trim ''t'' \<noteq> []" "trim ''a'' \<noteq> []" "trim ''q'' \<noteq> []"
  by code_simp+

lemma mail_key_nonzero: "\<not> all_zero mail_key"
  by (simp add: all_zero_def mail_key_def list_all_iff)

lemma mail_binding_valid:
  "validate_detached_subagent_binding (Some ''t'') mail_binding = Inr ()"
  "validate_detached_subagent_binding_map mail_wire [(''t'', mail_binding)] = Inr ()"
proof -
  show 1: "validate_detached_subagent_binding (Some ''t'') mail_binding = Inr ()"
    using mail_trim mail_key_nonzero by (simp add: validate_detached_subagent_binding_def mail_binding_def text_id_ok_def)
  show "validate_detached_subagent_binding_map mail_wire [(''t'', mail_binding)] = Inr ()"
    using 1 by (simp add: validate_detached_subagent_binding_map_def validate_binding_entry_def mail_wire_def try_bind_def
        max_detached_bindings_def)
qed

lemma mail_digests:
  "detached_permission_request_digest mail_wire mail_scoped ''x'' mail_key i mail_key = Some mail_key"
  "detached_permission_response_digest mail_wire mail_key mail_allow = Some mail_key"
  "detached_permission_response_signing_bytes mail_wire mail_key mail_allow =
     Some (''orca.detached-permission.response.v1'' @ CHR 0x00 # ''3'')"
  by (simp_all add: detached_permission_request_digest_def request_tuple_def canonical_json_bytes_def mail_wire_def mail_values_def
      detached_permission_response_digest_def response_tuple_def detached_permission_response_signing_bytes_def)

lemma mail_entries_valid:
  "validate_detached_permission_entry mail_wire (Some ''t:x:q'') mail_pending = Inr ()"
  "validate_detached_permission_entry mail_wire (Some ''t:x:q'') mail_answered = Inr ()"
proof -
  have sizes: "mw_entry_bytes mail_wire e = Some 0" for e by (simp add: mail_wire_def)
  note defs = validate_detached_permission_entry_def owner_key_matches_def owner_key_def verify_request_digest_def
    verify_response_digest_def verify_response_signature_def verify_response_signature_with_key_def
    verify_detached_permission_response_signature_def mail_pending_def detached_permission_schema_version_def
    max_detached_permission_entry_bytes_def max_detached_permission_request_id_bytes_def detached_permission_signature_bytes_def
  have verify: "mw_verify mail_wire mail_key (''orca.detached-permission.response.v1'' @ CHR 0x00 # ''3'') (replicate 64 0)"
    by (simp add: mail_wire_def)
  have scoped: "pq_id mail_scoped = ''q''" "pq_reason mail_scoped = None"
    "pq_context mail_scoped = ChildContext ''t'' 1 ''a'' 1 ''q'' ''u'' ''q'' SurfaceChildAgent"
    by (simp_all add: mail_scoped_def mail_request_def)
  show "validate_detached_permission_entry mail_wire (Some ''t:x:q'') mail_pending = Inr ()"
    using mail_key_nonzero by (simp add: defs sizes scoped mail_digests)
  have "ps_decision mail_allow = PermissionAllow" by (simp add: mail_allow_def)
  then show "validate_detached_permission_entry mail_wire (Some ''t:x:q'') mail_answered = Inr ()"
    using mail_key_nonzero verify by (simp add: defs sizes scoped mail_digests mail_answered_def)
qed

lemma mail_maps_valid:
  "validate_detached_permission_map mail_wire [(''t:x:q'', mail_pending)] = Inr ()"
  "validate_detached_permission_map mail_wire [(''t:x:q'', mail_answered)] = Inr ()"
  "validate_detached_permission_map mail_wire [] = Inr ()"
  using mail_entries_valid
  by (simp_all add: validate_detached_permission_map_def max_detached_permission_requests_def mail_wire_def [THEN arg_cong, of mw_mailbox_bytes]
      try_bind_def)

lemma mail_loads:
  assumes "validate_detached_permission_map mail_wire (map (Pair ''t:x:q'') es) = Inr ()"
  shows "load_requests mail_wire mail_io (mail_files es) = Inr (map (Pair ''t:x:q'') es)"
    "load_bindings mail_wire mail_io (mail_files es) = Inr [(''t'', mail_binding)]"
    "tr_open_error r = None \<Longrightarrow> load_session mail_wire mail_io (r, mail_files es) = Inr (map (Pair ''t:x:q'') es, [(''t'', mail_binding)])"
  using assms mail_binding_valid
  by (simp_all add: load_requests_def load_bindings_def load_session_def take_lock_def mail_io_def mail_files_def try_bind_def check_open_def
      load_detached_permission_requests_unlocked_def load_detached_bindings_unlocked_def)

subsection \<open>The exchange\<close>

lemma mail_scoped_fields:
  "pq_id mail_scoped = ''q''" "pq_reason mail_scoped = None" "pq_id mail_request = ''q''"
  "pq_context mail_scoped = ChildContext ''t'' 1 ''a'' 1 ''q'' ''u'' ''q'' SurfaceChildAgent"
  by (simp_all add: mail_scoped_def mail_request_def)

lemma mail_binding_fields:
  "db_task_id mail_binding = ''t''" "db_subagent_id mail_binding = ''a''" "db_task_revision mail_binding = 1"
  "db_attempt_id mail_binding = ''x''" "db_authority_digest mail_binding = mail_key" "db_public_key mail_binding = mail_key"
  "db_parent_task_id mail_binding = None"
  by (simp_all add: mail_binding_def)

lemma mail_entry_fields:
  "dp_key mail_pending = ''t:x:q''" "dp_request mail_pending = mail_scoped" "dp_interaction_id mail_pending = mail_interaction"
  "dp_attempt_id mail_pending = ''x''" "dp_authority_digest mail_pending = mail_key" "dp_public_key mail_pending = mail_key"
  "dp_request_digest mail_pending = mail_key" "dp_response mail_pending = None"
  by (simp_all add: mail_pending_def)

lemma mail_answer_fields:
  "dp_key mail_answered = ''t:x:q''" "dp_request mail_answered = mail_scoped" "dp_interaction_id mail_answered = mail_interaction"
  "dp_attempt_id mail_answered = ''x''" "dp_authority_digest mail_answered = mail_key" "dp_public_key mail_answered = mail_key"
  "dp_request_digest mail_answered = mail_key" "dp_response mail_answered = Some mail_allow" "dp_response_digest mail_answered = Some mail_key"
  "dp_response_signature mail_answered = Some (replicate 64 0)"
  by (simp_all add: mail_answered_def mail_pending_def)

lemmas mail_fields = mail_scoped_fields mail_binding_fields mail_entry_fields mail_answer_fields mail_interaction_id mail_digests

lemma mail_scope: "scoped_request mail_identity mail_request = Inr mail_scoped"
  using mail_trim(3)
  by (simp add: scoped_request_def context_for_def mail_identity_def identity_new_def mail_fields text_id_ok_def child_context_def
      try_bind_def mail_scoped_def)

lemma mail_bound:
  "validate_detached_permission_binding mail_wire mail_pending mail_binding = Inr ()"
  "validate_detached_permission_binding mail_wire mail_answered mail_binding = Inr ()"
  "verify_response_signature_with_key mail_wire mail_key mail_answered"
  using mail_entries_valid
  by (simp_all add: validate_detached_permission_binding_def mail_fields owner_key_def validate_detached_permission_entry_def
      verify_response_signature_def split: option.splits if_splits)

lemma mail_stores:
  assumes "validate_detached_permission_map mail_wire es = Inr ()"
  shows "store_requests mail_wire mail_io es f = (Inr (), f\<lparr>sf_mailbox := Stored es\<rparr>)"
proof -
  have "mw_mailbox_pretty mail_wire es = Some 0" by (simp add: mail_wire_def)
  with assms show ?thesis
    by (simp add: store_requests_def write_detached_permission_requests_unlocked_def write_stored_def mail_io_def)
qed

lemma mail_enqueued:
  "\<exists>r. on_session (\<lambda>io. enqueue_detached_permission_request mail_wire mail_io io mail_binding mail_scoped) (mail_io, mail_files []) mail_registry =
     (Inr ''t:x:q'', r) \<and> tr_open_error r = None"
proof -
  have owner: "try_bind (request_owner_matches mail_binding mail_scoped) (\<lambda>_. check_open mail_registry) = Inr ()"
    by (simp add: request_owner_matches_def mail_fields try_bind_def check_open_def mail_registry_def
        max_detached_permission_request_id_bytes_def)
  have "load_bindings mail_wire mail_io (mail_files []) = Inr [(''t'', mail_binding)]" "load_requests mail_wire mail_io (mail_files []) = Inr []"
    using mail_loads [of "[]"] mail_maps_valid(3) by simp_all
  then have cur: "current_detached_binding mail_wire mail_io ''t'' (mail_registry, mail_files []) =
      (Inr (Some mail_binding), mail_registry\<lparr>tr_bindings := [''t'' \<mapsto> mail_binding]\<rparr>, mail_files [])"
    using mail_binding_valid(1)
    by (simp add: current_detached_binding_def try_bind_def check_open_def mail_registry_def mail_fields)
  have cand: "make_candidate mail_wire mail_binding mail_scoped = Inr mail_pending"
    by (simp add: make_candidate_def mail_fields try_bind_def mail_pending_def detached_permission_schema_version_def owner_key_def)
  have "enqueue_candidate mail_wire mail_io ''t:x:q'' mail_binding mail_scoped (r, mail_files []) =
      (Inr ''t:x:q'', mirror_request ''t:x:q'' mail_pending r, (mail_files [])\<lparr>sf_mailbox := Stored [(''t:x:q'', mail_pending)]\<rparr>)" for r
    using \<open>load_requests mail_wire mail_io (mail_files []) = Inr []\<close> mail_stores [OF mail_maps_valid(1)]
    by (simp add: enqueue_candidate_def cand insert_key_def remove_key_def)
  with owner cur show ?thesis
    by (simp add: on_session_def enqueue_detached_permission_request_def mail_fields owner_key_def mirror_request_def mail_registry_def)
qed

definition mail_poll :: poll where
  "mail_poll =
     \<lparr>po_cancelled = False, po_now = 1, po_lookup = (mail_io, mail_files [mail_answered]), po_cancelled_before = False, po_now_before = 2,
      po_acknowledge = (mail_io, mail_files [mail_answered]), po_cancelled_after = False, po_now_after = 3,
      po_denial = \<lparr>de_lookup = (mail_io, mail_files []), de_settle = (mail_io, mail_files []), de_again = (mail_io, mail_files []),
                   de_last = (mail_io, mail_files [])\<rparr>\<rparr>"

lemma mail_answer:
  assumes "tr_open_error r = None"
  shows "\<exists>r'. poll_once mail_wire mail_binding mail_request mail_scoped ''t:x:q'' wait_timeout mail_poll r = (Some (Inr mail_allow), r')"
proof -
  have loads: "load_requests mail_wire mail_io (mail_files [mail_answered]) = Inr [(''t:x:q'', mail_answered)]"
    "load_session mail_wire mail_io (r', mail_files [mail_answered]) = Inr ([(''t:x:q'', mail_answered)], [(''t'', mail_binding)])"
    if "tr_open_error r' = None" for r'
    using mail_loads [of "[mail_answered]"] mail_maps_valid(2) that by simp_all
  let ?r = "mirror_request ''t:x:q'' mail_answered r"
  have opened: "tr_open_error ?r = None" using assms by (simp add: mirror_request_def)
  have lookup: "lookup_request mail_wire mail_io ''t:x:q'' (r, mail_files [mail_answered]) = (Inr (Some mail_answered), ?r, mail_files [mail_answered])"
    using assms loads(1) [OF assms] mail_entries_valid(2) by (simp add: lookup_request_def try_bind_def check_open_def)
  have allow: "check_allow mail_wire [(''t'', mail_binding)] mail_answered mail_allow = Inr ()"
    using mail_bound mail_binding_valid(1)
    by (simp add: check_allow_def detached_permission_binding_from_map_def mail_fields try_bind_def)
  have ack: "acknowledge_detached_permission_request mail_wire mail_io ''t:x:q'' mail_key mail_key (?r, mail_files [mail_answered]) =
      (Inr (), forget_request ''t:x:q'' ?r, (mail_files [mail_answered])\<lparr>sf_mailbox := Stored []\<rparr>)"
    using loads(2) [OF opened] allow mail_stores [OF mail_maps_valid(3)]
    by (simp add: acknowledge_detached_permission_request_def mail_fields remove_key_def)
  have "record_matches mail_wire mail_binding mail_request mail_scoped ''t:x:q'' mail_answered = Inr True"
    by (simp add: record_matches_def mail_fields owner_key_def)
  moreover have "consume_response mail_wire mail_binding ''t:x:q'' wait_timeout mail_poll mail_answered mail_allow ?r =
      (Inr mail_allow, forget_request ''t:x:q'' ?r)"
    using ack mail_bound(3)
    by (simp add: consume_response_def interrupted_def mail_poll_def mail_fields on_session_def wait_timeout_def)
  ultimately show ?thesis
    using lookup by (simp add: poll_once_def interrupted_def on_session_def mail_poll_def mail_fields wait_timeout_def)
qed

definition mail_call :: actor_call where
  "mail_call =
     \<lparr>ac_io = mail_io, ac_key = ''t:x:q'', ac_request_digest = mail_key, ac_response = mail_allow, ac_registry = mail_registry,
      ac_files = mail_files [mail_pending]\<rparr>"

lemma mail_signed:
  "signed_message mail_wire mail_call = Some (mail_key, ''orca.detached-permission.response.v1'' @ CHR 0x00 # ''3'')"
proof -
  have load: "load_session mail_wire mail_io (mail_registry, mail_files [mail_pending]) = Inr ([(''t:x:q'', mail_pending)], [(''t'', mail_binding)])"
    using mail_loads(3) [of "[mail_pending]" mail_registry] mail_maps_valid(1) by (simp add: mail_registry_def)
  have key: "detached_signer_key ''t'' ''x'' = ''t:x''" by (simp add: detached_signer_key_def)
  have signer: "tr_signers mail_registry ''t:x'' = Some \<lparr>rs_public_key = mail_key, rs_sign = (\<lambda>_. replicate 64 0)\<rparr>" "length mail_key = 32"
    by (simp_all add: mail_registry_def mail_key_def)
  have "\<exists>sig. sign_detached_permission_response mail_wire mail_registry mail_pending mail_allow mail_binding = Inr sig"
    using mail_bound(1) signer by (simp add: sign_detached_permission_response_def mail_fields try_bind_def key)
  moreover have "detached_permission_binding_from_map mail_wire [(''t'', mail_binding)] mail_pending = Inr mail_binding"
    using mail_bound(1) mail_binding_valid(1) by (simp add: detached_permission_binding_from_map_def mail_fields try_bind_def)
  moreover have "ps_decision mail_allow = PermissionAllow" by (simp add: mail_allow_def)
  ultimately show ?thesis
    using load by (auto simp: signed_message_def mail_call_def mail_fields)
qed

theorem detached_allow_was_granted_witness:
  "\<exists>r'. request_inner mail_wire mail_binding mail_identity mail_io (mail_io, mail_files []) 0 [mail_poll] mail_request mail_registry =
       (Some (Inr mail_allow), r')
     \<and> (\<exists>c \<in> set [mail_call]. ac_response c = mail_allow \<and> ac_request_digest c = mail_key)"
proof -
  obtain r where r: "on_session (\<lambda>io. enqueue_detached_permission_request mail_wire mail_io io mail_binding mail_scoped)
      (mail_io, mail_files []) mail_registry = (Inr ''t:x:q'', r)" "tr_open_error r = None" using mail_enqueued by blast
  from mail_answer [OF r(2)] obtain r' where "poll_once mail_wire mail_binding mail_request mail_scoped ''t:x:q'' wait_timeout mail_poll r =
      (Some (Inr mail_allow), r')" by blast
  with r have run: "request_inner mail_wire mail_binding mail_identity mail_io (mail_io, mail_files []) 0 [mail_poll] mail_request mail_registry =
      (Some (Inr mail_allow), r')" by (simp add: request_inner_def mail_scope)
  have "\<forall>m s. mw_verify mail_wire (db_public_key mail_binding) m s \<longrightarrow>
      (\<exists>c \<in> set [mail_call]. signed_message mail_wire c = Some (db_public_key mail_binding, m))"
    using mail_signed by (simp add: mail_fields) (simp add: mail_wire_def)
  from detached_allow_was_granted [OF mail_faithful this run] obtain c where "c \<in> set [mail_call]" "ac_response c = mail_allow"
    by (auto simp: mail_allow_def)
  with run show ?thesis by (auto simp: mail_call_def)
qed

end
