(* ===== verification/Broker.thy ===== *)
theory Broker
  imports Capability
begin

text \<open>
  The execution broker, \<^verbatim>\<open>crates/orca-core/src/execution_broker.rs\<close>: the process-launch
  choke point. The operating system is a parameter, the record \<open>os\<close>: opening the working
  directory, canonicalizing a path and spawning the process. Every launch returns, beside its
  result, the operating-system calls it made, in order, so that theorems can speak of what a
  rejected launch did not do.
\<close>

datatype io_error = InvalidInput string | OsError string

datatype launch_error =
    EnforcementUnavailable string "sandbox_probe_evidence list"
  | EnforcementAdvisory
  | LaunchUntrustedProcessClass
  | CapabilityCeilingExceeded
  | NetworkTargetsUnsupported
  | RemoteBackendUnavailable
  | CwdError io_error
  | SpawnError io_error

datatype spawn_kind = SpawnJob | SpawnNamed string | SpawnDetached

datatype os_call = AttachCwd path_buf | Canonicalize path_buf | SpawnCall spawn_kind

record ('cmd, 'child) os =
  os_attach_stable_cwd :: "'cmd \<Rightarrow> path_buf \<Rightarrow> (io_error, 'cmd) result"
  os_canonicalize :: "path_buf \<Rightarrow> (io_error, path_buf) result"
  os_spawn :: "spawn_kind \<Rightarrow> 'cmd \<Rightarrow> (io_error, 'child) result"

record 'child broker_launch =
  bl_child :: 'child
  bl_receipt :: capability_receipt

record execution_broker =
  bk_enforcement :: enforcement_state
  bk_profile :: execution_profile
  bk_backend :: string
  bk_enforcement_evidence :: "sandbox_probe_evidence list"
  bk_ceiling :: capability_ceiling

subsection \<open>Construction\<close>

definition with_backend_and_ceiling ::
    "enforcement_state \<Rightarrow> string \<Rightarrow> capability_ceiling \<Rightarrow> execution_broker" where
  "with_backend_and_ceiling enf backend ce =
     \<lparr>bk_enforcement = enf, bk_profile = Workspace, bk_backend = backend,
      bk_enforcement_evidence = [], bk_ceiling = ce\<rparr>"

definition with_backend :: "enforcement_state \<Rightarrow> string \<Rightarrow> execution_broker" where
  "with_backend enf backend =
     \<lparr>bk_enforcement = enf, bk_profile = Workspace, bk_backend = backend,
      bk_enforcement_evidence = [], bk_ceiling = ceiling_of_caps caps_all\<rparr>"

definition broker_new :: "enforcement_state \<Rightarrow> execution_broker" where
  "broker_new enf = with_backend enf ''runtime-broker''"

definition with_enforcement_decision_and_ceiling ::
    "sandbox_enforcement_decision \<Rightarrow> capability_ceiling \<Rightarrow> execution_broker" where
  "with_enforcement_decision_and_ceiling d ce =
     \<lparr>bk_enforcement = sd_state d, bk_profile = Workspace, bk_backend = sd_backend d,
      bk_enforcement_evidence = sd_probes d, bk_ceiling = ce\<rparr>"

definition with_enforcement_decision :: "sandbox_enforcement_decision \<Rightarrow> execution_broker" where
  "with_enforcement_decision d =
     \<lparr>bk_enforcement = sd_state d, bk_profile = Workspace, bk_backend = sd_backend d,
      bk_enforcement_evidence = sd_probes d, bk_ceiling = ceiling_of_caps caps_all\<rparr>"

text \<open>\<^verbatim>\<open>with_profile\<close> panics if the intersection fails; it cannot, and \<open>None\<close> would be the panic.\<close>

definition with_profile :: "execution_profile \<Rightarrow> execution_broker \<Rightarrow> execution_broker option" where
  "with_profile profile b =
     (case caps_intersect (ce_capabilities (bk_ceiling b)) (capability_ceiling_of profile) of
        Inl _ \<Rightarrow> None
      | Inr c \<Rightarrow> Some (b\<lparr>bk_profile := profile,
                        bk_ceiling := (bk_ceiling b)\<lparr>ce_capabilities := c\<rparr>\<rparr>))"

subsection \<open>Validation\<close>

definition validate_capability ::
    "execution_broker \<Rightarrow> effective_capability \<Rightarrow> bool \<Rightarrow> (launch_error, unit) result" where
  "validate_capability b cap allow_user_trusted =
     (if ef_process_class cap = UserTrustedIntegration \<and> \<not> allow_user_trusted
      then Inl LaunchUntrustedProcessClass
      else if \<not> allow_user_trusted \<and> ef_network_targets cap \<noteq> {}
      then Inl NetworkTargetsUnsupported
      else
        try_bind (map_err (\<lambda>_. CapabilityCeilingExceeded) (ensure_subset_of cap (bk_ceiling b)))
          (\<lambda>_.
            if bk_profile b = RemoteSandbox then Inl RemoteBackendUnavailable
            else if bk_profile b = TrustedHost then Inr ()
            else (case bk_enforcement b of
                    Enforced \<Rightarrow> Inr ()
                  | Unavailable \<Rightarrow>
                      if ef_process_class cap \<noteq> UserTrustedIntegration
                      then Inl (EnforcementUnavailable (bk_backend b) (bk_enforcement_evidence b))
                      else Inr ()
                  | Advisory \<Rightarrow>
                      if ef_process_class cap \<noteq> UserTrustedIntegration
                      then Inl EnforcementAdvisory else Inr ())))"

definition authorize_platform ::
    "execution_broker \<Rightarrow> effective_capability \<Rightarrow> (launch_error, capability_receipt) result" where
  "authorize_platform b cap =
     try_bind (validate_capability b cap False)
       (\<lambda>_. Inr (receipt cap (bk_enforcement b) (bk_backend b)))"

definition broker_denial_receipt ::
    "execution_broker \<Rightarrow> effective_capability \<Rightarrow> string \<Rightarrow> path_buf option \<Rightarrow> sandbox_denial_receipt" where
  "broker_denial_receipt b cap operation denied_path =
     denial_receipt_new (ef_request_id cap) BackendDenial (bk_backend b) denied_path operation"

subsection \<open>Launching\<close>

type_synonym 'child launch_outcome = "os_call list \<times> (launch_error, 'child broker_launch) result"

definition launch_inner ::
    "('cmd, 'child) os \<Rightarrow> execution_broker \<Rightarrow> 'cmd \<Rightarrow> effective_capability \<Rightarrow> string option
     \<Rightarrow> bool \<Rightarrow> bool \<Rightarrow> 'child launch_outcome" where
  "launch_inner os b cmd cap job_name allow_user_trusted detached =
     (case validate_capability b cap allow_user_trusted of
        Inl e \<Rightarrow> ([], Inl e)
      | Inr _ \<Rightarrow>
          let attach = AttachCwd (ef_cwd cap) in
          (case os_attach_stable_cwd os cmd (ef_cwd cap) of
             Inl e \<Rightarrow> ([attach], Inl (CwdError e))
           | Inr cmd' \<Rightarrow>
               let spawn = (\<lambda>kind.
                 (case os_spawn os kind cmd' of
                    Inl e \<Rightarrow> ([attach, SpawnCall kind], Inl (SpawnError e))
                  | Inr child \<Rightarrow>
                      ([attach, SpawnCall kind],
                       Inr \<lparr>bl_child = child,
                            bl_receipt = receipt cap (bk_enforcement b) (bk_backend b)\<rparr>)))
               in (case (job_name, detached) of
                     (Some _, True) \<Rightarrow>
                       ([attach], Inl (SpawnError (InvalidInput
                          ''detached launches cannot use a named process job'')))
                   | (Some name, False) \<Rightarrow> spawn (SpawnNamed name)
                   | (None, True) \<Rightarrow> spawn SpawnDetached
                   | (None, False) \<Rightarrow> spawn SpawnJob)))"

definition launch ::
    "('cmd, 'child) os \<Rightarrow> execution_broker \<Rightarrow> 'cmd \<Rightarrow> effective_capability \<Rightarrow> 'child launch_outcome" where
  "launch os b cmd cap = launch_inner os b cmd cap None False False"

definition launch_detached ::
    "('cmd, 'child) os \<Rightarrow> execution_broker \<Rightarrow> 'cmd \<Rightarrow> effective_capability \<Rightarrow> 'child launch_outcome" where
  "launch_detached os b cmd cap = launch_inner os b cmd cap None False True"

definition launch_named ::
    "('cmd, 'child) os \<Rightarrow> execution_broker \<Rightarrow> 'cmd \<Rightarrow> effective_capability \<Rightarrow> string
     \<Rightarrow> 'child launch_outcome" where
  "launch_named os b cmd cap job_name = launch_inner os b cmd cap (Some job_name) False False"

definition launch_user_trusted_inner ::
    "('cmd, 'child) os \<Rightarrow> execution_broker \<Rightarrow> 'cmd \<Rightarrow> string \<Rightarrow> path_buf \<Rightarrow> capability_set
     \<Rightarrow> string option \<Rightarrow> bool \<Rightarrow> 'child launch_outcome" where
  "launch_user_trusted_inner os b cmd request_id cwd capabilities job_name detached =
     (case os_canonicalize os cwd of
        Inl e \<Rightarrow> ([Canonicalize cwd], Inl (CwdError e))
      | Inr cwd' \<Rightarrow>
          let rq = request_new request_id UserTrustedIntegration capabilities cwd' in
          (case resolve_user_trusted rq (ceiling_of_caps capabilities) FullAuto of
             Inl _ \<Rightarrow> ([Canonicalize cwd], Inl EnforcementAdvisory)
           | Inr effective \<Rightarrow>
               (let (calls, r) = launch_inner os b cmd effective job_name True detached
                in (Canonicalize cwd # calls, r))))"

definition launch_user_trusted where
  "launch_user_trusted os b cmd request_id cwd capabilities =
     launch_user_trusted_inner os b cmd request_id cwd capabilities None False"

definition launch_user_trusted_detached where
  "launch_user_trusted_detached os b cmd request_id cwd capabilities =
     launch_user_trusted_inner os b cmd request_id cwd capabilities None True"

definition launch_user_trusted_named where
  "launch_user_trusted_named os b cmd request_id cwd capabilities job_name =
     launch_user_trusted_inner os b cmd request_id cwd capabilities (Some job_name) False"

subsection \<open>What validation establishes\<close>

definition spawned :: "'child launch_outcome \<Rightarrow> bool" where
  "spawned out \<longleftrightarrow> (\<exists>k. SpawnCall k \<in> set (fst out))"

text \<open>The launches open to tool and model requests, as one operation.\<close>

datatype ordinary_launch = Launch | LaunchDetached | LaunchNamed string

fun run_ordinary ::
    "('cmd, 'child) os \<Rightarrow> execution_broker \<Rightarrow> 'cmd \<Rightarrow> effective_capability \<Rightarrow> ordinary_launch
     \<Rightarrow> 'child launch_outcome" where
  "run_ordinary os b cmd cap Launch = launch os b cmd cap"
| "run_ordinary os b cmd cap LaunchDetached = launch_detached os b cmd cap"
| "run_ordinary os b cmd cap (LaunchNamed n) = launch_named os b cmd cap n"

lemma validate_capability_ordinary:
  "validate_capability b cap False = Inr u \<longleftrightarrow>
     ef_process_class cap \<noteq> UserTrustedIntegration
     \<and> ef_network_targets cap = {}
     \<and> ensure_subset_of cap (bk_ceiling b) = Inr ()
     \<and> bk_profile b \<noteq> RemoteSandbox
     \<and> (bk_profile b = TrustedHost \<or> bk_enforcement b = Enforced)"
  by (cases "bk_enforcement b") (auto simp: validate_capability_def)

lemma validate_capability_user_trusted:
  assumes "ef_process_class cap = UserTrustedIntegration"
  shows "validate_capability b cap True = Inr u \<longleftrightarrow>
     ensure_subset_of cap (bk_ceiling b) = Inr () \<and> bk_profile b \<noteq> RemoteSandbox"
  using assms by (cases "bk_enforcement b") (auto simp: validate_capability_def)

lemma launch_inner_spawned:
  "spawned (launch_inner os b cmd cap job allow det) \<Longrightarrow> validate_capability b cap allow = Inr ()"
  by (auto simp: launch_inner_def spawned_def split: sum.splits)

lemma launch_inner_rejected:
  "validate_capability b cap allow = Inl e \<Longrightarrow>
   launch_inner os b cmd cap job allow det = ([], Inl e)"
  by (simp add: launch_inner_def)

lemma launch_inner_ok:
  assumes "launch_inner os b cmd cap job allow det = (calls, Inr l)"
  shows "validate_capability b cap allow = Inr ()"
    and "bl_receipt l = receipt cap (bk_enforcement b) (bk_backend b)"
    and "\<exists>k. calls = [AttachCwd (ef_cwd cap), SpawnCall k]"
  using assms
  by (auto simp: launch_inner_def Let_def split: sum.splits option.splits bool.splits)

lemma run_ordinary_inner:
  "\<exists>job det. run_ordinary os b cmd cap k = launch_inner os b cmd cap job False det"
  by (cases k) (auto simp: launch_def launch_detached_def launch_named_def)

lemma with_profile_total: "\<exists>b'. with_profile p b = Some b'"
  by (simp add: with_profile_def caps_intersect_def)

lemma with_profile_caps:
  assumes "with_profile p b = Some b'"
  shows "\<forall>k. has_bit (ce_capabilities (bk_ceiling b')) k \<longleftrightarrow>
           has_bit (ce_capabilities (bk_ceiling b)) k \<and> has_bit (capability_ceiling_of p) k"
    and "bk_profile b' = p"
  using assms by (auto simp: with_profile_def caps_intersect_def cap_bit_all)

subsection \<open>Properties\<close>

text \<open>
  C2: The launch gate fails closed. If an ordinary launch (plain, detached or named) makes any
  spawn call at all, then the process is not self-declared trusted, asks for no network target
  list, its capability lies within the broker's ceiling, the profile is not the remote sandbox,
  and either the backend really enforces the sandbox or the profile is the trusted host. A
  launch that fails these conditions makes no operating-system call.
\<close>

theorem ordinary_launch_fails_closed:
  "(spawned (run_ordinary os b cmd cap k) \<longrightarrow>
      ef_process_class cap \<noteq> UserTrustedIntegration
      \<and> ef_network_targets cap = {}
      \<and> ensure_subset_of cap (bk_ceiling b) = Inr ()
      \<and> bk_profile b \<noteq> RemoteSandbox
      \<and> (bk_profile b = TrustedHost \<or> bk_enforcement b = Enforced))
   \<and> (\<forall>e. validate_capability b cap False = Inl e \<longrightarrow> run_ordinary os b cmd cap k = ([], Inl e))"
proof -
  obtain job det where eq: "run_ordinary os b cmd cap k = launch_inner os b cmd cap job False det"
    using run_ordinary_inner [of os b cmd cap k] by blast
  have "validate_capability b cap False = Inr ()" if "spawned (run_ordinary os b cmd cap k)"
    using that eq launch_inner_spawned by metis
  then show ?thesis
    by (auto simp: eq validate_capability_ordinary launch_inner_rejected)
qed

definition demo_os :: "(string, string) os" where
  "demo_os =
     \<lparr>os_attach_stable_cwd = (\<lambda>cmd cwd. Inr cmd), os_canonicalize = Inr,
      os_spawn = (\<lambda>kind cmd. Inr cmd)\<rparr>"

definition demo_local :: effective_capability where
  "demo_local = demo_effective\<lparr>ef_network_targets := {}\<rparr>"

theorem ordinary_launch_fails_closed_witness:
  "spawned (run_ordinary demo_os (broker_new Enforced) ''ls'' demo_local LaunchDetached)
   \<and> ef_network_targets demo_local = {} \<and> bk_enforcement (broker_new Enforced) = Enforced
   \<and> run_ordinary demo_os (broker_new Advisory) ''ls'' demo_local Launch = ([], Inl EnforcementAdvisory)"
proof -
  have "launch_detached demo_os (broker_new Enforced) ''ls'' demo_local =
        ([AttachCwd (ef_cwd demo_local), SpawnCall SpawnDetached],
         Inr \<lparr>bl_child = ''ls'', bl_receipt = receipt demo_local Enforced ''runtime-broker''\<rparr>)"
    by code_simp
  then have sp: "spawned (run_ordinary demo_os (broker_new Enforced) ''ls'' demo_local LaunchDetached)"
    by (simp add: spawned_def)
  have rej: "validate_capability (broker_new Advisory) demo_local False = Inl EnforcementAdvisory"
    by code_simp
  have "bk_enforcement (broker_new Enforced) = Enforced"
    by (simp add: broker_new_def with_backend_def)
  moreover note ordinary_launch_fails_closed
    [of demo_os "broker_new Enforced" "''ls''" demo_local LaunchDetached]
  moreover note ordinary_launch_fails_closed
    [of demo_os "broker_new Advisory" "''ls''" demo_local Launch]
  ultimately show ?thesis using sp rej by blast
qed

text \<open>
  The receipt of a launch is the truth about it: a successful launch, ordinary or
  user-trusted, opened the capability's working directory and then spawned exactly once, and
  its receipt carries the capability that was checked against the ceiling together with the
  broker's enforcement state and backend. A user-trusted launch carries the user-trusted class
  and no more than the capability bits it was given, and never runs under a remote profile.
\<close>

theorem launch_receipt_truthful:
  assumes "run_ordinary os b cmd cap k = (calls, Inr l)"
  shows "bl_receipt l = receipt cap (bk_enforcement b) (bk_backend b)
         \<and> (\<exists>kind. calls = [AttachCwd (rc_cwd (bl_receipt l)), SpawnCall kind])
         \<and> ensure_subset_of cap (bk_ceiling b) = Inr ()"
proof -
  obtain job det where eq: "launch_inner os b cmd cap job False det = (calls, Inr l)"
    using run_ordinary_inner [of os b cmd cap k] assms by metis
  from launch_inner_ok [OF eq] show ?thesis
    by (simp add: receipt_fields validate_capability_ordinary)
qed

theorem launch_receipt_truthful_witness:
  "run_ordinary demo_os (broker_new Enforced) ''ls'' demo_local Launch =
     ([AttachCwd (path_of ''/w''), SpawnCall SpawnJob],
      Inr \<lparr>bl_child = ''ls'', bl_receipt = receipt demo_local Enforced ''runtime-broker''\<rparr>)
   \<and> ensure_subset_of demo_local (bk_ceiling (broker_new Enforced)) = Inr ()"
proof -
  have run: "run_ordinary demo_os (broker_new Enforced) ''ls'' demo_local Launch =
     ([AttachCwd (path_of ''/w''), SpawnCall SpawnJob],
      Inr \<lparr>bl_child = ''ls'', bl_receipt = receipt demo_local Enforced ''runtime-broker''\<rparr>)"
    by code_simp
  from launch_receipt_truthful [OF run] run show ?thesis by simp
qed

text \<open>
  The user-trusted entry points. Whatever directory the caller names, a launch that spawns
  has a broker whose profile is not remote, its receipt carries the user-trusted class, grants
  exactly the capability bits the caller passed (all inside the broker's ceiling) and no
  roots, denied roots or network targets, and reports the canonical directory.
\<close>

theorem user_trusted_launch_bounded:
  assumes "launch_user_trusted_inner os b cmd rid cwd caps job det = (calls, Inr l)"
  shows "bk_profile b \<noteq> RemoteSandbox
         \<and> os_canonicalize os cwd = Inr (rc_cwd (bl_receipt l))
         \<and> rc_process_class (bl_receipt l) = UserTrustedIntegration
         \<and> rc_capabilities (bl_receipt l) = caps
         \<and> caps_within caps (ce_capabilities (bk_ceiling b))
         \<and> rc_read_roots (bl_receipt l) = [] \<and> rc_write_roots (bl_receipt l) = []
         \<and> rc_network_targets (bl_receipt l) = {}"
proof -
  from assms obtain cwd' ef calls' where can: "os_canonicalize os cwd = Inr cwd'"
    and res: "resolve_user_trusted (request_new rid UserTrustedIntegration caps cwd')
              (ceiling_of_caps caps) FullAuto = Inr ef"
    and run: "launch_inner os b cmd ef job True det = (calls', Inr l)"
    by (auto simp: launch_user_trusted_inner_def Let_def split: sum.splits prod.splits)
  from res have inner: "resolve_inner (request_new rid UserTrustedIntegration caps cwd')
              (ceiling_of_caps caps) FullAuto = Inr ef"
    by (simp add: resolve_user_trusted_def request_new_def)
  note F = resolve_inner_fields [OF inner]
  from F(1) have "ef_capabilities ef = caps"
    by (cases "ef_capabilities ef"; cases caps)
       (simp add: request_new_def ceiling_of_caps_def caps_all_def cap_bit_all)
  moreover from F have cls: "ef_process_class ef = UserTrustedIntegration"
    and "ef_cwd ef = cwd'" "ef_read_roots ef = []" "ef_write_roots ef = []"
    "ef_network_targets ef = {}"
    by (simp_all add: request_new_def ceiling_of_caps_def intersect_roots_def)
  moreover from launch_inner_ok [OF run] cls
  have "ensure_subset_of ef (bk_ceiling b) = Inr ()" "bk_profile b \<noteq> RemoteSandbox"
    "bl_receipt l = receipt ef (bk_enforcement b) (bk_backend b)"
    by (simp_all add: validate_capability_user_trusted)
  ultimately show ?thesis
    using can by (simp add: receipt_fields ensure_subset_of_ok_iff)
qed

theorem user_trusted_launch_bounded_witness:
  "\<exists>calls l. launch_user_trusted_inner demo_os (broker_new Unavailable) ''hook'' ''r''
       (path_of ''/w'') caps_read_only (Some ''job'') False = (calls, Inr l)
     \<and> rc_process_class (bl_receipt l) = UserTrustedIntegration
     \<and> rc_capabilities (bl_receipt l) = caps_read_only
     \<and> SpawnCall (SpawnNamed ''job'') \<in> set calls"
proof -
  define ef where "ef =
     \<lparr>ef_request_id = ''r'', ef_process_class = UserTrustedIntegration,
      ef_capabilities = caps_read_only, ef_cwd = path_of ''/w'',
      ef_read_roots = [], ef_write_roots = [], ef_metadata_roots = [], ef_denied_roots = [],
      ef_network_targets = {}, ef_config_digest = None\<rparr>"
  have run: "launch_user_trusted_inner demo_os (broker_new Unavailable) ''hook'' ''r''
       (path_of ''/w'') caps_read_only (Some ''job'') False =
     ([Canonicalize (path_of ''/w''), AttachCwd (path_of ''/w''), SpawnCall (SpawnNamed ''job'')],
      Inr \<lparr>bl_child = ''hook'', bl_receipt = receipt ef Unavailable ''runtime-broker''\<rparr>)"
    unfolding ef_def by code_simp
  from user_trusted_launch_bounded [OF run] run show ?thesis by auto
qed

end
