(* ===== verification/Computer_Target.thy ===== *)
theory Computer_Target
  imports Rust_Strings
begin

text \<open>
  Names that permission rules are matched against: computer-use targets
  (\<^verbatim>\<open>crates/orca-core/src/computer_apps.rs\<close>) and MCP tool names
  (\<^verbatim>\<open>canonical_mcp_name\<close> and \<^verbatim>\<open>mcp_tool_server\<close> of \<^verbatim>\<open>crates/orca-core/src/mcp_types.rs\<close>).
\<close>

subsection \<open>Applications that run commands\<close>

definition terminals :: "string list" where
  "terminals =
     [''com.apple.Terminal'', ''com.googlecode.iterm2'', ''com.mitchellh.ghostty'',
      ''dev.warp.Warp-Stable'', ''net.kovidgoyal.kitty'', ''org.alacritty'',
      ''com.github.wez.wezterm'', ''com.cmuxterm.app'']"

definition ides :: "string list" where
  "ides =
     [''com.microsoft.VSCode'', ''com.todesktop.*'', ''com.jetbrains.*'', ''com.apple.dt.Xcode'',
      ''dev.zed.Zed'']"

definition listed :: "string \<Rightarrow> string list \<Rightarrow> bool" where
  "listed bundle_id patterns =
     (let folded = to_ascii_lowercase bundle_id
      in list_ex (\<lambda>pattern.
           case strip_suffix pattern ''*'' of
             Some prefix \<Rightarrow> starts_with folded (to_ascii_lowercase prefix)
           | None \<Rightarrow> eq_ignore_ascii_case bundle_id pattern) patterns)"

definition is_terminal :: "string \<Rightarrow> bool" where
  "is_terminal bundle_id = listed bundle_id terminals"

definition runs_commands :: "string \<Rightarrow> bool" where
  "runs_commands bundle_id \<longleftrightarrow> is_terminal bundle_id \<or> listed bundle_id ides"

subsection \<open>Computer targets\<close>

record computer_target =
  ct_app :: string
  ct_window :: "nat option"
  ct_secure :: bool

definition parse_target :: "string \<Rightarrow> computer_target" where
  "parse_target target =
     (let (rest, secure) =
        (case strip_suffix target ''#secure'' of
           Some rest \<Rightarrow> (rest, True)
         | None \<Rightarrow> (target, False))
      in (case Option.bind (rsplit_once rest ''#window:'')
                 (\<lambda>(app, window). map_option (Pair app) (parse_u32 window)) of
            Some (app, window) \<Rightarrow> \<lparr>ct_app = app, ct_window = Some window, ct_secure = secure\<rparr>
          | None \<Rightarrow> \<lparr>ct_app = rest, ct_window = None, ct_secure = secure\<rparr>))"

definition display_target :: "computer_target \<Rightarrow> string" where
  "display_target t =
     ct_app t
     @ (case ct_window t of None \<Rightarrow> [] | Some w \<Rightarrow> ''#window:'' @ show_nat w)
     @ (if ct_secure t then ''#secure'' else [])"

subsection \<open>MCP tool names\<close>

text \<open>
  The loop of \<^verbatim>\<open>canonical_mcp_name\<close>, with \<open>lu\<close> for \<^verbatim>\<open>last_was_underscore\<close>. It runs over the
  bytes: a character outside ASCII is a run of bytes none of which is alphanumeric, so it
  contributes one underscore, as in the loop over characters.
\<close>

fun canonical_loop :: "bool \<Rightarrow> string \<Rightarrow> string" where
  "canonical_loop lu [] = []"
| "canonical_loop lu (c # cs) =
     (if is_ascii_alphanumeric c then ascii_lower c # canonical_loop False cs
      else if \<not> lu then CHR ''_'' # canonical_loop True cs
      else canonical_loop True cs)"

definition canonical_mcp_name :: "string \<Rightarrow> string" where
  "canonical_mcp_name name = trim_matches (CHR ''_'') (canonical_loop False name)"

definition mcp_tool_server :: "string \<Rightarrow> string option" where
  "mcp_tool_server tool =
     Option.bind (strip_prefix tool ''mcp__'') (\<lambda>rest.
     Option.bind (split_once rest ''__'') (\<lambda>(server, local_tool).
     if server = [] \<or> local_tool = [] then None else Some server))"

subsection \<open>Case folding of bundle ids\<close>

lemma listed_fold: "listed (to_ascii_lowercase b) ps = listed b ps"
  by (simp add: listed_def eq_ignore_ascii_case_def cong: option.case_cong)

lemma runs_commands_fold:
  "to_ascii_lowercase a = to_ascii_lowercase b \<Longrightarrow> runs_commands a = runs_commands b"
  using listed_fold unfolding runs_commands_def is_terminal_def by metis

subsection \<open>Round trip of computer targets\<close>

lemma show_nat_no_hash: "CHR ''#'' \<notin> set (show_nat n)"
  using show_nat_digits [of n] by (auto simp: is_digit_def byte_of_def)

lemma parse_window_part:
  assumes "w \<le> u32_max"
  shows "Option.bind (rsplit_once (app @ ''#window:'' @ show_nat w) ''#window:'')
           (\<lambda>(app, window). map_option (Pair app) (parse_u32 window)) = Some (app, w)"
proof -
  have "rsplit_once (app @ (CHR ''#'' # ''window:'') @ show_nat w) (CHR ''#'' # ''window:'')
        = Some (app, show_nat w)"
    by (rule rsplit_once_tail_free) (use show_nat_no_hash in auto)
  with assms show ?thesis by (simp add: parse_u32_show)
qed

lemma window_not_secure: "\<not> ends_with (app @ ''#window:'' @ show_nat w) ''#secure''"
proof
  assume "ends_with (app @ ''#window:'' @ show_nat w) ''#secure''"
  then obtain r where "app @ ''#window:'' @ show_nat w = r @ ''#secure''"
    by (auto simp: ends_with_iff)
  then have "last (show_nat w) = CHR ''e''"
    by (metis last_appendR list.distinct(1) show_nat_nonempty append_is_Nil_conv last.simps)
  moreover have "is_digit (last (show_nat w))"
    using show_nat_digits by (metis last_in_set show_nat_nonempty)
  ultimately show False by (simp add: is_digit_def byte_of_def)
qed

subsection \<open>Canonical names\<close>

definition canonical_char :: "char \<Rightarrow> bool" where
  "canonical_char c \<longleftrightarrow> c = CHR ''_'' \<or> (is_ascii_alphanumeric c \<and> ascii_lower c = c)"

text \<open>No two neighbouring underscores.\<close>

fun no_double :: "string \<Rightarrow> bool" where
  "no_double (a # b # cs) \<longleftrightarrow> \<not> (a = CHR ''_'' \<and> b = CHR ''_'') \<and> no_double (b # cs)"
| "no_double _ \<longleftrightarrow> True"

lemma underscore_not_alphanumeric [simp]: "\<not> is_ascii_alphanumeric (CHR ''_'')"
  by (simp add: is_ascii_alphanumeric_def byte_of_def)

lemma ascii_lower_alnum_not_underscore [simp]:
  "is_ascii_alphanumeric c \<Longrightarrow> ascii_lower c \<noteq> CHR ''_''"
  by (metis alphanumeric_lower underscore_not_alphanumeric)

lemma canonical_loop_chars: "\<forall>c \<in> set (canonical_loop l s). canonical_char c"
  by (induction l s rule: canonical_loop.induct) (auto simp: canonical_char_def)

lemma canonical_loop_no_double:
  "no_double (canonical_loop l s) \<and> (l \<longrightarrow> canonical_loop l s = [] \<or> hd (canonical_loop l s) \<noteq> CHR ''_'')"
proof (induction l s rule: canonical_loop.induct)
  case (2 l c cs)
  then show ?case
    by (cases "canonical_loop False cs"; cases "canonical_loop True cs") auto
qed simp

lemma no_double_drop: "no_double s \<Longrightarrow> no_double (dropWhile P s)"
  by (induction s rule: no_double.induct) auto

lemma no_double_snoc:
  "no_double (xs @ [a]) \<longleftrightarrow> no_double xs \<and> \<not> (xs \<noteq> [] \<and> last xs = CHR ''_'' \<and> a = CHR ''_'')"
  by (induction xs rule: no_double.induct) auto

lemma no_double_rev: "no_double (rev s) = no_double s"
proof (induction s)
  case (Cons a s)
  have "no_double (rev (a # s)) \<longleftrightarrow> no_double s \<and> \<not> (s \<noteq> [] \<and> hd s = CHR ''_'' \<and> a = CHR ''_'')"
    using Cons by (auto simp: no_double_snoc last_rev)
  then show ?case by (cases s) auto
qed simp

lemma canonical_loop_id:
  assumes "\<forall>c \<in> set s. canonical_char c" "no_double s"
    "l \<Longrightarrow> s = [] \<or> hd s \<noteq> CHR ''_''"
  shows "canonical_loop l s = s"
  using assms
proof (induction s arbitrary: l)
  case (Cons c cs)
  have tail: "\<forall>c \<in> set cs. canonical_char c" "no_double cs"
    using Cons.prems by (cases cs; simp)+
  show ?case
  proof (cases "c = CHR ''_''")
    case True
    with Cons.prems have "\<not> l" by auto
    moreover have "cs = [] \<or> hd cs \<noteq> CHR ''_''" using True Cons.prems(2) by (cases cs) auto
    ultimately show ?thesis using True Cons.IH [of True] tail by simp
  next
    case False
    with Cons.prems(1) have "is_ascii_alphanumeric c" "ascii_lower c = c"
      by (auto simp: canonical_char_def)
    with Cons.IH [of False] tail show ?thesis by simp
  qed
qed simp

lemma canonical_mcp_name_shape:
  "(\<forall>c \<in> set (canonical_mcp_name s). canonical_char c) \<and> no_double (canonical_mcp_name s)
   \<and> (canonical_mcp_name s = [] \<or>
      (hd (canonical_mcp_name s) \<noteq> CHR ''_'' \<and> last (canonical_mcp_name s) \<noteq> CHR ''_''))"
proof -
  have "no_double (trim_matches (CHR ''_'') (canonical_loop False s))"
    unfolding trim_matches_def using canonical_loop_no_double
    by (simp add: no_double_rev no_double_drop)
  moreover have "\<forall>c \<in> set (trim_matches (CHR ''_'') (canonical_loop False s)). canonical_char c"
    using canonical_loop_chars set_trim_matches by blast
  ultimately show ?thesis
    unfolding canonical_mcp_name_def using trim_matches_ends by blast
qed

lemma canonical_mcp_name_idem: "canonical_mcp_name (canonical_mcp_name s) = canonical_mcp_name s"
proof -
  note shape = canonical_mcp_name_shape [of s]
  then have "canonical_loop False (canonical_mcp_name s) = canonical_mcp_name s"
    by (intro canonical_loop_id) auto
  with shape show ?thesis
    by (simp add: canonical_mcp_name_def [of "canonical_mcp_name s"] trim_matches_id)
qed

lemma no_double_occurrence: "no_double (a @ ''__'' @ b) \<Longrightarrow> False"
  by (induction a rule: no_double.induct) auto

text \<open>The separator of a name built from a canonical server name is found right behind it.\<close>

lemma split_canonical:
  assumes "no_double s" "s = [] \<or> last s \<noteq> CHR ''_''"
  shows "split_once (s @ ''__'' @ t) ''__'' = Some (s, t)"
proof (rule split_once_unique)
  fix x y
  assume eq: "s @ ''__'' @ t = x @ ''__'' @ y"
  show "length s \<le> length x"
  proof (rule ccontr)
    assume "\<not> length s \<le> length x"
    then obtain r where r: "s = x @ r" "r \<noteq> []"
      using eq by (auto simp: append_eq_append_conv2)
    with eq have "r @ ''__'' @ t = ''__'' @ y" by simp
    with r(2) obtain r' where r': "r = CHR ''_'' # r'" "r' @ ''__'' @ t = CHR ''_'' # y"
      by (cases r) auto
    show False
    proof (cases r')
      case Nil
      with r r' assms(2) show False by simp
    next
      case (Cons d ds)
      with r' have "r = ''__'' @ ds" by simp
      with r assms(1) no_double_occurrence show False by blast
    qed
  qed
qed

lemma mcp_tool_server_append:
  assumes "no_double s" "s \<noteq> []" "last s \<noteq> CHR ''_''" "t \<noteq> []"
  shows "mcp_tool_server (''mcp__'' @ s @ ''__'' @ t) = Some s"
proof -
  have "strip_prefix (''mcp__'' @ s @ ''__'' @ t) ''mcp__'' = Some (s @ ''__'' @ t)"
    by (rule strip_prefix_append)
  moreover have "split_once (s @ ''__'' @ t) ''__'' = Some (s, t)"
    using assms by (intro split_canonical) auto
  ultimately show ?thesis
    using assms(2,4) by (simp only: mcp_tool_server_def bind.simps prod.case if_False simp_thms)
qed

subsection \<open>Properties\<close>

text \<open>
  The targets that text can denote: a window id in range, or an application name that does not
  itself end in a window or password suffix.
\<close>

definition window_part :: "string \<Rightarrow> (string \<times> nat) option" where
  "window_part s = Option.bind (rsplit_once s ''#window:'')
     (\<lambda>(app, window). map_option (Pair app) (parse_u32 window))"

definition canonical_target :: "computer_target \<Rightarrow> bool" where
  "canonical_target t \<longleftrightarrow>
     (case ct_window t of
        Some w \<Rightarrow> w \<le> u32_max
      | None \<Rightarrow> window_part (ct_app t) = None \<and> (ct_secure t \<or> \<not> ends_with (ct_app t) ''#secure''))"

lemma parse_target_unfold:
  "parse_target s =
     (let rest = (case strip_suffix s ''#secure'' of Some r \<Rightarrow> r | None \<Rightarrow> s);
          secure = ends_with s ''#secure''
      in (case window_part rest of
            Some (app, w) \<Rightarrow> \<lparr>ct_app = app, ct_window = Some w, ct_secure = secure\<rparr>
          | None \<Rightarrow> \<lparr>ct_app = rest, ct_window = None, ct_secure = secure\<rparr>))"
  by (auto simp: parse_target_def window_part_def strip_suffix_def Let_def split: option.splits)

lemma parse_u32_bound: "parse_u32 s = Some n \<Longrightarrow> n \<le> u32_max"
  by (auto simp: parse_u32_def Let_def split: if_splits option.splits)

lemma parse_target_canonical: "canonical_target (parse_target s)"
proof -
  have bound: "window_part r = Some (app, w) \<Longrightarrow> w \<le> u32_max" for r app w
    by (auto simp: window_part_def bind_eq_Some_conv dest: parse_u32_bound)
  show ?thesis
    by (auto simp: parse_target_unfold canonical_target_def Let_def strip_suffix_None
        dest: bound split: option.splits)
       (auto simp: strip_suffix_def split: if_splits)
qed

lemma parse_display:
  assumes "canonical_target t"
  shows "parse_target (display_target t) = t"
proof (cases "ct_window t")
  case None
  let ?s = "ct_app t @ (if ct_secure t then ''#secure'' else [])"
  have "display_target t = ?s" using None by (simp add: display_target_def)
  moreover have "strip_suffix ?s ''#secure'' = (if ct_secure t then Some (ct_app t) else None)"
    using assms None by (auto simp: canonical_target_def strip_suffix_None)
  moreover have "ends_with ?s ''#secure'' = ct_secure t"
    using assms None by (auto simp: canonical_target_def ends_with_iff)
  ultimately show ?thesis
    using assms None by (cases t) (auto simp: parse_target_unfold canonical_target_def)
next
  case (Some w)
  let ?b = "ct_app t @ ''#window:'' @ show_nat w"
  let ?s = "?b @ (if ct_secure t then ''#secure'' else [])"
  have "display_target t = ?s" using Some by (simp add: display_target_def)
  moreover have "strip_suffix ?s ''#secure'' = (if ct_secure t then Some ?b else None)"
    using window_not_secure strip_suffix_append [of ?b "''#secure''"]
    by (simp add: strip_suffix_None)
  moreover have "ends_with ?s ''#secure'' = ct_secure t"
    using window_not_secure [of "ct_app t" w] by (auto simp: ends_with_iff)
  moreover have "window_part ?b = Some (ct_app t, w)"
    using parse_window_part assms Some by (simp add: window_part_def canonical_target_def)
  ultimately show ?thesis
    using Some by (cases t) (auto simp: parse_target_unfold)
qed

text \<open>
  Computer targets survive printing and parsing. Parsing any text gives a target that
  printing and parsing again reproduces; and every target whose application name does not end
  in a suffix of its own is reproduced exactly, window id and password flag included.
\<close>

theorem computer_target_round_trip:
  "parse_target (display_target (parse_target s)) = parse_target s
   \<and> (canonical_target t \<longrightarrow> parse_target (display_target t) = t)"
  using parse_target_canonical parse_display by blast

theorem computer_target_round_trip_witness:
  "display_target \<lparr>ct_app = ''com.apple.finder'', ct_window = Some 7, ct_secure = True\<rparr>
     = ''com.apple.finder#window:7#secure''
   \<and> parse_target ''com.apple.finder#window:7#secure''
     = \<lparr>ct_app = ''com.apple.finder'', ct_window = Some 7, ct_secure = True\<rparr>"
proof -
  let ?t = "\<lparr>ct_app = ''com.apple.finder'', ct_window = Some 7, ct_secure = True\<rparr>"
  have "display_target ?t = ''com.apple.finder#window:7#secure''" by code_simp
  moreover have "canonical_target ?t" by (simp add: canonical_target_def u32_max_def)
  ultimately show ?thesis
    using computer_target_round_trip [of "[]" ?t] by simp
qed

text \<open>
  The canonical form of an MCP name is a fixed point, and it is what makes the separator of
  a registered tool name unambiguous: in \<^verbatim>\<open>mcp__<server>__<tool>\<close>, built from the canonical
  names of a server and a tool that are not empty, the server read back is that server,
  whatever underscores either name contains.
\<close>

theorem mcp_server_read_back:
  assumes "canonical_mcp_name server \<noteq> []" "canonical_mcp_name tool \<noteq> []"
  shows "mcp_tool_server
           (''mcp__'' @ canonical_mcp_name server @ ''__'' @ canonical_mcp_name tool)
         = Some (canonical_mcp_name server)
         \<and> canonical_mcp_name (canonical_mcp_name server) = canonical_mcp_name server"
  using assms canonical_mcp_name_shape [of server] mcp_tool_server_append canonical_mcp_name_idem
  by blast

theorem mcp_server_read_back_witness:
  "canonical_mcp_name ''My--Server!'' = ''my_server''
   \<and> mcp_tool_server (''mcp__'' @ ''my_server'' @ ''__'' @ ''delete_repo'') = Some ''my_server''"
proof -
  have s: "canonical_mcp_name ''My--Server!'' = ''my_server''"
    and t: "canonical_mcp_name ''delete.Repo'' = ''delete_repo''"
    by code_simp+
  with mcp_server_read_back [of "''My--Server!''" "''delete.Repo''"] show ?thesis by simp
qed

end
