(* ===== verification/Permission_Rules.thy ===== *)
theory Permission_Rules
  imports Computer_Target Contracts
begin

text \<open>
  Permission rules, \<^verbatim>\<open>crates/orca-core/src/approval_rules.rs\<close>, with the decision types of
  \<^verbatim>\<open>approval_types.rs\<close>: compiling rules, the glob matcher, which rules cover a call, and the
  combined decision. The model is the Unix build (no case folding of patterns).
\<close>

subsection \<open>Decisions\<close>

datatype decision = Allow | Prompt | Deny

fun decision_rank :: "decision \<Rightarrow> nat" where
  "decision_rank Allow = 0"
| "decision_rank Prompt = 1"
| "decision_rank Deny = 2"

text \<open>The derived order of \<^verbatim>\<open>Decision\<close>: allow below prompt below deny.\<close>

instantiation decision :: linorder
begin

definition less_eq_decision :: "decision \<Rightarrow> decision \<Rightarrow> bool" where
  "less_eq_decision a b \<longleftrightarrow> decision_rank a \<le> decision_rank b"

definition less_decision :: "decision \<Rightarrow> decision \<Rightarrow> bool" where
  "less_decision a b \<longleftrightarrow> decision_rank a < decision_rank b"

instance
proof
  fix a b :: decision
  show "a \<le> b \<Longrightarrow> b \<le> a \<Longrightarrow> a = b"
    by (cases a; cases b) (auto simp: less_eq_decision_def)
qed (auto simp: less_eq_decision_def less_decision_def)

end

fun decision_str :: "decision \<Rightarrow> string" where
  "decision_str Allow = ''allow''"
| "decision_str Prompt = ''prompt''"
| "decision_str Deny = ''deny''"

subsection \<open>Rules as configured and as compiled\<close>

definition inline_workflow_target :: string where
  "inline_workflow_target = ''<inline workflow>''"

record permission_rule =
  pr_tool :: string
  pr_pattern :: "string option"
  pr_decision :: decision

definition rule_new :: "string \<Rightarrow> string \<Rightarrow> decision \<Rightarrow> permission_rule" where
  "rule_new tool pattern d = \<lparr>pr_tool = tool, pr_pattern = Some pattern, pr_decision = d\<rparr>"

definition whole_tool :: "string \<Rightarrow> decision \<Rightarrow> permission_rule" where
  "whole_tool tool d = \<lparr>pr_tool = tool, pr_pattern = None, pr_decision = d\<rparr>"

datatype glob_target = PathTarget | CommandTarget

record compiled_glob =
  cg_pattern :: string
  cg_target :: glob_target

record compiled_permission_rule =
  cr_tool :: string
  cr_pattern :: "compiled_glob option"
  cr_decision :: decision

definition canonical_rule_tool :: "string \<Rightarrow> string" where
  "canonical_rule_tool tool =
     (case strip_prefix tool ''mcp__'' of
        None \<Rightarrow> tool
      | Some rest \<Rightarrow>
          (case split_once rest ''__'' of
             None \<Rightarrow> ''mcp__'' @ canonical_mcp_name rest
           | Some (server, local_tool) \<Rightarrow>
               if local_tool = ''*'' then ''mcp__'' @ canonical_mcp_name server @ ''__*''
               else ''mcp__'' @ canonical_mcp_name server @ ''__'' @ canonical_mcp_name local_tool))"

definition mcp_server_rule_name :: "string \<Rightarrow> string option" where
  "mcp_server_rule_name rule_tool =
     Option.bind (strip_prefix rule_tool ''mcp__'') (\<lambda>rest.
       case strip_suffix rest ''__*'' of
         Some server \<Rightarrow> if server \<noteq> [] then Some server else None
       | None \<Rightarrow> if rest \<noteq> [] \<and> \<not> str_contains rest ''__'' then Some rest else None)"

definition compile_rule :: "permission_rule \<Rightarrow> compiled_permission_rule" where
  "compile_rule r =
     (let target = (if pr_tool r = ''bash'' then CommandTarget else PathTarget)
      in \<lparr>cr_tool = canonical_rule_tool (pr_tool r),
          cr_pattern = map_option (\<lambda>p. \<lparr>cg_pattern = p, cg_target = target\<rparr>) (pr_pattern r),
          cr_decision = pr_decision r\<rparr>)"

definition from_rules :: "permission_rule list \<Rightarrow> compiled_permission_rule list" where
  "from_rules rules = map compile_rule rules"

subsection \<open>The glob matcher\<close>

text \<open>
  \<^verbatim>\<open>glob_match\<close> walks two indices; the model walks the remaining pattern and value. The two
  \<^verbatim>\<open>for\<close> loops try the value's suffixes from the longest: after a double star all of them,
  after a single star those up to the first slash (in a path).
\<close>

definition skip_slash :: "string \<Rightarrow> string" where
  "skip_slash qs = (if qs \<noteq> [] \<and> hd qs = CHR ''/'' then tl qs else qs)"

fun all_suffixes :: "string \<Rightarrow> string list" where
  "all_suffixes [] = [[]]"
| "all_suffixes (x # xs) = (x # xs) # all_suffixes xs"

fun star_suffixes :: "glob_target \<Rightarrow> string \<Rightarrow> string list" where
  "star_suffixes t [] = [[]]"
| "star_suffixes t (x # xs) =
     (x # xs) # (if t = PathTarget \<and> x = CHR ''/'' then [] else star_suffixes t xs)"

text \<open>The byte length of the UTF-8 character a lead byte starts.\<close>

definition char_len :: "char \<Rightarrow> nat" where
  "char_len b =
     (if byte_of b < 0x80 then 1 else if byte_of b < 0xE0 then 2 else if byte_of b < 0xF0 then 3 else 4)"

text \<open>The loop that skips trailing stars once the value is used up.\<close>

function skip_stars :: "string \<Rightarrow> string" where
  "skip_stars pat =
     (if pat \<noteq> [] \<and> hd pat = CHR ''*'' then
        (if tl pat \<noteq> [] \<and> hd (tl pat) = CHR ''*'' then skip_stars (skip_slash (tl (tl pat)))
         else skip_stars (tl pat))
      else pat)"
  by pat_completeness auto

lemma length_skip_slash: "length (skip_slash qs) \<le> length qs"
  by (simp add: skip_slash_def)

lemma length_skip_slash_tl: "pat \<noteq> [] \<Longrightarrow> length (skip_slash (tl (tl pat))) < length pat"
  using length_skip_slash [of "tl (tl pat)"] by (cases pat) auto

termination skip_stars
  by (relation "measure length") (auto simp: length_skip_slash_tl)

function glob_match :: "string \<Rightarrow> string \<Rightarrow> glob_target \<Rightarrow> bool" where
  "glob_match pat v t =
     (if pat \<noteq> [] \<and> v \<noteq> [] then
        (if hd pat = CHR ''*'' then
           (if tl pat \<noteq> [] \<and> hd (tl pat) = CHR ''*''
            then list_ex (\<lambda>w. glob_match (skip_slash (tl (tl pat))) w t) (all_suffixes v)
            else list_ex (\<lambda>w. glob_match (tl pat) w t) (star_suffixes t v))
         else if hd pat = CHR ''?'' then
           (if t = PathTarget \<and> hd v = CHR ''/'' then False
            else glob_match (tl pat) (drop (min (char_len (hd v)) (length v)) v) t)
         else hd pat = hd v \<and> glob_match (tl pat) (tl v) t)
      else skip_stars pat = [] \<and> v = [])"
  by pat_completeness auto

termination
  by (relation "measure (\<lambda>(pat, v, t). length pat)") (auto simp: length_skip_slash_tl)

declare skip_stars.simps [simp del] glob_match.simps [simp del]

definition glob_matches :: "compiled_glob \<Rightarrow> string \<Rightarrow> bool" where
  "glob_matches g v = glob_match (cg_pattern g) v (cg_target g)"

subsection \<open>Which rules cover a call\<close>

definition matches_tool :: "compiled_permission_rule \<Rightarrow> string \<Rightarrow> bool" where
  "matches_tool r tool \<longleftrightarrow>
     cr_tool r = tool
     \<or> is_some_and (mcp_server_rule_name (cr_tool r)) (\<lambda>server. mcp_tool_server tool = Some server)"

definition rule_matches :: "compiled_permission_rule \<Rightarrow> string \<Rightarrow> string option \<Rightarrow> bool" where
  "rule_matches r tool target =
     (let computer = (if tool = ''computer'' then map_option parse_target target else None);
          general =
            (matches_tool r tool \<and> is_none_or (cr_pattern r) (\<lambda>pattern.
               if tool = ''Workflow'' \<and> target = Some inline_workflow_target then False
               else glob_matches pattern (unwrap_or target '''')
                 \<or> is_some_and computer (\<lambda>c.
                     cr_decision r \<in> {Deny, Prompt}
                     \<and> (ct_secure c \<or> ct_window c \<noteq> None)
                     \<and> (glob_matches pattern (ct_app c)
                        \<or> (ct_secure c
                           \<and> is_some_and (Option.bind target (\<lambda>t. strip_suffix t ''#secure''))
                               (glob_matches pattern))))))
      in (case (cr_decision r, computer) of
            (Allow, Some c) \<Rightarrow>
              if ct_window c \<noteq> None then
                \<not> ct_secure c \<and> matches_tool r tool
                \<and> is_some_and (cr_pattern r) (\<lambda>pattern.
                    is_some_and target (\<lambda>t. cg_pattern pattern = t))
              else if runs_commands (ct_app c)
                      \<and> is_none_or (cr_pattern r) (\<lambda>pattern. cg_pattern pattern \<noteq> ct_app c)
              then False
              else if ct_secure c \<and> cr_pattern r \<noteq> None then False
              else general
          | _ \<Rightarrow> general))"

text \<open>\<^verbatim>\<open>Iterator::max\<close>.\<close>

fun max_opt :: "'a::linorder list \<Rightarrow> 'a option" where
  "max_opt [] = None"
| "max_opt (x # xs) = (case max_opt xs of None \<Rightarrow> Some x | Some y \<Rightarrow> Some (max x y))"

definition matching_decision ::
    "compiled_permission_rule list \<Rightarrow> string \<Rightarrow> string option \<Rightarrow> decision option" where
  "matching_decision rules tool target =
     max_opt (map cr_decision (filter (\<lambda>r. rule_matches r tool target) rules))"

subsection \<open>The glob language\<close>

text \<open>The declarative reading of a pattern: a list of tokens and the values it denotes.\<close>

datatype glob_token = Lit char | AnyChar | Star | DoubleStar

function tokenize :: "string \<Rightarrow> glob_token list" where
  "tokenize pat =
     (if pat = [] then []
      else if hd pat = CHR ''*'' then
        (if tl pat \<noteq> [] \<and> hd (tl pat) = CHR ''*'' then DoubleStar # tokenize (skip_slash (tl (tl pat)))
         else Star # tokenize (tl pat))
      else if hd pat = CHR ''?'' then AnyChar # tokenize (tl pat)
      else Lit (hd pat) # tokenize (tl pat))"
  by pat_completeness auto

termination
  by (relation "measure length") (auto simp: length_skip_slash_tl)

declare tokenize.simps [simp del]

inductive glob_lang :: "glob_target \<Rightarrow> glob_token list \<Rightarrow> string \<Rightarrow> bool" for t where
  gl_end: "glob_lang t [] []"
| gl_lit: "glob_lang t ts w \<Longrightarrow> glob_lang t (Lit c # ts) (c # w)"
| gl_any: "u \<noteq> [] \<Longrightarrow> length u = min (char_len (hd u)) (length (u @ w))
     \<Longrightarrow> \<not> (t = PathTarget \<and> hd u = CHR ''/'') \<Longrightarrow> glob_lang t ts w
     \<Longrightarrow> glob_lang t (AnyChar # ts) (u @ w)"
| gl_star: "\<not> (t = PathTarget \<and> CHR ''/'' \<in> set u) \<Longrightarrow> glob_lang t ts w
     \<Longrightarrow> glob_lang t (Star # ts) (u @ w)"
| gl_double: "glob_lang t ts w \<Longrightarrow> glob_lang t (DoubleStar # ts) (u @ w)"

inductive_simps glob_lang_simps [simp]:
  "glob_lang t [] v"
  "glob_lang t (Lit c # ts) v"
  "glob_lang t (AnyChar # ts) v"
  "glob_lang t (Star # ts) v"
  "glob_lang t (DoubleStar # ts) v"

lemma set_all_suffixes: "w \<in> set (all_suffixes v) \<longleftrightarrow> (\<exists>u. v = u @ w)"
proof (induction v)
  case (Cons x xs)
  then show ?case by (auto simp: Cons_eq_append_conv)
qed auto

lemma set_star_suffixes:
  "w \<in> set (star_suffixes t v) \<longleftrightarrow> (\<exists>u. v = u @ w \<and> \<not> (t = PathTarget \<and> CHR ''/'' \<in> set u))"
proof (induction v)
  case (Cons x xs)
  then show ?case by (auto simp: Cons_eq_append_conv)
qed auto

lemma empty_pattern [simp]:
  "tokenize [] = []" "skip_stars [] = []" "glob_match [] v t \<longleftrightarrow> v = []"
  by (simp_all add: tokenize.simps skip_stars.simps glob_match.simps [of "[]"])

lemma glob_lang_empty: "glob_lang t (tokenize pat) [] \<longleftrightarrow> skip_stars pat = []"
proof (induction pat rule: skip_stars.induct)
  case (1 pat)
  then show ?case
    by (cases "pat = []"; cases "hd pat = CHR ''*''"; cases "hd pat = CHR ''?''")
       (auto simp: tokenize.simps [of pat] skip_stars.simps [of pat])
qed

lemma char_len_pos: "0 < char_len b"
  by (simp add: char_len_def)

lemma glob_any_split:
  assumes "v \<noteq> []"
  shows "(\<exists>u w. v = u @ w \<and> u \<noteq> [] \<and> length u = min (char_len (hd u)) (length v)
                \<and> \<not> (t = PathTarget \<and> hd u = CHR ''/'') \<and> P w)
         \<longleftrightarrow> \<not> (t = PathTarget \<and> hd v = CHR ''/'') \<and> P (drop (min (char_len (hd v)) (length v)) v)"
  (is "?L \<longleftrightarrow> ?R")
proof
  assume ?L
  then show ?R by fastforce
next
  let ?n = "min (char_len (hd v)) (length v)"
  assume ?R
  moreover have "take ?n v \<noteq> []" "hd (take ?n v) = hd v" "length (take ?n v) = ?n"
    using assms char_len_pos [of "hd v"] by auto
  moreover have "v = take ?n v @ drop ?n v" by simp
  ultimately show ?L by metis
qed

lemma glob_lang_any:
  "glob_lang t (AnyChar # ts) v \<longleftrightarrow>
     (\<exists>u w. v = u @ w \<and> u \<noteq> [] \<and> length u = min (char_len (hd u)) (length v)
        \<and> \<not> (t = PathTarget \<and> hd u = CHR ''/'') \<and> glob_lang t ts w)"
  unfolding glob_lang_simps by (rule ex_cong1, rule ex_cong1) auto

lemma glob_match_lang: "glob_match pat v t \<longleftrightarrow> glob_lang t (tokenize pat) v"
proof (induction pat v t rule: glob_match.induct)
  case (1 pat v t)
  show ?case
  proof (cases "pat \<noteq> [] \<and> v \<noteq> []")
    case False
    then show ?thesis
      by (cases "v = []")
         (auto simp: glob_match.simps [of pat "[]"] glob_lang_empty)
  next
    case True
    consider (double) "hd pat = CHR ''*''" "tl pat \<noteq> [] \<and> hd (tl pat) = CHR ''*''"
      | (star) "hd pat = CHR ''*''" "\<not> (tl pat \<noteq> [] \<and> hd (tl pat) = CHR ''*'')"
      | (any) "hd pat = CHR ''?''" "hd pat \<noteq> CHR ''*''"
      | (lit) "hd pat \<noteq> CHR ''*''" "hd pat \<noteq> CHR ''?''"
      by blast
    then show ?thesis
    proof cases
      case double
      with True "1.IH"(1) show ?thesis
        by (auto simp: glob_match.simps [of pat] tokenize.simps [of pat] list_ex_iff set_all_suffixes)
    next
      case star
      have "glob_match pat v t \<longleftrightarrow> (\<exists>w \<in> set (star_suffixes t v). glob_match (tl pat) w t)"
        using star True by (auto simp: glob_match.simps [of pat] list_ex_iff)
      also have "\<dots> \<longleftrightarrow> (\<exists>w \<in> set (star_suffixes t v). glob_lang t (tokenize (tl pat)) w)"
        using "1.IH"(2) star True by blast
      also have "\<dots> \<longleftrightarrow> glob_lang t (Star # tokenize (tl pat)) v"
        unfolding set_star_suffixes Bex_def glob_lang_simps by blast
      finally show ?thesis using star True by (auto simp: tokenize.simps [of pat])
    next
      case any
      let ?w = "drop (min (char_len (hd v)) (length v)) v"
      have "glob_lang t (AnyChar # tokenize (tl pat)) v
          \<longleftrightarrow> \<not> (t = PathTarget \<and> hd v = CHR ''/'') \<and> glob_lang t (tokenize (tl pat)) ?w"
        unfolding glob_lang_any using glob_any_split [of v t "glob_lang t (tokenize (tl pat))"] True
        by blast
      with any True "1.IH"(3) show ?thesis
        by (auto simp: glob_match.simps [of pat] tokenize.simps [of pat] simp del: glob_lang_simps)
    next
      case lit
      with True "1.IH"(4) show ?thesis
        by (cases v) (auto simp: glob_match.simps [of pat] tokenize.simps [of pat])
    qed
  qed
qed

subsection \<open>Facts about rule matching\<close>

lemma max_opt_None [simp]: "max_opt xs = None \<longleftrightarrow> xs = []"
  by (cases xs) (auto split: option.splits)

lemma max_opt_Some: "max_opt xs = Some m \<longleftrightarrow> m \<in> set xs \<and> (\<forall>x \<in> set xs. x \<le> m)"
proof (induction xs arbitrary: m)
  case (Cons x xs)
  show ?case
  proof (cases "max_opt xs")
    case None
    then show ?thesis by auto
  next
    case (Some y)
    with Cons.IH [of y] have "y \<in> set xs" "\<forall>x \<in> set xs. x \<le> y" by auto
    with Some show ?thesis by (auto simp: max_def intro: antisym)
  qed
qed simp

lemma decision_le [simp]:
  "d \<le> Deny" "Allow \<le> d" "Deny \<le> d \<longleftrightarrow> d = Deny" "d \<le> Allow \<longleftrightarrow> d = Allow"
  "Prompt \<le> d \<longleftrightarrow> d \<noteq> Allow" "d \<le> Prompt \<longleftrightarrow> d \<noteq> Deny"
  by (cases d; simp add: less_eq_decision_def)+

text \<open>Some rule that covers the call decides \<open>d\<close>.\<close>

definition some_rule_says ::
    "compiled_permission_rule list \<Rightarrow> string \<Rightarrow> string option \<Rightarrow> decision \<Rightarrow> bool" where
  "some_rule_says rules tool target d \<longleftrightarrow>
     (\<exists>r \<in> set rules. rule_matches r tool target \<and> cr_decision r = d)"

lemma matching_decision_table:
  "matching_decision rules tool target =
      (if some_rule_says rules tool target Deny then Some Deny
       else if some_rule_says rules tool target Prompt then Some Prompt
       else if some_rule_says rules tool target Allow then Some Allow
       else None)"
proof -
  let ?ds = "map cr_decision (filter (\<lambda>r. rule_matches r tool target) rules)"
  have hits: "some_rule_says rules tool target d \<longleftrightarrow> d \<in> set ?ds" for d
    by (auto simp: some_rule_says_def)
  have "max_opt ds =
      (if Deny \<in> set ds then Some Deny else if Prompt \<in> set ds then Some Prompt
       else if Allow \<in> set ds then Some Allow else None)" for ds
  proof (cases "max_opt ds")
    case (Some m)
    then have "m \<in> set ds" "\<forall>d \<in> set ds. d \<le> m" by (simp_all add: max_opt_Some)
    with Some show ?thesis by (cases m) force+
  qed simp
  then show ?thesis unfolding hits matching_decision_def by simp
qed

text \<open>A path pattern without a double star fixes how many separators a value has.\<close>

lemma glob_lang_slashes:
  assumes "glob_lang PathTarget ts v" "DoubleStar \<notin> set ts" "\<forall>c \<in> set v. byte_of c < 128"
  shows "count_list v (CHR ''/'') = count_list ts (Lit (CHR ''/''))"
  using assms
proof (induction rule: glob_lang.induct)
  case (gl_any u w ts)
  then have "hd u \<in> set u" by simp
  with gl_any have "char_len (hd u) = 1" by (simp add: char_len_def)
  with gl_any obtain a where "u = [a]" by (cases u) auto
  with gl_any show ?case by simp
next
  case (gl_star u w ts)
  then show ?case by (auto simp: count_list_append count_notin)
qed auto

lemma canonical_no_sep: "\<not> str_contains (canonical_mcp_name s) ''__''"
proof
  assume "str_contains (canonical_mcp_name s) ''__''"
  then obtain a b where "canonical_mcp_name s = a @ ''__'' @ b"
    by (auto simp: str_contains_def dest: split_once_Some)
  with no_double_occurrence [of a b] canonical_mcp_name_shape [of s] show False by simp
qed

lemma canonical_no_star: "CHR ''*'' \<notin> set (canonical_mcp_name s)"
proof -
  have "\<not> canonical_char (CHR ''*'')" by code_simp
  with canonical_mcp_name_shape [of s] show ?thesis by metis
qed

text \<open>Both spellings of a server-level rule compile to a name that reads back the server.\<close>

lemma no_double_if_no_sep:
  assumes "split_once s ''__'' = None"
  shows "no_double s"
proof -
  have "no_double s" if "\<not> (\<exists>a b. s = a @ ''__'' @ b)"
    using that
  proof (induction s rule: no_double.induct)
    case (1 a b cs)
    then have "\<not> (a = CHR ''_'' \<and> b = CHR ''_'')" by (metis append_Cons append_Nil)
    moreover have "\<not> (\<exists>x y. b # cs = x @ ''__'' @ y)" using "1.prems" by (metis append_Cons)
    ultimately show ?case using "1.IH" by simp
  qed auto
  with assms split_once_None show ?thesis by blast
qed

lemma server_rule_name:
  assumes "split_once server ''__'' = None" "canonical_mcp_name server \<noteq> []"
    "last server \<noteq> CHR ''_''"
  shows "mcp_server_rule_name (canonical_rule_tool (''mcp__'' @ server)) = Some (canonical_mcp_name server)"
    "mcp_server_rule_name (canonical_rule_tool (''mcp__'' @ server @ ''__*''))
       = Some (canonical_mcp_name server)"
proof -
  let ?c = "canonical_mcp_name server"
  have free: "strip_suffix ?c ''__*'' = None"
    using canonical_no_star [of server] by (auto simp: strip_suffix_None ends_with_iff)
  have "canonical_rule_tool (''mcp__'' @ server) = ''mcp__'' @ ?c"
    unfolding canonical_rule_tool_def strip_prefix_append using assms(1) by simp
  then show "mcp_server_rule_name (canonical_rule_tool (''mcp__'' @ server)) = Some ?c"
    unfolding mcp_server_rule_name_def strip_prefix_append
    using free assms(2) canonical_no_sep [of server]
    by (simp only: strip_prefix_append bind.simps option.case if_True simp_thms)
  have "split_once (server @ ''__'' @ ''*'') ''__'' = Some (server, ''*'')"
    by (rule split_canonical) (use assms(1,3) no_double_if_no_sep in auto)
  then have "canonical_rule_tool (''mcp__'' @ server @ ''__*'') = ''mcp__'' @ ?c @ ''__*''"
    unfolding canonical_rule_tool_def strip_prefix_append by simp
  then show "mcp_server_rule_name (canonical_rule_tool (''mcp__'' @ server @ ''__*'')) = Some ?c"
    unfolding mcp_server_rule_name_def
    using assms(2)
    by (simp only: strip_prefix_append strip_suffix_append bind.simps option.case if_True simp_thms)
qed

text \<open>The name of one tool is not a server-level rule.\<close>

lemma tool_name_not_server_rule:
  assumes "canonical_mcp_name t \<noteq> []"
  shows "mcp_server_rule_name (''mcp__'' @ canonical_mcp_name s @ ''__'' @ canonical_mcp_name t) = None"
proof -
  let ?r = "canonical_mcp_name s @ ''__'' @ canonical_mcp_name t"
  have "last ?r \<in> set (canonical_mcp_name t)" using assms by simp
  then have star: "last ?r \<noteq> CHR ''*''" using canonical_no_star [of t] by metis
  have "strip_suffix ?r ''__*'' = None"
  proof (rule ccontr)
    assume "strip_suffix ?r ''__*'' \<noteq> None"
    then obtain x where "?r = x @ ''__*''"
      unfolding strip_suffix_None ends_with_iff by blast
    then have "last ?r = last ''__*''" by (metis last_appendR list.distinct(1))
    with star show False by simp
  qed
  moreover have "str_contains ?r ''__''"
    unfolding str_contains_def using split_once_None by blast
  ultimately show ?thesis
    unfolding mcp_server_rule_name_def
    by (simp only: strip_prefix_append bind.simps option.case simp_thms if_False)
qed

subsection \<open>Properties\<close>

text \<open>
  C5: The matcher decides exactly the declarative language of the pattern: a literal byte
  matches itself, a question mark one character, a star any run (without separators in a path),
  a double star any run at all, and a slash right after a double star is optional. The search
  over value suffixes is complete and stops on every input.
\<close>

theorem glob_matches_language:
  "glob_matches g v \<longleftrightarrow> glob_lang (cg_target g) (tokenize (cg_pattern g)) v"
  by (simp add: glob_matches_def glob_match_lang)

text \<open>
  A path pattern without a double star never reaches across directories: a matching ASCII
  path has exactly as many separators as the pattern spells out. So an allow rule for one
  directory does not cover its subdirectories.
\<close>

theorem single_star_stays_in_directory:
  assumes "cg_target g = PathTarget" "DoubleStar \<notin> set (tokenize (cg_pattern g))"
    "\<forall>c \<in> set v. byte_of c < 128" "glob_matches g v"
  shows "count_list v (CHR ''/'') = count_list (tokenize (cg_pattern g)) (Lit (CHR ''/''))"
  using assms glob_lang_slashes by (simp add: glob_matches_def glob_match_lang)

theorem single_star_stays_in_directory_witness:
  "glob_matches \<lparr>cg_pattern = ''src/*.rs'', cg_target = PathTarget\<rparr> ''src/lib.rs''
   \<and> count_list ''src/lib.rs'' (CHR ''/'') = 1"
proof -
  let ?g = "\<lparr>cg_pattern = ''src/*.rs'', cg_target = PathTarget\<rparr>"
  have m: "glob_matches ?g ''src/lib.rs''" by code_simp
  have "DoubleStar \<notin> set (tokenize (cg_pattern ?g))" by code_simp
  moreover have "\<forall>c \<in> set ''src/lib.rs''. byte_of c < 128" by code_simp
  ultimately have "count_list ''src/lib.rs'' (CHR ''/'')
      = count_list (tokenize (cg_pattern ?g)) (Lit (CHR ''/''))"
    using m by (intro single_star_stays_in_directory) simp_all
  moreover have "count_list (tokenize (cg_pattern ?g)) (Lit (CHR ''/'')) = 1" by code_simp
  ultimately show ?thesis using m by simp
qed

text \<open>
  The most restrictive matching rule wins, whatever the order of the rules: deny exactly
  when some matching rule denies, prompt when none denies and some prompts, allow when all
  matching rules allow and there is one, and no decision exactly when no rule matches.
\<close>

theorem most_restrictive_rule_wins:
  "matching_decision rules tool target =
      (if some_rule_says rules tool target Deny then Some Deny
       else if some_rule_says rules tool target Prompt then Some Prompt
       else if some_rule_says rules tool target Allow then Some Allow
       else None)"
  by (rule matching_decision_table)

text \<open>
  C6: What an allow rule for computer use can cover. An existing window: only by a pattern that
  is that window's exact target, and never password entry in it. Otherwise an application that
  runs commands (a terminal or an editor): only by its exact bundle id. Password entry: only by
  a rule without a pattern, so never for an application that runs commands.
\<close>

theorem computer_allow_is_narrow:
  assumes "rule_matches r ''computer'' (Some target)" "cr_decision r = Allow"
    and "c = parse_target target"
  shows "(ct_window c \<noteq> None \<longrightarrow>
            \<not> ct_secure c \<and> is_some_and (cr_pattern r) (\<lambda>g. cg_pattern g = target))
         \<and> (ct_window c = None \<and> runs_commands (ct_app c) \<longrightarrow>
            \<not> ct_secure c \<and> is_some_and (cr_pattern r) (\<lambda>g. cg_pattern g = ct_app c))
         \<and> (ct_secure c \<longrightarrow> cr_pattern r = None)"
  using assms
  by (auto simp: rule_matches_def Let_def is_some_and_def is_none_or_def
      split: if_splits option.splits)

definition demo_window_rule :: compiled_permission_rule where
  "demo_window_rule =
     compile_rule (rule_new ''computer'' ''com.apple.finder#window:7'' Allow)"

theorem computer_allow_is_narrow_witness:
  "rule_matches demo_window_rule ''computer'' (Some ''com.apple.finder#window:7'')
   \<and> is_some_and (cr_pattern demo_window_rule) (\<lambda>g. cg_pattern g = ''com.apple.finder#window:7'')"
proof -
  let ?t = "\<lparr>ct_app = ''com.apple.finder'', ct_window = Some 7, ct_secure = False\<rparr>"
  have "display_target ?t = ''com.apple.finder#window:7''" by code_simp
  moreover have "canonical_target ?t" by (simp add: canonical_target_def u32_max_def)
  ultimately have t: "parse_target ''com.apple.finder#window:7'' = ?t"
    using parse_display [of ?t] by simp
  have d: "cr_decision demo_window_rule = Allow" "cr_tool demo_window_rule = ''computer''"
    and p: "cr_pattern demo_window_rule
            = Some \<lparr>cg_pattern = ''com.apple.finder#window:7'', cg_target = PathTarget\<rparr>"
    by code_simp+
  have m: "rule_matches demo_window_rule ''computer'' (Some ''com.apple.finder#window:7'')"
    by (simp add: rule_matches_def d p t matches_tool_def is_some_and_def)
  from computer_allow_is_narrow [OF m d(1) refl] m t show ?thesis by simp
qed

text \<open>
  What a deny or prompt rule for computer use covers. A pattern that matches an application
  covers every window of it and password entry in any of them, and one that matches a window
  covers password entry in that window: restrictions cannot be escaped through a subtarget.
\<close>

theorem computer_restriction_covers_subtargets:
  assumes "cr_tool r = ''computer''" "cr_decision r \<noteq> Allow" "cr_pattern r = Some g"
    and "canonical_target \<lparr>ct_app = app, ct_window = w, ct_secure = s\<rparr>"
    and "glob_matches g app
         \<or> glob_matches g (display_target \<lparr>ct_app = app, ct_window = w, ct_secure = False\<rparr>)"
  shows "rule_matches r ''computer''
           (Some (display_target \<lparr>ct_app = app, ct_window = w, ct_secure = s\<rparr>))"
proof -
  let ?t = "\<lparr>ct_app = app, ct_window = w, ct_secure = s\<rparr>"
  let ?u = "display_target \<lparr>ct_app = app, ct_window = w, ct_secure = False\<rparr>"
  have parse: "parse_target (display_target ?t) = ?t"
    using assms(4) by (rule parse_display)
  have shape: "display_target ?t = ?u @ (if s then ''#secure'' else [])"
    by (simp add: display_target_def)
  have plain: "?u = app" if "w = None" using that by (simp add: display_target_def)
  from assms(2) have "cr_decision r = Prompt \<or> cr_decision r = Deny"
    by (cases "cr_decision r") auto
  moreover have "glob_matches g (display_target ?t)
      \<or> (s \<or> w \<noteq> None) \<and> (glob_matches g app
         \<or> s \<and> is_some_and (strip_suffix (display_target ?t) ''#secure'') (glob_matches g))"
    using assms(5) plain unfolding shape by (cases s; cases w) (auto simp: is_some_and_def)
  ultimately show ?thesis
    using assms(1,3) parse
    by (auto simp: rule_matches_def matches_tool_def Let_def is_none_or_def is_some_and_def)
qed

definition demo_deny_rule :: compiled_permission_rule where
  "demo_deny_rule = compile_rule (rule_new ''computer'' ''com.apple.*'' Deny)"

theorem computer_restriction_covers_subtargets_witness:
  "rule_matches demo_deny_rule ''computer'' (Some ''com.apple.finder#window:7#secure'')"
proof -
  let ?g = "\<lparr>cg_pattern = ''com.apple.*'', cg_target = PathTarget\<rparr>"
  let ?t = "\<lparr>ct_app = ''com.apple.finder'', ct_window = Some 7, ct_secure = True\<rparr>"
  have "cr_tool demo_deny_rule = ''computer''" "cr_decision demo_deny_rule \<noteq> Allow"
    "cr_pattern demo_deny_rule = Some ?g" "glob_matches ?g ''com.apple.finder''"
    by code_simp+
  moreover have "canonical_target ?t" by (simp add: canonical_target_def u32_max_def)
  moreover have "display_target ?t = ''com.apple.finder#window:7#secure''" by code_simp
  ultimately show ?thesis
    using computer_restriction_covers_subtargets
      [of demo_deny_rule ?g "''com.apple.finder''" "Some 7" True] by simp
qed

text \<open>
  A server-level rule, written \<^verbatim>\<open>mcp__<server>\<close> or \<^verbatim>\<open>mcp__<server>__*\<close> in any spelling
  with the server's canonical name, covers every tool of that server and no tool of another:
  a call of \<^verbatim>\<open>mcp__<s>__<t>\<close> matches exactly when \<open>s\<close> is that server.
\<close>

theorem server_rule_covers_its_tools:
  assumes "split_once server ''__'' = None" "canonical_mcp_name server \<noteq> []"
    and "last server \<noteq> CHR ''_''"
    and "rule = ''mcp__'' @ server \<or> rule = ''mcp__'' @ server @ ''__*''"
    and "canonical_mcp_name s \<noteq> []" "canonical_mcp_name t \<noteq> []"
  shows "rule_matches (compile_rule (whole_tool rule d))
           (''mcp__'' @ canonical_mcp_name s @ ''__'' @ canonical_mcp_name t) target
         \<longleftrightarrow> canonical_mcp_name s = canonical_mcp_name server"
proof -
  let ?c = "canonical_mcp_name server"
  let ?tool = "''mcp__'' @ canonical_mcp_name s @ ''__'' @ canonical_mcp_name t"
  have name: "mcp_tool_server ?tool = Some (canonical_mcp_name s)"
    using assms(5,6) canonical_mcp_name_shape [of s] mcp_tool_server_append by blast
  have server: "mcp_server_rule_name (canonical_rule_tool rule) = Some ?c"
    using assms(4) server_rule_name [OF assms(1,2,3)] by blast
  then have "canonical_rule_tool rule \<noteq> ?tool"
    using tool_name_not_server_rule [OF assms(6), of s] by (metis option.distinct(1))
  then have "matches_tool (compile_rule (whole_tool rule d)) ?tool \<longleftrightarrow> canonical_mcp_name s = ?c"
    by (simp only: matches_tool_def compile_rule_def whole_tool_def Let_def is_some_and_def
        compiled_permission_rule.simps permission_rule.simps name server option.case option.inject simp_thms)
  moreover have "cr_pattern (compile_rule (whole_tool rule d)) = None"
    by (simp add: compile_rule_def whole_tool_def Let_def)
  moreover have "?tool \<noteq> ''computer''" by simp
  ultimately show ?thesis
    unfolding rule_matches_def
    by (cases "cr_decision (compile_rule (whole_tool rule d))")
       (simp_all add: is_none_or_def del: append_Cons)
qed

theorem server_rule_covers_its_tools_witness:
  "rule_matches (compile_rule (whole_tool ''mcp__Git-Hub__*'' Deny)) ''mcp__git_hub__push'' None"
proof -
  have "split_once ''Git-Hub'' ''__'' = None" "canonical_mcp_name ''Git-Hub'' = ''git_hub''"
    "canonical_mcp_name ''push'' = ''push''"
    by code_simp+
  with server_rule_covers_its_tools [of "''Git-Hub''" "''mcp__Git-Hub__*''" "''Git-Hub''" "''push''" Deny None]
  show ?thesis by simp
qed

end
