(* ===== verification/Approval_Policy.thy ===== *)
theory Approval_Policy
  imports Capability Permission_Rules
begin

text \<open>
  The tool approval policy, \<^verbatim>\<open>crates/orca-approval/src/policy.rs\<close>, with the request and
  resolution types of \<^verbatim>\<open>crates/orca-core/src/approval_types.rs\<close>.
\<close>

datatype action_kind =
  ReadAction | WriteAction | NetworkAction | AgentAction | ShellAction | ComputerAction

fun action_kind_str :: "action_kind \<Rightarrow> string" where
  "action_kind_str ReadAction = ''read''"
| "action_kind_str WriteAction = ''write''"
| "action_kind_str NetworkAction = ''network''"
| "action_kind_str AgentAction = ''agent''"
| "action_kind_str ShellAction = ''shell''"
| "action_kind_str ComputerAction = ''computer''"

datatype approval_decision = ApprovalAllow | ApprovalAsk | ApprovalDeny

record approval_request =
  aq_id :: string
  aq_action :: action_kind
  aq_description :: string
  aq_tool :: "string option"
  aq_target :: "string option"
  aq_preview :: "string option"

record approval_resolution =
  as_id :: string
  as_decision :: approval_decision
  as_reason :: string

record approval_policy =
  ap_mode :: approval_mode
  ap_rules :: "compiled_permission_rule list"

definition policy_new :: "approval_mode \<Rightarrow> approval_policy" where
  "policy_new mode = \<lparr>ap_mode = mode, ap_rules = []\<rparr>"

definition with_permission_rules :: "approval_policy \<Rightarrow> permission_rule list \<Rightarrow> approval_policy" where
  "with_permission_rules p rules = p\<lparr>ap_rules := from_rules rules\<rparr>"

definition policy_behavior :: "approval_policy \<Rightarrow> approval_behavior" where
  "policy_behavior p = behavior (ap_mode p)"

text \<open>The \<^verbatim>\<open>match\<close> on the mode and the action, its arms in source order.\<close>

definition default_decision :: "approval_mode \<Rightarrow> action_kind \<Rightarrow> string option \<Rightarrow> approval_decision" where
  "default_decision mode action target =
     (if action = ReadAction then ApprovalAllow
      else if mode = Plan \<and> action \<in> {WriteAction, NetworkAction, AgentAction, ShellAction}
      then ApprovalDeny
      else if mode = Suggest \<and> action \<in> {WriteAction, NetworkAction, AgentAction, ShellAction}
      then ApprovalAsk
      else if mode = AutoEdit \<and> action = WriteAction then ApprovalAllow
      else if mode = AutoEdit \<and> action \<in> {NetworkAction, AgentAction, ShellAction} then ApprovalAllow
      else if mode = FullAuto \<and> action = ComputerAction
              \<and> is_some_and target (\<lambda>t. \<not> ends_with t ''#secure'')
      then ApprovalAllow
      else if action = ComputerAction then ApprovalAsk
      else ApprovalAllow)"

definition resolve_for_tool ::
    "approval_policy \<Rightarrow> approval_request \<Rightarrow> string \<Rightarrow> string option \<Rightarrow> approval_resolution" where
  "resolve_for_tool p request tool target =
     (if ap_mode p = Plan
         \<and> aq_action request \<in> {WriteAction, NetworkAction, AgentAction, ShellAction} then
        \<lparr>as_id = aq_id request, as_decision = ApprovalDeny,
         as_reason = ''plan denies '' @ action_kind_str (aq_action request)\<rparr>
      else
        (case matching_decision (ap_rules p) tool target of
           Some d \<Rightarrow>
             \<lparr>as_id = aq_id request,
              as_decision =
                (case d of Allow \<Rightarrow> ApprovalAllow | Prompt \<Rightarrow> ApprovalAsk | Deny \<Rightarrow> ApprovalDeny),
              as_reason = ''permission '' @ decision_str d @ '' rule matches '' @ tool @ '' ''
                          @ unwrap_or target ''''\<rparr>
         | None \<Rightarrow>
             (let decision = default_decision (ap_mode p) (aq_action request) target;
                  mode = approval_mode_str (ap_mode p);
                  action = action_kind_str (aq_action request)
              in \<lparr>as_id = aq_id request, as_decision = decision,
                  as_reason =
                    (case decision of
                       ApprovalAllow \<Rightarrow> mode @ '' permits '' @ action
                     | ApprovalAsk \<Rightarrow> mode @ '' requires confirmation for '' @ action
                     | ApprovalDeny \<Rightarrow> mode @ '' denies '' @ action)\<rparr>)))"

subsection \<open>Properties\<close>

text \<open>What plan mode refuses whatever the rules say, and what each mode permits without a rule.\<close>

definition plan_ceiling :: "approval_mode \<Rightarrow> action_kind \<Rightarrow> bool" where
  "plan_ceiling mode action \<longleftrightarrow> mode = Plan \<and> action \<notin> {ReadAction, ComputerAction}"

definition permitted_by_mode :: "approval_mode \<Rightarrow> action_kind \<Rightarrow> string option \<Rightarrow> bool" where
  "permitted_by_mode mode action target \<longleftrightarrow>
     action = ReadAction
     \<or> (action \<noteq> ComputerAction \<and> mode \<in> {AutoEdit, FullAuto})
     \<or> (action = ComputerAction \<and> mode = FullAuto
        \<and> is_some_and target (\<lambda>t. \<not> ends_with t ''#secure''))"

lemma default_decision_table:
  assumes "\<not> plan_ceiling mode action"
  shows "default_decision mode action target
    = (if permitted_by_mode mode action target then ApprovalAllow else ApprovalAsk)"
  using assms
  by (cases mode; cases action)
     (auto simp: default_decision_def permitted_by_mode_def plan_ceiling_def)

lemma plan_ceiling_actions:
  "ap_mode p = Plan \<and> aq_action request \<in> {WriteAction, NetworkAction, AgentAction, ShellAction}
   \<longleftrightarrow> plan_ceiling (ap_mode p) (aq_action request)"
  by (cases "aq_action request") (auto simp: plan_ceiling_def)

text \<open>
  C4: The decision table of tool approval. A call is denied exactly when plan mode forbids the
  action or a matching rule denies it. It runs without confirmation exactly when plan mode does
  not forbid it, no matching rule denies or prompts, and either some matching rule allows it or
  the mode permits it by itself. In particular no rule gives plan mode write, network, agent or
  shell authority, and password entry needs an allow rule in every mode.
\<close>

theorem approval_decision_table:
  "(as_decision (resolve_for_tool p request tool target) = ApprovalDeny \<longleftrightarrow>
      plan_ceiling (ap_mode p) (aq_action request)
      \<or> some_rule_says (ap_rules p) tool target Deny)
   \<and> (as_decision (resolve_for_tool p request tool target) = ApprovalAllow \<longleftrightarrow>
      \<not> plan_ceiling (ap_mode p) (aq_action request)
      \<and> \<not> some_rule_says (ap_rules p) tool target Deny
      \<and> \<not> some_rule_says (ap_rules p) tool target Prompt
      \<and> (some_rule_says (ap_rules p) tool target Allow
         \<or> permitted_by_mode (ap_mode p) (aq_action request) target))
   \<and> as_id (resolve_for_tool p request tool target) = aq_id request"
  unfolding resolve_for_tool_def plan_ceiling_actions matching_decision_table Let_def
  by (auto simp: default_decision_table)

end
