(* ===== verification/Retained_Output.thy ===== *)
theory Retained_Output
  imports Contracts Rust_Strings
begin

text \<open>
  Bounded retention of command output, \<^verbatim>\<open>crates/orca-core/src/retained_output.rs\<close>: a stable
  prefix and a rolling suffix of everything appended. The theory shows that the result is a
  function of the whole stream, however it was cut into chunks.
\<close>

subsection \<open>The buffer\<close>

definition default_retained_output_bytes :: nat where
  "default_retained_output_bytes = 1024 * 1024"

definition retained_output_read_chunk_bytes :: nat where
  "retained_output_read_chunk_bytes = 8 * 1024"

record retained_output =
  ro_max :: nat
  ro_head :: string
  ro_tail :: string
  ro_observed :: nat

record retained_output_snapshot =
  sn_bytes :: string
  sn_observed :: nat
  sn_omitted :: nat
  sn_head_bytes :: nat

definition head_capacity :: "nat \<Rightarrow> nat" where
  "head_capacity m = m div 2 + m mod 2"

definition tail_capacity :: "nat \<Rightarrow> nat" where
  "tail_capacity m = m - head_capacity m"

definition output_new :: "nat \<Rightarrow> retained_output" where
  "output_new m = \<lparr>ro_max = m, ro_head = [], ro_tail = [], ro_observed = 0\<rparr>"

definition append_tail :: "string \<Rightarrow> retained_output \<Rightarrow> retained_output" where
  "append_tail bytes o1 =
     (let capacity = tail_capacity (ro_max o1)
      in if capacity = 0 \<or> bytes = [] then o1
         else if length bytes \<ge> capacity then o1\<lparr>ro_tail := drop (length bytes - capacity) bytes\<rparr>
         else (let overflow = sat_add usize_max (length (ro_tail o1)) (length bytes) - capacity
               in o1\<lparr>ro_tail := drop overflow (ro_tail o1) @ bytes\<rparr>))"

definition output_append :: "retained_output \<Rightarrow> string \<Rightarrow> retained_output" where
  "output_append o1 bytes =
     (let o2 = o1\<lparr>ro_observed := sat_add usize_max (ro_observed o1) (length bytes)\<rparr>;
          head_remaining = head_capacity (ro_max o2) - length (ro_head o2);
          head_bytes = min head_remaining (length bytes);
          o3 = o2\<lparr>ro_head := ro_head o2 @ take head_bytes bytes\<rparr>
      in append_tail (drop head_bytes bytes) o3)"

definition retained_bytes :: "retained_output \<Rightarrow> nat" where
  "retained_bytes o1 = sat_add usize_max (length (ro_head o1)) (length (ro_tail o1))"

definition omitted_bytes :: "retained_output \<Rightarrow> nat" where
  "omitted_bytes o1 = ro_observed o1 - retained_bytes o1"

definition is_truncated :: "retained_output \<Rightarrow> bool" where
  "is_truncated o1 \<longleftrightarrow> omitted_bytes o1 > 0"

definition retained_bytes_vec :: "retained_output \<Rightarrow> string" where
  "retained_bytes_vec o1 = ro_head o1 @ ro_tail o1"

definition snapshot :: "retained_output \<Rightarrow> retained_output_snapshot" where
  "snapshot o1 =
     \<lparr>sn_bytes = retained_bytes_vec o1, sn_observed = ro_observed o1, sn_omitted = omitted_bytes o1,
      sn_head_bytes = length (ro_head o1)\<rparr>"

definition into_snapshot :: "retained_output \<Rightarrow> retained_output_snapshot" where
  "into_snapshot o1 =
     (let bytes = ro_head o1 @ ro_tail o1
      in \<lparr>sn_bytes = bytes, sn_observed = ro_observed o1, sn_omitted = ro_observed o1 - length bytes,
          sn_head_bytes = length (ro_head o1)\<rparr>)"

definition snapshot_is_truncated :: "retained_output_snapshot \<Rightarrow> bool" where
  "snapshot_is_truncated s \<longleftrightarrow> sn_omitted s > 0"

definition omission_marker :: "nat \<Rightarrow> string" where
  "omission_marker n = char_of (10 :: nat) # ''['' @ show_nat n @ '' bytes of output omitted]'' @ [char_of (10 :: nat)]"

definition rendered_bytes :: "retained_output_snapshot \<Rightarrow> string" where
  "rendered_bytes s =
     (if \<not> snapshot_is_truncated s then sn_bytes s
      else
        (let split = min (sn_head_bytes s) (length (sn_bytes s))
         in take split (sn_bytes s) @ omission_marker (sn_omitted s) @ drop split (sn_bytes s)))"

subsection \<open>Reading to the end\<close>

text \<open>
  What a reader returns, call by call. The loop runs over the calls; None means that the given
  calls end before the reader does.
\<close>

datatype read_outcome = ReadOk string | ReadInterrupted | ReadError string

fun read_loop :: "retained_output \<Rightarrow> read_outcome list \<Rightarrow> (string, retained_output_snapshot) result option" where
  "read_loop o1 [] = None"
| "read_loop o1 (ReadOk bytes # calls) =
     (if bytes = [] then Some (Inr (into_snapshot o1)) else read_loop (output_append o1 bytes) calls)"
| "read_loop o1 (ReadInterrupted # calls) = read_loop o1 calls"
| "read_loop o1 (ReadError e # calls) = Some (Inl e)"

definition read_to_retained ::
    "read_outcome list \<Rightarrow> nat \<Rightarrow> (string, retained_output_snapshot) result option" where
  "read_to_retained calls m = read_loop (output_new m) calls"

subsection \<open>The buffer as a function of the stream\<close>

definition last_bytes :: "nat \<Rightarrow> string \<Rightarrow> string" where
  "last_bytes n xs = drop (length xs - n) xs"

definition retained :: "nat \<Rightarrow> string \<Rightarrow> retained_output" where
  "retained m stream =
     \<lparr>ro_max = m, ro_head = take (head_capacity m) stream,
      ro_tail = last_bytes (tail_capacity m) (drop (head_capacity m) stream),
      ro_observed = min usize_max (length stream)\<rparr>"

lemma length_last_bytes [simp]: "length (last_bytes n xs) = min n (length xs)"
  by (simp add: last_bytes_def)

lemma last_bytes_append:
  "last_bytes n (last_bytes n xs @ ys) = last_bytes n (xs @ ys)"
  by (cases "length xs \<le> n") (auto simp: last_bytes_def add.commute)

lemma tail_half: "tail_capacity m = m div 2"
  unfolding head_capacity_def tail_capacity_def by presburger

lemma capacities: "head_capacity m + tail_capacity m = m"
  unfolding tail_half head_capacity_def by presburger

lemma append_tail_last:
  assumes "ro_max o1 = m" "length (ro_tail o1) \<le> tail_capacity m" "m \<le> usize_max"
  shows "append_tail bytes o1 = o1\<lparr>ro_tail := last_bytes (tail_capacity m) (ro_tail o1 @ bytes)\<rparr>"
proof -
  have cap: "2 * tail_capacity m \<le> usize_max" using assms(3) unfolding tail_half by linarith
  show ?thesis
  proof (cases "tail_capacity m = 0 \<or> bytes = []")
    case True
    with assms show ?thesis by (auto simp: append_tail_def last_bytes_def)
  next
    case False
    show ?thesis
    proof (cases "length bytes \<ge> tail_capacity m")
      case True
      with False assms show ?thesis by (simp add: append_tail_def last_bytes_def)
    next
      case less: False
      have "sat_add usize_max (length (ro_tail o1)) (length bytes) - tail_capacity m
          = length (ro_tail o1) + length bytes - tail_capacity m"
        using cap less assms(2) by (simp add: sat_add_def)
      with False less assms show ?thesis by (simp add: append_tail_def last_bytes_def Let_def)
    qed
  qed
qed

lemma append_retained:
  assumes "m \<le> usize_max"
  shows "output_append (retained m stream) bytes = retained m (stream @ bytes)"
proof -
  let ?h = "head_capacity m" and ?t = "tail_capacity m"
  let ?k = "min (?h - min (length stream) ?h) (length bytes)"
  let ?o = "(retained m stream)\<lparr>ro_observed := sat_add usize_max (min usize_max (length stream)) (length bytes),
      ro_head := take ?h stream @ take ?k bytes\<rparr>"
  have "output_append (retained m stream) bytes = append_tail (drop ?k bytes) ?o"
    by (simp add: output_append_def retained_def Let_def)
  also have "\<dots> = ?o\<lparr>ro_tail := last_bytes ?t (last_bytes ?t (drop ?h stream) @ drop ?k bytes)\<rparr>"
    using assms by (subst append_tail_last [where m = m]) (simp_all add: retained_def)
  also have "last_bytes ?t (last_bytes ?t (drop ?h stream) @ drop ?k bytes)
      = last_bytes ?t (drop ?h (stream @ bytes))"
    unfolding last_bytes_append by (cases "length stream \<le> ?h") (auto simp: min_def not_le)
  also have "take ?h stream @ take ?k bytes = take ?h (stream @ bytes)"
    by (auto simp: min_def)
  also have "sat_add usize_max (min usize_max (length stream)) (length bytes)
      = min usize_max (length (stream @ bytes))"
    by (auto simp: sat_add_def)
  finally show ?thesis by (simp add: retained_def)
qed

lemma retained_Nil: "output_new m = retained m []"
  by (simp add: output_new_def retained_def last_bytes_def)

definition retained_ok :: "retained_output \<Rightarrow> bool" where
  "retained_ok o1 \<longleftrightarrow> (\<exists>m stream. m \<le> usize_max \<and> o1 = retained m stream)"

interpretation output_sink: chunked_sink output_append retained_ok
proof
  fix o1 xs ys
  assume "retained_ok o1"
  then obtain m stream where "m \<le> usize_max" "o1 = retained m stream"
    by (auto simp: retained_ok_def)
  then show "retained_ok (output_append o1 xs)"
    "output_append (output_append o1 xs) ys = output_append o1 (xs @ ys)" "output_append o1 [] = o1"
    by (auto simp: append_retained retained_ok_def)
qed

lemma output_append_chunks:
  assumes "m \<le> usize_max"
  shows "foldl output_append (output_new m) chunks = retained m (concat chunks)"
proof -
  have "retained_ok (output_new m)" using assms by (auto simp: retained_ok_def retained_Nil)
  from output_sink.push_chunks [OF this] assms show ?thesis
    by (simp add: retained_Nil append_retained)
qed

lemma rendered_retained:
  assumes "m \<le> usize_max" "length stream \<le> usize_max"
  shows "rendered_bytes (into_snapshot (retained m stream)) =
     (if length stream \<le> m then stream
      else take (head_capacity m) stream @ omission_marker (length stream - m)
           @ last_bytes (tail_capacity m) stream)"
proof (cases "length stream \<le> m")
  case True
  have "take (head_capacity m) stream @ last_bytes (tail_capacity m) (drop (head_capacity m) stream) = stream"
    using True capacities [of m] by (auto simp: last_bytes_def)
  with True assms capacities [of m] show ?thesis
    by (simp add: rendered_bytes_def into_snapshot_def retained_def snapshot_is_truncated_def)
next
  case False
  have "last_bytes (tail_capacity m) (drop (head_capacity m) stream) = last_bytes (tail_capacity m) stream"
  proof -
    have "length stream - head_capacity m - tail_capacity m + head_capacity m
        = length stream - tail_capacity m" using False capacities [of m] by linarith
    then show ?thesis by (simp add: last_bytes_def del: diff_diff_left)
  qed
  with False assms capacities [of m] show ?thesis
    by (auto simp: rendered_bytes_def into_snapshot_def retained_def snapshot_is_truncated_def Let_def
        min_def)
qed

subsection \<open>Properties\<close>

text \<open>
  Retention is a function of the stream. However the output is cut into chunks, the buffer
  holds the first half of its capacity from the start of the stream, the last half from its end,
  and the total length; the two snapshot operations agree on it; and what is rendered is the
  whole stream when it fits, and otherwise its prefix, the exact number of omitted bytes and its
  suffix.
\<close>

theorem retention_is_chunk_independent:
  assumes "m \<le> usize_max" "length (concat chunks) \<le> usize_max"
    and "out = foldl output_append (output_new m) chunks" "stream = concat chunks"
  shows "out = retained m stream \<and> snapshot out = into_snapshot out
    \<and> retained_bytes out = min m (length stream)
    \<and> rendered_bytes (into_snapshot out) =
       (if length stream \<le> m then stream
        else take (head_capacity m) stream @ omission_marker (length stream - m)
             @ last_bytes (tail_capacity m) stream)"
proof -
  have out: "out = retained m stream" using output_append_chunks assms by simp
  have "length (ro_head out) + length (ro_tail out) = min m (length stream)"
    using capacities [of m] by (auto simp: out retained_def)
  then have "retained_bytes out = min m (length stream)"
    using assms(1) by (simp add: retained_bytes_def sat_add_def)
  moreover from this have "snapshot out = into_snapshot out"
    using \<open>length (ro_head out) + length (ro_tail out) = min m (length stream)\<close>
    by (simp add: snapshot_def into_snapshot_def retained_bytes_vec_def omitted_bytes_def Let_def)
  ultimately show ?thesis using out rendered_retained assms by simp
qed

theorem retention_is_chunk_independent_witness:
  "rendered_bytes (into_snapshot (foldl output_append (output_new 5) [''ab'', ''cdefg'', [], ''hij'']))
   = ''abc'' @ omission_marker 5 @ ''ij''"
proof -
  have u: "5 \<le> usize_max" "length (concat [''ab'', ''cdefg'', [], ''hij'']) \<le> usize_max"
    by (simp_all add: u64_max_def)
  let ?s = "''abcdefghij''"
  have stream: "concat [''ab'', ''cdefg'', [], ''hij''] = ?s" by simp
  have caps: "head_capacity 5 = 3" "tail_capacity 5 = 2"
    by (simp_all add: head_capacity_def tail_capacity_def)
  have shape: "\<not> length ?s \<le> 5" "length ?s - 5 = 5" "take 3 ?s = ''abc''" "last_bytes 2 ?s = ''ij''"
    by (simp_all add: last_bytes_def eval_nat_numeral)
  have "rendered_bytes (into_snapshot (foldl output_append (output_new 5) [''ab'', ''cdefg'', [], ''hij'']))
      = take (head_capacity 5) ?s @ omission_marker (length ?s - 5) @ last_bytes (tail_capacity 5) ?s"
    using retention_is_chunk_independent [OF u refl stream [symmetric]] shape(1) by argo
  then show ?thesis unfolding caps shape .
qed

text \<open>
  Reading to the end returns exactly this. If a reader delivers the chunks, with any number
  of interrupted calls between them, and then ends, the result is the snapshot of their
  concatenation; if it fails instead, the result is that error.
\<close>

theorem read_to_retained_result:
  assumes "m \<le> usize_max" "list_all (\<lambda>c. c = ReadInterrupted \<or> (\<exists>b. c = ReadOk b \<and> b \<noteq> [])) calls"
    and "stream = concat (List.map_filter (\<lambda>c. case c of ReadOk b \<Rightarrow> Some b | _ \<Rightarrow> None) calls)"
  shows "read_to_retained (calls @ ReadOk [] # rest) m = Some (Inr (into_snapshot (retained m stream)))
       \<and> read_to_retained (calls @ ReadError e # rest) m = Some (Inl e)"
proof -
  have "read_loop (retained m pre) (calls @ ReadOk [] # rest) = Some (Inr (into_snapshot (retained m
          (pre @ concat (List.map_filter (\<lambda>c. case c of ReadOk b \<Rightarrow> Some b | _ \<Rightarrow> None) calls)))))
      \<and> read_loop (retained m pre) (calls @ ReadError e # rest) = Some (Inl e)" for pre
    using assms(2)
  proof (induction calls arbitrary: pre)
    case (Cons c calls)
    then show ?case
      by (cases c) (auto simp: append_retained [OF assms(1)] map_filter_simps)
  qed (simp add: map_filter_simps)
  from this [of "[]"] show ?thesis by (simp add: read_to_retained_def retained_Nil assms(3))
qed

theorem read_to_retained_result_witness:
  "read_to_retained [ReadOk ''ab'', ReadInterrupted, ReadOk ''c'', ReadOk []] 8
   = Some (Inr (into_snapshot (retained 8 ''abc'')))"
proof -
  have "list_all (\<lambda>c. c = ReadInterrupted \<or> (\<exists>b. c = ReadOk b \<and> b \<noteq> []))
      [ReadOk ''ab'', ReadInterrupted, ReadOk ''c'']" by simp
  from read_to_retained_result [OF _ this refl, of 8 "[]" "[]"] show ?thesis
    by (simp add: u64_max_def map_filter_simps)
qed

end
