(* ===== verification/Sse_Decoder.thy ===== *)
theory Sse_Decoder
  imports Contracts Rust_Utf8
begin

text \<open>
  The server-sent event decoder, \<^verbatim>\<open>crates/orca-mcp/src/sse.rs\<close>. The theory shows that what is given out does not depend on
  where the reads end, and that encoded events are decoded again.
\<close>

subsection \<open>The decoder\<close>

record sse_event =
  se_event :: "string option"
  se_id :: "string option"
  se_data :: string

record sse_decoder =
  sd_line :: string
  sd_after_cr :: bool
  sd_event :: "string option"
  sd_id :: "string option"
  sd_data :: "string option"
  sd_unreadable :: "string option"
  sd_ready :: "(string, sse_event) result list"

definition decoder_new :: sse_decoder where
  "decoder_new =
     \<lparr>sd_line = [], sd_after_cr = False, sd_event = None, sd_id = None, sd_data = None,
      sd_unreadable = None, sd_ready = []\<rparr>"

abbreviation lf :: char where "lf \<equiv> CHR 0x0A"
abbreviation cr :: char where "cr \<equiv> CHR 0x0D"

definition end_event :: "sse_decoder \<Rightarrow> sse_decoder" where
  "end_event d =
     (let item = (case sd_unreadable d of
                    Some e \<Rightarrow> [Inl e]
                  | None \<Rightarrow>
                      (case sd_data d of
                         Some data \<Rightarrow> [Inr \<lparr>se_event = sd_event d, se_id = sd_id d, se_data = data\<rparr>]
                       | None \<Rightarrow> []))
      in d\<lparr>sd_event := None, sd_id := None, sd_data := None, sd_unreadable := None,
           sd_ready := sd_ready d @ item\<rparr>)"

definition end_line :: "sse_decoder \<Rightarrow> sse_decoder" where
  "end_line d =
     (let line = sd_line d; d = d\<lparr>sd_line := []\<rparr>
      in (case utf8_error 0 line of
            Some e \<Rightarrow>
              d\<lparr>sd_unreadable :=
                  (if sd_unreadable d = None
                   then Some (''an event stream line is not UTF-8: '' @ utf8_error_message e)
                   else sd_unreadable d),
                sd_event := None, sd_id := None, sd_data := None\<rparr>
          | None \<Rightarrow>
              if line = [] then end_event d
              else if sd_unreadable d \<noteq> None \<or> starts_with line '':'' then d
              else
                (let (field, value) = unwrap_or (split_once line '':'') (line, []);
                     value = unwrap_or (strip_prefix value '' '') value
                 in if field = ''event'' then d\<lparr>sd_event := Some value\<rparr>
                    else if field = ''id'' then d\<lparr>sd_id := Some value\<rparr>
                    else if field = ''data'' then
                      (case sd_data d of
                         Some data \<Rightarrow> d\<lparr>sd_data := Some (data @ [lf] @ value)\<rparr>
                       | None \<Rightarrow> d\<lparr>sd_data := Some value\<rparr>)
                    else d)))"

definition not_eol :: "char \<Rightarrow> bool" where
  "not_eol b \<longleftrightarrow> b \<noteq> lf \<and> b \<noteq> cr"

function cut :: "string \<Rightarrow> sse_decoder \<Rightarrow> sse_decoder" where
  "cut rest d =
     (if rest = [] then d
      else
        (let was_cr = sd_after_cr d; d = d\<lparr>sd_after_cr := False\<rparr>
         in if was_cr \<and> hd rest = lf then cut (tl rest) d
            else
              (let line = takeWhile not_eol rest; more = dropWhile not_eol rest
               in if more = [] then d\<lparr>sd_line := sd_line d @ rest\<rparr>
                  else cut (tl more)
                         (end_line (d\<lparr>sd_line := sd_line d @ line, sd_after_cr := hd more = cr\<rparr>)))))"
  by pat_completeness auto

lemma length_tl_dropWhile: "xs \<noteq> [] \<Longrightarrow> length (dropWhile P xs) - Suc 0 < length xs"
  using length_dropWhile_le [of P xs] by (cases xs) auto

termination cut
  by (relation "measure (\<lambda>(rest, d). length rest)") (auto simp: length_tl_dropWhile Let_def)

declare cut.simps [simp del]

fun pop_ready :: "sse_event list \<Rightarrow> (string, sse_event) result list
    \<Rightarrow> (string, sse_event list) result \<times> (string, sse_event) result list" where
  "pop_ready events [] = (Inr events, [])"
| "pop_ready events (Inr e # ready) = pop_ready (events @ [e]) ready"
| "pop_ready events (Inl err # ready) =
     (if events = [] then (Inl err, ready) else (Inr events, Inl err # ready))"

definition push :: "string \<Rightarrow> sse_decoder \<Rightarrow> (string, sse_event list) result \<times> sse_decoder" where
  "push bytes d =
     (let d = cut bytes d
      in (case pop_ready [] (sd_ready d) of (out, ready) \<Rightarrow> (out, d\<lparr>sd_ready := ready\<rparr>)))"

definition sse_finish :: "sse_decoder \<Rightarrow> (string, sse_event option) result" where
  "sse_finish d =
     (let d = (if sd_line d \<noteq> [] then end_line d else d);
          d = end_event d
      in (case sd_ready d of
            [] \<Rightarrow> Inr None
          | Inr e # _ \<Rightarrow> Inr (Some e)
          | Inl err # _ \<Rightarrow> Inl err))"

definition buffered_len :: "sse_decoder \<Rightarrow> nat" where
  "buffered_len d =
     length (sd_line d)
     + (\<Sum>x \<leftarrow> [sd_event d, sd_id d, sd_data d]. case x of None \<Rightarrow> 0 | Some s \<Rightarrow> length s)"

subsection \<open>Reading byte by byte\<close>

definition byte_step :: "char \<Rightarrow> sse_decoder \<Rightarrow> sse_decoder" where
  "byte_step b d =
     (if sd_after_cr d \<and> b = lf then d\<lparr>sd_after_cr := False\<rparr>
      else if not_eol b then d\<lparr>sd_after_cr := False, sd_line := sd_line d @ [b]\<rparr>
      else end_line (d\<lparr>sd_after_cr := b = cr\<rparr>))"

lemma fold_plain:
  assumes "list_all not_eol xs" "xs \<noteq> []"
  shows "fold byte_step xs d = d\<lparr>sd_after_cr := False, sd_line := sd_line d @ xs\<rparr>"
  using assms
proof (induction xs arbitrary: d)
  case (Cons b xs)
  then have "byte_step b d = d\<lparr>sd_after_cr := False, sd_line := sd_line d @ [b]\<rparr>"
    by (auto simp: byte_step_def not_eol_def)
  with Cons show ?case by (cases "xs = []") auto
qed simp

lemma fold_line:
  assumes "list_all not_eol line" "\<not> not_eol e" "\<not> (sd_after_cr d \<and> hd (line @ [e]) = lf)"
  shows "fold byte_step (line @ [e]) d = end_line (d\<lparr>sd_line := sd_line d @ line, sd_after_cr := e = cr\<rparr>)"
proof (cases "line = []")
  case True
  with assms show ?thesis by (auto simp: byte_step_def)
next
  case False
  with assms fold_plain [OF assms(1) False] show ?thesis by (simp add: byte_step_def)
qed

lemma cut_fold: "cut rest d = fold byte_step rest d"
proof (induction rest d rule: cut.induct)
  case (1 rest d)
  let ?line = "takeWhile not_eol rest" and ?more = "dropWhile not_eol rest"
  consider "rest = []" | (skip) "rest \<noteq> []" "sd_after_cr d \<and> hd rest = lf"
    | (plain) "rest \<noteq> []" "\<not> (sd_after_cr d \<and> hd rest = lf)" "?more = []"
    | (line) "rest \<noteq> []" "\<not> (sd_after_cr d \<and> hd rest = lf)" "?more \<noteq> []" by blast
  then show ?case
  proof cases
    case skip
    then have "byte_step (hd rest) d = d\<lparr>sd_after_cr := False\<rparr>" by (simp add: byte_step_def)
    moreover have "cut rest d = cut (tl rest) (d\<lparr>sd_after_cr := False\<rparr>)"
      using skip by (simp add: cut.simps [of rest])
    ultimately show ?thesis using skip "1.IH"(1) by (cases rest) simp_all
  next
    case plain
    then have "list_all not_eol rest" by (simp add: list_all_iff)
    with plain fold_plain show ?thesis by (auto simp: cut.simps [of rest])
  next
    case line
    have rest: "rest = ?line @ [hd ?more] @ tl ?more" using line(3) by simp
    have hd: "hd (?line @ [hd ?more]) = hd rest"
      using rest by (metis append_is_Nil_conv append_assoc hd_append2 not_Cons_self2)
    have eol: "\<not> not_eol (hd ?more)" using line(3) hd_dropWhile by blast
    have plain: "list_all not_eol ?line" by (auto simp: list_all_iff dest: set_takeWhileD)
    have "fold byte_step rest d = fold byte_step (tl ?more) (fold byte_step (?line @ [hd ?more]) d)"
      by (subst rest) simp
    also have "fold byte_step (?line @ [hd ?more]) d
        = end_line (d\<lparr>sd_line := sd_line d @ ?line, sd_after_cr := hd ?more = cr\<rparr>)"
      using line(2) hd by (intro fold_line plain eol) simp
    finally show ?thesis using line "1.IH"(2) by (auto simp: cut.simps [of rest] Let_def)
  qed (simp add: cut.simps)
qed

interpretation sse_cut: chunked_sink "\<lambda>d bytes. cut bytes d" "\<lambda>_. True"
  by unfold_locales (simp_all add: cut_fold)

lemma cut_append: "cut ys (cut xs d) = cut (xs @ ys) d"
  by (rule sse_cut.push_append) simp

subsection \<open>What was given out does not influence what follows\<close>

definition queued :: "(string, sse_event) result list \<Rightarrow> sse_decoder \<Rightarrow> sse_decoder" where
  "queued r d = d\<lparr>sd_ready := r @ sd_ready d\<rparr>"

lemma queued_Nil [simp]: "queued [] d = d"
  by (simp add: queued_def)

lemma end_line_queued: "end_line (queued r d) = queued r (end_line d)"
  by (cases "sd_data d"; cases "sd_unreadable d")
     (auto simp: end_line_def end_event_def queued_def Let_def split: option.splits prod.splits)

lemma byte_step_queued: "byte_step b (queued r d) = queued r (byte_step b d)"
proof -
  have "(queued r d)\<lparr>sd_after_cr := x\<rparr> = queued r (d\<lparr>sd_after_cr := x\<rparr>)" for x
    by (simp add: queued_def)
  then show ?thesis by (auto simp: byte_step_def end_line_queued) (simp_all add: queued_def)
qed

lemma cut_queued: "cut bytes (queued r d) = queued r (cut bytes d)"
  unfolding cut_fold by (induction bytes arbitrary: d) (simp_all add: byte_step_queued)

fun items_of :: "(string, sse_event list) result \<Rightarrow> (string, sse_event) result list" where
  "items_of (Inl e) = [Inl e]"
| "items_of (Inr es) = map Inr es"

lemma pop_ready_items:
  assumes "pop_ready events ready = (out, left)"
  shows "items_of out @ left = map Inr events @ ready \<and> (out = Inr [] \<longrightarrow> events = [] \<and> ready = [])"
  using assms
proof (induction events ready rule: pop_ready.induct)
  case (3 events err ready)
  then show ?case by (auto split: if_splits)
qed auto

text \<open>A reader's calls, chunk by chunk, and everything they give out.\<close>

fun session :: "string list \<Rightarrow> sse_decoder \<Rightarrow> (string, sse_event) result list \<times> sse_decoder" where
  "session [] d = ([], d)"
| "session (bytes # chunks) d =
     (case push bytes d of (out, d') \<Rightarrow>
        (case session chunks d' of (items, d'') \<Rightarrow> (items_of out @ items, d'')))"

lemma push_items:
  assumes "push bytes d = (out, d')"
  shows "items_of out @ sd_ready d' = sd_ready (cut bytes d)
    \<and> d'\<lparr>sd_ready := []\<rparr> = (cut bytes d)\<lparr>sd_ready := []\<rparr> \<and> (out = Inr [] \<longrightarrow> sd_ready d' = [])"
  using assms pop_ready_items by (fastforce simp: push_def Let_def split: prod.splits)

lemma queued_split: "d = queued (sd_ready d) (d\<lparr>sd_ready := []\<rparr>)"
  by (simp add: queued_def)

lemma session_items:
  assumes "session chunks d = (items, d')"
  shows "items @ sd_ready d' = sd_ready (cut (concat chunks) d)
    \<and> d'\<lparr>sd_ready := []\<rparr> = (cut (concat chunks) d)\<lparr>sd_ready := []\<rparr>"
  using assms
proof (induction chunks arbitrary: d items)
  case Nil
  then show ?case by (simp add: cut.simps)
next
  case (Cons bytes chunks)
  from Cons.prems obtain out d1 its where p: "push bytes d = (out, d1)" and s: "session chunks d1 = (its, d')"
    and items: "items = items_of out @ its" by (auto split: prod.splits)
  let ?c = "concat chunks" and ?e = "(cut bytes d)\<lparr>sd_ready := []\<rparr>"
  from push_items [OF p] have d1: "d1 = queued (sd_ready d1) ?e" and out: "items_of out @ sd_ready d1 = sd_ready (cut bytes d)"
    using queued_split [of d1] by simp_all
  have "cut ?c d1 = queued (sd_ready d1) (cut ?c ?e)" by (subst d1) (simp add: cut_queued)
  moreover have "cut (concat (bytes # chunks)) d = queued (sd_ready (cut bytes d)) (cut ?c ?e)"
    using cut_append [of ?c bytes d] queued_split [of "cut bytes d"]
    by (metis concat.simps(2) cut_queued)
  ultimately show ?case
    using Cons.IH [OF s] out items by (auto simp: queued_def)
qed

lemma session_append: "session (xs @ ys) d =
  (case session xs d of (items, d') \<Rightarrow> (case session ys d' of (items', d'') \<Rightarrow> (items @ items', d'')))"
  by (induction xs arbitrary: d) (auto split: prod.splits)

lemma drain: "\<exists>k. sd_ready (snd (session (replicate k []) d)) = []"
proof (induction "length (sd_ready d)" arbitrary: d rule: less_induct)
  case less
  show ?case
  proof (cases "sd_ready d = []")
    case True
    then show ?thesis by (intro exI [of _ 0]) simp
  next
    case False
    obtain out d' where p: "push [] d = (out, d')" by fastforce
    have items: "items_of out @ sd_ready d' = sd_ready d" "out = Inr [] \<longrightarrow> sd_ready d' = []"
      using push_items [OF p] by (simp_all add: cut.simps)
    with False have "items_of out \<noteq> []" by (cases out) auto
    with items(1) have "length (sd_ready d') < length (sd_ready d)"
      by (metis length_append less_add_same_cancel2 length_greater_0_conv)
    with less obtain k where "sd_ready (snd (session (replicate k []) d')) = []" by blast
    with p show ?thesis by (intro exI [of _ "Suc k"]) (auto split: prod.splits)
  qed
qed

subsection \<open>Properties\<close>

text \<open>
  C30: What the decoder gives out does not depend on where the reads end. Two readers that bring
  the same bytes in whatever pieces, asking until nothing is left, get the same events and
  errors in the same order and end in the same decoder, hence with the same last event; and
  asking again with no bytes always gets to the point where nothing is left.
\<close>

theorem decoding_is_chunk_independent:
  assumes "session chunks decoder_new = (items, d)" "session chunks' decoder_new = (items', d')"
    and "concat chunks = concat chunks'" "sd_ready d = []" "sd_ready d' = []"
  shows "items = items' \<and> d = d' \<and> sse_finish d = sse_finish d'
    \<and> (\<exists>k. sd_ready (snd (session (any @ replicate k []) decoder_new)) = [])"
proof -
  have "items = items' \<and> d\<lparr>sd_ready := []\<rparr> = d'\<lparr>sd_ready := []\<rparr>"
    using session_items [OF assms(1)] session_items [OF assms(2)] assms(3-5) by simp
  moreover from this have "d = d'"
    using assms(4,5) by (cases d; cases d') simp
  moreover have "\<exists>k. sd_ready (snd (session (any @ replicate k []) decoder_new)) = []"
  proof -
    obtain its d1 where "session any decoder_new = (its, d1)" by fastforce
    then have "snd (session (any @ replicate k []) decoder_new) = snd (session (replicate k []) d1)" for k
      by (simp add: session_append split: prod.splits)
    with drain [of d1] show ?thesis by simp
  qed
  ultimately show ?thesis by simp
qed

theorem decoding_is_chunk_independent_witness:
  "fst (session [''data: a'', [lf, lf], []] decoder_new) = fst (session [''data: a'' @ [lf, lf], []] decoder_new)"
proof -
  obtain i1 d1 where 1: "session [''data: a'', [lf, lf], []] decoder_new = (i1, d1)" by fastforce
  obtain i2 d2 where 2: "session [''data: a'' @ [lf, lf], []] decoder_new = (i2, d2)" by fastforce
  have "sd_ready (snd (session [''data: a'', [lf, lf], []] decoder_new)) = []"
    "sd_ready (snd (session [''data: a'' @ [lf, lf], []] decoder_new)) = []" by code_simp+
  with decoding_is_chunk_independent [OF 1 2] 1 2 show ?thesis by simp
qed

subsection \<open>Encoding\<close>

fun join_lf :: "string list \<Rightarrow> string" where
  "join_lf [] = []"
| "join_lf [l] = l"
| "join_lf (l # ls) = l @ [lf] @ join_lf ls"

text \<open>An event as the standard writes it, with the data given line by line.\<close>

record sse_message =
  ms_event :: "string option"
  ms_id :: "string option"
  ms_lines :: "string list"

definition field_lines :: "sse_message \<Rightarrow> string list" where
  "field_lines m =
     (case ms_event m of None \<Rightarrow> [] | Some v \<Rightarrow> [''event: '' @ v])
     @ (case ms_id m of None \<Rightarrow> [] | Some v \<Rightarrow> [''id: '' @ v])
     @ map (\<lambda>v. ''data: '' @ v) (ms_lines m)"

definition encode_message :: "string \<Rightarrow> sse_message \<Rightarrow> string" where
  "encode_message eol m = concat (map (\<lambda>l. l @ eol) (field_lines m)) @ eol"

definition message_event :: "sse_message \<Rightarrow> sse_event" where
  "message_event m = \<lparr>se_event = ms_event m, se_id = ms_id m, se_data = join_lf (ms_lines m)\<rparr>"

text \<open>Text that fits on one line.\<close>

definition line_text :: "string \<Rightarrow> bool" where
  "line_text v \<longleftrightarrow> list_all not_eol v \<and> utf8_error 0 v = None"

definition message_ok :: "sse_message \<Rightarrow> bool" where
  "message_ok m \<longleftrightarrow>
     ms_lines m \<noteq> [] \<and> list_all line_text (ms_lines m)
     \<and> is_none_or (ms_event m) line_text \<and> is_none_or (ms_id m) line_text"

definition line_ends :: "string list" where
  "line_ends = [[lf], [cr], [cr, lf]]"

lemma end_line_after_cr: "end_line (d\<lparr>sd_after_cr := x\<rparr>) = (end_line d)\<lparr>sd_after_cr := x\<rparr>"
  by (cases "sd_data d"; cases "sd_unreadable d")
     (auto simp: end_line_def end_event_def Let_def split: option.splits prod.splits)

lemma read_line:
  assumes "list_all not_eol l" "eol \<in> set line_ends" "sd_line d = []" "sd_after_cr d \<longrightarrow> eol = [cr]"
  shows "fold byte_step (l @ eol) d = (end_line (d\<lparr>sd_line := l\<rparr>))\<lparr>sd_after_cr := eol = [cr]\<rparr>"
proof -
  let ?e = "hd eol"
  have e: "\<not> not_eol ?e" "eol = [?e] \<or> eol = [cr, lf]" using assms(2) by (auto simp: line_ends_def not_eol_def)
  have "\<not> (sd_after_cr d \<and> hd (l @ [?e]) = lf)"
    using assms(1,4) by (cases l) (auto simp: not_eol_def)
  then have first: "fold byte_step (l @ [?e]) d = (end_line (d\<lparr>sd_line := l\<rparr>))\<lparr>sd_after_cr := ?e = cr\<rparr>"
    using fold_line [OF assms(1) e(1)] assms(3) end_line_after_cr [where d = "d\<lparr>sd_line := l\<rparr>"] by simp
  show ?thesis
  proof (cases "eol = [cr, lf]")
    case True
    then have "fold byte_step (l @ eol) d = byte_step lf (fold byte_step (l @ [?e]) d)" by simp
    with first True show ?thesis by (simp add: byte_step_def)
  next
    case False
    with e(2) obtain b where "eol = [b]" by blast
    with first show ?thesis by simp
  qed
qed

text \<open>What one encoded line does.\<close>

lemma end_line_fields:
  assumes "line_text v" "sd_unreadable d = None"
  shows "end_line (d\<lparr>sd_line := ''event: '' @ v\<rparr>) = d\<lparr>sd_line := [], sd_event := Some v\<rparr>"
    "end_line (d\<lparr>sd_line := ''id: '' @ v\<rparr>) = d\<lparr>sd_line := [], sd_id := Some v\<rparr>"
    "end_line (d\<lparr>sd_line := ''data: '' @ v\<rparr>) = d\<lparr>sd_line := [], sd_data := Some
       (case sd_data d of None \<Rightarrow> v | Some x \<Rightarrow> x @ [lf] @ v)\<rparr>"
proof -
  have ascii: "list_all (\<lambda>c. byte_of c < 128) ''event: ''" "list_all (\<lambda>c. byte_of c < 128) ''id: ''"
    "list_all (\<lambda>c. byte_of c < 128) ''data: ''" by code_simp+
  have utf8: "utf8_error 0 (''event: '' @ v) = None" "utf8_error 0 (''id: '' @ v) = None"
    "utf8_error 0 (''data: '' @ v) = None"
    using ascii [THEN utf8_ascii_prefix] assms(1) by (auto simp only: line_text_def)
  show "end_line (d\<lparr>sd_line := ''event: '' @ v\<rparr>) = d\<lparr>sd_line := [], sd_event := Some v\<rparr>"
    "end_line (d\<lparr>sd_line := ''id: '' @ v\<rparr>) = d\<lparr>sd_line := [], sd_id := Some v\<rparr>"
    "end_line (d\<lparr>sd_line := ''data: '' @ v\<rparr>) = d\<lparr>sd_line := [], sd_data := Some
       (case sd_data d of None \<Rightarrow> v | Some x \<Rightarrow> x @ [lf] @ v)\<rparr>"
    using utf8 assms(2)
    by (simp_all add: end_line_def starts_with_def strip_prefix_def Let_def split: option.splits)
qed

text \<open>Between two events: nothing is pending.\<close>

definition idle :: "string \<Rightarrow> sse_decoder \<Rightarrow> bool" where
  "idle eol d \<longleftrightarrow> sd_line d = [] \<and> sd_unreadable d = None \<and> (sd_after_cr d \<longrightarrow> eol = [cr])"

lemma prefixed_not_eol:
  "line_text v \<Longrightarrow> list_all not_eol (''event: '' @ v)" "line_text v \<Longrightarrow> list_all not_eol (''id: '' @ v)"
  "line_text v \<Longrightarrow> list_all not_eol (''data: '' @ v)"
  by (simp_all add: line_text_def not_eol_def)

lemma read_data:
  assumes "list_all line_text ls" "ls \<noteq> []" "eol \<in> set line_ends" "idle eol d"
  shows "fold byte_step (concat (map (\<lambda>l. l @ eol) (map (\<lambda>v. ''data: '' @ v) ls))) d
    = d\<lparr>sd_after_cr := eol = [cr],
        sd_data := Some (case sd_data d of None \<Rightarrow> join_lf ls | Some x \<Rightarrow> x @ [lf] @ join_lf ls)\<rparr>"
  using assms
proof (induction ls arbitrary: d)
  case (Cons v ls)
  let ?d = "d\<lparr>sd_after_cr := eol = [cr],
      sd_data := Some (case sd_data d of None \<Rightarrow> v | Some x \<Rightarrow> x @ [lf] @ v)\<rparr>"
  have v: "line_text v" using Cons.prems by simp
  have "fold byte_step ((''data: '' @ v) @ eol) d = ?d"
    using read_line [OF prefixed_not_eol(3) [OF v] Cons.prems(3), of d] end_line_fields(3) [OF v, of d] Cons.prems(4)
    by (simp add: idle_def)
  moreover have "idle eol ?d" using Cons.prems(4) by (simp add: idle_def)
  ultimately show ?case
    using Cons.IH [of ?d] Cons.prems(1,3)
    by (cases "ls = []") (auto simp: neq_Nil_conv simp del: append_Cons split: option.splits)
qed simp

lemma read_optional:
  assumes "is_none_or x line_text" "eol \<in> set line_ends" "idle eol d"
  shows "sd_event d = None \<Longrightarrow> \<exists>b. fold byte_step (concat (map (\<lambda>l. l @ eol)
            (case x of None \<Rightarrow> [] | Some v \<Rightarrow> [''event: '' @ v]))) d = d\<lparr>sd_after_cr := b, sd_event := x\<rparr>
            \<and> (b \<longrightarrow> eol = [cr])"
    and "sd_id d = None \<Longrightarrow> \<exists>b. fold byte_step (concat (map (\<lambda>l. l @ eol)
            (case x of None \<Rightarrow> [] | Some v \<Rightarrow> [''id: '' @ v]))) d = d\<lparr>sd_after_cr := b, sd_id := x\<rparr>
            \<and> (b \<longrightarrow> eol = [cr])"
proof -
  have "\<exists>b. fold byte_step (concat (map (\<lambda>l. l @ eol)
      (case x of None \<Rightarrow> [] | Some v \<Rightarrow> [''event: '' @ v]))) d = d\<lparr>sd_after_cr := b, sd_event := x\<rparr>
      \<and> (b \<longrightarrow> eol = [cr])" if "sd_event d = None"
  proof (cases x)
    case None
    with that assms(3) show ?thesis by (intro exI [of _ "sd_after_cr d"]) (cases d, simp add: idle_def)
  next
    case (Some v)
    with assms have v: "line_text v" by simp
    from read_line [OF prefixed_not_eol(1) [OF v] assms(2), of d] end_line_fields(1) [OF v, of d] Some assms(3)
    show ?thesis by (intro exI [of _ "eol = [cr]"]) (simp add: idle_def)
  qed
  moreover have "\<exists>b. fold byte_step (concat (map (\<lambda>l. l @ eol)
      (case x of None \<Rightarrow> [] | Some v \<Rightarrow> [''id: '' @ v]))) d = d\<lparr>sd_after_cr := b, sd_id := x\<rparr>
      \<and> (b \<longrightarrow> eol = [cr])" if "sd_id d = None"
  proof (cases x)
    case None
    with that assms(3) show ?thesis by (intro exI [of _ "sd_after_cr d"]) (cases d, simp add: idle_def)
  next
    case (Some v)
    with assms have v: "line_text v" by simp
    from read_line [OF prefixed_not_eol(2) [OF v] assms(2), of d] end_line_fields(2) [OF v, of d] Some assms(3)
    show ?thesis by (intro exI [of _ "eol = [cr]"]) (simp add: idle_def)
  qed
  ultimately show "sd_event d = None \<Longrightarrow> \<exists>b. fold byte_step (concat (map (\<lambda>l. l @ eol)
            (case x of None \<Rightarrow> [] | Some v \<Rightarrow> [''event: '' @ v]))) d = d\<lparr>sd_after_cr := b, sd_event := x\<rparr>
            \<and> (b \<longrightarrow> eol = [cr])"
    and "sd_id d = None \<Longrightarrow> \<exists>b. fold byte_step (concat (map (\<lambda>l. l @ eol)
            (case x of None \<Rightarrow> [] | Some v \<Rightarrow> [''id: '' @ v]))) d = d\<lparr>sd_after_cr := b, sd_id := x\<rparr>
            \<and> (b \<longrightarrow> eol = [cr])" by blast+
qed

lemma read_message:
  assumes "message_ok m" "eol \<in> set line_ends" "idle eol d"
    and "sd_event d = None" "sd_id d = None" "sd_data d = None"
  shows "fold byte_step (encode_message eol m) d
    = d\<lparr>sd_after_cr := eol = [cr], sd_ready := sd_ready d @ [Inr (message_event m)]\<rparr>"
proof -
  obtain b where b: "fold byte_step (concat (map (\<lambda>l. l @ eol)
      (case ms_event m of None \<Rightarrow> [] | Some v \<Rightarrow> [''event: '' @ v]))) d
      = d\<lparr>sd_after_cr := b, sd_event := ms_event m\<rparr>" "b \<longrightarrow> eol = [cr]"
    using read_optional(1) [OF _ assms(2,3,4)] assms(1) by (auto simp: message_ok_def)
  let ?d1 = "d\<lparr>sd_after_cr := b, sd_event := ms_event m\<rparr>"
  have i1: "idle eol ?d1" "sd_id ?d1 = None" using assms(3,5) b(2) by (simp_all add: idle_def)
  obtain b' where b': "fold byte_step (concat (map (\<lambda>l. l @ eol)
      (case ms_id m of None \<Rightarrow> [] | Some v \<Rightarrow> [''id: '' @ v]))) ?d1
      = ?d1\<lparr>sd_after_cr := b', sd_id := ms_id m\<rparr>" "b' \<longrightarrow> eol = [cr]"
    using read_optional(2) [OF _ assms(2) i1] assms(1) by (auto simp: message_ok_def)
  let ?d2 = "?d1\<lparr>sd_after_cr := b', sd_id := ms_id m\<rparr>"
  have i2: "idle eol ?d2" using assms(3) b'(2) by (simp add: idle_def)
  let ?d3 = "?d2\<lparr>sd_after_cr := eol = [cr], sd_data := Some (join_lf (ms_lines m))\<rparr>"
  have d3: "fold byte_step (concat (map (\<lambda>l. l @ eol) (map (\<lambda>v. ''data: '' @ v) (ms_lines m)))) ?d2 = ?d3"
    using read_data [OF _ _ assms(2) i2] assms(1,6) by (simp add: message_ok_def)
  have i3: "idle eol ?d3" using assms(3) by (simp add: idle_def)
  have "fold byte_step ([] @ eol) ?d3 = (end_line (?d3\<lparr>sd_line := []\<rparr>))\<lparr>sd_after_cr := eol = [cr]\<rparr>"
    using i3 by (intro read_line assms(2)) (auto simp: idle_def)
  also have "\<dots> = d\<lparr>sd_after_cr := eol = [cr], sd_ready := sd_ready d @ [Inr (message_event m)]\<rparr>"
    using assms(3-6) by (cases d) (simp add: end_line_def end_event_def message_event_def idle_def Let_def)
  finally show ?thesis
    unfolding encode_message_def field_lines_def map_append concat_append fold_append comp_apply b(1) b'(1) d3
    by simp
qed

text \<open>
  Encoded events come back. A stream of well-formed events, written with any one of the three
  line ends the standard allows, is decoded into exactly those events in order, each with its
  name, its id and its data lines joined, and nothing is left over at the end of the stream.
\<close>

theorem sse_round_trip:
  assumes "list_all message_ok ms" "eol \<in> set line_ends"
  shows "fst (session [concat (map (encode_message eol) ms), []] decoder_new)
           = map (Inr \<circ> message_event) ms
       \<and> sse_finish (snd (session [concat (map (encode_message eol) ms), []] decoder_new)) = Inr None"
proof -
  have all: "fold byte_step (concat (map (encode_message eol) ms)) d
      = d\<lparr>sd_after_cr := (if ms = [] then sd_after_cr d else eol = [cr]),
          sd_ready := sd_ready d @ map (Inr \<circ> message_event) ms\<rparr>"
    if "idle eol d" "sd_event d = None" "sd_id d = None" "sd_data d = None" for d
    using assms(1) that
  proof (induction ms arbitrary: d)
    case (Cons m ms)
    let ?d = "d\<lparr>sd_after_cr := eol = [cr], sd_ready := sd_ready d @ [Inr (message_event m)]\<rparr>"
    have "fold byte_step (encode_message eol m) d = ?d"
      using Cons.prems assms(2) by (intro read_message) simp_all
    moreover have "idle eol ?d" using Cons.prems(2) by (simp add: idle_def)
    ultimately show ?case using Cons.IH [of ?d] Cons.prems by simp
  qed simp
  let ?d = "decoder_new\<lparr>sd_after_cr := (if ms = [] then False else eol = [cr]),
      sd_ready := map (Inr \<circ> message_event) ms\<rparr>"
  have cut: "cut (concat (map (encode_message eol) ms)) decoder_new = ?d"
    unfolding cut_fold by (subst all) (simp_all add: idle_def decoder_new_def)
  have pop: "pop_ready es (map (Inr \<circ> message_event) xs) = (Inr (es @ map message_event xs), [])" for es xs
    by (induction xs arbitrary: es) simp_all
  have "push (concat (map (encode_message eol) ms)) decoder_new
      = (Inr (map message_event ms), ?d\<lparr>sd_ready := []\<rparr>)"
    by (simp add: push_def cut pop [of "[]"] del: fun_upd_apply)
  moreover have "push [] (?d\<lparr>sd_ready := []\<rparr>) = (Inr [], ?d\<lparr>sd_ready := []\<rparr>)"
    by (simp add: push_def cut.simps)
  ultimately show ?thesis
    by (simp add: sse_finish_def end_event_def decoder_new_def Let_def)
qed

theorem sse_round_trip_witness:
  "fst (session [concat (map (encode_message [cr, lf])
      [\<lparr>ms_event = Some ''endpoint'', ms_id = None, ms_lines = [''/a'', [], ''b'']\<rparr>]), []] decoder_new)
   = [Inr \<lparr>se_event = Some ''endpoint'', se_id = None, se_data = ''/a'' @ [lf, lf] @ ''b''\<rparr>]"
proof -
  let ?m = "\<lparr>ms_event = Some ''endpoint'', ms_id = None, ms_lines = [''/a'', [], ''b'']\<rparr>"
  have "list_all message_ok [?m]" "[cr, lf] \<in> set line_ends" by code_simp+
  from sse_round_trip [OF this] show ?thesis by (simp add: message_event_def)
qed

end
