(* ===== verification/Goal_Tracker.thy ===== *)
theory Goal_Tracker
  imports Budget Contracts
begin

text \<open>
  The goal tracker, \<^verbatim>\<open>crates/orca-runtime/src/goal_tracker.rs\<close>, with the goal types of
  \<^verbatim>\<open>crates/orca-core/src/goal_runtime.rs\<close>: the state machine that runs a goal as a series of
  outer turns and decides after each one whether to continue, verify, pause or stop. Identifiers
  are opaque strings; a new one is an argument of the operation that mints it. Counters are
  \<^verbatim>\<open>u32\<close> and token counts \<^verbatim>\<open>i64\<close>, both saturating. Every operation returns its result and the tracker
  it leaves.
\<close>

subsection \<open>Goal types\<close>

datatype goal_turn_origin = UserOrigin | ResumeOrigin | ContinuationOrigin | WorkflowNotificationOrigin

datatype goal_pause_reason =
    PausedByUser | NoProgress | Backoff | Infrastructure | WaitingForWorkflow | Recovery | UsageLimit

record goal_gap =
  gap_summary :: string
  gap_fingerprint :: string
  gap_model_fixable :: bool

datatype goal_state =
    Active
  | Paused goal_pause_reason string
  | Blocked blocker_summary
  | BudgetLimited
  | Complete "evidence_item list"

definition should_continue :: "goal_state \<Rightarrow> bool" where
  "should_continue s = (case s of Active \<Rightarrow> True | _ \<Rightarrow> False)"

datatype goal_requested_state = RequestComplete | RequestBlocked

record goal_update_intent =
  gi_intent_id :: string
  gi_requested_state :: goal_requested_state
  gi_reason :: string
  gi_evidence :: "evidence_item list"
  gi_blocker :: "blocker_summary option"

datatype goal_reject_code =
    RejectInactive | RejectNoActiveOuterTurn | TerminalIntentPending | MissingEvidence | MissingBlocker
  | StaleIdentity

datatype goal_update_ack =
    DeferredToTurnEnd string nat
  | IntentRejected goal_reject_code string
  | AlreadyPending string
  | BlockedAgainstInactive goal_state

record goal_usage =
  gu_charged_input_tokens :: int
  gu_output_tokens :: int
  gu_cache_tokens :: int
  gu_verifier_tokens :: int
  gu_cost_micros :: int
  gu_elapsed_seconds :: int

definition goal_usage_default :: goal_usage where
  "goal_usage_default =
     \<lparr>gu_charged_input_tokens = 0, gu_output_tokens = 0, gu_cache_tokens = 0, gu_verifier_tokens = 0,
      gu_cost_micros = 0, gu_elapsed_seconds = 0\<rparr>"

definition charged_tokens :: "goal_usage \<Rightarrow> int" where
  "charged_tokens u =
     sat_add_i64 (sat_add_i64 (gu_charged_input_tokens u) (gu_output_tokens u)) (gu_verifier_tokens u)"

definition saturating_add_assign :: "goal_usage \<Rightarrow> goal_usage \<Rightarrow> goal_usage" where
  "saturating_add_assign other u =
     \<lparr>gu_charged_input_tokens = sat_add_i64 (gu_charged_input_tokens u) (max (gu_charged_input_tokens other) 0),
      gu_output_tokens = sat_add_i64 (gu_output_tokens u) (max (gu_output_tokens other) 0),
      gu_cache_tokens = sat_add_i64 (gu_cache_tokens u) (max (gu_cache_tokens other) 0),
      gu_verifier_tokens = sat_add_i64 (gu_verifier_tokens u) (max (gu_verifier_tokens other) 0),
      gu_cost_micros = sat_add_i64 (gu_cost_micros u) (max (gu_cost_micros other) 0),
      gu_elapsed_seconds = sat_add_i64 (gu_elapsed_seconds u) (max (gu_elapsed_seconds other) 0)\<rparr>"

datatype goal_turn_status =
  TurnSuccess | TurnFailed | TurnCancelled | TurnApprovalRequired | TurnBudgetExhausted

record goal_outer_turn_snapshot =
  ot_outer_turn_id :: string
  ot_goal_run_id :: string
  ot_origin :: goal_turn_origin
  ot_model_response_count :: nat
  ot_tool_attempt_count :: nat
  ot_tool_names :: "string list"
  ot_status :: "goal_turn_status option"

datatype goal_verification_result =
    Achieved "evidence_item list"
  | NotAchieved "goal_gap list"
  | VerifiedBlocked blocker_summary
  | Indeterminate string

datatype goal_continuation_reason =
  InitialContinuation | ProgressContinuation | GapFeedback | ResumeContinuation | WorkflowContinuation

datatype goal_next_action =
    ContinueGoal goal_continuation_reason
  | VerifyGoal goal_update_intent
  | PauseGoal goal_pause_reason string
  | BlockGoal blocker_summary
  | BudgetLimitGoal
  | CompleteGoal "evidence_item list"

record goal_run_snapshot =
  gr_goal_run_id :: string
  gr_outer_turn_id :: "string option"
  gr_origin :: goal_turn_origin
  gr_continuation_count :: nat
  gr_in_flight :: bool

record goal_transition_summary =
  gt_previous_state :: goal_state
  gt_next_state :: goal_state
  gt_reason_code :: string

record goal_record =
  rec_goal_id :: string
  rec_session_id :: string
  rec_objective :: string
  rec_objective_revision :: nat
  rec_state :: goal_state
  rec_token_budget :: "int option"
  rec_usage :: goal_usage
  rec_current_run :: "goal_run_snapshot option"
  rec_last_transition :: "goal_transition_summary option"

datatype turn_end_reason = CostBudgetExhausted | TurnEndCancelled | Unclassified

subsection \<open>The tracker\<close>

definition same_gap_streak_limit :: nat where
  "same_gap_streak_limit = 3"

definition max_consecutive_inner_turn_continuations :: nat where
  "max_consecutive_inner_turn_continuations = 8"

definition streak_from_history :: "string option list \<Rightarrow> string option \<times> nat" where
  "streak_from_history fingerprints =
     (case fingerprints of
        Some most_recent # _ \<Rightarrow>
          (Some most_recent, min u32_max (length (takeWhile (\<lambda>f. f = Some most_recent) fingerprints)))
      | _ \<Rightarrow> (None, 0))"

record goal_turn_result =
  tr_status :: goal_turn_status
  tr_end_reason :: turn_end_reason
  tr_terminal :: "operation_terminal option"
  tr_usage :: goal_usage
  tr_gaps :: "goal_gap list"
  tr_evidence_count :: nat

definition turn_successful :: goal_turn_result where
  "turn_successful =
     \<lparr>tr_status = TurnSuccess, tr_end_reason = Unclassified, tr_terminal = None,
      tr_usage = goal_usage_default, tr_gaps = [], tr_evidence_count = 0\<rparr>"

definition turn_successful_with_gaps :: "goal_gap list \<Rightarrow> goal_turn_result" where
  "turn_successful_with_gaps gaps = turn_successful\<lparr>tr_gaps := gaps\<rparr>"

definition turn_budget_exhausted :: "turn_end_reason \<Rightarrow> goal_turn_result" where
  "turn_budget_exhausted end_reason =
     \<lparr>tr_status = TurnBudgetExhausted, tr_end_reason = end_reason, tr_terminal = None,
      tr_usage = goal_usage_default, tr_gaps = [], tr_evidence_count = 0\<rparr>"

definition is_resumable_budget_stop :: "goal_turn_result \<Rightarrow> bool" where
  "is_resumable_budget_stop r =
     (case tr_terminal r of Some (StoppedTerminal _ _ _ resumable) \<Rightarrow> resumable | _ \<Rightarrow> False)"

datatype goal_tracker_error = GoalInactive | OuterTurnAlreadyActive | NoActiveOuterTurn

fun tracker_error_message :: "goal_tracker_error \<Rightarrow> string" where
  "tracker_error_message GoalInactive = ''goal is not active''"
| "tracker_error_message OuterTurnAlreadyActive = ''a goal outer turn is already active''"
| "tracker_error_message NoActiveOuterTurn = ''no goal outer turn is active''"

record goal_tracker =
  tk_goal_id :: string
  tk_run_id :: string
  tk_state :: goal_state
  tk_token_budget :: "int option"
  tk_usage :: goal_usage
  tk_current_outer_turn :: "goal_outer_turn_snapshot option"
  tk_last_outer_turn :: "goal_outer_turn_snapshot option"
  tk_outer_turn_count :: nat
  tk_pending_intent :: "goal_update_intent option"
  tk_last_gap_fingerprint :: "string option"
  tk_same_gap_streak :: nat
  tk_budget_exhaustions :: nat

definition tracker_new :: "string \<Rightarrow> string \<Rightarrow> int option \<Rightarrow> goal_tracker" where
  "tracker_new fresh_run goal_id token_budget =
     \<lparr>tk_goal_id = goal_id, tk_run_id = fresh_run, tk_state = Active, tk_token_budget = token_budget,
      tk_usage = goal_usage_default, tk_current_outer_turn = None, tk_last_outer_turn = None,
      tk_outer_turn_count = 0, tk_pending_intent = None, tk_last_gap_fingerprint = None,
      tk_same_gap_streak = 0, tk_budget_exhaustions = 0\<rparr>"

definition remaining_budget :: "goal_tracker \<Rightarrow> int option" where
  "remaining_budget t = map_option (\<lambda>budget. sat_sub_i64 budget (charged_tokens (tk_usage t))) (tk_token_budget t)"

definition goal_budget_exhausted :: "goal_tracker \<Rightarrow> bool" where
  "goal_budget_exhausted t = (remaining_budget t = Some 0)"

definition from_record :: "string \<Rightarrow> goal_record \<Rightarrow> goal_tracker" where
  "from_record fresh_run r =
     \<lparr>tk_goal_id = rec_goal_id r,
      tk_run_id = (case rec_current_run r of Some run \<Rightarrow> gr_goal_run_id run | None \<Rightarrow> fresh_run),
      tk_state = rec_state r, tk_token_budget = rec_token_budget r, tk_usage = rec_usage r,
      tk_current_outer_turn = None, tk_last_outer_turn = None,
      tk_outer_turn_count = (case rec_current_run r of Some run \<Rightarrow> gr_continuation_count run | None \<Rightarrow> 0),
      tk_pending_intent = None, tk_last_gap_fingerprint = None,
      tk_same_gap_streak = 0, tk_budget_exhaustions = 0\<rparr>"

definition from_record_with_history :: "string \<Rightarrow> goal_record \<Rightarrow> string option list \<Rightarrow> goal_tracker" where
  "from_record_with_history fresh_run r history =
     (let t = from_record fresh_run r; (fingerprint, streak) = streak_from_history history
      in t\<lparr>tk_last_gap_fingerprint := fingerprint, tk_same_gap_streak := streak\<rparr>)"

subsection \<open>Outer turns\<close>

definition new_outer_turn :: "string \<Rightarrow> goal_turn_origin \<Rightarrow> goal_tracker \<Rightarrow> goal_outer_turn_snapshot" where
  "new_outer_turn turn_id origin t =
     \<lparr>ot_outer_turn_id = turn_id, ot_goal_run_id = tk_run_id t, ot_origin = origin,
      ot_model_response_count = 0, ot_tool_attempt_count = 0, ot_tool_names = [], ot_status = None\<rparr>"

definition begin_outer_turn ::
    "string \<Rightarrow> goal_turn_origin \<Rightarrow> goal_tracker \<Rightarrow> (goal_tracker_error, string) result \<times> goal_tracker" where
  "begin_outer_turn fresh_turn origin t =
     (if \<not> should_continue (tk_state t) then (Inl GoalInactive, t)
      else if tk_current_outer_turn t \<noteq> None then (Inl OuterTurnAlreadyActive, t)
      else (Inr fresh_turn,
        t\<lparr>tk_current_outer_turn := Some (new_outer_turn fresh_turn origin t),
          tk_outer_turn_count := sat_add u32_max (tk_outer_turn_count t) 1\<rparr>))"

definition bind_persisted_outer_turn ::
    "string \<Rightarrow> goal_turn_origin \<Rightarrow> goal_tracker \<Rightarrow> (goal_tracker_error, unit) result \<times> goal_tracker" where
  "bind_persisted_outer_turn turn_id origin t =
     (if \<not> should_continue (tk_state t) then (Inl GoalInactive, t)
      else if tk_current_outer_turn t \<noteq> None then (Inl OuterTurnAlreadyActive, t)
      else (Inr (), t\<lparr>tk_current_outer_turn := Some (new_outer_turn turn_id origin t)\<rparr>))"

definition record_model_response :: "goal_tracker \<Rightarrow> goal_tracker" where
  "record_model_response t =
     (case tk_current_outer_turn t of
        None \<Rightarrow> t
      | Some turn \<Rightarrow>
          t\<lparr>tk_current_outer_turn :=
              Some (turn\<lparr>ot_model_response_count := sat_add u32_max (ot_model_response_count turn) 1\<rparr>)\<rparr>)"

definition record_tool_attempt :: "string \<Rightarrow> goal_tracker \<Rightarrow> goal_tracker" where
  "record_tool_attempt tool_name t =
     (case tk_current_outer_turn t of
        None \<Rightarrow> t
      | Some turn \<Rightarrow>
          t\<lparr>tk_current_outer_turn :=
              Some (turn\<lparr>ot_tool_attempt_count := sat_add u32_max (ot_tool_attempt_count turn) 1,
                         ot_tool_names := ot_tool_names turn @ [tool_name]\<rparr>)\<rparr>)"

definition submit_terminal_intent ::
    "goal_update_intent \<Rightarrow> goal_tracker \<Rightarrow> goal_update_ack \<times> goal_tracker" where
  "submit_terminal_intent intent t =
     (if \<not> should_continue (tk_state t) then (BlockedAgainstInactive (tk_state t), t)
      else if tk_current_outer_turn t = None then
        (IntentRejected RejectNoActiveOuterTurn ''terminal goal intent requires an active outer turn'', t)
      else
        (case tk_pending_intent t of
           Some pending \<Rightarrow>
             if gi_intent_id pending = gi_intent_id intent then (AlreadyPending (gi_intent_id pending), t)
             else (IntentRejected TerminalIntentPending ''another terminal goal intent is already pending'', t)
         | None \<Rightarrow>
             if gi_evidence intent = [] then
               (IntentRejected MissingEvidence ''terminal goal intent requires structured evidence'', t)
             else if gi_requested_state intent = RequestBlocked \<and> gi_blocker intent = None then
               (IntentRejected MissingBlocker ''blocked goal intent requires a typed blocker'', t)
             else (DeferredToTurnEnd (gi_intent_id intent) 1, t\<lparr>tk_pending_intent := Some intent\<rparr>)))"

definition goal_pause ::
    "goal_pause_reason \<Rightarrow> string \<Rightarrow> goal_tracker \<Rightarrow> goal_next_action \<times> goal_tracker" where
  "goal_pause reason message t = (PauseGoal reason message, t\<lparr>tk_state := Paused reason message\<rparr>)"

definition reset_gap_streak :: "goal_tracker \<Rightarrow> goal_tracker" where
  "reset_gap_streak t = t\<lparr>tk_last_gap_fingerprint := None, tk_same_gap_streak := 0\<rparr>"

definition apply_gaps :: "goal_gap list \<Rightarrow> goal_tracker \<Rightarrow> goal_next_action \<times> goal_tracker" where
  "apply_gaps gaps t =
     (case find gap_model_fixable gaps of
        None \<Rightarrow> (ContinueGoal ProgressContinuation, reset_gap_streak t)
      | Some gap \<Rightarrow>
          (let t = (if tk_last_gap_fingerprint t = Some (gap_fingerprint gap)
                    then t\<lparr>tk_same_gap_streak := sat_add u32_max (tk_same_gap_streak t) 1\<rparr>
                    else t\<lparr>tk_last_gap_fingerprint := Some (gap_fingerprint gap), tk_same_gap_streak := 1\<rparr>)
           in if tk_same_gap_streak t \<ge> same_gap_streak_limit
              then goal_pause NoProgress
                     (''same model-fixable gap repeated for '' @ show_nat (tk_same_gap_streak t)
                      @ '' outer turns: '' @ gap_summary gap) t
              else (ContinueGoal GapFeedback, t)))"

fun turn_status_debug :: "goal_turn_status \<Rightarrow> string" where
  "turn_status_debug TurnSuccess = ''Success''"
| "turn_status_debug TurnFailed = ''Failed''"
| "turn_status_debug TurnCancelled = ''Cancelled''"
| "turn_status_debug TurnApprovalRequired = ''ApprovalRequired''"
| "turn_status_debug TurnBudgetExhausted = ''BudgetExhausted''"

text \<open>
  \<^verbatim>\<open>finish_outer_turn\<close>: the match on the status either returns early with a pause or falls through
  to the accounting that follows it.
\<close>

definition classify_status ::
    "goal_turn_result \<Rightarrow> goal_tracker \<Rightarrow> (goal_next_action \<times> goal_tracker, goal_tracker) result" where
  "classify_status r t =
     (case tr_status r of
        TurnSuccess \<Rightarrow> Inr (t\<lparr>tk_budget_exhaustions := 0\<rparr>)
      | TurnBudgetExhausted \<Rightarrow>
          if is_resumable_budget_stop r then
            (let t = t\<lparr>tk_budget_exhaustions := sat_add u32_max (tk_budget_exhaustions t) 1\<rparr>
             in if tk_budget_exhaustions t \<ge> max_consecutive_inner_turn_continuations
                then Inl (goal_pause NoProgress
                       (''budget stopped for '' @ show_nat (tk_budget_exhaustions t)
                        @ '' consecutive outer turns without completion'') (t\<lparr>tk_pending_intent := None\<rparr>))
                else Inr t)
          else Inl (goal_pause UsageLimit
                 ''goal outer turn ended because the operation budget was exhausted''
                 (t\<lparr>tk_pending_intent := None\<rparr>))
      | other \<Rightarrow>
          Inl (goal_pause Infrastructure (''goal outer turn ended with '' @ turn_status_debug other)
                 (t\<lparr>tk_pending_intent := None\<rparr>)))"

definition decide_next :: "goal_turn_result \<Rightarrow> goal_tracker \<Rightarrow> goal_next_action \<times> goal_tracker" where
  "decide_next r t =
     (if is_some_and (tk_token_budget t) (\<lambda>budget. charged_tokens (tk_usage t) \<ge> budget)
      then (BudgetLimitGoal, t\<lparr>tk_pending_intent := None, tk_state := BudgetLimited\<rparr>)
      else
        (case tk_pending_intent t of
           Some intent \<Rightarrow> (VerifyGoal intent, t\<lparr>tk_pending_intent := None\<rparr>)
         | None \<Rightarrow>
             if tr_evidence_count r > 0 \<and> tr_gaps r = []
             then (ContinueGoal ProgressContinuation, reset_gap_streak t)
             else apply_gaps (tr_gaps r) t))"

definition finish_outer_turn ::
    "goal_turn_result \<Rightarrow> goal_tracker \<Rightarrow> (goal_tracker_error, goal_next_action) result \<times> goal_tracker" where
  "finish_outer_turn r t =
     (case tk_current_outer_turn t of
        None \<Rightarrow> (Inl NoActiveOuterTurn, t)
      | Some turn \<Rightarrow>
          (let t = t\<lparr>tk_current_outer_turn := None,
                     tk_usage := saturating_add_assign (tr_usage r) (tk_usage t),
                     tk_last_outer_turn := Some (turn\<lparr>ot_status := Some (tr_status r)\<rparr>)\<rparr>;
               (action, t) = (case classify_status r t of Inl early \<Rightarrow> early | Inr t \<Rightarrow> decide_next r t)
           in (Inr action, t)))"

definition apply_verification ::
    "goal_verification_result \<Rightarrow> goal_tracker \<Rightarrow> goal_next_action \<times> goal_tracker" where
  "apply_verification v t =
     (case v of
        Achieved evidence \<Rightarrow> (CompleteGoal evidence, (reset_gap_streak t)\<lparr>tk_state := Complete evidence\<rparr>)
      | VerifiedBlocked blocker \<Rightarrow> (BlockGoal blocker, (reset_gap_streak t)\<lparr>tk_state := Blocked blocker\<rparr>)
      | NotAchieved gaps \<Rightarrow> apply_gaps gaps t
      | Indeterminate message \<Rightarrow> goal_pause Infrastructure message t)"

definition goal_resume ::
    "string \<Rightarrow> goal_turn_origin \<Rightarrow> goal_tracker \<Rightarrow> goal_next_action \<times> goal_tracker" where
  "goal_resume fresh_run origin t =
     (case tk_state t of
        Complete evidence \<Rightarrow> (CompleteGoal evidence, t)
      | _ \<Rightarrow>
          (ContinueGoal
             (case origin of
                ResumeOrigin \<Rightarrow> ResumeContinuation
              | WorkflowNotificationOrigin \<Rightarrow> WorkflowContinuation
              | UserOrigin \<Rightarrow> InitialContinuation
              | ContinuationOrigin \<Rightarrow> ProgressContinuation),
           (reset_gap_streak
              (t\<lparr>tk_run_id := fresh_run, tk_state := Active, tk_current_outer_turn := None,
                 tk_pending_intent := None\<rparr>))\<lparr>tk_budget_exhaustions := 0\<rparr>))"

subsection \<open>Events and the invariant\<close>

datatype goal_event =
    BeginTurn string goal_turn_origin
  | BindTurn string goal_turn_origin
  | ModelResponse
  | ToolAttempt string
  | SubmitIntent goal_update_intent
  | FinishTurn goal_turn_result
  | Verification goal_verification_result
  | PauseEvent goal_pause_reason string
  | ResumeEvent string goal_turn_origin

fun goal_step :: "goal_event \<Rightarrow> goal_tracker \<Rightarrow> goal_tracker" where
  "goal_step (BeginTurn turn_id origin) t = snd (begin_outer_turn turn_id origin t)"
| "goal_step (BindTurn turn_id origin) t = snd (bind_persisted_outer_turn turn_id origin t)"
| "goal_step ModelResponse t = record_model_response t"
| "goal_step (ToolAttempt tool) t = record_tool_attempt tool t"
| "goal_step (SubmitIntent intent) t = snd (submit_terminal_intent intent t)"
| "goal_step (FinishTurn r) t = snd (finish_outer_turn r t)"
| "goal_step (Verification v) t = snd (apply_verification v t)"
| "goal_step (PauseEvent reason message) t = snd (goal_pause reason message t)"
| "goal_step (ResumeEvent run origin) t = snd (goal_resume run origin t)"

definition intent_backed :: "goal_update_intent \<Rightarrow> bool" where
  "intent_backed i \<longleftrightarrow> gi_evidence i \<noteq> [] \<and> (gi_requested_state i = RequestBlocked \<longrightarrow> gi_blocker i \<noteq> None)"

definition watchdogs_quiet :: "goal_tracker \<Rightarrow> bool" where
  "watchdogs_quiet t \<longleftrightarrow> (tk_state t = Active \<longrightarrow>
     tk_same_gap_streak t < same_gap_streak_limit
     \<and> tk_budget_exhaustions t < max_consecutive_inner_turn_continuations)"

definition pending_ok :: "goal_tracker \<Rightarrow> bool" where
  "pending_ok t \<longleftrightarrow>
     (\<forall>i. tk_pending_intent t = Some i \<longrightarrow> tk_current_outer_turn t \<noteq> None \<and> intent_backed i)"

definition goal_ok :: "goal_tracker \<Rightarrow> bool" where
  "goal_ok t \<longleftrightarrow> watchdogs_quiet t \<and> pending_ok t"

lemmas goal_invariant_defs = goal_ok_def watchdogs_quiet_def pending_ok_def intent_backed_def

lemmas goal_limit_defs = same_gap_streak_limit_def max_consecutive_inner_turn_continuations_def

lemma should_continue_iff [simp]: "should_continue s \<longleftrightarrow> s = Active"
  by (simp add: should_continue_def split: goal_state.splits)

lemma apply_gaps_ok:
  "watchdogs_quiet t \<Longrightarrow> watchdogs_quiet (snd (apply_gaps gaps t))"
  by (auto simp: watchdogs_quiet_def apply_gaps_def reset_gap_streak_def goal_pause_def goal_limit_defs
      Let_def split: option.splits)

lemma apply_gaps_frame [simp]:
  "tk_pending_intent (snd (apply_gaps gaps t)) = tk_pending_intent t"
  "tk_current_outer_turn (snd (apply_gaps gaps t)) = tk_current_outer_turn t"
  "tk_token_budget (snd (apply_gaps gaps t)) = tk_token_budget t"
  "tk_usage (snd (apply_gaps gaps t)) = tk_usage t"
  by (simp_all add: apply_gaps_def reset_gap_streak_def goal_pause_def Let_def split: option.splits)

lemma decide_next_frame [simp]:
  "tk_pending_intent (snd (decide_next r t)) = None"
  "tk_current_outer_turn (snd (decide_next r t)) = tk_current_outer_turn t"
  "tk_token_budget (snd (decide_next r t)) = tk_token_budget t"
  "tk_usage (snd (decide_next r t)) = tk_usage t"
  by (simp_all add: decide_next_def reset_gap_streak_def split: option.splits)

lemma decide_next_ok: "watchdogs_quiet t \<Longrightarrow> watchdogs_quiet (snd (decide_next r t))"
  using apply_gaps_ok [of t "tr_gaps r"]
  by (auto simp: decide_next_def reset_gap_streak_def watchdogs_quiet_def goal_limit_defs
      split: option.splits)

text \<open>A finished turn: the pause of the status match, or the accounting after it.\<close>

definition settled :: "goal_turn_result \<Rightarrow> goal_tracker \<Rightarrow> goal_tracker" where
  "settled r t = (case classify_status r t of Inl early \<Rightarrow> snd early | Inr t' \<Rightarrow> snd (decide_next r t'))"

lemma classify_status_Inl:
  "classify_status r t = Inl early \<Longrightarrow>
     tk_state (snd early) \<noteq> Active \<and> tk_pending_intent (snd early) = None
     \<and> tk_current_outer_turn (snd early) = tk_current_outer_turn t
     \<and> tk_token_budget (snd early) = tk_token_budget t \<and> tk_usage (snd early) = tk_usage t
     \<and> (\<exists>reason message. fst early = PauseGoal reason message)"
  by (auto simp: classify_status_def goal_pause_def Let_def split: goal_turn_status.splits if_splits)

lemma classify_status_Inr:
  "classify_status r t = Inr t' \<Longrightarrow>
     \<exists>n. t' = t\<lparr>tk_budget_exhaustions := n\<rparr> \<and> n < max_consecutive_inner_turn_continuations
       \<and> (tr_status r = TurnBudgetExhausted \<longrightarrow> n = sat_add u32_max (tk_budget_exhaustions t) 1)"
  by (auto simp: classify_status_def goal_limit_defs Let_def
      split: goal_turn_status.splits if_splits)

lemma settled_frame:
  "tk_pending_intent (settled r t) = None \<and> tk_current_outer_turn (settled r t) = tk_current_outer_turn t
   \<and> tk_token_budget (settled r t) = tk_token_budget t \<and> tk_usage (settled r t) = tk_usage t"
  by (auto simp: settled_def split: sum.splits dest!: classify_status_Inl classify_status_Inr)

lemma settled_ok: "watchdogs_quiet t \<Longrightarrow> watchdogs_quiet (settled r t)"
proof (cases "classify_status r t")
  case (Inl early)
  then show ?thesis by (auto simp: settled_def watchdogs_quiet_def dest: classify_status_Inl)
next
  case (Inr t')
  moreover assume "watchdogs_quiet t"
  ultimately have "watchdogs_quiet t'"
    using classify_status_Inr [OF Inr] by (auto simp: watchdogs_quiet_def)
  with Inr show ?thesis by (simp add: settled_def decide_next_ok)
qed

lemma finish_outer_turn_snd:
  "snd (finish_outer_turn r t) =
     (case tk_current_outer_turn t of
        None \<Rightarrow> t
      | Some turn \<Rightarrow>
          settled r (t\<lparr>tk_current_outer_turn := None,
                       tk_usage := saturating_add_assign (tr_usage r) (tk_usage t),
                       tk_last_outer_turn := Some (turn\<lparr>ot_status := Some (tr_status r)\<rparr>)\<rparr>))"
  by (simp add: finish_outer_turn_def settled_def Let_def split_def split: option.splits sum.splits)

lemma goal_step_ok:
  assumes "goal_ok t"
  shows "goal_ok (goal_step e t)"
proof (cases e)
  case (FinishTurn r)
  then show ?thesis
    using assms settled_frame settled_ok
    by (auto simp: finish_outer_turn_snd goal_ok_def pending_ok_def watchdogs_quiet_def split: option.splits)
next
  case (Verification v)
  then show ?thesis
    using assms apply_gaps_ok
    by (cases v) (auto simp: apply_verification_def goal_pause_def reset_gap_streak_def
        goal_ok_def pending_ok_def watchdogs_quiet_def)
qed (use assms in \<open>auto simp: goal_invariant_defs goal_limit_defs begin_outer_turn_def
    bind_persisted_outer_turn_def record_model_response_def record_tool_attempt_def
    submit_terminal_intent_def goal_pause_def goal_resume_def reset_gap_streak_def
    split: option.splits goal_state.splits\<close>)

interpretation goal: guarded_machine goal_step goal_ok
  by unfold_locales (rule goal_step_ok)

lemma tracker_new_ok: "goal_ok (tracker_new run i budget)"
  by (simp add: goal_invariant_defs tracker_new_def goal_limit_defs)

subsection \<open>Whole turns\<close>

definition goal_turn :: "string \<Rightarrow> goal_turn_origin \<Rightarrow> goal_turn_result \<Rightarrow> goal_tracker \<Rightarrow> goal_tracker" where
  "goal_turn turn_id origin r t = goal_step (FinishTurn r) (goal_step (BeginTurn turn_id origin) t)"

definition goal_turns :: "(string \<times> goal_turn_origin \<times> goal_turn_result) list \<Rightarrow> goal_tracker \<Rightarrow> goal_tracker" where
  "goal_turns ts t = fold (\<lambda>(turn_id, origin, r). goal_turn turn_id origin r) ts t"

lemma goal_turns_Nil [simp]: "goal_turns [] t = t"
  by (simp add: goal_turns_def)

lemma goal_turns_Cons [simp]:
  "goal_turns ((turn_id, origin, r) # ts) t = goal_turns ts (goal_turn turn_id origin r t)"
  by (simp add: goal_turns_def)

definition between_turns :: "goal_tracker \<Rightarrow> bool" where
  "between_turns t \<longleftrightarrow> goal_ok t \<and> tk_current_outer_turn t = None"

lemma between_turns_pending: "between_turns t \<Longrightarrow> tk_pending_intent t = None"
  by (auto simp: between_turns_def goal_ok_def pending_ok_def)

lemma goal_turn_inactive: "between_turns t \<Longrightarrow> tk_state t \<noteq> Active \<Longrightarrow> goal_turn turn_id origin r t = t"
  by (simp add: goal_turn_def begin_outer_turn_def finish_outer_turn_snd between_turns_def)

lemma goal_turn_active:
  assumes "between_turns t" "tk_state t = Active"
  obtains t1 where "goal_turn turn_id origin r t = settled r t1" "tk_current_outer_turn t1 = None"
    "tk_pending_intent t1 = None" "tk_state t1 = Active" "tk_token_budget t1 = tk_token_budget t"
    "tk_usage t1 = saturating_add_assign (tr_usage r) (tk_usage t)"
    "tk_last_gap_fingerprint t1 = tk_last_gap_fingerprint t" "tk_same_gap_streak t1 = tk_same_gap_streak t"
    "tk_budget_exhaustions t1 = tk_budget_exhaustions t"
  using assms between_turns_pending [OF assms(1)]
  by (simp add: goal_turn_def begin_outer_turn_def finish_outer_turn_snd between_turns_def)

lemma goal_turn_between: "between_turns t \<Longrightarrow> between_turns (goal_turn turn_id origin r t)"
proof (cases "tk_state t = Active")
  case True
  assume t: "between_turns t"
  then have "goal_ok (goal_turn turn_id origin r t)"
    by (simp add: between_turns_def goal_turn_def goal_step_ok del: goal_step.simps)
  moreover from goal_turn_active [OF t True, of turn_id origin r]
  have "tk_current_outer_turn (goal_turn turn_id origin r t) = None" by (metis settled_frame)
  ultimately show ?thesis by (simp add: between_turns_def)
qed (simp add: goal_turn_inactive)

text \<open>A turn that ends with the model-fixable gap \<open>fp\<close> first, and one that ran out of its budget.\<close>

definition stuck_on :: "string \<Rightarrow> goal_turn_result \<Rightarrow> bool" where
  "stuck_on fp r \<longleftrightarrow> map_option gap_fingerprint (find gap_model_fixable (tr_gaps r)) = Some fp"

lemma stuck_turn:
  assumes "between_turns t" "tk_state t = Active" "stuck_on fp r"
    "tk_state (goal_turn turn_id origin r t) = Active"
  shows "tk_last_gap_fingerprint (goal_turn turn_id origin r t) = Some fp
    \<and> tk_same_gap_streak (goal_turn turn_id origin r t) =
        (if tk_last_gap_fingerprint t = Some fp then Suc (tk_same_gap_streak t) else 1)"
proof -
  from goal_turn_active [OF assms(1,2), of turn_id origin r] obtain t1
    where t1: "goal_turn turn_id origin r t = settled r t1" "tk_pending_intent t1 = None"
      "tk_last_gap_fingerprint t1 = tk_last_gap_fingerprint t" "tk_same_gap_streak t1 = tk_same_gap_streak t"
    by metis
  have small: "tk_same_gap_streak t < 3"
    using assms(1,2) by (simp add: between_turns_def goal_ok_def watchdogs_quiet_def goal_limit_defs)
  from assms(4) t1(1) obtain t2 n where t2: "classify_status r t1 = Inr t2" "t2 = t1\<lparr>tk_budget_exhaustions := n\<rparr>"
    by (auto simp: settled_def split: sum.splits dest: classify_status_Inl classify_status_Inr)
  from assms(3) obtain gap where gap: "find gap_model_fixable (tr_gaps r) = Some gap" "gap_fingerprint gap = fp"
    by (auto simp: stuck_on_def)
  then have "tr_gaps r \<noteq> []" by auto
  with assms(4) t1 t2 gap small show ?thesis
    by (auto simp: settled_def decide_next_def apply_gaps_def goal_pause_def Let_def sat_add_def u32_max_def
        split: if_splits)
qed

lemma budget_turn:
  assumes "between_turns t" "tk_state t = Active" "tr_status r = TurnBudgetExhausted"
    "tk_state (goal_turn turn_id origin r t) = Active"
  shows "tk_budget_exhaustions (goal_turn turn_id origin r t) = Suc (tk_budget_exhaustions t)"
proof -
  from goal_turn_active [OF assms(1,2), of turn_id origin r] obtain t1
    where t1: "goal_turn turn_id origin r t = settled r t1" "tk_pending_intent t1 = None"
      "tk_budget_exhaustions t1 = tk_budget_exhaustions t"
    by metis
  have small: "tk_budget_exhaustions t < 8"
    using assms(1,2) by (simp add: between_turns_def goal_ok_def watchdogs_quiet_def goal_limit_defs)
  from assms(4) t1(1) obtain t2 where t2: "classify_status r t1 = Inr t2"
    by (auto simp: settled_def split: sum.splits dest: classify_status_Inl)
  from classify_status_Inr [OF t2] assms(3) small t1
  have "tk_budget_exhaustions t2 = Suc (tk_budget_exhaustions t)"
    by (auto simp: sat_add_def u32_max_def)
  with assms(4) t1 t2 show ?thesis
    by (auto simp: settled_def decide_next_def apply_gaps_def goal_pause_def reset_gap_streak_def Let_def
        split: if_splits option.splits)
qed

text \<open>The three fuses of a goal: the same gap, budget stops in a row, and the token budget.\<close>

definition gap_reading :: "string \<Rightarrow> goal_tracker \<Rightarrow> int" where
  "gap_reading fp t = (if tk_last_gap_fingerprint t = Some fp then int (tk_same_gap_streak t) else 0)"

abbreviation turn_event :: "string \<times> goal_turn_origin \<times> goal_turn_result \<Rightarrow> goal_tracker \<Rightarrow> goal_tracker" where
  "turn_event \<equiv> \<lambda>(turn_id, origin, r). goal_turn turn_id origin r"

abbreviation goal_active :: "goal_tracker \<Rightarrow> bool" where
  "goal_active t \<equiv> tk_state t = Active"

lemma between_turns_quiet:
  "between_turns t \<Longrightarrow> goal_active t \<Longrightarrow> tk_same_gap_streak t < 3 \<and> tk_budget_exhaustions t < 8"
  by (simp add: between_turns_def goal_ok_def watchdogs_quiet_def goal_limit_defs)

interpretation gap_fuse: fused_machine turn_event between_turns goal_active
    "\<lambda>(_, _, r). stuck_on fp r" "gap_reading fp" 3
  for fp
proof (unfold_locales, goal_cases)
  case (3 t e)
  then obtain i origin r where e: "e = (i, origin, r)" "stuck_on fp r" by (cases e) auto
  with 3 have "tk_same_gap_streak (goal_turn i origin r t) < 3"
    using between_turns_quiet goal_turn_between by simp
  with 3 e stuck_turn [of t fp r i origin] show ?case by (auto simp: gap_reading_def)
qed (auto simp: goal_turn_between goal_turn_inactive)

interpretation budget_fuse: fused_machine turn_event between_turns goal_active
    "\<lambda>(_, _, r). tr_status r = TurnBudgetExhausted" "\<lambda>t. int (tk_budget_exhaustions t)" 8
proof (unfold_locales, goal_cases)
  case (3 t e)
  then obtain i origin r where e: "e = (i, origin, r)" "tr_status r = TurnBudgetExhausted" by (cases e) auto
  with 3 have "tk_budget_exhaustions (goal_turn i origin r t) < 8"
    using between_turns_quiet goal_turn_between by simp
  with 3 e budget_turn [of t r i origin] show ?case by auto
qed (auto simp: goal_turn_between goal_turn_inactive)

subsection \<open>The token budget\<close>

definition usage_ok :: "goal_usage \<Rightarrow> bool" where
  "usage_ok u \<longleftrightarrow> 0 \<le> gu_charged_input_tokens u \<and> 0 \<le> gu_output_tokens u \<and> 0 \<le> gu_verifier_tokens u
     \<and> gu_charged_input_tokens u \<le> i64_max \<and> gu_output_tokens u \<le> i64_max \<and> gu_verifier_tokens u \<le> i64_max"

definition turn_charge :: "goal_turn_result \<Rightarrow> int" where
  "turn_charge r = max (gu_charged_input_tokens (tr_usage r)) 0 + max (gu_output_tokens (tr_usage r)) 0
     + max (gu_verifier_tokens (tr_usage r)) 0"

lemma sat_add_i64_nonneg: "0 \<le> a \<Longrightarrow> 0 \<le> b \<Longrightarrow> sat_add_i64 a b = min i64_max (a + b)"
  by (simp add: sat_add_i64_def i64_min_def i64_max_def)

lemma charged_tokens_eq:
  "usage_ok u \<Longrightarrow> charged_tokens u =
     min i64_max (gu_charged_input_tokens u + gu_output_tokens u + gu_verifier_tokens u)"
  by (auto simp: charged_tokens_def usage_ok_def sat_add_i64_nonneg i64_max_def)

lemma usage_ok_add: "usage_ok u \<Longrightarrow> usage_ok (saturating_add_assign d u)"
  by (auto simp: usage_ok_def saturating_add_assign_def sat_add_i64_def i64_max_def i64_min_def)

lemma min_sum_min:
  fixes a b c x y z m :: int
  assumes "0 \<le> a" "0 \<le> b" "0 \<le> c" "0 \<le> x" "0 \<le> y" "0 \<le> z" "0 \<le> m"
  shows "min m (min m (a + x) + min m (b + y) + min m (c + z)) = min m (min m (a + b + c) + (x + y + z))"
  using assms by linarith

lemma charged_tokens_add:
  assumes "usage_ok u"
  shows "charged_tokens (saturating_add_assign (tr_usage r) u) = min i64_max (charged_tokens u + turn_charge r)"
proof -
  have "charged_tokens (saturating_add_assign (tr_usage r) u) =
      min i64_max (min i64_max (gu_charged_input_tokens u + max (gu_charged_input_tokens (tr_usage r)) 0)
        + min i64_max (gu_output_tokens u + max (gu_output_tokens (tr_usage r)) 0)
        + min i64_max (gu_verifier_tokens u + max (gu_verifier_tokens (tr_usage r)) 0))"
    using assms charged_tokens_eq [OF usage_ok_add [OF assms, of "tr_usage r"]]
    by (simp add: usage_ok_def saturating_add_assign_def sat_add_i64_nonneg)
  then show ?thesis
    using assms unfolding charged_tokens_eq [OF assms] turn_charge_def
    by (simp add: usage_ok_def min_sum_min i64_max_def)
qed

definition budgeted :: "int \<Rightarrow> goal_tracker \<Rightarrow> bool" where
  "budgeted b t \<longleftrightarrow> between_turns t \<and> tk_token_budget t = Some b \<and> b \<le> i64_max \<and> usage_ok (tk_usage t)"

lemma goal_turn_usage:
  assumes "between_turns t" "goal_active t"
  shows "tk_usage (goal_turn i origin r t) = saturating_add_assign (tr_usage r) (tk_usage t)
    \<and> tk_token_budget (goal_turn i origin r t) = tk_token_budget t"
  using goal_turn_active [OF assms, of i origin r] settled_frame by metis

lemma decide_next_within_budget:
  "goal_active (snd (decide_next r t)) \<Longrightarrow> tk_token_budget t = Some b \<Longrightarrow> charged_tokens (tk_usage t) < b"
  by (cases "charged_tokens (tk_usage t) < b") (simp_all add: decide_next_def is_some_and_def)

lemma goal_turn_within_budget:
  assumes "between_turns t" "goal_active t" "tk_token_budget t = Some b" "goal_active (goal_turn i origin r t)"
  shows "charged_tokens (tk_usage (goal_turn i origin r t)) < b"
proof -
  from goal_turn_active [OF assms(1,2), of i origin r] obtain t1
    where t1: "goal_turn i origin r t = settled r t1" "tk_token_budget t1 = Some b"
    using assms(3) by metis
  from assms(4) t1(1) obtain t2 where t2: "classify_status r t1 = Inr t2"
    by (auto simp: settled_def split: sum.splits dest: classify_status_Inl)
  from classify_status_Inr [OF t2] t1 have "tk_token_budget t2 = Some b" by auto
  with assms(4) t1 t2 decide_next_within_budget show ?thesis by (simp add: settled_def)
qed

lemma budgeted_between: "budgeted b t \<Longrightarrow> between_turns t"
  by (simp add: budgeted_def)

lemma goal_turn_budgeted: "budgeted b t \<Longrightarrow> budgeted b (goal_turn i origin r t)"
  by (cases "goal_active t")
     (auto simp: budgeted_def goal_turn_between goal_turn_usage goal_turn_inactive usage_ok_add)

interpretation token_fuse: fused_machine turn_event "budgeted b" goal_active
    "\<lambda>(_, _, r). 1 \<le> turn_charge r" "\<lambda>t. charged_tokens (tk_usage t)" b
  for b
proof (unfold_locales, goal_cases)
  case (3 t e)
  then obtain i origin r where e: "e = (i, origin, r)" "1 \<le> turn_charge r" by (cases e) auto
  from 3 e have "charged_tokens (tk_usage (goal_turn i origin r t)) < b"
    using goal_turn_within_budget [of t b i origin r] by (simp add: budgeted_def)
  with 3 e show ?case by (auto simp: budgeted_def goal_turn_usage charged_tokens_add)
qed (auto simp: goal_turn_budgeted goal_turn_inactive budgeted_between)

subsection \<open>Verification and completion\<close>

lemma apply_gaps_action:
  "fst (apply_gaps gaps t) \<noteq> VerifyGoal i"
  by (simp add: apply_gaps_def goal_pause_def Let_def split: option.splits)

lemma apply_gaps_state: "tk_state (snd (apply_gaps gaps t)) = Complete ev \<Longrightarrow> tk_state t = Complete ev"
  by (auto simp: apply_gaps_def goal_pause_def reset_gap_streak_def Let_def split: option.splits if_splits)

lemma decide_next_verify: "fst (decide_next r t) = VerifyGoal i \<Longrightarrow> tk_pending_intent t = Some i"
  by (auto simp: decide_next_def apply_gaps_action split: if_splits option.splits)

lemma decide_next_state: "tk_state (snd (decide_next r t)) = Complete ev \<Longrightarrow> tk_state t = Complete ev"
  by (auto simp: decide_next_def reset_gap_streak_def dest: apply_gaps_state split: if_splits option.splits)

lemma classify_status_complete:
  "classify_status r t = Inl early \<Longrightarrow> tk_state (snd early) \<noteq> Complete ev"
  by (auto simp: classify_status_def goal_pause_def Let_def split: goal_turn_status.splits if_splits)

lemma settled_state: "tk_state (settled r t) = Complete ev \<Longrightarrow> tk_state t = Complete ev"
  by (auto simp: settled_def classify_status_complete
      split: sum.splits dest!: decide_next_state classify_status_Inr)

lemma finish_verify:
  assumes "fst (finish_outer_turn r t) = Inr (VerifyGoal i)"
  shows "tk_pending_intent t = Some i"
proof -
  from assms obtain turn where turn: "tk_current_outer_turn t = Some turn"
    by (auto simp: finish_outer_turn_def split: option.splits)
  let ?t = "t\<lparr>tk_current_outer_turn := None, tk_usage := saturating_add_assign (tr_usage r) (tk_usage t),
    tk_last_outer_turn := Some (turn\<lparr>ot_status := Some (tr_status r)\<rparr>)\<rparr>"
  show ?thesis
  proof (cases "classify_status r ?t")
    case (Inl early)
    with classify_status_Inl [OF Inl] assms turn show ?thesis
      by (auto simp: finish_outer_turn_def Let_def split_def)
  next
    case (Inr t')
    with assms turn have "fst (decide_next r t') = VerifyGoal i"
      by (simp add: finish_outer_turn_def Let_def split_def)
    with classify_status_Inr [OF Inr] show ?thesis by (auto dest: decide_next_verify)
  qed
qed

lemma completed_by_verification:
  assumes "tk_state (goal_step e t) = Complete ev"
  shows "tk_state t = Complete ev \<or> e = Verification (Achieved ev)"
proof (cases e)
  case (FinishTurn r)
  with assms show ?thesis by (auto simp: finish_outer_turn_snd dest!: settled_state split: option.splits)
next
  case (Verification v)
  with assms show ?thesis
    by (cases v) (auto simp: apply_verification_def goal_pause_def reset_gap_streak_def dest: apply_gaps_state)
qed (use assms in \<open>auto simp: begin_outer_turn_def bind_persisted_outer_turn_def record_model_response_def
    record_tool_attempt_def submit_terminal_intent_def goal_pause_def goal_resume_def reset_gap_streak_def
    split: option.splits goal_state.splits if_splits\<close>)

subsection \<open>Properties\<close>


definition sample_intent :: goal_update_intent where
  "sample_intent = \<lparr>gi_intent_id = ''i'', gi_requested_state = RequestComplete, gi_reason = ''done'',
     gi_evidence = [evidence_observation ''tests pass''], gi_blocker = None\<rparr>"

definition sample_run :: goal_tracker where
  "sample_run = fold goal_step [BeginTurn ''t'' UserOrigin, SubmitIntent sample_intent]
     (tracker_new ''r'' ''g'' (Some 10))"



lemma tracker_new_between: "between_turns (tracker_new run goal_id budget)"
  by (simp add: between_turns_def tracker_new_ok) (simp add: tracker_new_def)

definition sample_gap :: goal_gap where
  "sample_gap = \<lparr>gap_summary = ''tests fail'', gap_fingerprint = ''f'', gap_model_fixable = True\<rparr>"

definition sample_stuck :: "(string \<times> goal_turn_origin \<times> goal_turn_result) list" where
  "sample_stuck = replicate 3 (''t'', ContinuationOrigin, turn_successful_with_gaps [sample_gap])"


text \<open>
  A token budget ends a goal. If every outer turn charges at least one token, a goal with
  budget \<open>b\<close> that has charged \<open>c\<close> is no longer active after \<open>b - c\<close> turns (one turn when nothing is
  left), whatever those turns report, as long as nobody resumes it.
\<close>
theorem token_budget_ends_goal:
  assumes "between_turns t" "usage_ok (tk_usage t)" "tk_token_budget t = Some b" "b \<le> i64_max"
    and "list_all (\<lambda>(_, _, r). 1 \<le> turn_charge r) ts" "ts \<noteq> []"
    and "b - charged_tokens (tk_usage t) \<le> int (length ts)"
  shows "\<not> should_continue (tk_state (goal_turns ts t))"
  using assms token_fuse.run_stops [where s = t and es = ts and b = b] by (simp add: goal_turns_def budgeted_def)

definition sample_spend :: "(string \<times> goal_turn_origin \<times> goal_turn_result) list" where
  "sample_spend = replicate 2 (''t'', ContinuationOrigin,
     turn_successful\<lparr>tr_usage := goal_usage_default\<lparr>gu_output_tokens := 1\<rparr>, tr_evidence_count := 1\<rparr>)"

theorem token_budget_ends_goal_witness:
  "\<not> should_continue (tk_state (goal_turns sample_spend (tracker_new ''r'' ''g'' (Some 2))))"
proof -
  let ?t = "tracker_new ''r'' ''g'' (Some 2)"
  have "usage_ok (tk_usage ?t)" "tk_token_budget ?t = Some 2" "(2::int) \<le> i64_max"
      "charged_tokens (tk_usage ?t) = 0"
    by (simp_all add: usage_ok_def tracker_new_def goal_usage_default_def charged_tokens_def sat_add_i64_def
        i64_max_def i64_min_def)
  moreover have "list_all (\<lambda>(_, _, r). 1 \<le> turn_charge r) sample_spend" "sample_spend \<noteq> []"
      "length sample_spend = 2"
    by (simp_all add: sample_spend_def turn_charge_def goal_usage_default_def numeral_2_eq_2)
  ultimately show ?thesis
    using token_budget_ends_goal [OF tracker_new_between, where b = 2 and ts = sample_spend] by simp
qed

text \<open>
  \<^verbatim>\<open>budget_exhausted\<close> is exact only at the boundary: a goal that has charged more than its
  budget has a negative remainder and is not reported as exhausted.
\<close>

lemma overrun_is_not_reported:
  assumes "tk_token_budget t = Some b" "0 \<le> b" "b < charged_tokens (tk_usage t)"
    "charged_tokens (tk_usage t) \<le> i64_max"
  shows "\<not> goal_budget_exhausted t"
  using assms by (simp add: goal_budget_exhausted_def remaining_budget_def sat_sub_i64_def i64_max_def i64_min_def)

end
