(* ===== verification/Git_Commands.thy ===== *)
theory Git_Commands
  imports Rust_Paths
begin

text \<open>
  Recognition of shell commands that write git metadata,
  \<^verbatim>\<open>crates/orca-runtime/src/git_write_command.rs\<close>: the shell word splitter and the
  classification of the commands it finds. Commands are UTF-8 byte strings; every character the
  splitter treats specially is ASCII except white space, which is recognised as in
  \<^verbatim>\<open>char::is_whitespace\<close>, so bytes and characters are read alike. \<^verbatim>\<open>Err(())\<close> is \<open>None\<close>. The gate around the
  classification (sandbox mode, file-system tests, session approval) is not in this theory.
\<close>

datatype git_command_class = ReadOnly | WritesMetadata | Refused | Unrecognized

subsection \<open>Words and simple commands\<close>

abbreviation squote :: char where "squote \<equiv> CHR 0x27"
abbreviation dquote :: char where "dquote \<equiv> CHR 0x22"
abbreviation backslash :: char where "backslash \<equiv> CHR 0x5C"
abbreviation backtick :: char where "backtick \<equiv> CHR 0x60"
abbreviation newline :: char where "newline \<equiv> CHR 0x0A"

definition next_is :: "char list \<Rightarrow> string \<Rightarrow> bool" where
  "next_is cs s = (case s of [] \<Rightarrow> False | c # _ \<Rightarrow> c \<in> set cs)"

fun single_quoted :: "string \<Rightarrow> (string \<times> string) option" where
  "single_quoted [] = None"
| "single_quoted (c # cs) =
     (if c = squote then Some ([], cs) else map_option (\<lambda>(w, rest). (c # w, rest)) (single_quoted cs))"

fun double_quoted :: "string \<Rightarrow> (string \<times> string) option" where
  "double_quoted [] = None"
| "double_quoted (c # cs) =
     (if c = dquote then Some ([], cs)
      else if c = backtick then None
      else if c = CHR ''$'' \<and> next_is [CHR ''(''] cs then None
      else if c = backslash then
        (case cs of [] \<Rightarrow> None | d # ds \<Rightarrow> map_option (\<lambda>(w, rest). (d # w, rest)) (double_quoted ds))
      else map_option (\<lambda>(w, rest). (c # w, rest)) (double_quoted cs))"

lemma single_quoted_shorter: "single_quoted s = Some (w, rest) \<Longrightarrow> length rest < length s"
  by (induction s arbitrary: w) (fastforce split: if_splits)+

lemma double_quoted_shorter: "double_quoted s = Some (w, rest) \<Longrightarrow> length rest < length s"
  by (induction s arbitrary: w rule: double_quoted.induct) (fastforce split: if_splits list.splits)+

record split_state =
  sp_commands :: "string list list"
  sp_words :: "string list"
  sp_word :: string
  sp_in_word :: bool

definition end_word :: "split_state \<Rightarrow> split_state" where
  "end_word st =
     (if sp_in_word st
      then st\<lparr>sp_words := sp_words st @ [sp_word st], sp_word := [], sp_in_word := False\<rparr> else st)"

definition end_command :: "split_state \<Rightarrow> split_state" where
  "end_command st =
     (if sp_words st \<noteq> [] then st\<lparr>sp_commands := sp_commands st @ [sp_words st], sp_words := []\<rparr> else st)"

definition push_word :: "string \<Rightarrow> split_state \<Rightarrow> split_state" where
  "push_word w st = st\<lparr>sp_word := sp_word st @ w, sp_in_word := True\<rparr>"

text \<open>One round of the loop: what is left of the command and the state, or a shape it does not follow.\<close>

definition scan_step :: "char \<Rightarrow> string \<Rightarrow> split_state \<Rightarrow> (string \<times> split_state) option" where
  "scan_step c cs st =
     (if c = backslash then
        (case cs of
           [] \<Rightarrow> None
         | d # ds \<Rightarrow> Some (ds, if d \<noteq> newline then push_word [d] st else st))
      else if c = squote then map_option (\<lambda>(w, rest). (rest, push_word w st)) (single_quoted cs)
      else if c = dquote then map_option (\<lambda>(w, rest). (rest, push_word w st)) (double_quoted cs)
      else if c = backtick then None
      else if c = CHR ''$'' \<and> next_is [CHR ''(''] cs then None
      else if c = CHR ''<'' \<and> next_is [CHR ''<''] cs then None
      else if c = CHR ''&'' \<and> (ends_with (sp_word st) ''>'' \<or> ends_with (sp_word st) ''<'')
        then Some (cs, st\<lparr>sp_word := sp_word st @ ''&''\<rparr>)
      else if c \<in> {CHR '';'', newline, CHR ''('', CHR '')'', CHR ''|'', CHR ''&''} then
        Some (if c \<in> {CHR ''|'', CHR ''&''} \<and> next_is [CHR ''|'', CHR ''&''] cs then tl cs else cs,
          end_command (end_word st))
      else (case strip_ws_start (c # cs) of
              Some rest \<Rightarrow> Some (rest, end_word st)
            | None \<Rightarrow> Some (cs, push_word [c] st)))"

lemma scan_step_shorter:
  assumes "scan_step c cs st = Some (rest, st')"
  shows "length rest < Suc (length cs)"
proof -
  note branches = assms [unfolded scan_step_def]
  consider (escape) "c = backslash" | (single) "c \<noteq> backslash" "c = squote"
    | (double) "c \<noteq> backslash" "c \<noteq> squote" "c = dquote"
    | (other) "c \<noteq> backslash" "c \<noteq> squote" "c \<noteq> dquote" by blast
  then show ?thesis
  proof cases
    case escape
    with branches show ?thesis by (cases cs) auto
  next
    case single
    with branches show ?thesis by (auto dest!: single_quoted_shorter)
  next
    case double
    with branches show ?thesis by (auto dest!: double_quoted_shorter)
  next
    case other
    with branches have "rest = cs \<or> rest = tl cs \<or> strip_ws_start (c # cs) = Some rest"
      by (simp only: if_False split: if_split_asm option.splits) auto
    then show ?thesis by (auto dest: strip_ws_start_shorter)
  qed
qed

function scan :: "string \<Rightarrow> split_state \<Rightarrow> string list list option" where
  "scan [] st = Some (sp_commands (end_command (end_word st)))"
| "scan (c # cs) st =
     (case scan_step c cs st of None \<Rightarrow> None | Some (rest, st') \<Rightarrow> scan rest st')"
  by pat_completeness auto
termination
  by (relation "measure (\<lambda>(s, _). length s)") (auto dest: scan_step_shorter)

definition split_init :: split_state where
  "split_init = \<lparr>sp_commands = [], sp_words = [], sp_word = [], sp_in_word = False\<rparr>"

definition simple_commands :: "string \<Rightarrow> string list list option" where
  "simple_commands command = scan command split_init"

subsection \<open>Prefixes of a simple command\<close>

definition redirection_operators :: "string list" where
  "redirection_operators = [''>>'', ''>|'', ''>&'', ''<&'', ''<>'', ''>'', ''<'']"

fun find_prefix :: "string list \<Rightarrow> string \<Rightarrow> string option" where
  "find_prefix [] s = None"
| "find_prefix (p # ps) s = (case strip_prefix s p of Some r \<Rightarrow> Some r | None \<Rightarrow> find_prefix ps s)"

definition redirection :: "string \<Rightarrow> bool option" where
  "redirection word =
     (let rest = dropWhile is_digit word;
          rest = (case strip_prefix rest ''&'' of Some r \<Rightarrow> r | None \<Rightarrow> rest)
      in map_option (\<lambda>r. r = []) (find_prefix redirection_operators rest))"

fun strip_redirections_from :: "bool \<Rightarrow> string list \<Rightarrow> string list" where
  "strip_redirections_from skip_target [] = []"
| "strip_redirections_from skip_target (word # words) =
     (if skip_target then strip_redirections_from False words
      else (case redirection word of
              Some needs_target \<Rightarrow> strip_redirections_from needs_target words
            | None \<Rightarrow> word # strip_redirections_from False words))"

definition strip_redirections :: "string list \<Rightarrow> string list" where
  "strip_redirections words = strip_redirections_from False words"

definition is_ascii_alphabetic :: "char \<Rightarrow> bool" where
  "is_ascii_alphabetic c \<longleftrightarrow> is_ascii_alphanumeric c \<and> \<not> is_digit c"

definition assignment_name :: "string \<Rightarrow> string option" where
  "assignment_name word =
     (case split_once word ''='' of
        None \<Rightarrow> None
      | Some (name, _) \<Rightarrow>
          (case name of
             [] \<Rightarrow> None
           | first # characters \<Rightarrow>
               if (first = CHR ''_'' \<or> is_ascii_alphabetic first)
                  \<and> list_all (\<lambda>c. c = CHR ''_'' \<or> is_ascii_alphanumeric c) characters
               then Some name else None))"

definition git_variable :: "string \<Rightarrow> bool" where
  "git_variable name = starts_with name ''GIT_''"

fun skip_assignments :: "string list \<Rightarrow> (git_command_class, string list) result" where
  "skip_assignments [] = Inr []"
| "skip_assignments (word # words) =
     (case assignment_name word of
        None \<Rightarrow> Inr (word # words)
      | Some name \<Rightarrow> if git_variable name then Inl Refused else skip_assignments words)"

definition dashed :: "string \<Rightarrow> bool" where
  "dashed word = starts_with word ''-''"

fun skip_nice :: "string list \<Rightarrow> string list" where
  "skip_nice [] = []"
| "skip_nice (word # words) =
     (if word = ''-n'' \<or> word = ''--adjustment'' then skip_nice (drop 1 words)
      else if dashed word then skip_nice words
      else word # words)"

fun skip_env :: "string list \<Rightarrow> (git_command_class, string list) result" where
  "skip_env [] = Inr []"
| "skip_env (word # words) =
     (if word \<in> {''-u'', ''--unset'', ''-C'', ''--chdir''} then skip_env (drop 1 words)
      else if dashed word then skip_env words
      else (case assignment_name word of
              Some name \<Rightarrow> if git_variable name then Inl Refused else skip_env words
            | None \<Rightarrow> Inr (word # words)))"

lemma skip_nice_shorter: "length (skip_nice words) \<le> length words"
  by (induction words rule: skip_nice.induct) auto

lemma skip_env_shorter: "skip_env words = Inr rest \<Longrightarrow> length rest \<le> length words"
  by (induction words rule: skip_env.induct) (fastforce split: if_splits option.splits)+

function skip_wrappers :: "string list \<Rightarrow> (git_command_class, string list) result" where
  "skip_wrappers [] = Inr []"
| "skip_wrappers (word # words) =
     (if word \<in> {''command'', ''time'', ''nohup''} then skip_wrappers (dropWhile dashed words)
      else if word = ''nice'' then skip_wrappers (skip_nice words)
      else if word = ''env'' then
        (case skip_env words of Inl e \<Rightarrow> Inl e | Inr rest \<Rightarrow> skip_wrappers rest)
      else Inr (word # words))"
  by pat_completeness auto
termination
  by (relation "measure length")
     (auto simp: less_Suc_eq_le skip_nice_shorter length_dropWhile_le dest: skip_env_shorter)

subsection \<open>The git invocation\<close>

definition pop_path :: "path_buf \<Rightarrow> path_buf option" where
  "pop_path p = (if p = [] \<or> p = [RootDir] then None else Some (butlast p))"

definition join_path :: "path_buf \<Rightarrow> string \<Rightarrow> path_buf" where
  "join_path cwd directory =
     (let d = path_of directory in if is_absolute d then d else cwd @ d)"

fun resolve_components :: "component list \<Rightarrow> path_buf \<Rightarrow> path_buf option" where
  "resolve_components [] resolved = Some resolved"
| "resolve_components (c # cs) resolved =
     (case c of
        ParentDir \<Rightarrow>
          (case pop_path resolved of None \<Rightarrow> None | Some r \<Rightarrow> resolve_components cs r)
      | CurDir \<Rightarrow> resolve_components cs resolved
      | other \<Rightarrow> resolve_components cs (resolved @ [other]))"

definition stays_inside :: "path_buf \<Rightarrow> string \<Rightarrow> bool" where
  "stays_inside cwd directory =
     (case resolve_components (join_path cwd directory) [] of
        None \<Rightarrow> False | Some resolved \<Rightarrow> path_starts_with resolved cwd)"

definition option_name :: "string \<Rightarrow> string" where
  "option_name argument = (case split_once argument ''='' of None \<Rightarrow> argument | Some (name, _) \<Rightarrow> name)"

definition has_any :: "string list \<Rightarrow> string list \<Rightarrow> bool" where
  "has_any arguments options = list_ex (\<lambda>argument. option_name argument \<in> set options) arguments"

definition first_positional :: "string list \<Rightarrow> string option" where
  "first_positional arguments = find (\<lambda>argument. \<not> dashed argument) arguments"

definition branch_writes :: "string list" where
  "branch_writes =
      [''-d'', ''-D'', ''--delete'', ''-m'', ''-M'', ''--move'', ''-c'', ''-C'', ''--copy'',
       ''-f'', ''--force'', ''-u'', ''--set-upstream-to'', ''--unset-upstream'',
       ''--edit-description'', ''-t'', ''--track'', ''--no-track'', ''--create-reflog'']"

definition branch_lists :: "string list" where
  "branch_lists =
      [''-l'', ''--list'', ''-a'', ''--all'', ''-r'', ''--remotes'', ''--contains'',
       ''--no-contains'', ''--merged'', ''--no-merged'', ''--points-at'', ''--show-current'',
       ''-v'', ''-vv'', ''--verbose'', ''--format'', ''--sort'', ''--column'', ''--no-column'',
       ''--color'', ''--no-color'']"

definition branch_class :: "string list \<Rightarrow> git_command_class" where
  "branch_class arguments =
     (if has_any arguments branch_writes then WritesMetadata
      else if has_any arguments branch_lists \<or> first_positional arguments = None then ReadOnly
      else WritesMetadata)"

definition tag_writes :: "string list" where
  "tag_writes =
      [''-d'', ''--delete'', ''-a'', ''--annotate'', ''-s'', ''--sign'', ''-u'', ''--local-user'',
       ''-f'', ''--force'', ''-m'', ''--message'', ''-F'', ''--file'']"

definition tag_reads :: "string list" where
  "tag_reads =
      [''-l'', ''--list'', ''-v'', ''--verify'', ''-n'', ''--contains'', ''--no-contains'',
       ''--merged'', ''--no-merged'', ''--points-at'', ''--sort'', ''--format'', ''--column'',
       ''--no-column'']"

definition tag_class :: "string list \<Rightarrow> git_command_class" where
  "tag_class arguments =
     (if has_any arguments tag_writes then WritesMetadata
      else if has_any arguments tag_reads \<or> first_positional arguments = None then ReadOnly
      else WritesMetadata)"

definition config_reads :: "string list" where
  "config_reads =
      [''--get'', ''--get-all'', ''--get-regexp'', ''--get-urlmatch'', ''--get-color'',
       ''--get-colorbool'', ''-l'', ''--list'']"

definition config_class :: "string list \<Rightarrow> git_command_class" where
  "config_class arguments =
     (if has_any arguments config_reads \<or> first_positional arguments \<in> {Some ''get'', Some ''list''}
      then ReadOnly else Refused)"

definition writing_subcommands :: "string list" where
  "writing_subcommands =
      [''add'', ''am'', ''bisect'', ''checkout'', ''cherry-pick'', ''commit'', ''gc'', ''merge'',
       ''mv'', ''rebase'', ''reset'', ''restore'', ''revert'', ''rm'', ''switch'',
       ''update-index'', ''update-ref'']"

definition refused_subcommands :: "string list" where
  "refused_subcommands =
      [''submodule'', ''worktree'', ''hook'', ''filter-branch'', ''sparse-checkout'', ''init'',
       ''clone'', ''fetch'', ''pull'', ''push'', ''maintenance'', ''replace'', ''credential'',
       ''daemon'']"

definition reading_subcommands :: "string list" where
  "reading_subcommands =
      [''status'', ''log'', ''diff'', ''show'', ''blame'', ''grep'', ''rev-parse'', ''describe'',
       ''ls-files'', ''ls-tree'', ''ls-remote'', ''cat-file'', ''shortlog'', ''show-ref'',
       ''for-each-ref'', ''rev-list'', ''name-rev'', ''merge-base'', ''diff-tree'', ''diff-index'',
       ''diff-files'', ''check-ignore'', ''check-attr'', ''count-objects'', ''cherry'',
       ''range-diff'', ''format-patch'', ''archive'', ''whatchanged'', ''var'', ''help'',
       ''version'', ''fsck'']"

definition classify_subcommand :: "string \<Rightarrow> string list \<Rightarrow> git_command_class" where
  "classify_subcommand subcommand arguments =
     (if subcommand \<in> set writing_subcommands then WritesMetadata
      else if subcommand = ''apply'' then
        (if has_any arguments [''--index'', ''--cached'', ''--3way'', ''-3''] then WritesMetadata else ReadOnly)
      else if subcommand = ''stash'' then
        (if first_positional arguments \<in> {Some ''list'', Some ''show''} then ReadOnly else WritesMetadata)
      else if subcommand = ''branch'' then branch_class arguments
      else if subcommand = ''tag'' then tag_class arguments
      else if subcommand = ''notes'' then
        (if first_positional arguments \<in> {None, Some ''list'', Some ''show''} then ReadOnly else WritesMetadata)
      else if subcommand = ''reflog'' then
        (if first_positional arguments \<in> {Some ''expire'', Some ''delete''} then WritesMetadata else ReadOnly)
      else if subcommand = ''config'' then config_class arguments
      else if subcommand = ''remote'' then
        (if first_positional arguments \<in> {None, Some ''show'', Some ''get-url''} then ReadOnly else Refused)
      else if subcommand \<in> set refused_subcommands then Refused
      else if subcommand \<in> set reading_subcommands then ReadOnly
      else Unrecognized)"

definition ignored_options :: "string list" where
  "ignored_options =
      [''--no-pager'', ''-p'', ''--paginate'', ''-P'', ''--no-optional-locks'',
       ''--literal-pathspecs'', ''--glob-pathspecs'', ''--noglob-pathspecs'',
       ''--icase-pathspecs'', ''--no-replace-objects'']"

definition informational_options :: "string list" where
  "informational_options =
      [''--version'', ''--help'', ''-h'', ''--html-path'', ''--man-path'', ''--info-path'']"

definition refused_options :: "string list" where
  "refused_options =
      [''-c'', ''--config-env'', ''--exec-path'', ''--git-dir'', ''--work-tree'', ''--namespace'',
       ''--super-prefix'', ''--bare'', ''--attr-source'']"

fun classify_git :: "string list \<Rightarrow> path_buf \<Rightarrow> git_command_class" where
  "classify_git [] cwd = ReadOnly"
| "classify_git (argument # arguments) cwd =
     (if \<not> dashed argument then classify_subcommand argument arguments
      else if argument \<in> set ignored_options then classify_git arguments cwd
      else if argument \<in> set informational_options then ReadOnly
      else if argument = ''-C'' then
        (case arguments of
           directory # rest \<Rightarrow> if stays_inside cwd directory then classify_git rest cwd else Refused
         | [] \<Rightarrow> Unrecognized)
      else if option_name argument \<in> set refused_options then Refused
      else Unrecognized)"

definition shells :: "string list" where
  "shells = [''sh'', ''bash'', ''zsh'', ''dash'', ''ksh'']"

definition classify_simple :: "string list \<Rightarrow> path_buf \<Rightarrow> git_command_class" where
  "classify_simple words cwd =
     (case skip_assignments (strip_redirections words) of
        Inl class \<Rightarrow> class
      | Inr rest \<Rightarrow>
          (case skip_wrappers rest of
             Inl class \<Rightarrow> class
           | Inr [] \<Rightarrow> ReadOnly
           | Inr (program # arguments) \<Rightarrow>
               if program = ''eval'' then Unrecognized
               else if program \<in> set shells
                       \<and> list_ex (\<lambda>argument. dashed argument \<and> CHR ''c'' \<in> set argument) arguments
                 then Unrecognized
               else if program = ''git'' \<or> ends_with program ''/git'' then classify_git arguments cwd
               else ReadOnly))"

fun classify_commands :: "string list list \<Rightarrow> path_buf \<Rightarrow> git_command_class \<Rightarrow> git_command_class" where
  "classify_commands [] cwd class = class"
| "classify_commands (words # commands) cwd class =
     (case classify_simple words cwd of
        ReadOnly \<Rightarrow> classify_commands commands cwd class
      | WritesMetadata \<Rightarrow> classify_commands commands cwd WritesMetadata
      | other \<Rightarrow> other)"

definition classify_git_command :: "string \<Rightarrow> path_buf \<Rightarrow> git_command_class" where
  "classify_git_command command cwd =
     (case simple_commands command of
        None \<Rightarrow> Unrecognized | Some commands \<Rightarrow> classify_commands commands cwd ReadOnly)"

subsection \<open>Quoted command lines\<close>

text \<open>
  A word between single quotes, with every single quote in it written as a closed quote, an escaped quote
  and an opened quote; a command line of such words, each command ended by a semicolon.
\<close>

fun quote_body :: "string \<Rightarrow> string" where
  "quote_body [] = [squote]"
| "quote_body (c # cs) =
     (if c = squote then [squote, backslash, squote, squote] @ quote_body cs else c # quote_body cs)"

definition quote_word :: "string \<Rightarrow> string" where
  "quote_word w = squote # quote_body w"

definition quote_command :: "string list \<Rightarrow> string" where
  "quote_command words = concat (map (\<lambda>w. quote_word w @ '' '') words) @ '';''"

lemma push_word_push_word [simp]: "push_word v (push_word u st) = push_word (u @ v) st"
  by (simp add: push_word_def)

declare scan.simps(2) [simp del]

lemma scan_Cons: "scan_step c cs st = Some (rest, st') \<Longrightarrow> scan (c # cs) st = scan rest st'"
  by (simp add: scan.simps(2))

lemma scan_escaped_quote: "scan (backslash # squote # rest) st = scan rest (push_word [squote] st)"
  by (rule scan_Cons) (simp add: scan_step_def)

lemma scan_single_quoted:
  "single_quoted cs = Some (w, rest) \<Longrightarrow> scan (squote # cs) st = scan rest (push_word w st)"
  by (rule scan_Cons) (simp add: scan_step_def)

lemma single_quoted_plain: "squote \<notin> set w \<Longrightarrow> single_quoted (quote_body w @ rest) = Some (w, rest)"
  by (induction w) auto

lemma single_quoted_quote:
  "squote \<notin> set u \<Longrightarrow> single_quoted (quote_body (u @ squote # v) @ rest) =
     Some (u, backslash # squote # quote_word v @ rest)"
  by (induction u) (auto simp: quote_word_def)

lemma scan_quote_word: "scan (quote_word w @ rest) st = scan rest (push_word w st)"
proof (induction w arbitrary: st rule: length_induct)
  case (1 w)
  show ?case
  proof (cases "squote \<in> set w")
    case False
    then show ?thesis by (simp add: quote_word_def scan_single_quoted [OF single_quoted_plain])
  next
    case True
    then obtain u v where w: "w = u @ squote # v" "squote \<notin> set u" by (meson split_list_first)
    then have ih: "scan (quote_word v @ rest) st' = scan rest (push_word v st')" for st' using 1 by simp
    have "scan (quote_word w @ rest) st = scan (backslash # squote # quote_word v @ rest) (push_word u st)"
      unfolding w(1) quote_word_def [of "u @ squote # v"] append_Cons
      by (rule scan_single_quoted) (rule single_quoted_quote [OF w(2)])
    then show ?thesis by (simp add: scan_escaped_quote ih w(1))
  qed
qed

definition at_word :: "string list list \<Rightarrow> string list \<Rightarrow> split_state" where
  "at_word commands words = \<lparr>sp_commands = commands, sp_words = words, sp_word = [], sp_in_word = False\<rparr>"

lemma strip_ws_space [simp]: "strip_ws_start (CHR '' '' # rest) = Some rest"
  by (simp add: strip_ws_start_def ws_seqs_def starts_with_def)

lemma scan_space: "scan (CHR '' '' # rest) (push_word w (at_word cmds ws)) = scan rest (at_word cmds (ws @ [w]))"
  by (rule scan_Cons) (simp add: scan_step_def push_word_def end_word_def at_word_def)

lemma scan_semicolon: "ws \<noteq> [] \<Longrightarrow> scan (CHR '';'' # rest) (at_word cmds ws) = scan rest (at_word (cmds @ [ws]) [])"
  by (rule scan_Cons) (simp add: scan_step_def end_command_def end_word_def at_word_def)

lemma scan_words:
  "scan (concat (map (\<lambda>w. quote_word w @ '' '') ws) @ rest) (at_word cmds ws0) = scan rest (at_word cmds (ws0 @ ws))"
  by (induction ws arbitrary: ws0) (simp_all add: scan_quote_word scan_space)

lemma scan_command:
  "ws \<noteq> [] \<Longrightarrow> scan (quote_command ws @ rest) (at_word cmds []) = scan rest (at_word (cmds @ [ws]) [])"
  by (simp add: quote_command_def scan_words scan_semicolon)

lemma scan_commands:
  "[] \<notin> set commands \<Longrightarrow>
   scan (concat (map quote_command commands)) (at_word cmds []) = Some (cmds @ commands)"
proof (induction commands arbitrary: cmds)
  case Nil
  then show ?case by (simp add: at_word_def end_command_def end_word_def)
next
  case (Cons ws commands)
  then have "ws \<noteq> []" by auto
  with Cons show ?case by (simp add: scan_command)
qed

subsection \<open>What is admitted\<close>

text \<open>The arguments of the git invocation in a simple command, if it runs git.\<close>

definition git_arguments :: "string list \<Rightarrow> string list option" where
  "git_arguments words =
     (case skip_assignments (strip_redirections words) of
        Inr rest \<Rightarrow>
          (case skip_wrappers rest of
             Inr (program # arguments) \<Rightarrow>
               if program = ''git'' \<or> ends_with program ''/git'' then Some arguments else None
           | _ \<Rightarrow> None)
      | Inl _ \<Rightarrow> None)"

text \<open>Global options that change neither the configuration nor the repository git works on.\<close>

fun harmless_globals :: "path_buf \<Rightarrow> string list \<Rightarrow> bool" where
  "harmless_globals cwd [] = True"
| "harmless_globals cwd (option # options) =
     (option \<in> set ignored_options \<and> harmless_globals cwd options
      \<or> option = ''-C'' \<and> (case options of
           directory # rest \<Rightarrow> stays_inside cwd directory \<and> harmless_globals cwd rest
         | [] \<Rightarrow> False))"

definition admitted_subcommand :: "string \<Rightarrow> string list \<Rightarrow> bool" where
  "admitted_subcommand subcommand arguments \<longleftrightarrow>
     subcommand \<notin> set refused_subcommands
     \<and> (subcommand = ''config'' \<longrightarrow>
          has_any arguments config_reads \<or> first_positional arguments \<in> {Some ''get'', Some ''list''})
     \<and> (subcommand = ''remote'' \<longrightarrow> first_positional arguments \<in> {None, Some ''show'', Some ''get-url''})
     \<and> subcommand \<in> set (writing_subcommands @ reading_subcommands
          @ [''apply'', ''stash'', ''branch'', ''tag'', ''notes'', ''reflog'', ''config'', ''remote''])"

inductive admitted_git :: "path_buf \<Rightarrow> string list \<Rightarrow> bool \<Rightarrow> bool" for cwd where
  no_subcommand: "harmless_globals cwd globals \<Longrightarrow> admitted_git cwd globals False"
| informational: "harmless_globals cwd globals \<Longrightarrow> option \<in> set informational_options
    \<Longrightarrow> admitted_git cwd (globals @ option # rest) False"
| subcommand: "harmless_globals cwd globals \<Longrightarrow> \<not> dashed subcommand
    \<Longrightarrow> admitted_subcommand subcommand arguments
    \<Longrightarrow> classify_subcommand subcommand arguments = (if writes then WritesMetadata else ReadOnly)
    \<Longrightarrow> admitted_git cwd (globals @ subcommand # arguments) writes"

lemma harmless_globals_C: "stays_inside cwd directory \<Longrightarrow> harmless_globals cwd globals
   \<Longrightarrow> harmless_globals cwd (''-C'' # directory # globals)"
  by simp

lemma harmless_globals_ignored: "option \<in> set ignored_options \<Longrightarrow> harmless_globals cwd globals
   \<Longrightarrow> harmless_globals cwd (option # globals)"
  by simp

lemma admitted_git_prefix:
  assumes "admitted_git cwd arguments writes"
    and "\<And>globals. harmless_globals cwd globals \<Longrightarrow> harmless_globals cwd (prefix @ globals)"
  shows "admitted_git cwd (prefix @ arguments) writes"
  using assms(1)
proof cases
  case no_subcommand
  then show ?thesis using assms(2) admitted_git.no_subcommand by blast
next
  case (informational globals option rest)
  then show ?thesis using assms(2) admitted_git.informational [of cwd "prefix @ globals"] by simp
next
  case (subcommand globals subcommand arguments')
  then show ?thesis using assms(2) admitted_git.subcommand [of cwd "prefix @ globals"] by simp
qed

lemma refused_subcommand: "subcommand \<in> set refused_subcommands \<Longrightarrow> classify_subcommand subcommand arguments = Refused"
proof -
  have "list_all (\<lambda>s. classify_subcommand s arguments = Refused) refused_subcommands"
    by (simp add: refused_subcommands_def classify_subcommand_def writing_subcommands_def)
  then show "subcommand \<in> set refused_subcommands \<Longrightarrow> classify_subcommand subcommand arguments = Refused"
    by (simp add: list_all_iff)
qed

lemma config_subcommand: "classify_subcommand ''config'' arguments = config_class arguments"
  by (simp add: classify_subcommand_def writing_subcommands_def)

lemma remote_subcommand:
  "classify_subcommand ''remote'' arguments =
     (if first_positional arguments \<in> {None, Some ''show'', Some ''get-url''} then ReadOnly else Refused)"
  by (simp add: classify_subcommand_def writing_subcommands_def)

lemma unknown_subcommand:
  "subcommand \<notin> set (writing_subcommands @ reading_subcommands
     @ [''apply'', ''stash'', ''branch'', ''tag'', ''notes'', ''reflog'', ''config'', ''remote''])
   \<Longrightarrow> classify_subcommand subcommand arguments \<in> {Refused, Unrecognized}"
  by (simp add: classify_subcommand_def)

lemma classify_subcommand_admitted:
  assumes "classify_subcommand subcommand arguments \<in> {ReadOnly, WritesMetadata}"
  shows "admitted_subcommand subcommand arguments"
  unfolding admitted_subcommand_def
proof (intro conjI impI)
  show "subcommand \<notin> set refused_subcommands" using assms refused_subcommand by force
  show "has_any arguments config_reads \<or> first_positional arguments \<in> {Some ''get'', Some ''list''}"
    if "subcommand = ''config''"
    using assms that by (auto simp: config_subcommand config_class_def split: if_splits)
  show "first_positional arguments \<in> {None, Some ''show'', Some ''get-url''}" if "subcommand = ''remote''"
    using assms that by (auto simp: remote_subcommand split: if_splits)
  show "subcommand \<in> set (writing_subcommands @ reading_subcommands
     @ [''apply'', ''stash'', ''branch'', ''tag'', ''notes'', ''reflog'', ''config'', ''remote''])"
  proof (rule ccontr)
    assume "\<not> ?thesis"
    then have "classify_subcommand subcommand arguments \<in> {Refused, Unrecognized}" by (rule unknown_subcommand)
    with assms show False by auto
  qed
qed

lemma classify_git_admitted:
  "classify_git arguments cwd = class \<Longrightarrow> class \<in> {ReadOnly, WritesMetadata} \<Longrightarrow>
   admitted_git cwd arguments (class = WritesMetadata)"
proof (induction arguments cwd rule: classify_git.induct)
  case (1 cwd)
  then show ?case using admitted_git.no_subcommand [of cwd "[]"] by auto
next
  case (2 argument arguments cwd)
  show ?case
  proof (cases "dashed argument")
    case False
    with 2 have "classify_subcommand argument arguments = class" by simp
    with 2 show ?thesis
      using False admitted_git.subcommand [of cwd "[]" argument arguments "class = WritesMetadata"]
        classify_subcommand_admitted [of argument arguments] by auto
  next
    case True
    consider (ignored) "argument \<in> set ignored_options"
      | (info) "argument \<notin> set ignored_options" "argument \<in> set informational_options"
      | (dir) "argument \<notin> set ignored_options" "argument \<notin> set informational_options" "argument = ''-C''"
      | (other) "argument \<notin> set ignored_options" "argument \<notin> set informational_options" "argument \<noteq> ''-C''"
      by blast
    then show ?thesis
    proof cases
      case ignored
      with True 2 have "admitted_git cwd arguments (class = WritesMetadata)" by simp
      then show ?thesis
        using admitted_git_prefix [of cwd arguments _ "[argument]"] ignored harmless_globals_ignored by simp
    next
      case info
      with True 2 show ?thesis using admitted_git.informational [of cwd "[]" argument arguments] by auto
    next
      case dir
      with True 2(3,4) obtain directory rest where a: "arguments = directory # rest" "stays_inside cwd directory"
          "classify_git rest cwd = class"
        by (auto split: list.splits if_splits)
      with True dir 2 have "admitted_git cwd rest (class = WritesMetadata)" by simp
      then show ?thesis
        using admitted_git_prefix [of cwd rest _ "[''-C'', directory]"] a dir harmless_globals_C by simp
    next
      case other
      with True 2 show ?thesis by (auto split: if_splits)
    qed
  qed
qed

lemma ignored_options_dashed: "option \<in> set ignored_options \<Longrightarrow> dashed option"
  by (auto simp: ignored_options_def dashed_def starts_with_def)

lemma dash_C: "dashed ''-C''" "''-C'' \<notin> set ignored_options" "''-C'' \<notin> set informational_options"
  by (simp_all add: dashed_def starts_with_def ignored_options_def informational_options_def)

lemma classify_git_globals:
  "harmless_globals cwd globals \<Longrightarrow> classify_git (globals @ rest) cwd = classify_git rest cwd"
proof (induction cwd globals rule: harmless_globals.induct)
  case (2 cwd option options)
  show ?case
  proof (cases "option \<in> set ignored_options")
    case True
    with 2 dash_C(2) have "harmless_globals cwd options" by auto
    with True 2 show ?thesis by (simp add: ignored_options_dashed)
  next
    case False
    with 2(3) obtain directory rest' where "option = ''-C''" "options = directory # rest'"
        "stays_inside cwd directory" "harmless_globals cwd rest'"
      by (auto split: list.splits)
    with 2(2) show ?thesis by (simp add: dash_C)
  qed
qed simp

lemma admitted_git_writes: "admitted_git cwd arguments True \<Longrightarrow> classify_git arguments cwd = WritesMetadata"
  by (erule admitted_git.cases) (auto simp: classify_git_globals)

lemma git_program:
  assumes "program = ''git'' \<or> ends_with program ''/git''"
  shows "program \<noteq> ''eval'' \<and> program \<notin> set shells"
  using assms by (auto simp: shells_def ends_with_def)

lemma git_arguments_Some:
  assumes "git_arguments words = Some arguments"
  obtains rest program where "skip_assignments (strip_redirections words) = Inr rest"
    "skip_wrappers rest = Inr (program # arguments)" "program = ''git'' \<or> ends_with program ''/git''"
  using assms unfolding git_arguments_def by (simp split: sum.split_asm list.split_asm if_split_asm)

lemma classify_simple_git:
  assumes "git_arguments words = Some arguments"
  shows "classify_simple words cwd = classify_git arguments cwd"
  using assms by (rule git_arguments_Some) (simp add: classify_simple_def git_program)

lemma skip_assignments_Inl: "skip_assignments words = Inl class \<Longrightarrow> class = Refused"
  by (induction words) (auto split: option.splits if_splits)

lemma skip_env_Inl: "skip_env words = Inl class \<Longrightarrow> class = Refused"
  by (induction words rule: skip_env.induct) (auto split: option.splits if_splits)

lemma skip_wrappers_Inl: "skip_wrappers words = Inl class \<Longrightarrow> class = Refused"
  by (induction words rule: skip_wrappers.induct) (auto split: sum.splits if_splits dest: skip_env_Inl)

lemma classify_simple_other: "git_arguments words = None \<Longrightarrow> classify_simple words cwd \<noteq> WritesMetadata"
  by (auto simp: git_arguments_def classify_simple_def split: sum.split_asm list.split_asm if_split_asm
      dest: skip_assignments_Inl skip_wrappers_Inl)

lemma classify_commands_admitted:
  "classify_commands commands cwd start = class \<Longrightarrow> class \<in> {ReadOnly, WritesMetadata} \<Longrightarrow>
   (\<forall>words\<in>set commands. classify_simple words cwd \<in> {ReadOnly, WritesMetadata})
   \<and> (class = WritesMetadata \<longleftrightarrow> start = WritesMetadata
        \<or> (\<exists>words\<in>set commands. classify_simple words cwd = WritesMetadata))"
  by (induction commands cwd start rule: classify_commands.induct)
     (auto split: git_command_class.splits)

subsection \<open>Properties\<close>

text \<open>
  Quoting round trip. A command line whose words are written between single quotes (a single quote
  inside a word as a closed, escaped and reopened quote), separated by spaces, each command ended by a
  semicolon, is split into exactly those commands and words, whatever bytes the words hold.
\<close>
theorem quoted_commands_round_trip:
  assumes "[] \<notin> set commands"
  shows "simple_commands (concat (map quote_command commands)) = Some commands"
  using scan_commands [OF assms, of "[]"] by (simp add: simple_commands_def split_init_def at_word_def)

theorem quoted_commands_round_trip_witness:
  "simple_commands (concat (map quote_command [[''git'', ''commit'', ''-m'', [squote, CHR '' '', dquote]], [''ls'']])) =
     Some [[''git'', ''commit'', ''-m'', [squote, CHR '' '', dquote]], [''ls'']]"
  by (rule quoted_commands_round_trip) simp

text \<open>
  C33: what an approval of a git write can let through. A command that is classified as reading or
  as writing metadata was split completely, and every git invocation in it has only global options
  that leave configuration and repository alone (with \<^verbatim>\<open>-C\<close> lexically inside the working directory),
  followed by nothing, by an informational option, or by a known subcommand that is not one
  of the refused ones, changes no configuration and no remote. It is classified as writing exactly when
  one of its git invocations writes.
\<close>
theorem classified_git_commands_are_admitted:
  assumes "classify_git_command command cwd = class" "class \<in> {ReadOnly, WritesMetadata}"
  shows "\<exists>commands. simple_commands command = Some commands
    \<and> (\<forall>words arguments. words \<in> set commands \<and> git_arguments words = Some arguments \<longrightarrow>
         (\<exists>writes. admitted_git cwd arguments writes))
    \<and> (class = WritesMetadata \<longleftrightarrow>
         (\<exists>words arguments. words \<in> set commands \<and> git_arguments words = Some arguments
            \<and> admitted_git cwd arguments True))"
proof -
  from assms obtain commands where commands: "simple_commands command = Some commands"
      "classify_commands commands cwd ReadOnly = class"
    by (auto simp: classify_git_command_def split: option.splits)
  note each = classify_commands_admitted [OF commands(2) assms(2)]
  have "\<exists>writes. admitted_git cwd arguments writes"
    if "words \<in> set commands" "git_arguments words = Some arguments" for words arguments
    using that each classify_git_admitted classify_simple_git by metis
  moreover have "classify_simple words cwd = WritesMetadata \<longleftrightarrow>
      (\<exists>arguments. git_arguments words = Some arguments \<and> admitted_git cwd arguments True)" for words
    using classify_simple_other classify_simple_git classify_git_admitted [of _ cwd WritesMetadata]
      admitted_git_writes by (cases "git_arguments words") force+
  ultimately show ?thesis using commands each by auto
qed

lemma strip_ws_other [simp]:
  assumes "c \<noteq> CHR 0x09" "c \<noteq> CHR 0x0A" "c \<noteq> CHR 0x0B" "c \<noteq> CHR 0x0C" "c \<noteq> CHR 0x0D" "c \<noteq> CHR 0x20"
    "c \<noteq> CHR 0xC2" "c \<noteq> CHR 0xE1" "c \<noteq> CHR 0xE2" "c \<noteq> CHR 0xE3"
  shows "strip_ws_start (c # cs) = None"
  using assms by (auto simp: strip_ws_start_None ws_seqs_def starts_with_def)

lemmas scan_eval = simple_commands_def scan.simps scan_step_def next_is_def push_word_def end_word_def
  end_command_def starts_with_def ends_with_def split_init_def

lemmas class_eval = classify_simple_def strip_redirections_def redirection_def redirection_operators_def
  strip_prefix_def is_digit_def byte_of_def assignment_name_def dashed_def classify_subcommand_def
  ignored_options_def informational_options_def refused_options_def writing_subcommands_def shells_def
  stays_inside_def join_path_def path_of_def component_of_def is_absolute_def pop_path_def
  path_starts_with_def starts_with_def ends_with_def

theorem classified_git_commands_are_admitted_witness:
  "\<exists>commands. simple_commands ''git -C sub commit && ls'' = Some commands
     \<and> (\<exists>words arguments. words \<in> set commands \<and> git_arguments words = Some arguments
          \<and> admitted_git [RootDir, Normal ''w''] arguments True)"
proof -
  have "simple_commands ''git -C sub commit && ls'' = Some [[''git'', ''-C'', ''sub'', ''commit''], [''ls'']]"
    by (simp add: scan_eval)
  moreover have "classify_commands [[''git'', ''-C'', ''sub'', ''commit''], [''ls'']]
      [RootDir, Normal ''w''] ReadOnly = WritesMetadata"
    by (simp add: class_eval)
  ultimately have "classify_git_command ''git -C sub commit && ls'' [RootDir, Normal ''w''] = WritesMetadata"
    by (simp add: classify_git_command_def)
  from classified_git_commands_are_admitted [OF this] show ?thesis by auto
qed

text \<open>
  The classification is lexical, word by word: it does not see a directory changed by an earlier command, a
  variable exported by one, or an expansion in the operand of \<^verbatim>\<open>-C\<close>. These run git in another repository and are
  classified as writing the metadata of this one.
\<close>

lemma other_repositories_are_not_seen:
  "classify_git_command ''git -C ~/other commit'' [RootDir, Normal ''w''] = WritesMetadata
   \<and> classify_git_command ''cd /other && git commit'' [RootDir, Normal ''w''] = WritesMetadata"
proof -
  have "simple_commands ''git -C ~/other commit'' = Some [[''git'', ''-C'', ''~/other'', ''commit'']]"
      "simple_commands ''cd /other && git commit'' = Some [[''cd'', ''/other''], [''git'', ''commit'']]"
    by (simp_all add: scan_eval)
  moreover have "classify_commands [[''git'', ''-C'', ''~/other'', ''commit'']] [RootDir, Normal ''w''] ReadOnly =
        WritesMetadata"
      "classify_commands [[''cd'', ''/other''], [''git'', ''commit'']] [RootDir, Normal ''w''] ReadOnly = WritesMetadata"
    by (simp_all add: class_eval)
  ultimately show ?thesis by (simp add: classify_git_command_def)
qed

end
