(* ===== verification/Proposed_Plan.thy ===== *)
theory Proposed_Plan
  imports Rust_Strings
begin

text \<open>
  The streaming parser that separates proposed plans from the text of an answer,
  \<^verbatim>\<open>crates/orca-core/src/proposed_plan.rs\<close>. Strings are UTF-8 byte strings; both tags are ASCII, so
  searching bytes and searching characters find the same places.
\<close>

subsection \<open>The parser\<close>

definition proposed_plan_open :: string where
  "proposed_plan_open = ''<proposed_plan>''"

definition proposed_plan_close :: string where
  "proposed_plan_close = ''</proposed_plan>''"

datatype proposed_plan_segment = AgentText string | PlanText string

record plan_parser =
  pp_buffer :: string
  pp_in_plan :: bool
  pp_plan_buffer :: string
  pp_drop_leading_plan_newline :: bool

definition parser_default :: plan_parser where
  "parser_default =
     \<lparr>pp_buffer = [], pp_in_plan = False, pp_plan_buffer = [], pp_drop_leading_plan_newline = False\<rparr>"

fun pending_len :: "nat \<Rightarrow> nat \<Rightarrow> string \<Rightarrow> string \<Rightarrow> nat" where
  "pending_len 0 n text tag = 0"
| "pending_len (Suc fuel) n text tag =
     (if n \<ge> length tag then 0
      else if starts_with tag (drop (length text - n) text) then n
      else pending_len fuel (Suc n) text tag)"

text \<open>The loop looks at the ends of the text from the shortest on, at most as many as the text has.\<close>

definition pending_tag_prefix_len :: "string \<Rightarrow> string \<Rightarrow> nat" where
  "pending_tag_prefix_len s tag = pending_len (length s) 1 s tag"

definition normalize_plan_text :: "plan_parser \<Rightarrow> string \<times> plan_parser" where
  "normalize_plan_text p =
     (let s = pp_plan_buffer p; p = p\<lparr>pp_plan_buffer := []\<rparr>
      in if pp_drop_leading_plan_newline p
         then (case strip_prefix s [CHR 0x0A] of Some stripped \<Rightarrow> stripped | None \<Rightarrow> s,
               p\<lparr>pp_drop_leading_plan_newline := False\<rparr>)
         else (s, p))"

definition segment_if_nonempty :: "(string \<Rightarrow> proposed_plan_segment) \<Rightarrow> string \<Rightarrow> proposed_plan_segment list" where
  "segment_if_nonempty seg s = (if s \<noteq> [] then [seg s] else [])"

lemma split_once_shorter: "split_once s p = Some (a, b) \<Longrightarrow> p \<noteq> [] \<Longrightarrow> length b < length s"
  by (auto dest: split_once_Some)

function drain :: "bool \<Rightarrow> plan_parser \<Rightarrow> proposed_plan_segment list \<times> plan_parser" where
  "drain finish p =
     (if pp_in_plan p then
        (case split_once (pp_buffer p) proposed_plan_close of
           Some (plan, rest) \<Rightarrow>
             (let (plan_text, p) = normalize_plan_text
                    (p\<lparr>pp_buffer := rest, pp_plan_buffer := pp_plan_buffer p @ plan\<rparr>);
                  (out, p) = drain finish (p\<lparr>pp_buffer := rest, pp_in_plan := False, pp_drop_leading_plan_newline := False\<rparr>)
              in (segment_if_nonempty PlanText plan_text @ out, p))
         | None \<Rightarrow>
             if finish then
               (segment_if_nonempty AgentText (proposed_plan_open @ pp_plan_buffer p @ pp_buffer p),
                \<lparr>pp_buffer = [], pp_in_plan = False, pp_plan_buffer = [], pp_drop_leading_plan_newline = False\<rparr>)
             else
               (let take_len = length (pp_buffer p) - pending_tag_prefix_len (pp_buffer p) proposed_plan_close
                in ([], p\<lparr>pp_plan_buffer := pp_plan_buffer p @ take take_len (pp_buffer p),
                          pp_buffer := drop take_len (pp_buffer p)\<rparr>)))
      else
        (case split_once (pp_buffer p) proposed_plan_open of
           Some (before, rest) \<Rightarrow>
             (let (out, p) = drain finish
                    (p\<lparr>pp_buffer := rest, pp_in_plan := True, pp_drop_leading_plan_newline := True\<rparr>)
              in (segment_if_nonempty AgentText before @ out, p))
         | None \<Rightarrow>
             (let keep = (if finish then 0 else pending_tag_prefix_len (pp_buffer p) proposed_plan_open);
                  take_len = length (pp_buffer p) - keep
              in if length (pp_buffer p) > keep
                 then ([AgentText (take take_len (pp_buffer p))], p\<lparr>pp_buffer := drop take_len (pp_buffer p)\<rparr>)
                 else ([], p))))"
  by pat_completeness auto
termination
  by (relation "measure (\<lambda>(_, p). length (pp_buffer p))")
     (auto dest!: split_once_shorter simp: proposed_plan_open_def proposed_plan_close_def)

declare drain.simps [simp del]

definition plan_push :: "string \<Rightarrow> plan_parser \<Rightarrow> proposed_plan_segment list \<times> plan_parser" where
  "plan_push delta p = drain False (p\<lparr>pp_buffer := pp_buffer p @ delta\<rparr>)"

definition plan_finish :: "plan_parser \<Rightarrow> proposed_plan_segment list \<times> plan_parser" where
  "plan_finish p = drain True p"

fun text_before_plan :: "string \<Rightarrow> proposed_plan_segment list \<Rightarrow> string option" where
  "text_before_plan before [] = None"
| "text_before_plan before (AgentText s # segments) = text_before_plan (before @ s) segments"
| "text_before_plan before (PlanText _ # segments) = Some before"

definition message_text_before_plan :: "string \<Rightarrow> string option" where
  "message_text_before_plan content =
     (let (segments, p) = plan_push content parser_default; (more_segments, _) = plan_finish p
      in text_before_plan [] (segments @ more_segments))"

subsection \<open>The reference: one pass over the whole text\<close>

text \<open>
  What segments show: the agent's text byte by byte, and every plan as one item. Cutting agent
  text into more or fewer segments makes no difference.
\<close>

fun shown :: "proposed_plan_segment \<Rightarrow> (char, string) result list" where
  "shown (AgentText s) = map Inl s"
| "shown (PlanText s) = [Inr s]"

definition shown_all :: "proposed_plan_segment list \<Rightarrow> (char, string) result list" where
  "shown_all segments = concat (map shown segments)"

definition plan_item :: "string \<Rightarrow> (char, string) result list" where
  "plan_item s =
     (let t = (case strip_prefix s [CHR 0x0A] of Some r \<Rightarrow> r | None \<Rightarrow> s) in if t = [] then [] else [Inr t])"

function parse_text :: "string \<Rightarrow> (char, string) result list" where
  "parse_text s =
     (case split_once s proposed_plan_open of
        None \<Rightarrow> map Inl s
      | Some (before, rest) \<Rightarrow>
          map Inl before @
          (case split_once rest proposed_plan_close of
             None \<Rightarrow> map Inl (proposed_plan_open @ rest)
           | Some (plan, rest') \<Rightarrow> plan_item plan @ parse_text rest'))"
  by pat_completeness auto
termination
  by (relation "measure length")
     (auto dest!: split_once_shorter simp: proposed_plan_open_def proposed_plan_close_def)

declare parse_text.simps [simp del]

definition parse_plan :: "string \<Rightarrow> (char, string) result list" where
  "parse_plan s =
     (case split_once s proposed_plan_close of
        None \<Rightarrow> map Inl (proposed_plan_open @ s)
      | Some (plan, rest) \<Rightarrow> plan_item plan @ parse_text rest)"

lemma parse_text_open:
  "split_once s proposed_plan_open = Some (before, rest) \<Longrightarrow> parse_text s = map Inl before @ parse_plan rest"
  by (simp add: parse_text.simps [of s] parse_plan_def)

lemma shown_all_simps [simp]:
  "shown_all [] = []"
  "shown_all (seg # segs) = shown seg @ shown_all segs"
  "shown_all (xs @ ys) = shown_all xs @ shown_all ys"
  by (simp_all add: shown_all_def)

lemma shown_segment_if_nonempty [simp]:
  "shown_all (segment_if_nonempty AgentText s) = map Inl s"
  "shown_all (segment_if_nonempty PlanText s) = (if s = [] then [] else [Inr s])"
  by (simp_all add: segment_if_nonempty_def)

subsection \<open>Places where a tag cannot start\<close>

text \<open>No occurrence of the tag in \<open>t @ y\<close> starts inside \<open>t\<close>.\<close>

definition free_of :: "string \<Rightarrow> string \<Rightarrow> string \<Rightarrow> bool" where
  "free_of tag t y \<longleftrightarrow> (\<forall>i<length t. \<not> starts_with (drop i (t @ y)) tag)"

lemma free_of_Nil [simp]: "free_of tag [] y"
  by (simp add: free_of_def)

lemma free_of_Cons: "free_of tag (c # t) y \<longleftrightarrow> \<not> starts_with (c # t @ y) tag \<and> free_of tag t y"
  by (auto simp: free_of_def less_Suc_eq_0_disj)

lemma free_of_append: "free_of tag (t @ u) y \<longleftrightarrow> free_of tag t (u @ y) \<and> free_of tag u y"
  by (induction t) (auto simp: free_of_Cons)

lemma split_once_free:
  "tag \<noteq> [] \<Longrightarrow> free_of tag t y \<Longrightarrow>
   split_once (t @ y) tag = map_option (\<lambda>(a, b). (t @ a, b)) (split_once y tag)"
proof (induction t)
  case Nil
  then show ?case by (simp add: option.map_ident split_def)
next
  case (Cons c t)
  then show ?case by (auto simp: free_of_Cons option.map_comp comp_def split_def)
qed

lemma split_once_prefix:
  "split_once s tag = Some (a, b) \<Longrightarrow> tag \<noteq> [] \<Longrightarrow> split_once (s @ x) tag = Some (a, b @ x)"
proof (induction s arbitrary: a)
  case (Cons c s)
  show ?case
  proof (cases "starts_with (c # s) tag")
    case True
    then have "starts_with (c # s @ x) tag" by (metis append_Cons append_assoc starts_with_iff)
    moreover from True have "length tag \<le> Suc (length s)"
      by (auto simp: starts_with_iff dest: arg_cong [where f = length])
    moreover from this have "drop (length tag) (c # s @ x) = drop (length tag) (c # s) @ x"
      using drop_append [of "length tag" "c # s" x] by simp
    ultimately show ?thesis using True Cons.prems by auto
  next
    case False
    then have "\<not> starts_with (c # s @ x) tag" if "length tag \<le> Suc (length s)"
      using that take_append [of "length tag" "c # s" x] by (simp add: starts_with_def)
    moreover have "length tag \<le> Suc (length s)"
      using split_once_Some [OF Cons.prems(1)] by (auto dest: arg_cong [where f = length])
    ultimately show ?thesis using False Cons by (auto split: option.splits)
  qed
qed (auto split: if_splits)

text \<open>A tag that starts with a character it has nowhere else.\<close>

lemma pending_len_0:
  "pending_len fuel n s tag = 0 \<Longrightarrow> 0 < n \<Longrightarrow> n \<le> m \<Longrightarrow> m < n + fuel \<Longrightarrow> m < length tag \<Longrightarrow>
   \<not> starts_with tag (drop (length s - m) s)"
proof (induction fuel n s tag rule: pending_len.induct)
  case (2 fuel n s tag)
  then show ?case by (cases "m = n") (auto split: if_splits)
qed simp

lemma pending_len_pos:
  "pending_len fuel n s tag = k \<Longrightarrow> 0 < k \<Longrightarrow> starts_with tag (drop (length s - k) s) \<and> n \<le> k \<and> k < n + fuel"
  by (induction fuel n s tag rule: pending_len.induct) (fastforce split: if_splits)+

lemma pending_le: "pending_tag_prefix_len s tag \<le> length s"
  using pending_len_pos [of "length s" 1 s tag "pending_tag_prefix_len s tag"]
  by (cases "pending_tag_prefix_len s tag = 0") (auto simp: pending_tag_prefix_len_def)

lemma pending_free:
  assumes tag: "tag = c # tag'" "c \<notin> set tag'" and none: "split_once s tag = None"
  defines "k \<equiv> length s - pending_tag_prefix_len s tag"
  shows "free_of tag (take k s) (drop k s @ x)"
  unfolding free_of_def
proof (intro allI impI notI)
  fix i
  assume "i < length (take k s)" and hit: "starts_with (drop i (take k s @ drop k s @ x)) tag"
  then have i: "i < k" "i < length s" by auto
  have all: "take k s @ drop k s @ x = s @ x" by (metis append.assoc append_take_drop_id)
  from hit i obtain r where r: "drop i s @ x = tag @ r" by (auto simp: all starts_with_iff)
  have "length (drop i s) < length tag"
  proof (rule ccontr)
    assume "\<not> ?thesis"
    with r have "drop i s = tag @ drop (length tag) (drop i s)"
      by (metis append_eq_append_conv_if append_take_drop_id linorder_not_less)
    then have "s = take i s @ tag @ drop (length tag) (drop i s)" by (metis append_take_drop_id)
    with none show False by (auto simp: split_once_None)
  qed
  with arg_cong [OF r, of "take (length (drop i s))"] have prefix: "starts_with tag (drop i s)"
    by (simp add: starts_with_def)
  let ?m = "length s - i"
  have m: "0 < ?m" "?m \<le> length s" "?m < length tag" "drop (length s - ?m) s = drop i s"
    using i \<open>length (drop i s) < length tag\<close> by auto
  show False
  proof (cases "pending_tag_prefix_len s tag = 0")
    case True
    with pending_len_0 [of "length s" 1 s tag ?m] m prefix show False
      by (simp add: pending_tag_prefix_len_def)
  next
    case False
    let ?k = "pending_tag_prefix_len s tag"
    from False pending_len_pos [of "length s" 1 s tag ?k] have short: "starts_with tag (drop (length s - ?k) s)"
      by (simp add: pending_tag_prefix_len_def)
    have lt: "?k < ?m" using i unfolding k_def by auto
    have nonempty: "length s - ?k < length s" using False pending_le [of s tag] i by auto
    from short obtain u where "c # tag' = drop (length s - ?k) s @ u" by (auto simp: starts_with_iff tag(1))
    with nonempty have "hd (drop (length s - ?k) s) = c" by (cases "drop (length s - ?k) s") auto
    with nonempty have "s ! (length s - ?k) = c" by (simp add: hd_drop_conv_nth)
    moreover have "s ! (length s - ?k) = tag ! (?m - ?k)"
      using prefix lt m False pending_le [of s tag] i
      by (auto simp: starts_with_iff nth_append) 
    moreover have "tag ! (?m - ?k) \<in> set tag'"
      using lt m tag(1) by (cases "?m - ?k") auto
    ultimately show False using tag(2) by simp
  qed
qed

subsection \<open>The parser computes the reference\<close>

definition parser_ok :: "plan_parser \<Rightarrow> bool" where
  "parser_ok p \<longleftrightarrow>
     (if pp_in_plan p
      then pp_drop_leading_plan_newline p
           \<and> (\<forall>x. free_of proposed_plan_close (pp_plan_buffer p) (pp_buffer p @ x))
      else pp_plan_buffer p = [])"

text \<open>What is still to be shown when the rest of the text is \<open>x\<close>.\<close>

definition to_show :: "plan_parser \<Rightarrow> string \<Rightarrow> (char, string) result list" where
  "to_show p x =
     (if pp_in_plan p then parse_plan (pp_plan_buffer p @ pp_buffer p @ x) else parse_text (pp_buffer p @ x))"

lemma tags [simp]: "proposed_plan_open \<noteq> []" "proposed_plan_close \<noteq> []"
  by (simp_all add: proposed_plan_open_def proposed_plan_close_def)

lemma pending_free_open:
  "split_once s proposed_plan_open = None \<Longrightarrow> k = length s - pending_tag_prefix_len s proposed_plan_open \<Longrightarrow>
   free_of proposed_plan_open (take k s) (drop k s @ x)"
  using pending_free [of proposed_plan_open "CHR ''<''" "tl proposed_plan_open" s x]
  by (simp add: proposed_plan_open_def)

lemma pending_free_close:
  "split_once s proposed_plan_close = None \<Longrightarrow> k = length s - pending_tag_prefix_len s proposed_plan_close \<Longrightarrow>
   free_of proposed_plan_close (take k s) (drop k s @ x)"
  using pending_free [of proposed_plan_close "CHR ''<''" "tl proposed_plan_close" s x]
  by (simp add: proposed_plan_close_def)

lemma parse_text_free: "free_of proposed_plan_open t y \<Longrightarrow> parse_text (t @ y) = map Inl t @ parse_text y"
  by (simp add: parse_text.simps [of "t @ y"] parse_text.simps [of y] split_once_free split: option.splits)

lemma split_once_free_close:
  "free_of proposed_plan_close b (s @ x) \<Longrightarrow> split_once s proposed_plan_close = Some (plan, rest) \<Longrightarrow>
   split_once (b @ s @ x) proposed_plan_close = Some (b @ plan, rest @ x)"
  by (simp add: split_once_free split_once_prefix)

lemma take_drop_append [simp]: "take k s @ drop k s @ y = s @ y"
  by (metis append.assoc append_take_drop_id)

definition drained :: "bool \<Rightarrow> string \<Rightarrow> plan_parser \<Rightarrow> proposed_plan_segment list \<times> plan_parser \<Rightarrow> bool" where
  "drained finish x p = (\<lambda>(out, p'). parser_ok p'
     \<and> (if finish then shown_all out = to_show p [] else shown_all out @ to_show p' x = to_show p x))"

lemma drained_later:
  assumes "drained finish x p (out, p')" "\<And>y. to_show p0 y = pre @ to_show p y" "shown_all segs = pre"
  shows "drained finish x p0 (segs @ out, p')"
  using assms by (auto simp: drained_def)

lemma drain_plan_open:
  assumes "parser_ok p" "pp_in_plan p" "split_once (pp_buffer p) proposed_plan_close = None"
  shows "drained finish x p (drain finish p)"
proof (cases finish)
  case True
  have "split_once (pp_plan_buffer p @ pp_buffer p) proposed_plan_close = None"
    using split_once_free [of proposed_plan_close "pp_plan_buffer p" "pp_buffer p @ []"] assms
    by (simp add: parser_ok_def del: append_Nil2) simp
  with True assms show ?thesis
    by (simp add: drain.simps [of _ p] drained_def to_show_def parse_plan_def parser_ok_def)
next
  case False
  let ?k = "length (pp_buffer p) - pending_tag_prefix_len (pp_buffer p) proposed_plan_close"
  have "free_of proposed_plan_close (pp_plan_buffer p @ take ?k (pp_buffer p)) (drop ?k (pp_buffer p) @ y)" for y
    using assms pending_free_close [OF assms(3) refl, of y] by (simp add: free_of_append parser_ok_def)
  with False assms show ?thesis
    by (simp add: drain.simps [of _ p] drained_def to_show_def parser_ok_def Let_def)
qed

lemma drain_text_open:
  assumes "parser_ok p" "\<not> pp_in_plan p" "split_once (pp_buffer p) proposed_plan_open = None"
  shows "drained finish x p (drain finish p)"
proof (cases finish)
  case True
  with assms show ?thesis
    by (auto simp: drain.simps [of _ p] drained_def to_show_def parse_text.simps [of "pp_buffer p"]
        parser_ok_def Let_def)
next
  case False
  let ?k = "length (pp_buffer p) - pending_tag_prefix_len (pp_buffer p) proposed_plan_open"
  have "parse_text (take ?k (pp_buffer p) @ drop ?k (pp_buffer p) @ x) =
      map Inl (take ?k (pp_buffer p)) @ parse_text (drop ?k (pp_buffer p) @ x)"
    by (rule parse_text_free) (rule pending_free_open [OF assms(3) refl])
  then have "map Inl (take ?k (pp_buffer p)) @ parse_text (drop ?k (pp_buffer p) @ x) = parse_text (pp_buffer p @ x)"
    by simp
  with False assms pending_le [of "pp_buffer p" proposed_plan_open] show ?thesis
    by (auto simp: drain.simps [of _ p] drained_def to_show_def parser_ok_def Let_def)
qed

lemma drain_plan_close:
  assumes "parser_ok p" "pp_in_plan p" "split_once (pp_buffer p) proposed_plan_close = Some (plan, rest)"
  defines "q \<equiv> p\<lparr>pp_plan_buffer := [], pp_buffer := rest, pp_in_plan := False, pp_drop_leading_plan_newline := False\<rparr>"
  shows "\<exists>segs. drain finish p = (segs @ fst (drain finish q), snd (drain finish q))
    \<and> (\<forall>y. to_show p y = shown_all segs @ to_show q y)"
proof -
  let ?t = "case strip_prefix (pp_plan_buffer p @ plan) [CHR 0x0A] of Some r \<Rightarrow> r | None \<Rightarrow> pp_plan_buffer p @ plan"
  have "drain finish p = (segment_if_nonempty PlanText ?t @ fst (drain finish q), snd (drain finish q))"
    using assms
    by (cases "strip_prefix (pp_plan_buffer p @ plan) [CHR 0x0A]")
       (simp_all add: drain.simps [of _ p] normalize_plan_text_def parser_ok_def Let_def split_def)
  moreover have "to_show p y = plan_item (pp_plan_buffer p @ plan) @ to_show q y" for y
    using assms(1-3) split_once_free_close [of "pp_plan_buffer p" "pp_buffer p" y plan rest]
    by (simp add: to_show_def q_def parse_plan_def parser_ok_def)
  ultimately show ?thesis by (auto simp: plan_item_def Let_def)
qed

lemma drain_text_close:
  assumes "parser_ok p" "\<not> pp_in_plan p" "split_once (pp_buffer p) proposed_plan_open = Some (before, rest)"
  defines "q \<equiv> p\<lparr>pp_buffer := rest, pp_in_plan := True, pp_drop_leading_plan_newline := True\<rparr>"
  shows "\<exists>segs. drain finish p = (segs @ fst (drain finish q), snd (drain finish q))
    \<and> (\<forall>y. to_show p y = shown_all segs @ to_show q y)"
proof -
  have "drain finish p = (segment_if_nonempty AgentText before @ fst (drain finish q), snd (drain finish q))"
    using assms by (simp add: drain.simps [of _ p] Let_def split_def)
  moreover have "to_show p y = map Inl before @ to_show q y" for y
    using assms(1-3) parse_text_open [OF split_once_prefix [OF assms(3) tags(1)], of y]
    by (simp add: to_show_def q_def parser_ok_def)
  ultimately show ?thesis by auto
qed

lemma drain_drained: "parser_ok p \<Longrightarrow> drained finish x p (drain finish p)"
proof (induction p rule: measure_induct_rule [of "\<lambda>p. length (pp_buffer p)"])
  case (less p)
  show ?case
  proof (cases "pp_in_plan p")
    case True
    show ?thesis
    proof (cases "split_once (pp_buffer p) proposed_plan_close")
      case None
      with less.prems True show ?thesis by (rule drain_plan_open)
    next
      case (Some pr)
      then obtain plan rest where pr: "split_once (pp_buffer p) proposed_plan_close = Some (plan, rest)" by force
      let ?q = "p\<lparr>pp_plan_buffer := [], pp_buffer := rest, pp_in_plan := False, pp_drop_leading_plan_newline := False\<rparr>"
      have "drained finish x ?q (drain finish ?q)"
        using split_once_shorter [OF pr] by (intro less.IH) (simp_all add: parser_ok_def)
      with drain_plan_close [OF less.prems True pr, of finish] drained_later show ?thesis
        by (metis prod.collapse)
    qed
  next
    case False
    show ?thesis
    proof (cases "split_once (pp_buffer p) proposed_plan_open")
      case None
      with less.prems False show ?thesis by (rule drain_text_open)
    next
      case (Some pr)
      then obtain before rest where pr: "split_once (pp_buffer p) proposed_plan_open = Some (before, rest)" by force
      let ?q = "p\<lparr>pp_buffer := rest, pp_in_plan := True, pp_drop_leading_plan_newline := True\<rparr>"
      have "drained finish x ?q (drain finish ?q)"
        using split_once_shorter [OF pr] less.prems False by (intro less.IH) (simp_all add: parser_ok_def)
      with drain_text_close [OF less.prems False pr, of finish] drained_later show ?thesis
        by (metis prod.collapse)
    qed
  qed
qed

subsection \<open>Properties\<close>

text \<open>A whole answer that arrives in pieces.\<close>

fun push_all :: "string list \<Rightarrow> plan_parser \<Rightarrow> proposed_plan_segment list \<times> plan_parser" where
  "push_all [] p = ([], p)"
| "push_all (delta # deltas) p =
     (let (out, p) = plan_push delta p; (outs, p) = push_all deltas p in (out @ outs, p))"

lemma plan_push_shown:
  assumes "parser_ok p" "plan_push delta p = (out, p')"
  shows "parser_ok p' \<and> shown_all out @ to_show p' x = to_show p (delta @ x)"
proof -
  have ok: "parser_ok (p\<lparr>pp_buffer := pp_buffer p @ delta\<rparr>)"
    using assms(1) by (simp add: parser_ok_def split: if_splits)
  have "to_show (p\<lparr>pp_buffer := pp_buffer p @ delta\<rparr>) x = to_show p (delta @ x)"
    by (simp add: to_show_def)
  with drain_drained [OF ok, of False x] assms(2) show ?thesis by (simp add: plan_push_def drained_def)
qed

lemma push_all_shown:
  "parser_ok p \<Longrightarrow> push_all deltas p = (out, p') \<Longrightarrow>
   parser_ok p' \<and> shown_all out @ to_show p' x = to_show p (concat deltas @ x)"
proof (induction deltas arbitrary: p out p')
  case Nil
  then show ?case by simp
next
  case (Cons delta deltas)
  obtain o1 p1 where one: "plan_push delta p = (o1, p1)" by force
  obtain o2 p2 where two: "push_all deltas p1 = (o2, p2)" by force
  from Cons.prems(2) one two have "out = o1 @ o2" "p' = p2" by simp_all
  with plan_push_shown [OF Cons.prems(1) one, of "concat deltas @ x"] Cons.IH [OF _ two] show ?case by simp
qed

text \<open>
  However an answer is cut into deltas, the segments the parser gives out, with those of
  its finish, show what one pass over the whole text shows: text outside plans byte by byte, every
  complete plan as one item without its leading newline (none when it is empty), and a plan that is
  never closed as the text it is, opening tag included. Nothing is lost, repeated or reordered at
  a cut, also inside a tag.
\<close>
theorem plan_parsing_is_chunk_independent:
  assumes "push_all deltas parser_default = (out, p)" "plan_finish p = (rest, p')"
  shows "shown_all (out @ rest) = parse_text (concat deltas)"
proof -
  have "parser_ok parser_default" by (simp add: parser_ok_def parser_default_def)
  from push_all_shown [OF this assms(1), of "[]"]
  have ok: "parser_ok p" and shown: "shown_all out @ to_show p [] = parse_text (concat deltas)"
    by (simp_all add: to_show_def parser_default_def)
  from drain_drained [OF ok, of True "[]"] assms(2) have "shown_all rest = to_show p []"
    by (simp add: plan_finish_def drained_def)
  with shown show ?thesis by simp
qed

theorem plan_parsing_is_chunk_independent_witness:
  "\<exists>out p rest p'. push_all [''a<propo'', ''sed_plan>b</proposed_plan>'', ''c''] parser_default = (out, p)
     \<and> plan_finish p = (rest, p') \<and> shown_all (out @ rest) = [Inl (CHR ''a''), Inr ''b'', Inl (CHR ''c'')]"
proof -
  have "parse_text (concat [''a<propo'', ''sed_plan>b</proposed_plan>'', ''c'']) =
      [Inl (CHR ''a''), Inr ''b'', Inl (CHR ''c'')]"
    by (simp add: parse_text.simps [of "CHR ''a'' # _"] parse_text.simps [of "''c''"] plan_item_def
        proposed_plan_open_def proposed_plan_close_def starts_with_def strip_prefix_def)
  moreover obtain out p where one: "push_all [''a<propo'', ''sed_plan>b</proposed_plan>'', ''c''] parser_default = (out, p)"
    by (rule prod.exhaust)
  moreover obtain rest p' where two: "plan_finish p = (rest, p')" by (rule prod.exhaust)
  ultimately show ?thesis using plan_parsing_is_chunk_independent [OF one two] by metis
qed

end
