(* ===== verification/Tool_Types.thy ===== *)
theory Tool_Types
  imports Approval_Policy
begin

text \<open>
  The tool vocabulary, \<^verbatim>\<open>crates/orca-core/src/tool_types.rs\<close>: tool names and their wire form,
  capabilities and the kind of action they need approval for, result kinds, requests. Results are in
  \<open>Tool_Results\<close>; tool schemas are JSON and are not modelled.
\<close>

subsection \<open>Tool names\<close>

datatype tool_name =
    ReadFile | ListFiles | Glob | Grep | Bash | Computer | TaskReadOutput | SubagentMessage
  | TaskSendInput | TaskWait | Edit | WriteFile | GitStatus | Subagent | TaskList | TaskStop
  | WorkflowDraft | WorkflowDraftAction | Workflow | WorkflowSendMessage | WorkflowReadMessages
  | WorkflowClearMessages | WorkflowCreateTaskList | WorkflowClaimTask | WorkflowCompleteTask
  | WorkflowListTasks | WebSearch | WebFetch | GetGoal | CreateGoal | UpdateGoal | UpdatePlan
  | AskUserQuestion | RequestUserInput | RequestPermissions | ListMcpResources
  | ListMcpResourceTemplates | ReadMcpResource | ListSkills | ReadSkill | ReportBlocker
  | Namespaced string string string
  | Mcp string
  | External string

text \<open>The names of the built-in tools, and the other spellings that are read as one of them.\<close>

definition builtin_names :: "(tool_name \<times> string) list" where
  "builtin_names =
     [(ReadFile, ''read_file''), (ListFiles, ''list_files''), (Glob, ''glob''), (Grep, ''grep''),
      (Bash, ''bash''), (Computer, ''computer''), (TaskReadOutput, ''task_read_output''),
      (SubagentMessage, ''subagent_message''), (TaskSendInput, ''task_send_input''),
      (TaskWait, ''task_wait''), (Edit, ''edit''), (WriteFile, ''write_file''),
      (GitStatus, ''git_status''), (Subagent, ''subagent''), (TaskList, ''task_list''),
      (TaskStop, ''task_stop''), (WorkflowDraft, ''WorkflowDraft''),
      (WorkflowDraftAction, ''WorkflowDraftAction''), (Workflow, ''Workflow''),
      (WorkflowSendMessage, ''workflow_send_message''),
      (WorkflowReadMessages, ''workflow_read_messages''),
      (WorkflowClearMessages, ''workflow_clear_messages''),
      (WorkflowCreateTaskList, ''workflow_create_task_list''),
      (WorkflowClaimTask, ''workflow_claim_task''),
      (WorkflowCompleteTask, ''workflow_complete_task''),
      (WorkflowListTasks, ''workflow_list_tasks''), (WebSearch, ''web_search''),
      (WebFetch, ''web_fetch''), (GetGoal, ''get_goal''), (CreateGoal, ''create_goal''),
      (UpdateGoal, ''update_goal''), (UpdatePlan, ''update_plan''),
      (AskUserQuestion, ''ask_user_question''), (RequestUserInput, ''request_user_input''),
      (RequestPermissions, ''request_permissions''), (ListMcpResources, ''list_mcp_resources''),
      (ListMcpResourceTemplates, ''list_mcp_resource_templates''),
      (ReadMcpResource, ''read_mcp_resource''), (ListSkills, ''list_skills''),
      (ReadSkill, ''read_skill''), (ReportBlocker, ''report_blocker'')]"

definition builtin_aliases :: "(string \<times> tool_name) list" where
  "builtin_aliases =
     [(''workflow_draft'', WorkflowDraft), (''workflow_draft_action'', WorkflowDraftAction),
      (''workflow'', Workflow)]"

definition tool_plain :: "string \<Rightarrow> tool_name" where
  "tool_plain name =
     (case map_of (map (\<lambda>(t, s). (s, t)) builtin_names @ builtin_aliases) name of
        Some t \<Rightarrow> t | None \<Rightarrow> External name)"

definition tool_namespaced :: "string \<Rightarrow> string \<Rightarrow> tool_name" where
  "tool_namespaced namespace name = Namespaced namespace name (namespace @ ''__'' @ name)"

definition tool_namespace :: "tool_name \<Rightarrow> string option" where
  "tool_namespace t =
     (case t of
        Namespaced namespace _ _ \<Rightarrow> Some namespace
      | Mcp name \<Rightarrow> map_option fst (rsplit_once name ''__'')
      | _ \<Rightarrow> None)"

definition local_name :: "tool_name \<Rightarrow> string" where
  "local_name t =
     (case t of
        Namespaced _ name _ \<Rightarrow> name
      | Mcp name \<Rightarrow> (case rsplit_once name ''__'' of Some (_, local) \<Rightarrow> local | None \<Rightarrow> name)
      | External name \<Rightarrow> name
      | builtin \<Rightarrow> the (map_of builtin_names builtin))"

definition tool_as_str :: "tool_name \<Rightarrow> string" where
  "tool_as_str t =
     (case t of
        Namespaced _ _ serialized \<Rightarrow> serialized
      | Mcp name \<Rightarrow> name
      | External name \<Rightarrow> name
      | builtin \<Rightarrow> the (map_of builtin_names builtin))"

definition parse_namespaced_tool :: "string \<Rightarrow> (string \<times> string) option" where
  "parse_namespaced_tool value =
     (case rsplit_once value ''__'' of
        Some (namespace, name) \<Rightarrow> if namespace \<noteq> [] \<and> name \<noteq> [] then Some (namespace, name) else None
      | None \<Rightarrow> None)"

definition tool_from_str :: "string \<Rightarrow> tool_name option" where
  "tool_from_str value =
     (if starts_with value ''mcp__'' then Some (Mcp value)
      else (case parse_namespaced_tool value of
              Some (namespace, name) \<Rightarrow> Some (tool_namespaced namespace name)
            | None \<Rightarrow> Some (tool_plain value)))"

definition is_builtin :: "string \<Rightarrow> tool_name \<Rightarrow> bool" where
  "is_builtin builtin t \<longleftrightarrow> tool_namespace t = None \<and> tool_as_str t = builtin"

definition tool_is_read_only :: "tool_name \<Rightarrow> bool" where
  "tool_is_read_only t \<longleftrightarrow>
     t \<in> {ReadFile, ListFiles, Glob, Grep, GitStatus, TaskList, WorkflowReadMessages,
          WorkflowListTasks, GetGoal, AskUserQuestion, RequestUserInput, ListMcpResources,
          ListMcpResourceTemplates, ReadMcpResource, ListSkills, ReadSkill}"

subsection \<open>Capabilities\<close>

datatype tool_capability =
    FsRead | FsList | FsSearch | FsWrite | ShellExecute | ComputerUse | GitInspect | NetworkSearch
  | AgentDelegate | WorkflowRun | TaskRead | TaskControl | PlanUpdate | GoalUpdate
  | UserInputRequest | PermissionRequest | McpResourceRead | SkillRead

definition caps_is_read_only :: "tool_capability list \<Rightarrow> bool" where
  "caps_is_read_only capabilities \<longleftrightarrow> capabilities \<noteq> []
     \<and> list_all (\<lambda>c. c \<in> {FsRead, FsList, FsSearch, GitInspect, TaskRead, PlanUpdate, GoalUpdate,
            UserInputRequest, McpResourceRead, SkillRead})
         capabilities"

definition caps_action_kind :: "tool_capability list \<Rightarrow> action_kind" where
  "caps_action_kind capabilities =
     (if ComputerUse \<in> set capabilities then ComputerAction
      else if ShellExecute \<in> set capabilities then ShellAction
      else if FsWrite \<in> set capabilities then WriteAction
      else if TaskControl \<in> set capabilities then WriteAction
      else if PermissionRequest \<in> set capabilities then WriteAction
      else if NetworkSearch \<in> set capabilities then NetworkAction
      else if AgentDelegate \<in> set capabilities \<or> WorkflowRun \<in> set capabilities then AgentAction
      else ReadAction)"

datatype tool_exposure = DirectExposure | DeferredExposure | ModelOnlyExposure | HiddenExposure

definition is_model_visible :: "tool_exposure \<Rightarrow> bool" where
  "is_model_visible e \<longleftrightarrow> e = DirectExposure \<or> e = ModelOnlyExposure"

datatype tool_status =
    ToolRunning | ToolCompleted | ToolFailed | ToolDenied | ToolNotImplemented | ToolCancelled
  | ToolIndeterminate

datatype tool_result_kind =
    SuccessResult | RunningResult | EmptyResult | NoMatchesResult | TruncatedResult | PermissionDeniedResult
  | InvalidInputResult | RuntimeErrorResult | CancelledResult | IndeterminateResult

fun result_status :: "tool_result_kind \<Rightarrow> tool_status" where
  "result_status SuccessResult = ToolCompleted"
| "result_status EmptyResult = ToolCompleted"
| "result_status NoMatchesResult = ToolCompleted"
| "result_status TruncatedResult = ToolCompleted"
| "result_status RunningResult = ToolRunning"
| "result_status PermissionDeniedResult = ToolDenied"
| "result_status InvalidInputResult = ToolFailed"
| "result_status RuntimeErrorResult = ToolFailed"
| "result_status CancelledResult = ToolCancelled"
| "result_status IndeterminateResult = ToolIndeterminate"

record tool_request =
  rq_id :: string
  rq_name :: tool_name
  rq_action :: action_kind
  rq_target :: "string option"
  rq_raw_arguments :: "string option"

subsection \<open>Properties\<close>

lemma builtin_names_parse: "list_all (\<lambda>(t, s). tool_from_str s = Some t) builtin_names"
  by code_simp

lemma builtin_names_print: "list_all (\<lambda>(t, s). tool_as_str t = s) builtin_names"
  by (simp add: builtin_names_def tool_as_str_def)

lemma builtin_aliases_canonical: "list_all (\<lambda>(s, t). t \<in> set (map fst builtin_names)) builtin_aliases"
  by (simp add: builtin_names_def builtin_aliases_def)

lemma tool_plain_cases:
  obtains (builtin) "(tool_plain s, s) \<in> set builtin_names"
    | (other_spelling) "(s, tool_plain s) \<in> set builtin_aliases"
    | (external) "tool_plain s = External s"
proof (cases "map_of (map (\<lambda>(t, s). (s, t)) builtin_names @ builtin_aliases) s")
  case None
  then have "tool_plain s = External s" unfolding tool_plain_def by (simp only: option.case)
  then show ?thesis by (rule external)
next
  case (Some t)
  then have "(s, t) \<in> set (map (\<lambda>(t, s). (s, t)) builtin_names @ builtin_aliases)" by (rule map_of_SomeD)
  moreover have "tool_plain s = t" using Some by (simp add: tool_plain_def)
  ultimately show ?thesis using builtin other_spelling by auto
qed

lemma tool_from_str_cases:
  assumes "tool_from_str s = Some t"
  obtains (exact) "tool_as_str t = s" | (other_spelling) "(s, t) \<in> set builtin_aliases"
proof (cases "starts_with s ''mcp__''")
  case True
  with assms show ?thesis using exact by (auto simp: tool_from_str_def tool_as_str_def)
next
  case False
  show ?thesis
  proof (cases "parse_namespaced_tool s")
    case None
    with False assms have t: "t = tool_plain s" by (simp add: tool_from_str_def)
    show ?thesis
      by (rule tool_plain_cases [of s])
         (use t exact other_spelling builtin_names_print in \<open>auto simp: list_all_iff tool_as_str_def\<close>)
  next
    case (Some p)
    obtain namespace name where p: "p = (namespace, name)" by (cases p)
    from Some p have "rsplit_once s ''__'' = Some (namespace, name)"
      by (auto simp: parse_namespaced_tool_def split: option.splits if_splits)
    then have "s = namespace @ ''__'' @ name" by (rule rsplit_once_Some)
    note p this
    with False Some assms show ?thesis
      using exact by (auto simp: tool_from_str_def tool_namespaced_def tool_as_str_def)
  qed
qed

text \<open>
  Tool names on the wire. Whatever string names a tool, the tool it is read as prints to a name that
  is read as the same tool, and except for the three alternative spellings of the workflow tools it
  prints to the very string it was read from.
\<close>
theorem tool_name_round_trip:
  assumes "tool_from_str s = Some t"
  shows "tool_from_str (tool_as_str t) = Some t
    \<and> (s \<notin> fst ` set builtin_aliases \<longrightarrow> tool_as_str t = s)"
  using assms
proof (cases rule: tool_from_str_cases)
  case exact
  with assms show ?thesis by simp
next
  case other_spelling
  then obtain s' where s': "(t, s') \<in> set builtin_names"
    using builtin_aliases_canonical by (auto simp: list_all_iff)
  then have "tool_as_str t = s'" "tool_from_str s' = Some t"
    using builtin_names_print builtin_names_parse by (auto simp: list_all_iff)
  with other_spelling show ?thesis by (auto intro: rev_image_eqI)
qed

theorem tool_name_round_trip_witness:
  "tool_from_str ''workflow'' = Some Workflow \<and> tool_from_str (tool_as_str Workflow) = Some Workflow"
proof -
  have "tool_from_str ''workflow'' = Some Workflow" by code_simp
  with tool_name_round_trip [OF this] show ?thesis by simp
qed

text \<open>
  What counts as reading. The action a tool needs approval for is a read exactly when it has no
  capability at all or every one of its capabilities is read-only; one capability that writes, runs, reaches the
  network, delegates or controls makes it something else.
\<close>
theorem read_action_exact:
  "caps_action_kind capabilities = ReadAction \<longleftrightarrow> capabilities = [] \<or> caps_is_read_only capabilities"
proof -
  have "caps_action_kind capabilities = ReadAction \<longleftrightarrow>
      list_all (\<lambda>c. c \<notin> {ComputerUse, ShellExecute, FsWrite, TaskControl, PermissionRequest, NetworkSearch,
        AgentDelegate, WorkflowRun}) capabilities"
    by (auto simp: caps_action_kind_def list_all_iff)
  also have "\<dots> \<longleftrightarrow> list_all (\<lambda>c. c \<in> {FsRead, FsList, FsSearch, GitInspect, TaskRead, PlanUpdate, GoalUpdate,
        UserInputRequest, McpResourceRead, SkillRead}) capabilities"
  proof (rule list.pred_cong [OF refl])
    fix c :: tool_capability
    show "c \<notin> {ComputerUse, ShellExecute, FsWrite, TaskControl, PermissionRequest, NetworkSearch,
        AgentDelegate, WorkflowRun} \<longleftrightarrow> c \<in> {FsRead, FsList, FsSearch, GitInspect, TaskRead, PlanUpdate,
        GoalUpdate, UserInputRequest, McpResourceRead, SkillRead}"
      by (cases c) simp_all
  qed
  finally show ?thesis by (auto simp: caps_is_read_only_def)
qed

end
