(* ===== verification/Tool_Dispatch.thy ===== *)
theory Tool_Dispatch
  imports Tool_Types
begin

text \<open>
  How the tool calls of one model answer are dispatched:
  \<^verbatim>\<open>crates/orca-runtime/src/runtime_tool_scheduler.rs\<close>, the cursor of
  \<^verbatim>\<open>crates/orca-runtime/src/step_context.rs\<close>, the batches of \<^verbatim>\<open>runtime_readonly_tool_turn.rs\<close>,
  \<^verbatim>\<open>subagent_execution.rs\<close> and \<^verbatim>\<open>crates/orca-tools/src/lib.rs\<close>, and the capacity limits of
  \<^verbatim>\<open>crates/orca-core/src/subagent_config.rs\<close>. Parameters: \<open>registered\<close>, what the tool registry
  holds for a name (capabilities, the concurrency flag of the specification and of the tool for that
  request), and \<open>field\<close>, a string field of the JSON arguments of a request.
\<close>

subsection \<open>Limits and configuration\<close>

record subagent_limits =
  sl_max_running :: nat
  sl_max_queued :: nat
  sl_max_live_tasks :: nat

definition limits_default :: subagent_limits where
  "limits_default = \<lparr>sl_max_running = 32, sl_max_queued = 256, sl_max_live_tasks = 512\<rparr>"

definition limits_normalized :: "subagent_limits \<Rightarrow> subagent_limits" where
  "limits_normalized l =
     \<lparr>sl_max_running = max (sl_max_running l) 1, sl_max_queued = max (sl_max_queued l) 1,
      sl_max_live_tasks = max (sl_max_live_tasks l) 1\<rparr>"

text \<open>The fields of \<^verbatim>\<open>RunConfig\<close> the scheduler reads.\<close>

record dispatch_config =
  dc_max_depth :: nat
  dc_limits :: subagent_limits
  dc_max_cost_usd_micros :: "nat option"
  dc_max_read_parallel :: nat

definition max_running :: "dispatch_config \<Rightarrow> nat" where
  "max_running config = sl_max_running (limits_normalized (dc_limits config))"

definition batch_window_width :: "dispatch_config \<Rightarrow> nat" where
  "batch_window_width config = max (max_running config) 1"

subsection \<open>Read-only batches\<close>

type_synonym registry = "tool_request \<Rightarrow> (tool_capability list \<times> bool \<times> bool) option"

definition runtime_owned_tool_requires_controller :: "tool_name \<Rightarrow> bool" where
  "runtime_owned_tool_requires_controller name \<longleftrightarrow>
     name \<in> {TaskList, TaskReadOutput, TaskWait, TaskStop, SubagentMessage, WorkflowReadMessages, WorkflowListTasks}"

definition tool_is_available_readonly_concurrent :: "registry \<Rightarrow> tool_request \<Rightarrow> bool" where
  "tool_is_available_readonly_concurrent registered request =
     (if runtime_owned_tool_requires_controller (rq_name request) then False
      else (case registered request of
              Some (capabilities, spec_concurrent, tool_concurrent) \<Rightarrow>
                caps_is_read_only capabilities \<and> spec_concurrent \<and> tool_concurrent
            | None \<Rightarrow> False))"

text \<open>The loop both collectors share: as far as the predicate holds, up to \<open>max_end\<close>.\<close>

function collect_while :: "(tool_request \<Rightarrow> bool) \<Rightarrow> tool_request list \<Rightarrow> nat \<Rightarrow> nat \<Rightarrow> nat" where
  "collect_while p requests max_end end_index =
     (if end_index < max_end \<and> p (requests ! end_index)
      then collect_while p requests max_end (Suc end_index) else end_index)"
  by pat_completeness auto
termination by (relation "measure (\<lambda>(_, _, m, e). m - e)") auto

declare collect_while.simps [simp del]

definition tools_collect_readonly_batch :: "registry \<Rightarrow> nat \<Rightarrow> tool_request list \<Rightarrow> nat \<Rightarrow> nat" where
  "tools_collect_readonly_batch registered max_read_parallel requests start =
     collect_while (tool_is_available_readonly_concurrent registered) requests
       (min (start + max_read_parallel) (length requests)) start"

definition is_goal_control_tool :: "tool_request \<Rightarrow> bool" where
  "is_goal_control_tool request \<longleftrightarrow> rq_name request \<in> {GetGoal, CreateGoal, UpdateGoal}"

definition should_run_readonly_batch :: "registry \<Rightarrow> nat \<Rightarrow> tool_request \<Rightarrow> bool" where
  "should_run_readonly_batch registered max_read_parallel request \<longleftrightarrow>
     \<not> is_goal_control_tool request
     \<and> tool_is_available_readonly_concurrent registered request \<and> max_read_parallel > 1"

fun position :: "('a \<Rightarrow> bool) \<Rightarrow> 'a list \<Rightarrow> nat option" where
  "position p [] = None"
| "position p (x # xs) = (if p x then Some 0 else map_option Suc (position p xs))"

definition collect_readonly_batch :: "registry \<Rightarrow> nat \<Rightarrow> tool_request list \<Rightarrow> nat \<Rightarrow> nat" where
  "collect_readonly_batch registered max_read_parallel requests start =
     (let end_index = tools_collect_readonly_batch registered max_read_parallel requests start
      in case position is_goal_control_tool (drop start (take end_index requests)) of
           Some offset \<Rightarrow> start + offset
         | None \<Rightarrow> end_index)"

subsection \<open>Subagent batches\<close>

definition is_batchable_subagent_request :: "(tool_request \<Rightarrow> string \<Rightarrow> string option) \<Rightarrow> tool_request \<Rightarrow> bool" where
  "is_batchable_subagent_request field request \<longleftrightarrow>
     rq_name request = Subagent
     \<and> field request ''mode'' = Some ''sync'' \<and> field request ''isolation'' \<noteq> Some ''worktree''"

definition should_run_subagent_batch ::
    "(tool_request \<Rightarrow> string \<Rightarrow> string option) \<Rightarrow> dispatch_config \<Rightarrow> tool_request \<Rightarrow> nat \<Rightarrow> bool" where
  "should_run_subagent_batch field config request subagent_depth \<longleftrightarrow>
     rq_name request = Subagent
     \<and> subagent_depth < dc_max_depth config
     \<and> batch_window_width config > 1
     \<and> dc_max_cost_usd_micros config = None
     \<and> is_batchable_subagent_request field request"

definition collect_subagent_batch ::
    "(tool_request \<Rightarrow> string \<Rightarrow> string option) \<Rightarrow> dispatch_config \<Rightarrow> tool_request list \<Rightarrow> nat \<Rightarrow> nat" where
  "collect_subagent_batch field config requests start =
     collect_while (is_batchable_subagent_request field) requests
       (min (start + batch_window_width config) (length requests)) start"

subsection \<open>The cursor and the scheduler\<close>

definition current_tool_request :: "nat \<Rightarrow> tool_request list \<Rightarrow> tool_request option" where
  "current_tool_request cursor requests = (if cursor < length requests then Some (requests ! cursor) else None)"

definition advance_tool_cursor_to :: "nat \<Rightarrow> nat \<Rightarrow> nat" where
  "advance_tool_cursor_to next_index tool_request_count = min next_index tool_request_count"

definition advance_tool_cursor_one :: "nat \<Rightarrow> nat \<Rightarrow> nat" where
  "advance_tool_cursor_one cursor tool_request_count =
     advance_tool_cursor_to (sat_add usize_max cursor 1) tool_request_count"

record dispatch_window =
  dw_tool_requests :: "tool_request list"
  dw_end_index :: nat

definition tool_dispatch_window ::
    "nat \<Rightarrow> tool_request list \<Rightarrow> (tool_request list \<Rightarrow> nat \<Rightarrow> nat) \<Rightarrow> dispatch_window" where
  "tool_dispatch_window cursor requests collect_end =
     (let start_index = min cursor (length requests);
          minimum_end_index = min (sat_add usize_max start_index 1) (length requests);
          end_index = max (min (collect_end requests start_index) (length requests)) minimum_end_index
      in \<lparr>dw_tool_requests = drop start_index (take end_index requests), dw_end_index = end_index\<rparr>)"

datatype tool_dispatch =
    NormalDispatch tool_request
  | ReadonlyBatch dispatch_window
  | SubagentBatch dispatch_window

definition next_dispatch ::
    "registry \<Rightarrow> (tool_request \<Rightarrow> string \<Rightarrow> string option) \<Rightarrow> dispatch_config \<Rightarrow> nat \<Rightarrow> nat
     \<Rightarrow> tool_request list \<Rightarrow> tool_dispatch option" where
  "next_dispatch registered field config subagent_depth cursor requests =
     (case current_tool_request cursor requests of
        None \<Rightarrow> None
      | Some current \<Rightarrow>
          if should_run_subagent_batch field config current subagent_depth
          then Some (SubagentBatch (tool_dispatch_window cursor requests (collect_subagent_batch field config)))
          else if should_run_readonly_batch registered (dc_max_read_parallel config) current
          then Some (ReadonlyBatch (tool_dispatch_window cursor requests
                       (collect_readonly_batch registered (dc_max_read_parallel config))))
          else Some (NormalDispatch current))"

subsection \<open>Windows\<close>

lemma collect_while_bounds:
  "start \<le> max_end \<Longrightarrow> start \<le> collect_while p requests max_end start \<and> collect_while p requests max_end start \<le> max_end
   \<and> (\<forall>i. start \<le> i \<and> i < collect_while p requests max_end start \<longrightarrow> p (requests ! i))"
proof (induction p requests max_end start rule: collect_while.induct)
  case (1 p requests max_end start)
  show ?case
  proof (cases "start < max_end \<and> p (requests ! start)")
    case True
    with 1 have ih: "Suc start \<le> collect_while p requests max_end (Suc start)"
        "collect_while p requests max_end (Suc start) \<le> max_end"
        "\<forall>i. Suc start \<le> i \<and> i < collect_while p requests max_end (Suc start) \<longrightarrow> p (requests ! i)"
      by simp_all
    have "p (requests ! i)" if "start \<le> i" "i < collect_while p requests max_end (Suc start)" for i
      using that True ih(3) by (cases "i = start") auto
    with True ih show ?thesis by (subst (1 2 3) collect_while.simps) auto
  next
    case False
    with 1(2) show ?thesis by (subst (1 2 3) collect_while.simps) auto
  qed
qed

lemma position_Some: "position p xs = Some n \<Longrightarrow> n < length xs \<and> p (xs ! n) \<and> (\<forall>i<n. \<not> p (xs ! i))"
  by (induction xs arbitrary: n) (auto simp: less_Suc_eq_0_disj nth_Cons' split: if_splits)

lemma position_None: "position p xs = None \<longleftrightarrow> (\<forall>x\<in>set xs. \<not> p x)"
  by (induction xs) auto

text \<open>What a collector promises about the window it ends.\<close>

definition collects :: "(tool_request list \<Rightarrow> nat \<Rightarrow> nat) \<Rightarrow> (tool_request \<Rightarrow> bool) \<Rightarrow> nat \<Rightarrow> bool" where
  "collects collect_end p width \<longleftrightarrow>
     (\<forall>requests start. start < length requests \<longrightarrow>
        start \<le> collect_end requests start \<and> collect_end requests start \<le> min (start + width) (length requests)
        \<and> (\<forall>i. start \<le> i \<and> i < collect_end requests start \<longrightarrow> p (requests ! i)))"

lemma collects_while: "collects (\<lambda>requests start. collect_while p requests (min (start + width) (length requests)) start) p width"
  unfolding collects_def by (intro allI impI collect_while_bounds) simp

lemma collects_subagents:
  "collects (collect_subagent_batch field config) (is_batchable_subagent_request field) (batch_window_width config)"
  unfolding collect_subagent_batch_def [abs_def] by (rule collects_while)

lemma collects_readonly:
  "collects (collect_readonly_batch registered width)
     (\<lambda>r. tool_is_available_readonly_concurrent registered r \<and> \<not> is_goal_control_tool r) width"
  unfolding collects_def
proof (intro allI impI)
  fix requests :: "tool_request list" and start
  assume start: "start < length requests"
  let ?e = "tools_collect_readonly_batch registered width requests start"
  have e: "start \<le> ?e" "?e \<le> min (start + width) (length requests)"
      "\<forall>i. start \<le> i \<and> i < ?e \<longrightarrow> tool_is_available_readonly_concurrent registered (requests ! i)"
    using start collects_while [of "tool_is_available_readonly_concurrent registered" width]
    unfolding collects_def tools_collect_readonly_batch_def by blast+
  let ?w = "drop start (take ?e requests)"
  have w: "?w ! i = requests ! (start + i)" if "start + i < ?e" for i using that e(2) by simp
  show "start \<le> collect_readonly_batch registered width requests start
    \<and> collect_readonly_batch registered width requests start \<le> min (start + width) (length requests)
    \<and> (\<forall>i. start \<le> i \<and> i < collect_readonly_batch registered width requests start \<longrightarrow>
         tool_is_available_readonly_concurrent registered (requests ! i) \<and> \<not> is_goal_control_tool (requests ! i))"
  proof (cases "position is_goal_control_tool ?w")
    case None
    have "\<not> is_goal_control_tool (requests ! i)" if "start \<le> i" "i < ?e" for i
    proof -
      have "?w ! (i - start) = requests ! i" using that w [of "i - start"] by simp
      moreover have "i - start < length ?w" using that e(2) by auto
      ultimately show ?thesis using None by (metis nth_mem position_None)
    qed
    with None e show ?thesis by (simp add: collect_readonly_batch_def Let_def)
  next
    case (Some n)
    from position_Some [OF Some] e(2) have n: "start + n < ?e" "\<forall>i<n. \<not> is_goal_control_tool (?w ! i)" by auto
    have "\<not> is_goal_control_tool (requests ! i)" if "start \<le> i" "i < start + n" for i
      using that n w [of "i - start"] by (metis add_diff_inverse_nat less_diff_conv2 not_less order.strict_trans add.commute)
    with Some e n show ?thesis by (simp add: collect_readonly_batch_def Let_def)
  qed
qed

lemma dispatch_window_spec:
  assumes "collects collect_end p width" "cursor < length requests" "length requests \<le> usize_max"
    "p (requests ! cursor)" "0 < width"
  defines "w \<equiv> tool_dispatch_window cursor requests collect_end"
  shows "cursor < dw_end_index w \<and> dw_end_index w \<le> length requests
    \<and> dw_tool_requests w = drop cursor (take (dw_end_index w) requests)
    \<and> length (dw_tool_requests w) \<le> width \<and> list_all p (dw_tool_requests w)"
proof -
  let ?c = "collect_end requests cursor"
  from assms(1,2) have c: "cursor \<le> ?c" "?c \<le> cursor + width" "?c \<le> length requests"
      "\<forall>i. cursor \<le> i \<and> i < ?c \<longrightarrow> p (requests ! i)"
    by (auto simp: collects_def)
  have e: "dw_end_index w = max ?c (Suc cursor)"
    using assms(2,3) c(3) by (simp add: w_def tool_dispatch_window_def Let_def sat_add_def min_absorb1 min_absorb2)
  have reqs: "dw_tool_requests w = drop cursor (take (dw_end_index w) requests)"
    using assms(2) by (simp add: w_def tool_dispatch_window_def Let_def)
  have "p (dw_tool_requests w ! i)" if "i < length (dw_tool_requests w)" for i
    using that c assms(2,4) by (cases "cursor + i < ?c") (auto simp: reqs e max_def split: if_splits)
  then have "list_all p (dw_tool_requests w)" by (simp add: list_all_length)
  moreover have "length (dw_tool_requests w) \<le> width" using c assms(5) by (auto simp: reqs e max_def)
  ultimately show ?thesis using e c assms(2) reqs by (auto simp: max_def)
qed

subsection \<open>Dispatching a whole answer\<close>

fun dispatched :: "tool_dispatch \<Rightarrow> tool_request list" where
  "dispatched (NormalDispatch r) = [r]"
| "dispatched (ReadonlyBatch w) = dw_tool_requests w"
| "dispatched (SubagentBatch w) = dw_tool_requests w"

fun advanced :: "tool_dispatch \<Rightarrow> nat \<Rightarrow> nat \<Rightarrow> nat" where
  "advanced (NormalDispatch _) cursor n = advance_tool_cursor_one cursor n"
| "advanced (ReadonlyBatch w) cursor n = dw_end_index w"
| "advanced (SubagentBatch w) cursor n = dw_end_index w"

text \<open>The loop over one answer: dispatch, advance the cursor as its branch does, and again.\<close>

fun dispatch_run ::
    "registry \<Rightarrow> (tool_request \<Rightarrow> string \<Rightarrow> string option) \<Rightarrow> dispatch_config \<Rightarrow> nat
     \<Rightarrow> nat \<Rightarrow> nat \<Rightarrow> tool_request list \<Rightarrow> tool_dispatch list option" where
  "dispatch_run registered field config depth 0 cursor requests = None"
| "dispatch_run registered field config depth (Suc fuel) cursor requests =
     (case next_dispatch registered field config depth cursor requests of
        None \<Rightarrow> Some []
      | Some d \<Rightarrow>
          map_option ((#) d)
            (dispatch_run registered field config depth fuel (advanced d cursor (length requests)) requests))"

definition dispatch_ok ::
    "registry \<Rightarrow> (tool_request \<Rightarrow> string \<Rightarrow> string option) \<Rightarrow> dispatch_config \<Rightarrow> tool_dispatch \<Rightarrow> bool" where
  "dispatch_ok registered field config d =
     (case d of
        NormalDispatch _ \<Rightarrow> True
      | ReadonlyBatch w \<Rightarrow>
          list_all (\<lambda>r. tool_is_available_readonly_concurrent registered r \<and> \<not> is_goal_control_tool r)
            (dw_tool_requests w)
          \<and> length (dw_tool_requests w) \<le> dc_max_read_parallel config
      | SubagentBatch w \<Rightarrow>
          list_all (is_batchable_subagent_request field) (dw_tool_requests w)
          \<and> length (dw_tool_requests w) \<le> max_running config)"

lemma next_dispatch_spec:
  assumes "cursor < length requests" "length requests \<le> usize_max"
  shows "\<exists>d. next_dispatch registered field config depth cursor requests = Some d
    \<and> (let e = advanced d cursor (length requests) in
         cursor < e \<and> e \<le> length requests \<and> dispatched d = drop cursor (take e requests))
    \<and> dispatch_ok registered field config d"
proof -
  have width: "max_running config = batch_window_width config"
    by (simp add: batch_window_width_def max_running_def limits_normalized_def)
  show ?thesis
  proof (cases "should_run_subagent_batch field config (requests ! cursor) depth")
    case True
    then have "is_batchable_subagent_request field (requests ! cursor)" "0 < batch_window_width config"
      by (simp_all add: should_run_subagent_batch_def)
    from dispatch_window_spec [OF collects_subagents assms this] True assms(1) width
    show ?thesis by (auto simp: next_dispatch_def current_tool_request_def dispatch_ok_def Let_def simp del: drop_take)
  next
    case False
    show ?thesis
    proof (cases "should_run_readonly_batch registered (dc_max_read_parallel config) (requests ! cursor)")
      case True
      then have "tool_is_available_readonly_concurrent registered (requests ! cursor)
          \<and> \<not> is_goal_control_tool (requests ! cursor)" "0 < dc_max_read_parallel config"
        by (simp_all add: should_run_readonly_batch_def)
      from dispatch_window_spec [OF collects_readonly assms this] True False assms(1)
      show ?thesis by (auto simp: next_dispatch_def current_tool_request_def dispatch_ok_def Let_def simp del: drop_take)
    next
      case no: False
      have "drop cursor (take (Suc cursor) requests) = [requests ! cursor]"
        using assms(1) by (simp add: take_Suc_conv_app_nth)
      with False no assms show ?thesis
        by (simp add: next_dispatch_def current_tool_request_def dispatch_ok_def Let_def
            advance_tool_cursor_one_def advance_tool_cursor_to_def sat_add_def)
    qed
  qed
qed

lemma dispatch_run_spec:
  "length requests \<le> usize_max \<Longrightarrow> cursor \<le> length requests \<Longrightarrow> length requests - cursor < fuel \<Longrightarrow>
   \<exists>ds. dispatch_run registered field config depth fuel cursor requests = Some ds
     \<and> concat (map dispatched ds) = drop cursor requests
     \<and> list_all (dispatch_ok registered field config) ds \<and> list_all (\<lambda>d. dispatched d \<noteq> []) ds"
proof (induction fuel arbitrary: cursor)
  case (Suc fuel)
  show ?case
  proof (cases "cursor < length requests")
    case False
    with Suc.prems show ?thesis by (simp add: next_dispatch_def current_tool_request_def)
  next
    case True
    from next_dispatch_spec [OF True Suc.prems(1), of registered field config depth] obtain d e where d:
        "next_dispatch registered field config depth cursor requests = Some d"
        "e = advanced d cursor (length requests)" "cursor < e" "e \<le> length requests"
        "dispatched d = drop cursor (take e requests)" "dispatch_ok registered field config d"
      by (auto simp: Let_def)
    have "length requests - e < fuel" using d(3,4) Suc.prems(3) by auto
    from Suc.IH [OF Suc.prems(1) d(4) this] obtain ds where ds:
        "dispatch_run registered field config depth fuel e requests = Some ds"
        "concat (map dispatched ds) = drop e requests" "list_all (dispatch_ok registered field config) ds"
        "list_all (\<lambda>d. dispatched d \<noteq> []) ds"
      by blast
    have "drop cursor (take e requests) @ drop e requests = drop cursor requests"
      using d(3) by (metis append_take_drop_id drop_append drop_take length_take less_imp_le_nat d(4) min.absorb2
          diff_is_0_eq' drop0)
    with d ds show ?thesis by auto
  qed
qed simp

subsection \<open>Properties\<close>


definition sample_request :: "string \<Rightarrow> tool_name \<Rightarrow> tool_request" where
  "sample_request i n = \<lparr>rq_id = i, rq_name = n, rq_action = ReadAction, rq_target = None, rq_raw_arguments = None\<rparr>"


end
