(* ===== verification/Mentions.thy ===== *)
theory Mentions
  imports Contracts Rust_Utf8
begin

text \<open>
  The bindings of \<^verbatim>\<open>@\<close> and \<^verbatim>\<open>$\<close> mentions to their targets while the text around them is edited:
  \<^verbatim>\<open>MentionBindings\<close> and \<^verbatim>\<open>changed_range\<close> of \<^verbatim>\<open>crates/orca-runtime/src/mentions.rs\<close>. Positions
  are byte offsets.
\<close>

subsection \<open>Data\<close>

datatype mention_file_kind = FileKind | DirectoryKind

datatype mention_target =
    FileTarget string string mention_file_kind
  | SkillTarget string string
  | PluginTarget string string
  | ResourceTarget string string
  | ResourceTemplateTarget string string

record mention_binding =
  mb_start :: nat
  mb_end :: nat
  mb_visible :: string
  mb_target :: mention_target

record mention_bindings =
  mt_text :: string
  mt_bindings :: "mention_binding list"

record mention_edit =
  me_text :: string
  me_cursor :: nat
  me_replacement_start :: nat
  me_replacement_end :: nat

subsection \<open>Positions in a string\<close>

definition slice :: "string \<Rightarrow> nat \<Rightarrow> nat \<Rightarrow> string" where
  "slice s a b = take (b - a) (drop a s)"

fun common_bytes :: "string \<Rightarrow> string \<Rightarrow> nat" where
  "common_bytes (x # xs) (y # ys) = (if x = y then Suc (common_bytes xs ys) else 0)"
| "common_bytes _ _ = 0"

fun back_to_boundary :: "string \<Rightarrow> string \<Rightarrow> nat \<Rightarrow> nat" where
  "back_to_boundary previous next 0 = 0"
| "back_to_boundary previous next (Suc p) =
     (if is_char_boundary previous (Suc p) \<and> is_char_boundary next (Suc p) then Suc p
      else back_to_boundary previous next p)"

text \<open>
  The forward loop moves both ends at once. Its second test only makes the recursion well-founded:
  at both ends both positions are boundaries.
\<close>

function ahead_to_boundary :: "string \<Rightarrow> string \<Rightarrow> nat \<Rightarrow> nat \<Rightarrow> nat \<times> nat" where
  "ahead_to_boundary previous next old_end new_end =
     (if is_char_boundary previous old_end \<and> is_char_boundary next new_end then (old_end, new_end)
      else if old_end \<ge> length previous \<and> new_end \<ge> length next then (old_end, new_end)
      else ahead_to_boundary previous next (min (old_end + 1) (length previous))
             (min (new_end + 1) (length next)))"
  by pat_completeness auto

termination
  by (relation "measure (\<lambda>(previous, next, old_end, new_end).
        (length previous - old_end) + (length next - new_end))") auto

declare ahead_to_boundary.simps [simp del]

definition changed_range :: "string \<Rightarrow> string \<Rightarrow> nat \<times> nat \<times> nat" where
  "changed_range previous next =
     (let prefix = back_to_boundary previous next (common_bytes previous next);
          suffix = common_bytes (rev (drop prefix previous)) (rev (drop prefix next));
          (old_end, new_end) =
            ahead_to_boundary previous next (length previous - suffix) (length next - suffix)
      in (prefix, old_end, new_end))"

subsection \<open>Operations\<close>

definition bindings_new :: "string \<Rightarrow> mention_bindings" where
  "bindings_new text = \<lparr>mt_text = text, mt_bindings = []\<rparr>"

definition binding_valid :: "string \<Rightarrow> mention_binding \<Rightarrow> bool" where
  "binding_valid text b \<longleftrightarrow>
     mb_start b < mb_end b \<and> mb_end b \<le> length text
     \<and> is_char_boundary text (mb_start b) \<and> is_char_boundary text (mb_end b)
     \<and> slice text (mb_start b) (mb_end b) = mb_visible b"

fun drop_overlaps :: "nat \<Rightarrow> mention_binding list \<Rightarrow> mention_binding list" where
  "drop_overlaps previous_end [] = []"
| "drop_overlaps previous_end (b # bs) =
     (if mb_start b < previous_end then drop_overlaps previous_end bs
      else b # drop_overlaps (mb_end b) bs)"

definition retain_valid :: "mention_bindings \<Rightarrow> mention_bindings" where
  "retain_valid m =
     m\<lparr>mt_bindings :=
         drop_overlaps 0 (sort_key mb_start (filter (binding_valid (mt_text m)) (mt_bindings m)))\<rparr>"

definition from_bindings :: "string \<Rightarrow> mention_binding list \<Rightarrow> mention_bindings" where
  "from_bindings text bs = retain_valid \<lparr>mt_text = text, mt_bindings = bs\<rparr>"

definition bindings_clear :: "mention_bindings \<Rightarrow> mention_bindings" where
  "bindings_clear m = \<lparr>mt_text = [], mt_bindings = []\<rparr>"

text \<open>\<^verbatim>\<open>usize::saturating_add_signed\<close>.\<close>

definition add_signed :: "nat \<Rightarrow> int \<Rightarrow> nat" where
  "add_signed n delta = min usize_max (nat (int n + delta))"

definition reconcile_binding ::
    "nat \<Rightarrow> nat \<Rightarrow> int \<Rightarrow> mention_binding \<Rightarrow> mention_binding option" where
  "reconcile_binding old_start old_end delta b =
     (if old_end \<le> mb_start b
      then Some (b\<lparr>mb_start := add_signed (mb_start b) delta, mb_end := add_signed (mb_end b) delta\<rparr>)
      else if old_start \<ge> mb_end b then Some b
      else None)"

definition reconcile :: "string \<Rightarrow> mention_bindings \<Rightarrow> mention_bindings" where
  "reconcile next m =
     (if mt_text m = next then m
      else
        (let (old_start, old_end, new_end) = changed_range (mt_text m) next;
             removed = old_end - old_start;
             inserted = new_end - old_start;
             delta = int inserted - int removed
         in retain_valid
              \<lparr>mt_text = next,
               mt_bindings = List.map_filter (reconcile_binding old_start old_end delta) (mt_bindings m)\<rparr>))"

text \<open>The slice of the edit panics off a character boundary or past the end: None.\<close>

definition apply_selection ::
    "string \<Rightarrow> mention_edit \<Rightarrow> mention_target \<Rightarrow> mention_bindings \<Rightarrow> mention_bindings option" where
  "apply_selection previous edit target m =
     (let m = reconcile (me_text edit) (reconcile previous m);
          a = me_replacement_start edit; b = me_replacement_end edit
      in if a \<le> b \<and> b \<le> length (me_text edit) \<and> is_char_boundary (me_text edit) a
            \<and> is_char_boundary (me_text edit) b
         then Some (retain_valid
                (m\<lparr>mt_bindings := sort_key mb_start (mt_bindings m @
                     [\<lparr>mb_start = a, mb_end = b, mb_visible = slice (me_text edit) a b, mb_target = target\<rparr>])\<rparr>))
         else None)"

subsection \<open>Well-formed bindings\<close>

definition bindings_ok :: "mention_bindings \<Rightarrow> bool" where
  "bindings_ok m \<longleftrightarrow>
     list_all (binding_valid (mt_text m)) (mt_bindings m)
     \<and> sorted_wrt (\<lambda>a b. mb_end a \<le> mb_start b) (mt_bindings m)"

lemma drop_overlaps_sub: "set (drop_overlaps e bs) \<subseteq> set bs"
  by (induction e bs rule: drop_overlaps.induct) auto

lemma drop_overlaps_sorted:
  assumes "\<forall>b \<in> set bs. mb_start b < mb_end b"
  shows "sorted_wrt (\<lambda>a b. mb_end a \<le> mb_start b) (drop_overlaps e bs)
    \<and> (\<forall>b \<in> set (drop_overlaps e bs). e \<le> mb_start b)"
  using assms
proof (induction e bs rule: drop_overlaps.induct)
  case (2 e b bs)
  show ?case
  proof (cases "mb_start b < e")
    case True
    with 2 show ?thesis by simp
  next
    case False
    with 2 have rest: "sorted_wrt (\<lambda>a b. mb_end a \<le> mb_start b) (drop_overlaps (mb_end b) bs)"
      "\<forall>c \<in> set (drop_overlaps (mb_end b) bs). mb_end b \<le> mb_start c" "mb_start b < mb_end b"
      by simp_all
    with False show ?thesis by (auto dest!: bspec)
  qed
qed simp

lemma drop_overlaps_id:
  assumes "sorted_wrt (\<lambda>a b. mb_end a \<le> mb_start b) bs" "\<forall>b \<in> set bs. e \<le> mb_start b"
  shows "drop_overlaps e bs = bs"
  using assms by (induction e bs rule: drop_overlaps.induct) auto

lemma retain_valid_ok: "bindings_ok (retain_valid m)"
proof -
  let ?bs = "sort_key mb_start (filter (binding_valid (mt_text m)) (mt_bindings m))"
  have valid: "\<forall>b \<in> set ?bs. binding_valid (mt_text m) b" by simp
  then have "\<forall>b \<in> set ?bs. mb_start b < mb_end b" by (auto simp: binding_valid_def)
  with valid drop_overlaps_sorted [of ?bs 0] drop_overlaps_sub [of 0 ?bs] show ?thesis
    by (auto simp: bindings_ok_def retain_valid_def list_all_iff)
qed

text \<open>On well-formed bindings the validation changes nothing.\<close>

lemma retain_valid_id:
  assumes "bindings_ok m"
  shows "retain_valid m = m"
proof -
  have valid: "\<forall>b \<in> set (mt_bindings m). binding_valid (mt_text m) b"
    and sep: "sorted_wrt (\<lambda>a b. mb_end a \<le> mb_start b) (mt_bindings m)"
    using assms by (auto simp: bindings_ok_def list_all_iff)
  have "sorted (map mb_start (mt_bindings m))"
    unfolding sorted_map
    by (rule sorted_wrt_mono_rel [OF _ sep]) (use valid in \<open>auto simp: binding_valid_def\<close>)
  then have "sort_key mb_start (mt_bindings m) = mt_bindings m" by (rule sort_key_id_if_sorted)
  with valid sep show ?thesis
    by (simp add: retain_valid_def filter_id_conv [THEN iffD2] drop_overlaps_id)
qed

subsection \<open>The changed range\<close>

lemma common_bytes_take:
  "take (common_bytes xs ys) xs = take (common_bytes xs ys) ys
   \<and> common_bytes xs ys \<le> length xs \<and> common_bytes xs ys \<le> length ys"
  by (induction xs ys rule: common_bytes.induct) auto

lemma back_to_boundary_le: "back_to_boundary previous new p \<le> p"
  by (induction p) auto

lemma back_to_boundary_ok:
  "is_char_boundary previous (back_to_boundary previous new p)
   \<and> is_char_boundary new (back_to_boundary previous new p)"
  by (induction p) (auto simp: is_char_boundary_def)

lemma drop_step:
  assumes "drop i xs = drop j ys" "i < length xs"
  shows "drop (i + 1) xs = drop (j + 1) ys"
  using assms by (metis Suc_eq_plus1 drop_Suc tl_drop)

lemma ahead_to_boundary_ok:
  assumes "ahead_to_boundary previous new i j = (i', j')"
    and "i \<le> length previous" "j \<le> length new" "drop i previous = drop j new"
  shows "i \<le> i' \<and> j \<le> j' \<and> i' \<le> length previous \<and> j' \<le> length new
    \<and> drop i' previous = drop j' new \<and> is_char_boundary previous i' \<and> is_char_boundary new j'"
  using assms
proof (induction previous new i j rule: ahead_to_boundary.induct)
  case (1 previous new i j)
  show ?case
  proof (cases "is_char_boundary previous i \<and> is_char_boundary new j")
    case True
    with "1.prems" show ?thesis by (auto simp: ahead_to_boundary.simps [of previous new i])
  next
    case False
    have len: "length previous - i = length new - j"
      using "1.prems"(4) by (metis length_drop)
    have inner: "i < length previous" "j < length new"
      using False len "1.prems"(2,3) by (auto simp: is_char_boundary_def)
    with False "1.prems" have "ahead_to_boundary previous new (i + 1) (j + 1) = (i', j')"
      by (auto simp: ahead_to_boundary.simps [of previous new i j] min_def split: if_splits)
    moreover have "drop (i + 1) previous = drop (j + 1) new"
      using "1.prems"(4) inner by (intro drop_step) auto
    ultimately show ?thesis using "1.IH" [OF False] inner by auto
  qed
qed

lemma changed_range_parts:
  assumes "changed_range previous new = (p, oe, ne)"
  shows "take p previous = take p new \<and> drop oe previous = drop ne new
    \<and> p \<le> oe \<and> p \<le> ne \<and> oe \<le> length previous \<and> ne \<le> length new
    \<and> is_char_boundary new p \<and> is_char_boundary new ne"
proof -
  let ?c = "common_bytes previous new"
  have p: "p = back_to_boundary previous new ?c"
    using assms by (auto simp: changed_range_def Let_def split: prod.splits)
  then have "p \<le> ?c" using back_to_boundary_le by simp
  with common_bytes_take [of previous new] have prefix: "take p previous = take p new"
    and len: "p \<le> length previous" "p \<le> length new"
    by (metis min.absorb1 take_take, linarith, linarith)
  let ?k = "common_bytes (rev (drop p previous)) (rev (drop p new))"
  have k: "take ?k (rev (drop p previous)) = take ?k (rev (drop p new))"
    "?k \<le> length previous - p" "?k \<le> length new - p"
    using common_bytes_take [of "rev (drop p previous)" "rev (drop p new)"] by simp_all
  have "drop (length previous - ?k) previous = drop (length new - ?k) new"
  proof -
    have "rev (take ?k (rev (drop p previous))) = drop (length previous - p - ?k) (drop p previous)"
      "rev (take ?k (rev (drop p new))) = drop (length new - p - ?k) (drop p new)"
      by (simp_all add: rev_take)
    with k len show ?thesis by (simp add: add.commute)
  qed
  moreover have "ahead_to_boundary previous new (length previous - ?k) (length new - ?k) = (oe, ne)"
    using assms p by (auto simp: changed_range_def Let_def split: prod.splits)
  ultimately have ends: "length previous - ?k \<le> oe \<and> length new - ?k \<le> ne \<and> oe \<le> length previous
      \<and> ne \<le> length new \<and> drop oe previous = drop ne new \<and> is_char_boundary new ne"
    using ahead_to_boundary_ok by simp
  moreover have "p \<le> length previous - ?k" "p \<le> length new - ?k" using k len by linarith+
  moreover have "is_char_boundary new p" using back_to_boundary_ok p by blast
  ultimately show ?thesis using prefix by linarith
qed

subsection \<open>What reconciling keeps\<close>

lemma boundary_before:
  assumes "take p previous = take p new" "i \<le> p" "p \<le> length previous" "p \<le> length new"
    "is_char_boundary new p" "is_char_boundary previous i"
  shows "is_char_boundary new i"
proof (cases "i = p")
  case False
  with assms(2) have "i < p" by simp
  with assms(1) have "previous ! i = new ! i" by (metis nth_take)
  with \<open>i < p\<close> assms show ?thesis by (auto simp: is_char_boundary_def)
qed (use assms in simp)

lemma boundary_after:
  assumes "drop oe previous = drop ne new" "oe \<le> i" "i \<le> length previous" "ne \<le> length new"
    "is_char_boundary new ne" "is_char_boundary previous i"
  shows "is_char_boundary new (i - oe + ne)"
proof (cases "i = oe")
  case False
  have len: "length previous - oe = length new - ne" using assms(1) by (metis length_drop)
  show ?thesis
  proof (cases "i = length previous")
    case True
    with len assms(2-4) have "i - oe + ne = length new" by simp
    then show ?thesis by (simp add: is_char_boundary_def)
  next
    case less: False
    with assms(3) have i: "i < length previous" by simp
    have "previous ! i = drop oe previous ! (i - oe)" using assms(2) i by simp
    also have "\<dots> = new ! (i - oe + ne)" using assms(1,4) by (simp add: add.commute)
    finally show ?thesis using assms i len False by (auto simp: is_char_boundary_def)
  qed
qed (use assms in simp)

lemma set_map_filter: "set (List.map_filter f xs) = {y. \<exists>x \<in> set xs. f x = Some y}"
  by (induction xs) (auto simp: map_filter_simps split: option.splits)

lemma map_filter_cong: "(\<And>x. x \<in> set xs \<Longrightarrow> f x = g x) \<Longrightarrow> List.map_filter f xs = List.map_filter g xs"
  by (induction xs) (auto simp: map_filter_simps split: option.splits)

lemma map_map_filter: "map h (List.map_filter f xs) = List.map_filter (\<lambda>x. map_option h (f x)) xs"
  by (induction xs) (auto simp: map_filter_simps split: option.splits)

lemma sorted_wrt_map_filter:
  assumes "sorted_wrt P xs" "\<And>x y x' y'. P x y \<Longrightarrow> x \<in> set xs \<Longrightarrow> y \<in> set xs \<Longrightarrow> f x = Some x' \<Longrightarrow> f y = Some y' \<Longrightarrow> Q x' y'"
  shows "sorted_wrt Q (List.map_filter f xs)"
  using assms
proof (induction xs)
  case (Cons x xs)
  then have "sorted_wrt Q (List.map_filter f xs)" by simp
  moreover have "\<forall>y' \<in> set (List.map_filter f xs). f x = Some x' \<longrightarrow> Q x' y'" for x'
    using Cons.prems by (auto simp: List.map_filter_def)
  ultimately show ?case by (auto simp: map_filter_simps split: option.splits)
qed (simp add: map_filter_simps)

lemma reconcile_binding_valid:
  assumes "changed_range text new = (p, oe, ne)" "binding_valid text b" "length new \<le> usize_max"
    and "reconcile_binding p oe (int (ne - p) - int (oe - p)) b = Some b'"
  shows "binding_valid new b' \<and> mb_target b' = mb_target b \<and> mb_visible b' = mb_visible b
    \<and> (if oe \<le> mb_start b then mb_start b' = mb_start b - oe + ne \<and> mb_end b' = mb_end b - oe + ne
       else mb_end b \<le> p \<and> b' = b)"
proof -
  note parts = changed_range_parts [OF assms(1)]
  have b: "mb_start b < mb_end b" "mb_end b \<le> length text" "is_char_boundary text (mb_start b)"
    "is_char_boundary text (mb_end b)" "slice text (mb_start b) (mb_end b) = mb_visible b"
    using assms(2) by (auto simp: binding_valid_def)
  show ?thesis
  proof (cases "oe \<le> mb_start b")
    case True
    have len: "length text - oe = length new - ne" using parts by (metis length_drop)
    have shift: "add_signed i (int (ne - p) - int (oe - p)) = i - oe + ne" if "oe \<le> i" "i \<le> length text" for i
    proof -
      have "int i + (int (ne - p) - int (oe - p)) = int (i - oe + ne)" using parts that by simp
      moreover have "i - oe + ne \<le> usize_max" using len parts that assms(3) by linarith
      ultimately show ?thesis by (simp add: add_signed_def)
    qed
    have ends: "mb_start b' = mb_start b - oe + ne" "mb_end b' = mb_end b - oe + ne"
      "mb_visible b' = mb_visible b" "mb_target b' = mb_target b"
      using assms(4) True b(1,2) shift by (auto simp: reconcile_binding_def)
    have "drop (mb_start b - oe + ne) new = drop (mb_start b) text"
      using parts True by (metis add.commute drop_drop le_add_diff_inverse)
    then have "slice new (mb_start b') (mb_end b') = mb_visible b"
      using b(1,5) True ends by (simp add: slice_def)
    moreover have "is_char_boundary new (mb_start b')" "is_char_boundary new (mb_end b')"
      using boundary_after [of oe "text" ne new] parts True b ends by auto
    ultimately show ?thesis using True ends b(1,2) len parts by (auto simp: binding_valid_def)
  next
    case False
    with assms(4) have b': "b' = b" "mb_end b \<le> p" by (auto simp: reconcile_binding_def split: if_splits)
    have "take (mb_end b) new = take (mb_end b) text"
      using parts b'(2) by (metis min.absorb1 take_take)
    moreover have "slice s i j = drop i (take j s)" for s i j by (simp add: slice_def drop_take)
    ultimately have "slice new (mb_start b) (mb_end b) = mb_visible b" using b(5) by simp
    moreover have "is_char_boundary new (mb_start b)" "is_char_boundary new (mb_end b)"
      using boundary_before [of p "text" new] parts b b'(2) by auto
    ultimately show ?thesis using False b' b(1) parts by (auto simp: binding_valid_def)
  qed
qed

lemma reconcile_kept:
  assumes "bindings_ok m" "mt_text m \<noteq> new" "length new \<le> usize_max"
    and "changed_range (mt_text m) new = (p, oe, ne)"
  shows "mt_bindings (reconcile new m)
    = List.map_filter (reconcile_binding p oe (int (ne - p) - int (oe - p))) (mt_bindings m)"
proof -
  let ?f = "reconcile_binding p oe (int (ne - p) - int (oe - p))"
  note kept = reconcile_binding_valid [OF assms(4) _ assms(3)]
  have valid: "binding_valid (mt_text m) b" if "b \<in> set (mt_bindings m)" for b
    using assms(1) that by (simp add: bindings_ok_def list_all_iff)
  have "list_all (binding_valid new) (List.map_filter ?f (mt_bindings m))"
    using kept [OF valid] by (auto simp: list_all_iff set_map_filter)
  moreover have "sorted_wrt (\<lambda>a b. mb_end a \<le> mb_start b) (List.map_filter ?f (mt_bindings m))"
  proof (rule sorted_wrt_map_filter)
    show "sorted_wrt (\<lambda>a b. mb_end a \<le> mb_start b) (mt_bindings m)"
      using assms(1) by (simp add: bindings_ok_def)
    fix x y x' y'
    assume xy: "mb_end x \<le> mb_start y" "x \<in> set (mt_bindings m)" "y \<in> set (mt_bindings m)"
      "?f x = Some x'" "?f y = Some y'"
    have "mb_start x < mb_end x" "mb_start y < mb_end y" using valid xy by (auto simp: binding_valid_def)
    then show "mb_end x' \<le> mb_start y'"
      using kept [OF valid xy(4)] kept [OF valid xy(5)] xy changed_range_parts [OF assms(4)]
      by (auto split: if_splits)
  qed
  ultimately have "bindings_ok \<lparr>mt_text = new, mt_bindings = List.map_filter ?f (mt_bindings m)\<rparr>"
    by (simp add: bindings_ok_def)
  from retain_valid_id [OF this] assms(2,4) show ?thesis by (simp add: reconcile_def Let_def)
qed

subsection \<open>Properties\<close>

text \<open>
  Editing the text around mentions. After any edit every binding still covers exactly its
  visible text, on character boundaries, and the bindings are in order and disjoint. A binding
  that lies before the changed range is kept where it is, one that lies behind it is kept and
  moved by the change of length, both with the same target and visible text, and only bindings
  that the change touches are lost.
\<close>

theorem reconcile_keeps_untouched_mentions:
  assumes "bindings_ok m" "length new \<le> usize_max" "changed_range (mt_text m) new = (p, oe, ne)"
    and "mt_text m \<noteq> new"
  shows "bindings_ok (reconcile new m) \<and> mt_text (reconcile new m) = new
    \<and> map (\<lambda>b. (mb_start b, mb_end b, mb_visible b, mb_target b)) (mt_bindings (reconcile new m)) =
      List.map_filter (\<lambda>b.
        if oe \<le> mb_start b then Some (mb_start b - oe + ne, mb_end b - oe + ne, mb_visible b, mb_target b)
        else if mb_end b \<le> p then Some (mb_start b, mb_end b, mb_visible b, mb_target b)
        else None) (mt_bindings m)"
proof -
  let ?f = "reconcile_binding p oe (int (ne - p) - int (oe - p))"
  let ?g = "\<lambda>b. (mb_start b, mb_end b, mb_visible b, mb_target b)"
  have "map_option ?g (?f b) =
      (if oe \<le> mb_start b then Some (mb_start b - oe + ne, mb_end b - oe + ne, mb_visible b, mb_target b)
       else if mb_end b \<le> p then Some (?g b) else None)" if "b \<in> set (mt_bindings m)" for b
  proof (cases "?f b")
    case None
    then show ?thesis by (auto simp: reconcile_binding_def split: if_splits)
  next
    case (Some b')
    have "binding_valid (mt_text m) b" using assms(1) that by (simp add: bindings_ok_def list_all_iff)
    from reconcile_binding_valid [OF assms(3) this assms(2) Some] Some show ?thesis
      by (auto split: if_splits)
  qed
  then have "map ?g (List.map_filter ?f (mt_bindings m)) = List.map_filter (\<lambda>b.
        if oe \<le> mb_start b then Some (mb_start b - oe + ne, mb_end b - oe + ne, mb_visible b, mb_target b)
        else if mb_end b \<le> p then Some (?g b) else None) (mt_bindings m)"
    unfolding map_map_filter by (rule map_filter_cong)
  moreover have "bindings_ok (reconcile new m)" "mt_text (reconcile new m) = new"
    using assms(3,4) by (simp_all add: reconcile_def Let_def retain_valid_ok) (simp add: retain_valid_def)
  ultimately show ?thesis using reconcile_kept [OF assms(1,4,2,3)] by simp
qed

definition demo_mentions :: mention_bindings where
  "demo_mentions =
     \<lparr>mt_text = ''see @a and @b'',
      mt_bindings = [\<lparr>mb_start = 4, mb_end = 6, mb_visible = ''@a'', mb_target = SkillTarget ''a'' ''/a''\<rparr>,
                     \<lparr>mb_start = 11, mb_end = 13, mb_visible = ''@b'', mb_target = SkillTarget ''b'' ''/b''\<rparr>]\<rparr>"

theorem reconcile_keeps_untouched_mentions_witness:
  "map (\<lambda>b. (mb_start b, mb_end b)) (mt_bindings (reconcile ''see @a or @b'' demo_mentions))
   = [(4, 6), (10, 12)]"
proof -
  have "bindings_ok demo_mentions" "mt_text demo_mentions \<noteq> ''see @a or @b''"
    and r: "changed_range (mt_text demo_mentions) ''see @a or @b'' = (7, 10, 9)" by code_simp+
  moreover have "length ''see @a or @b'' \<le> usize_max" by (simp add: u64_max_def)
  ultimately have "map (\<lambda>b. (mb_start b, mb_end b, mb_visible b, mb_target b))
      (mt_bindings (reconcile ''see @a or @b'' demo_mentions))
      = [(4, 6, ''@a'', SkillTarget ''a'' ''/a''), (10, 12, ''@b'', SkillTarget ''b'' ''/b'')]"
    using reconcile_keeps_untouched_mentions [of demo_mentions "''see @a or @b''" 7 10 9]
    by (simp add: demo_mentions_def map_filter_simps)
  then have "map (\<lambda>(a, b, _). (a, b)) (map (\<lambda>b. (mb_start b, mb_end b, mb_visible b, mb_target b))
      (mt_bindings (reconcile ''see @a or @b'' demo_mentions))) = [(4, 6), (10, 12)]" by simp
  then show ?thesis by (simp add: o_def)
qed

end
