(* ===== verification/Prompt_Queue.thy ===== *)
theory Prompt_Queue
  imports Mentions "HOL-Library.Multiset"
begin

text \<open>
  The prompt queue, \<^verbatim>\<open>crates/orca-runtime/src/prompt_queue.rs\<close>: queued submissions, revisions,
  the dispatch fence and the dispatch life cycle. Identifiers are opaque strings; the two UUIDs a
  new submission gets are arguments of the operation. Every operation returns its result and the
  state it leaves.
\<close>

subsection \<open>Data\<close>

definition prompt_queue_capacity :: nat where
  "prompt_queue_capacity = 256"

datatype image_source = Base64Image string string | UrlImage string | FileImage string

datatype image_detail = LowDetail | HighDetail | OriginalDetail | AutoDetail

record image_input =
  im_source :: image_source
  im_detail :: image_detail

record prompt_queue_input =
  pi_text :: string
  pi_mention_bindings :: mention_bindings
  pi_images :: "image_input list"

definition input_text :: "string \<Rightarrow> prompt_queue_input" where
  "input_text s = \<lparr>pi_text = s, pi_mention_bindings = bindings_new s, pi_images = []\<rparr>"

record queued_submission =
  qs_id :: string
  qs_client_user_message_id :: string
  qs_input :: prompt_queue_input
  qs_created_at_unix_ms :: int
  qs_updated_at_unix_ms :: int

definition revision_next :: "nat \<Rightarrow> nat" where
  "revision_next r = sat_add u64_max r 1"

datatype queue_dispatch_fence =
    Prepared string string nat
  | Accepted string string string nat

record prompt_queue_snapshot =
  pq_revision :: nat
  pq_paused :: bool
  pq_items :: "queued_submission list"
  pq_dispatch :: "queue_dispatch_fence option"

definition running_item :: "prompt_queue_snapshot \<Rightarrow> queued_submission option" where
  "running_item q =
     (case pq_dispatch q of
        Some (Accepted i _ _ _) \<Rightarrow> find (\<lambda>item. qs_id item = i) (pq_items q)
      | _ \<Rightarrow> None)"

datatype prompt_queue_action =
    QueueList
  | QueueAdd prompt_queue_input
  | QueueUpdate nat string prompt_queue_input
  | QueueDelete nat string
  | QueueReorder nat "string list"
  | QueuePause nat
  | QueueStart nat

datatype prompt_queue_mutation_error =
    RevisionConflict prompt_queue_snapshot
  | NotFound prompt_queue_snapshot
  | CapacityExceeded prompt_queue_snapshot
  | DispatchInProgress prompt_queue_snapshot
  | InvalidInput string prompt_queue_snapshot
  | PersistenceFailed string
  | RuntimeUnavailable
  | QueuePanic string

fun mutation_error_message :: "prompt_queue_mutation_error \<Rightarrow> string" where
  "mutation_error_message (RevisionConflict q) =
     ''prompt queue revision conflict; current revision is '' @ show_nat (pq_revision q)"
| "mutation_error_message (NotFound _) = ''queued submission was not found''"
| "mutation_error_message (CapacityExceeded _) = ''prompt queue capacity exceeded''"
| "mutation_error_message (DispatchInProgress _) = ''prompt queue dispatch is in progress''"
| "mutation_error_message (InvalidInput message _) = message"
| "mutation_error_message (PersistenceFailed message) = message"
| "mutation_error_message RuntimeUnavailable = ''prompt queue runtime is unavailable''"
| "mutation_error_message (QueuePanic message) = message"

subsection \<open>Guards\<close>

definition ensure_revision ::
    "nat \<Rightarrow> prompt_queue_snapshot \<Rightarrow> (prompt_queue_mutation_error, unit) result" where
  "ensure_revision expected q = (if pq_revision q \<noteq> expected then Inl (RevisionConflict q) else Inr ())"

definition ensure_mutable ::
    "nat \<Rightarrow> prompt_queue_snapshot \<Rightarrow> (prompt_queue_mutation_error, unit) result" where
  "ensure_mutable expected q =
     try_bind (ensure_revision expected q) (\<lambda>_.
       case pq_dispatch q of
         Some (Prepared _ _ _) \<Rightarrow> Inl (DispatchInProgress q)
       | _ \<Rightarrow> Inr ())"

definition ensure_pending_mutable ::
    "nat \<Rightarrow> string \<Rightarrow> prompt_queue_snapshot \<Rightarrow> (prompt_queue_mutation_error, unit) result" where
  "ensure_pending_mutable expected i q =
     try_bind (ensure_mutable expected q) (\<lambda>_.
       let running_id = (case pq_dispatch q of Some (Accepted s _ _ _) \<Rightarrow> Some s | _ \<Rightarrow> None)
       in if is_some_and running_id (\<lambda>r. r = i) then Inl (DispatchInProgress q) else Inr ())"

definition normalized_input ::
    "prompt_queue_input \<Rightarrow> prompt_queue_snapshot \<Rightarrow> (prompt_queue_mutation_error, prompt_queue_input) result" where
  "normalized_input inp current =
     (let trimmed = trim (pi_text inp);
          inp = inp\<lparr>pi_text := trimmed, pi_mention_bindings := reconcile trimmed (pi_mention_bindings inp)\<rparr>
      in if pi_text inp = [] \<and> pi_images inp = []
         then Inl (InvalidInput ''queued input must not be blank'' current)
         else Inr inp)"

subsection \<open>Actions\<close>

definition from_snapshot :: "prompt_queue_snapshot \<Rightarrow> prompt_queue_snapshot" where
  "from_snapshot q = q\<lparr>pq_items := take prompt_queue_capacity (pq_items q)\<rparr>"

fun remove_first :: "('a \<Rightarrow> bool) \<Rightarrow> 'a list \<Rightarrow> ('a \<times> 'a list) option" where
  "remove_first p [] = None"
| "remove_first p (x # xs) =
     (if p x then Some (x, xs) else map_option (\<lambda>(y, ys). (y, x # ys)) (remove_first p xs))"

fun pick_items :: "string list \<Rightarrow> queued_submission list \<Rightarrow> queued_submission list option" where
  "pick_items [] remaining = Some []"
| "pick_items (i # ids) remaining =
     (case remove_first (\<lambda>item. qs_id item = i) remaining of
        None \<Rightarrow> None
      | Some (item, rest) \<Rightarrow> map_option ((#) item) (pick_items ids rest))"

fun update_first :: "('a \<Rightarrow> bool) \<Rightarrow> ('a \<Rightarrow> 'a) \<Rightarrow> 'a list \<Rightarrow> 'a list option" where
  "update_first p f [] = None"
| "update_first p f (x # xs) =
     (if p x then Some (f x # xs) else map_option ((#) x) (update_first p f xs))"

definition apply_action ::
    "string \<times> string \<Rightarrow> prompt_queue_action \<Rightarrow> int \<Rightarrow> prompt_queue_snapshot
     \<Rightarrow> (prompt_queue_mutation_error, prompt_queue_snapshot) result" where
  "apply_action fresh action now q =
     (case action of
        QueueList \<Rightarrow> Inr q
      | QueueAdd inp \<Rightarrow>
          try_bind (normalized_input inp q) (\<lambda>inp.
            if length (pq_items q) \<ge> prompt_queue_capacity then Inl (CapacityExceeded q)
            else Inr (q\<lparr>pq_items := pq_items q @
                   [\<lparr>qs_id = fst fresh, qs_client_user_message_id = snd fresh, qs_input = inp,
                     qs_created_at_unix_ms = now, qs_updated_at_unix_ms = now\<rparr>],
                 pq_revision := revision_next (pq_revision q)\<rparr>))
      | QueueUpdate expected i inp \<Rightarrow>
          try_bind (ensure_pending_mutable expected i q) (\<lambda>_.
          try_bind (normalized_input inp q) (\<lambda>inp.
            case update_first (\<lambda>item. qs_id item = i)
                   (\<lambda>item. item\<lparr>qs_input := inp, qs_updated_at_unix_ms := now\<rparr>) (pq_items q) of
              None \<Rightarrow> Inl (NotFound q)
            | Some items \<Rightarrow>
                Inr (q\<lparr>pq_items := items, pq_revision := revision_next (pq_revision q)\<rparr>)))
      | QueueDelete expected i \<Rightarrow>
          try_bind (ensure_pending_mutable expected i q) (\<lambda>_.
            case remove_first (\<lambda>item. qs_id item = i) (pq_items q) of
              None \<Rightarrow> Inl (NotFound q)
            | Some (_, items) \<Rightarrow>
                Inr (q\<lparr>pq_items := items, pq_revision := revision_next (pq_revision q)\<rparr>))
      | QueueReorder expected ordered_ids \<Rightarrow>
          try_bind (ensure_mutable expected q) (\<lambda>_.
            if set (map qs_id (pq_items q)) \<noteq> set ordered_ids
               \<or> length ordered_ids \<noteq> length (pq_items q)
            then Inl (InvalidInput ''reorder must contain every current queue id exactly once'' q)
            else if (case pq_dispatch q of
                       Some (Accepted s _ _ _) \<Rightarrow> ordered_ids = [] \<or> hd ordered_ids \<noteq> s
                     | _ \<Rightarrow> False)
            then Inl (DispatchInProgress q)
            else (case pick_items ordered_ids (pq_items q) of
                    None \<Rightarrow> Inl (QueuePanic ''validated queue reorder id'')
                  | Some items \<Rightarrow>
                      Inr (q\<lparr>pq_items := items, pq_revision := revision_next (pq_revision q)\<rparr>)))
      | QueuePause expected \<Rightarrow>
          try_bind (ensure_revision expected q) (\<lambda>_.
            Inr (q\<lparr>pq_paused := True, pq_revision := revision_next (pq_revision q)\<rparr>))
      | QueueStart expected \<Rightarrow>
          try_bind (ensure_revision expected q) (\<lambda>_.
            Inr (q\<lparr>pq_paused := False, pq_revision := revision_next (pq_revision q)\<rparr>)))"

text \<open>\<^verbatim>\<open>apply\<close>: an error leaves the state as it was.\<close>

definition queue_apply ::
    "string \<times> string \<Rightarrow> prompt_queue_action \<Rightarrow> int \<Rightarrow> prompt_queue_snapshot
     \<Rightarrow> (prompt_queue_mutation_error, prompt_queue_snapshot) result \<times> prompt_queue_snapshot" where
  "queue_apply fresh action now q =
     (case apply_action fresh action now q of Inl e \<Rightarrow> (Inl e, q) | Inr q' \<Rightarrow> (Inr q', q'))"

subsection \<open>Dispatch\<close>

definition prepare_dispatch ::
    "prompt_queue_snapshot \<Rightarrow> (prompt_queue_snapshot \<times> queued_submission) option \<times> prompt_queue_snapshot" where
  "prepare_dispatch q =
     (if pq_paused q \<or> pq_dispatch q \<noteq> None then (None, q)
      else (case pq_items q of
              [] \<Rightarrow> (None, q)
            | item # _ \<Rightarrow>
                (let r = revision_next (pq_revision q);
                     q' = q\<lparr>pq_revision := r,
                            pq_dispatch := Some (Prepared (qs_id item) (qs_client_user_message_id item) r)\<rparr>
                 in (Some (q', item), q'))))"

definition accept_dispatch ::
    "string \<Rightarrow> string \<Rightarrow> prompt_queue_snapshot \<Rightarrow> prompt_queue_snapshot option \<times> prompt_queue_snapshot" where
  "accept_dispatch i operation_id q =
     (case pq_items q of
        [] \<Rightarrow> (None, q)
      | item # _ \<Rightarrow>
          if qs_id item \<noteq> i then (None, q)
          else
            (let r = revision_next (pq_revision q);
                 q' = q\<lparr>pq_revision := r,
                        pq_dispatch := Some (Accepted (qs_id item) (qs_client_user_message_id item)
                                         operation_id r)\<rparr>
             in (Some q', q')))"

definition consume_accepted ::
    "prompt_queue_snapshot \<Rightarrow> prompt_queue_snapshot option \<times> prompt_queue_snapshot" where
  "consume_accepted q =
     (case pq_dispatch q of
        Some (Accepted s _ _ _) \<Rightarrow>
          (case pq_items q of
             [] \<Rightarrow> (None, q)
           | item # rest \<Rightarrow>
               if qs_id item \<noteq> s then (None, q)
               else
                 (let q' = q\<lparr>pq_items := rest, pq_revision := revision_next (pq_revision q),
                             pq_dispatch := None\<rparr>
                  in (Some q', q')))
      | _ \<Rightarrow> (None, q))"

definition rollback_dispatch :: "prompt_queue_snapshot \<Rightarrow> prompt_queue_snapshot" where
  "rollback_dispatch q = q\<lparr>pq_revision := revision_next (pq_revision q), pq_dispatch := None\<rparr>"

definition recover_dispatch ::
    "bool \<Rightarrow> prompt_queue_snapshot \<Rightarrow> prompt_queue_snapshot option \<times> prompt_queue_snapshot" where
  "recover_dispatch accepted_turn q =
     (case pq_dispatch q of
        None \<Rightarrow> (None, q)
      | Some (Prepared s _ _) \<Rightarrow>
          if accepted_turn then
            (case accept_dispatch s ''recovered'' q of
               (None, q') \<Rightarrow> (None, q')
             | (Some _, q') \<Rightarrow> consume_accepted q')
          else (let q' = rollback_dispatch q in (Some q', q'))
      | Some (Accepted _ _ _ _) \<Rightarrow> consume_accepted q)"


subsection \<open>Lists of submissions\<close>

lemma remove_first_SomeD:
  "remove_first p xs = Some (y, ys) \<Longrightarrow> p y \<and> mset xs = add_mset y (mset ys)"
  by (induction xs arbitrary: y ys) (auto split: if_splits)

lemma distinct_map_remove:
  "mset xs = add_mset y (mset ys) \<Longrightarrow> distinct (map f xs) \<Longrightarrow> distinct (map f ys)"
  by (metis distinct.simps(2) list.simps(9) mset.simps(2) mset_eq_imp_distinct_iff mset_map)

lemma remove_first_eq_None: "remove_first p xs = None \<longleftrightarrow> (\<forall>x\<in>set xs. \<not> p x)"
  by (induction xs) auto

lemma update_first_SomeD:
  "update_first p f xs = Some ys \<Longrightarrow> (\<And>x. g (f x) = g x) \<Longrightarrow> map g ys = map g xs"
  by (induction xs arbitrary: ys) (auto split: if_splits)

lemma pick_items_SomeD:
  "pick_items ids xs = Some ys \<Longrightarrow>
     map qs_id ys = ids \<and> (length ids = length xs \<longrightarrow> mset ys = mset xs)"
proof (induction ids arbitrary: xs ys)
  case Nil
  then show ?case by auto
next
  case (Cons i ids)
  then obtain y rest zs where step: "remove_first (\<lambda>item. qs_id item = i) xs = Some (y, rest)"
      "pick_items ids rest = Some zs" "ys = y # zs"
    by (auto split: option.splits)
  from remove_first_SomeD [OF step(1)] have y: "qs_id y = i" "mset xs = add_mset y (mset rest)"
    by auto
  then have "length xs = Suc (length rest)" by (metis size_add_mset size_mset)
  with Cons.IH [OF step(2)] step(3) y show ?case by auto
qed

lemma pick_items_complete:
  "mset ids \<subseteq># mset (map qs_id xs) \<Longrightarrow> pick_items ids xs \<noteq> None"
proof (induction ids arbitrary: xs)
  case (Cons i ids)
  then have "i \<in> set (map qs_id xs)"
    by (metis list.set_intros(1) mset_subset_eqD set_mset_mset)
  then obtain y rest where step: "remove_first (\<lambda>item. qs_id item = i) xs = Some (y, rest)"
    by (cases "remove_first (\<lambda>item. qs_id item = i) xs") (auto simp: remove_first_eq_None)
  from remove_first_SomeD [OF step] have "qs_id y = i" "mset xs = add_mset y (mset rest)" by auto
  with Cons.prems have "mset ids \<subseteq># mset (map qs_id rest)" by simp
  from Cons.IH [OF this] step show ?case by auto
qed simp

lemma mset_eq_iff_distinct:
  assumes "distinct ys"
  shows "mset xs = mset ys \<longleftrightarrow> set ys = set xs \<and> length xs = length ys"
proof
  assume "set ys = set xs \<and> length xs = length ys"
  then have "distinct xs" using assms
    by (metis card_distinct distinct_card)
  with assms \<open>set ys = set xs \<and> length xs = length ys\<close> show "mset xs = mset ys"
    by (metis set_eq_iff_mset_eq_distinct)
qed (auto dest: mset_eq_setD mset_eq_length)

subsection \<open>The invariant\<close>

text \<open>
  At most 256 submissions with distinct identifiers, and a fence always names the head of the
  queue, with its client message, at a revision that is not in the future.
\<close>

definition fence_ok :: "prompt_queue_snapshot \<Rightarrow> bool" where
  "fence_ok q =
     (case pq_dispatch q of
        None \<Rightarrow> True
      | Some f \<Rightarrow>
          (case pq_items q of
             [] \<Rightarrow> False
           | item # _ \<Rightarrow>
               (case f of
                  Prepared s c r \<Rightarrow>
                    s = qs_id item \<and> c = qs_client_user_message_id item \<and> r \<le> pq_revision q
                | Accepted s c _ r \<Rightarrow>
                    s = qs_id item \<and> c = qs_client_user_message_id item \<and> r \<le> pq_revision q)))"

definition queue_ok :: "prompt_queue_snapshot \<Rightarrow> bool" where
  "queue_ok q \<longleftrightarrow> length (pq_items q) \<le> prompt_queue_capacity \<and> pq_revision q \<le> u64_max
     \<and> distinct (map qs_id (pq_items q)) \<and> fence_ok q"

definition empty_queue :: prompt_queue_snapshot where
  "empty_queue = \<lparr>pq_revision = 0, pq_paused = False, pq_items = [], pq_dispatch = None\<rparr>"

definition base_revision :: "prompt_queue_action \<Rightarrow> nat option" where
  "base_revision action =
     (case action of
        QueueList \<Rightarrow> None
      | QueueAdd _ \<Rightarrow> None
      | QueueUpdate e _ _ \<Rightarrow> Some e
      | QueueDelete e _ \<Rightarrow> Some e
      | QueueReorder e _ \<Rightarrow> Some e
      | QueuePause e \<Rightarrow> Some e
      | QueueStart e \<Rightarrow> Some e)"

text \<open>Everything that can happen to a queue, in any order.\<close>

inductive queue_step :: "prompt_queue_snapshot \<Rightarrow> prompt_queue_snapshot \<Rightarrow> bool" where
  applied: "fst fresh \<notin> qs_id ` set (pq_items q) \<Longrightarrow> queue_step q (snd (queue_apply fresh action now q))"
| prepared: "queue_step q (snd (prepare_dispatch q))"
| accepted: "queue_step q (snd (accept_dispatch i operation_id q))"
| consumed: "queue_step q (snd (consume_accepted q))"
| rolled_back: "queue_step q (rollback_dispatch q)"
| recovered: "queue_step q (snd (recover_dispatch accepted_turn q))"
| reloaded: "queue_step q (from_snapshot q)"

subsection \<open>What an accepted edit is\<close>

lemma revision_next_le: "r \<le> u64_max \<Longrightarrow> r \<le> revision_next r \<and> revision_next r \<le> u64_max"
  by (simp add: revision_next_def sat_add_def)

lemma revision_next_eq: "r < u64_max \<Longrightarrow> revision_next r = Suc r"
  by (simp add: revision_next_def sat_add_def)

lemma ensure_mutable_InrD:
  "ensure_mutable e q = Inr u \<Longrightarrow> pq_revision q = e \<and> (\<forall>s c r. pq_dispatch q \<noteq> Some (Prepared s c r))"
  by (auto simp: ensure_mutable_def ensure_revision_def try_bind_def
      split: if_splits option.splits queue_dispatch_fence.splits)

lemma ensure_pending_mutable_InrD:
  "ensure_pending_mutable e i q = Inr u \<Longrightarrow>
     pq_revision q = e \<and> (\<forall>s c r. pq_dispatch q \<noteq> Some (Prepared s c r))
     \<and> (\<forall>s c oi r. pq_dispatch q = Some (Accepted s c oi r) \<longrightarrow> s \<noteq> i)"
  by (auto simp: ensure_pending_mutable_def try_bind_def is_some_and_def Let_def
      split: if_splits option.splits sum.splits queue_dispatch_fence.splits dest: ensure_mutable_InrD)

text \<open>Edits never touch the fence, nor the head of the queue while a fence names it.\<close>

lemma apply_action_fence: "apply_action fresh action now q = Inr q' \<Longrightarrow> pq_dispatch q' = pq_dispatch q"
  by (auto simp: apply_action_def Let_def split: prompt_queue_action.splits option.splits if_splits)

lemma apply_action_revision:
  "apply_action fresh action now q = Inr q' \<Longrightarrow> action \<noteq> QueueList
   \<Longrightarrow> pq_revision q' = revision_next (pq_revision q)"
  by (auto simp: apply_action_def Let_def split: prompt_queue_action.splits option.splits if_splits)

lemma apply_action_keeps_head:
  assumes ok: "fence_ok q" and fenced: "pq_dispatch q \<noteq> None"
    and edit: "apply_action fresh action now q = Inr q'"
  shows "\<exists>rest. pq_items q' = hd (pq_items q) # rest"
proof -
  from ok fenced obtain item rest where items: "pq_items q = item # rest"
    by (auto simp: fence_ok_def split: option.splits list.splits)
  show ?thesis
  proof (cases action)
    case (QueueUpdate e i inp)
    with edit obtain u inp' where guard: "ensure_pending_mutable e i q = Inr u"
        and upd: "update_first (\<lambda>item. qs_id item = i)
          (\<lambda>item. item\<lparr>qs_input := inp', qs_updated_at_unix_ms := now\<rparr>) (pq_items q) = Some (pq_items q')"
      by (auto simp: apply_action_def split: option.splits)
    from ensure_pending_mutable_InrD [OF guard] ok fenced items have "qs_id item \<noteq> i"
      by (auto simp: fence_ok_def split: queue_dispatch_fence.splits)
    with upd items show ?thesis by (auto split: if_splits) (metis)
  next
    case (QueueDelete e i)
    with edit obtain u y where guard: "ensure_pending_mutable e i q = Inr u"
        and del: "remove_first (\<lambda>item. qs_id item = i) (pq_items q) = Some (y, pq_items q')"
      by (auto simp: apply_action_def split: option.splits)
    from ensure_pending_mutable_InrD [OF guard] ok fenced items have "qs_id item \<noteq> i"
      by (auto simp: fence_ok_def split: queue_dispatch_fence.splits)
    with del items show ?thesis by (auto split: if_splits) (metis)
  next
    case (QueueReorder e ids)
    with edit obtain u where guard: "ensure_mutable e q = Inr u"
        and pick: "pick_items ids (pq_items q) = Some (pq_items q')"
        and head: "\<forall>s c oi r. pq_dispatch q = Some (Accepted s c oi r) \<longrightarrow> ids \<noteq> [] \<and> hd ids = s"
      by (auto simp: apply_action_def split: option.splits if_splits queue_dispatch_fence.splits)
    from ensure_mutable_InrD [OF guard] ok fenced head items have "\<exists>ids'. ids = qs_id item # ids'"
      by (cases ids) (auto simp: fence_ok_def split: queue_dispatch_fence.splits)
    with pick items show ?thesis by auto (metis)
  qed (use edit items in \<open>auto simp: apply_action_def split: if_splits\<close>)
qed

lemma apply_action_items:
  assumes "apply_action fresh action now q = Inr q'" "queue_ok q"
    "fst fresh \<notin> qs_id ` set (pq_items q)"
  shows "length (pq_items q') \<le> prompt_queue_capacity \<and> distinct (map qs_id (pq_items q'))"
proof (cases action)
  case (QueueUpdate e i inp)
  with assms(1) obtain inp' where upd: "update_first (\<lambda>item. qs_id item = i)
      (\<lambda>item. item\<lparr>qs_input := inp', qs_updated_at_unix_ms := now\<rparr>) (pq_items q) = Some (pq_items q')"
    by (auto simp: apply_action_def split: option.splits)
  then have "map qs_id (pq_items q') = map qs_id (pq_items q)" by (rule update_first_SomeD) simp
  with assms(2) show ?thesis by (metis length_map queue_ok_def)
next
  case (QueueDelete e i)
  with assms(1) obtain y where
    "remove_first (\<lambda>item. qs_id item = i) (pq_items q) = Some (y, pq_items q')"
    by (auto simp: apply_action_def split: option.splits)
  then have m: "mset (pq_items q) = add_mset y (mset (pq_items q'))" by (auto dest: remove_first_SomeD)
  then have "length (pq_items q) = Suc (length (pq_items q'))" by (metis size_add_mset size_mset)
  with assms(2) distinct_map_remove [OF m, of qs_id] show ?thesis by (auto simp: queue_ok_def)
next
  case (QueueReorder e ids)
  with assms(1) have pick: "pick_items ids (pq_items q) = Some (pq_items q')"
    and len: "length ids = length (pq_items q)"
    by (auto simp: apply_action_def split: option.splits if_splits)
  from pick_items_SomeD [OF pick] len have m: "mset (pq_items q') = mset (pq_items q)" by simp
  with assms(2) show ?thesis
    by (metis mset_eq_imp_distinct_iff mset_eq_length mset_map queue_ok_def)
qed (use assms in \<open>auto simp: apply_action_def queue_ok_def split: if_splits\<close>)

subsection \<open>Steps keep the invariant\<close>

lemma fence_ok_apply:
  assumes edit: "apply_action fresh action now q = Inr q'" and ok: "fence_ok q"
    and rev: "pq_revision q \<le> u64_max"
  shows "fence_ok q' \<and> pq_revision q' \<le> u64_max"
proof -
  have rev': "pq_revision q \<le> pq_revision q' \<and> pq_revision q' \<le> u64_max"
    using edit rev apply_action_revision [OF edit] revision_next_le [OF rev]
    by (cases "action = QueueList") (auto simp: apply_action_def)
  show ?thesis
  proof (cases "pq_dispatch q = None")
    case True
    with rev' apply_action_fence [OF edit] show ?thesis by (simp add: fence_ok_def)
  next
    case False
    from apply_action_keeps_head [OF ok False edit] apply_action_fence [OF edit] ok False rev'
    show ?thesis
      by (auto simp: fence_ok_def split: option.splits list.splits queue_dispatch_fence.splits)
  qed
qed

lemma queue_ok_apply:
  assumes "queue_ok q" "fst fresh \<notin> qs_id ` set (pq_items q)"
  shows "queue_ok (snd (queue_apply fresh action now q))"
proof (cases "apply_action fresh action now q")
  case (Inl e)
  with assms show ?thesis by (simp add: queue_apply_def)
next
  case (Inr q')
  from apply_action_items [OF Inr assms] fence_ok_apply [OF Inr] assms(1) Inr show ?thesis
    by (simp add: queue_apply_def queue_ok_def)
qed

lemma queue_ok_prepare: "queue_ok q \<Longrightarrow> queue_ok (snd (prepare_dispatch q))"
  by (auto simp: queue_ok_def prepare_dispatch_def fence_ok_def Let_def revision_next_def
      split: list.splits option.splits queue_dispatch_fence.splits)

lemma queue_ok_accept: "queue_ok q \<Longrightarrow> queue_ok (snd (accept_dispatch i operation_id q))"
  by (auto simp: queue_ok_def accept_dispatch_def fence_ok_def Let_def revision_next_def
      split: list.splits option.splits queue_dispatch_fence.splits)

lemma queue_ok_consume: "queue_ok q \<Longrightarrow> queue_ok (snd (consume_accepted q))"
  by (auto simp: queue_ok_def consume_accepted_def fence_ok_def Let_def revision_next_def
      split: list.splits option.splits queue_dispatch_fence.splits)

lemma queue_ok_rollback: "queue_ok q \<Longrightarrow> queue_ok (rollback_dispatch q)"
  by (auto simp: queue_ok_def rollback_dispatch_def fence_ok_def revision_next_def)

lemma queue_ok_recover: "queue_ok q \<Longrightarrow> queue_ok (snd (recover_dispatch accepted_turn q))"
  using queue_ok_accept queue_ok_consume
  by (auto simp: recover_dispatch_def Let_def queue_ok_rollback
      split: option.splits queue_dispatch_fence.splits prod.splits) (metis snd_conv)+

lemma queue_ok_reload: "queue_ok q \<Longrightarrow> from_snapshot q = q"
  by (simp add: queue_ok_def from_snapshot_def)

lemmas queue_ok_operations =
  queue_ok_apply queue_ok_prepare queue_ok_accept queue_ok_consume queue_ok_rollback queue_ok_recover

lemma queue_ok_step: "queue_step q q' \<Longrightarrow> queue_ok q \<Longrightarrow> queue_ok q'"
  by (induction rule: queue_step.induct) (simp_all add: queue_ok_operations queue_ok_reload)

lemma queue_ok_empty: "queue_ok empty_queue"
  by (simp add: queue_ok_def empty_queue_def fence_ok_def)

subsection \<open>Properties\<close>

text \<open>
  A queue that starts empty and goes through any sequence of edits, dispatch steps,
  recoveries and reloads, with a fresh identifier for every added submission, always holds at
  most 256 submissions with distinct identifiers, and a dispatch fence always names the head of
  the queue, so that an accepted dispatch has a running item and it is the head.
\<close>
theorem reachable_queues_are_ok:
  assumes "queue_step\<^sup>*\<^sup>* empty_queue q"
  shows "queue_ok q \<and> ((\<exists>i c oi r. pq_dispatch q = Some (Accepted i c oi r))
           \<longrightarrow> running_item q = Some (hd (pq_items q)))"
proof -
  from assms have "queue_ok q"
    by (induction rule: rtranclp_induct) (auto intro: queue_ok_empty queue_ok_step)
  then show ?thesis
    by (cases "pq_items q") (auto simp: queue_ok_def fence_ok_def running_item_def)
qed

definition sample_item :: "string \<Rightarrow> string \<Rightarrow> queued_submission" where
  "sample_item i t = \<lparr>qs_id = i, qs_client_user_message_id = i, qs_input = input_text t,
     qs_created_at_unix_ms = 1, qs_updated_at_unix_ms = 1\<rparr>"

definition sample_queue :: prompt_queue_snapshot where
  "sample_queue = \<lparr>pq_revision = 7, pq_paused = False,
     pq_items = [sample_item ''a'' ''go'', sample_item ''b'' ''on''], pq_dispatch = None\<rparr>"

lemma sample_queue_ok: "queue_ok sample_queue"
  by (simp add: queue_ok_def sample_queue_def sample_item_def fence_ok_def prompt_queue_capacity_def
      u64_max_def)

theorem reachable_queues_are_ok_witness:
  "queue_ok (snd (prepare_dispatch (snd (queue_apply (''a'', ''m'') (QueueAdd (input_text ''go'')) 5 empty_queue))))"
proof -
  have "queue_step\<^sup>*\<^sup>* empty_queue
      (snd (prepare_dispatch (snd (queue_apply (''a'', ''m'') (QueueAdd (input_text ''go'')) 5 empty_queue))))"
    by (rule rtranclp.rtrancl_into_rtrancl, rule r_into_rtranclp, rule applied, simp add: empty_queue_def)
       (rule prepared)
  from reachable_queues_are_ok [OF this] show ?thesis by (rule conjunct1)
qed

text \<open>
  Optimistic concurrency. Once an edit (anything but a listing) has been accepted, every edit
  that was made against the revision it replaced is refused with the current queue, which stays
  as it is: of two edits based on one revision at most one takes effect, until the revision
  counter saturates.
\<close>
theorem stale_edits_are_refused:
  assumes "queue_apply fresh action now q = (Inr r, q')" "action \<noteq> QueueList"
    "pq_revision q < u64_max" "base_revision action' = Some (pq_revision q)"
  shows "queue_apply fresh' action' now' q' = (Inl (RevisionConflict q'), q')"
proof -
  from assms(1) have "apply_action fresh action now q = Inr q'"
    by (auto simp: queue_apply_def split: sum.splits)
  then have "pq_revision q' = Suc (pq_revision q)"
    using apply_action_revision assms(2,3) by (simp add: revision_next_eq)
  with assms(4) show ?thesis
    by (cases action') (auto simp: queue_apply_def apply_action_def base_revision_def
        ensure_revision_def ensure_mutable_def ensure_pending_mutable_def)
qed

theorem stale_edits_are_refused_witness:
  "snd (queue_apply (''x'', ''y'') (QueuePause 7) 1 sample_queue) \<noteq> sample_queue
   \<and> queue_apply (''x'', ''y'') (QueueDelete 7 ''a'') 2 (snd (queue_apply (''x'', ''y'') (QueuePause 7) 1 sample_queue))
     = (Inl (RevisionConflict (snd (queue_apply (''x'', ''y'') (QueuePause 7) 1 sample_queue))),
        snd (queue_apply (''x'', ''y'') (QueuePause 7) 1 sample_queue))"
proof -
  let ?q = "sample_queue\<lparr>pq_paused := True, pq_revision := revision_next 7\<rparr>"
  have edit: "queue_apply (''x'', ''y'') (QueuePause 7) 1 sample_queue = (Inr ?q, ?q)"
    by (simp add: queue_apply_def apply_action_def ensure_revision_def sample_queue_def)
  have "pq_revision sample_queue < u64_max" by (simp add: sample_queue_def u64_max_def)
  from stale_edits_are_refused [OF edit _ this, of "QueueDelete 7 ''a''"] edit show ?thesis
    by (simp add: base_revision_def sample_queue_def)
qed

lemma edits_keep_fenced_head:
  assumes "fence_ok q" "pq_dispatch q \<noteq> None" "pq_revision q \<le> u64_max"
  shows "let q' = snd (queue_apply fresh action now q) in
           fence_ok q' \<and> pq_dispatch q' = pq_dispatch q \<and> pq_revision q' \<le> u64_max
           \<and> (\<exists>rest. pq_items q' = hd (pq_items q) # rest)"
proof (cases "apply_action fresh action now q")
  case (Inl e)
  with assms show ?thesis
    by (auto simp: queue_apply_def fence_ok_def Let_def split: option.splits list.splits)
next
  case (Inr q')
  from apply_action_keeps_head [OF assms(1,2) Inr] fence_ok_apply [OF Inr assms(1,3)]
    apply_action_fence [OF Inr] Inr
  show ?thesis by (simp add: queue_apply_def Let_def)
qed

text \<open>A client session: edits one after the other, whatever their results.\<close>

definition run_edits ::
    "((string \<times> string) \<times> prompt_queue_action \<times> int) list \<Rightarrow> prompt_queue_snapshot \<Rightarrow> prompt_queue_snapshot" where
  "run_edits es q = fold (\<lambda>(fresh, action, now) q. snd (queue_apply fresh action now q)) es q"

lemma run_edits_keep_fenced_head:
  "fence_ok q \<Longrightarrow> pq_dispatch q \<noteq> None \<Longrightarrow> pq_revision q \<le> u64_max \<Longrightarrow>
   fence_ok (run_edits es q) \<and> pq_dispatch (run_edits es q) = pq_dispatch q
   \<and> pq_revision (run_edits es q) \<le> u64_max
   \<and> (\<exists>rest. pq_items (run_edits es q) = hd (pq_items q) # rest)"
proof (induction es arbitrary: q)
  case Nil
  then show ?case
    by (auto simp: run_edits_def fence_ok_def split: option.splits list.splits)
next
  case (Cons e es)
  obtain fresh action now where e: "e = (fresh, action, now)" by (cases e) auto
  let ?q = "snd (queue_apply fresh action now q)"
  have step: "fence_ok ?q" "pq_dispatch ?q = pq_dispatch q" "pq_revision ?q \<le> u64_max"
      "hd (pq_items ?q) = hd (pq_items q)"
    using edits_keep_fenced_head [OF Cons.prems, of fresh action now] by (auto simp: Let_def)
  with Cons.IH [OF step(1)] Cons.prems e show ?case by (simp add: run_edits_def)
qed

text \<open>
  C29: dispatch is exactly once, whatever clients do meanwhile. The submission that
  \<^verbatim>\<open>prepare_dispatch\<close> hands out can be accepted after any edits, and after any further edits
  \<^verbatim>\<open>consume_accepted\<close> removes that very submission, unedited, and nothing else, and clears the fence.
\<close>
theorem dispatch_consumes_the_prepared_head:
  assumes "queue_ok q" "prepare_dispatch q = (Some (snap, item), q1)"
    and "accept_dispatch (qs_id item) operation_id (run_edits es q1) = (accepted, q2)"
    and "consume_accepted (run_edits es' q2) = (consumed, q3)"
  shows "accepted = Some q2 \<and> consumed = Some q3 \<and> pq_dispatch q3 = None
         \<and> running_item (run_edits es' q2) = Some item
         \<and> pq_items (run_edits es' q2) = item # pq_items q3"
proof -
  from assms(2) have q1: "pq_items q1 = pq_items q" "hd (pq_items q) = item"
      "pq_dispatch q1 \<noteq> None"
    by (auto simp: prepare_dispatch_def Let_def split: if_splits list.splits)
  have "queue_ok q1" using queue_ok_prepare [OF assms(1)] assms(2) by simp
  then have "fence_ok q1" "pq_revision q1 \<le> u64_max" by (simp_all add: queue_ok_def)
  from run_edits_keep_fenced_head [OF this(1) q1(3) this(2), of es] q1
  obtain rest where s1: "pq_items (run_edits es q1) = item # rest"
      "pq_revision (run_edits es q1) \<le> u64_max"
    by auto
  with assms(3) have q2: "accepted = Some q2" "pq_items q2 = item # rest"
      "\<exists>r. pq_dispatch q2 = Some (Accepted (qs_id item) (qs_client_user_message_id item) operation_id r)"
      "fence_ok q2" "pq_revision q2 \<le> u64_max"
    by (auto simp: accept_dispatch_def Let_def fence_ok_def revision_next_def)
  then have "pq_dispatch q2 \<noteq> None" by auto
  from run_edits_keep_fenced_head [OF q2(4) this q2(5), of es'] q2
  obtain rest' r where s2: "pq_items (run_edits es' q2) = item # rest'"
      "pq_dispatch (run_edits es' q2) =
         Some (Accepted (qs_id item) (qs_client_user_message_id item) operation_id r)"
    by auto
  with assms(4) q2(1) show ?thesis
    by (auto simp: consume_accepted_def running_item_def Let_def)
qed

theorem dispatch_consumes_the_prepared_head_witness:
  "\<exists>q1 q2 q3. prepare_dispatch sample_queue = (Some (q1, sample_item ''a'' ''go''), q1)
     \<and> accept_dispatch ''a'' ''op'' (run_edits [((''c'', ''d''), QueueDelete 8 ''a'', 2)] q1) = (Some q2, q2)
     \<and> consume_accepted (run_edits [((''c'', ''d''), QueueDelete 9 ''b'', 3)] q2) = (Some q3, q3)
     \<and> pq_items (run_edits [((''c'', ''d''), QueueDelete 9 ''b'', 3)] q2) = [sample_item ''a'' ''go'']"
proof -
  obtain q1 where q1: "prepare_dispatch sample_queue = (Some (q1, sample_item ''a'' ''go''), q1)"
      "q1 = sample_queue\<lparr>pq_revision := 8, pq_dispatch := Some (Prepared ''a'' ''a'' 8)\<rparr>"
    by (simp add: prepare_dispatch_def sample_queue_def sample_item_def revision_next_def sat_add_def
        u64_max_def Let_def)
  let ?r1 = "run_edits [((''c'', ''d''), QueueDelete 8 ''a'', 2)] q1"
  have r1: "?r1 = q1"
    by (simp add: run_edits_def queue_apply_def apply_action_def ensure_pending_mutable_def
        ensure_mutable_def ensure_revision_def q1(2))
  obtain acc q2 where q2: "accept_dispatch (qs_id (sample_item ''a'' ''go'')) ''op'' ?r1 = (acc, q2)"
    by (cases "accept_dispatch (qs_id (sample_item ''a'' ''go'')) ''op'' ?r1") auto
  let ?r2 = "run_edits [((''c'', ''d''), QueueDelete 9 ''b'', 3)] q2"
  obtain con q3 where q3: "consume_accepted ?r2 = (con, q3)" by (cases "consume_accepted ?r2") auto
  have fin: "q2 = q1\<lparr>pq_revision := 9, pq_dispatch := Some (Accepted ''a'' ''a'' ''op'' 9)\<rparr>"
    using q2 unfolding r1
    by (auto simp: accept_dispatch_def q1(2) sample_queue_def sample_item_def revision_next_def
        sat_add_def u64_max_def Let_def)
  have "pq_items ?r2 = [sample_item ''a'' ''go'']"
    by (simp add: fin q1(2) run_edits_def queue_apply_def apply_action_def ensure_pending_mutable_def
        ensure_mutable_def ensure_revision_def is_some_and_def sample_queue_def sample_item_def)
  with dispatch_consumes_the_prepared_head [OF sample_queue_ok q1(1) q2 q3] q1(1) q2 q3
  show ?thesis by (auto simp: sample_item_def)
qed

text \<open>
  Recovery after a restart always settles the fence of a consistent queue. An accepted
  dispatch, or a prepared one whose turn is known to have been accepted, consumes the head; a
  prepared one whose turn was not accepted leaves every submission in place; without a fence
  nothing happens.
\<close>
theorem recovery_settles_the_fence:
  assumes "queue_ok q"
  shows "recover_dispatch accepted_turn q =
    (case pq_dispatch q of
       None \<Rightarrow> (None, q)
     | Some fence \<Rightarrow>
         (let ran = (accepted_turn \<or> (\<exists>s c oi r. fence = Accepted s c oi r));
              twice = (ran \<and> (\<forall>s c oi r. fence \<noteq> Accepted s c oi r));
              rev = revision_next (pq_revision q);
              q' = q\<lparr>pq_items := (if ran then tl (pq_items q) else pq_items q),
                     pq_revision := (if twice then revision_next rev else rev), pq_dispatch := None\<rparr>
          in (Some q', q')))"
  using assms
  by (cases "pq_items q")
     (auto simp: recover_dispatch_def queue_ok_def fence_ok_def accept_dispatch_def consume_accepted_def
       rollback_dispatch_def Let_def split: option.splits queue_dispatch_fence.splits)

theorem recovery_settles_the_fence_witness:
  "recover_dispatch False (sample_queue\<lparr>pq_dispatch := Some (Prepared ''a'' ''a'' 7)\<rparr>) =
     (Some (sample_queue\<lparr>pq_revision := 8\<rparr>), sample_queue\<lparr>pq_revision := 8\<rparr>)"
proof -
  have "queue_ok (sample_queue\<lparr>pq_dispatch := Some (Prepared ''a'' ''a'' 7)\<rparr>)"
    using sample_queue_ok by (simp add: queue_ok_def fence_ok_def sample_queue_def sample_item_def)
  from recovery_settles_the_fence [OF this, of False] show ?thesis
    by (simp add: sample_queue_def revision_next_def sat_add_def u64_max_def Let_def)
qed

text \<open>
  Reordering. On a consistent queue at its current revision with no dispatch under way,
  a reorder succeeds exactly when the requested identifiers are a permutation of the queue's, and
  then the queue holds the same submissions in the requested order; anything else is refused
  and leaves the queue as it was. In particular the \<^verbatim>\<open>expect\<close> in the reordering loop never fires.
\<close>
theorem reorder_is_a_permutation:
  assumes "queue_ok q" "pq_dispatch q = None"
  shows "case queue_apply fresh (QueueReorder (pq_revision q) ids) now q of
      (Inr r, q') \<Rightarrow> r = q' \<and> mset ids = mset (map qs_id (pq_items q)) \<and> map qs_id (pq_items q') = ids
        \<and> mset (pq_items q') = mset (pq_items q) \<and> pq_revision q' = revision_next (pq_revision q)
    | (Inl e, q') \<Rightarrow> mset ids \<noteq> mset (map qs_id (pq_items q)) \<and> q' = q
        \<and> e = InvalidInput ''reorder must contain every current queue id exactly once'' q"
proof -
  have same: "mset ids = mset (map qs_id (pq_items q)) \<longleftrightarrow>
      set (map qs_id (pq_items q)) = set ids \<and> length ids = length (pq_items q)"
    using assms(1) mset_eq_iff_distinct [of "map qs_id (pq_items q)" ids] by (simp add: queue_ok_def)
  have guard: "ensure_mutable (pq_revision q) q = Inr ()"
    using assms(2) by (simp add: ensure_mutable_def ensure_revision_def)
  show ?thesis
  proof (cases "mset ids = mset (map qs_id (pq_items q))")
    case False
    then show ?thesis using same guard by (auto simp: queue_apply_def apply_action_def)
  next
    case True
    then obtain items where pick: "pick_items ids (pq_items q) = Some items"
      using pick_items_complete [of ids "pq_items q"] by auto
    with pick_items_SomeD [OF pick] True same guard assms(2) show ?thesis
      by (simp add: queue_apply_def apply_action_def)
  qed
qed

theorem reorder_is_a_permutation_witness:
  "map qs_id (pq_items (snd (queue_apply (''x'', ''y'') (QueueReorder 7 [''b'', ''a'']) 1 sample_queue))) =
     [''b'', ''a'']"
proof -
  have "pq_dispatch sample_queue = None" "pq_revision sample_queue = 7"
    and ids: "mset [''b'', ''a''] = mset (map qs_id (pq_items sample_queue))"
    by (simp_all add: sample_queue_def sample_item_def)
  with reorder_is_a_permutation [OF sample_queue_ok, where fresh = "(''x'', ''y'')" and ids = "[''b'', ''a'']" and now = 1]
  show ?thesis by (auto split: prod.splits sum.splits)
qed

end
