(* ===== verification/Tool_Results.thy ===== *)
theory Tool_Results
  imports Tool_Types Prompt_Queue Rust_Utf8
begin

text \<open>
  Tool results, \<^verbatim>\<open>crates/orca-core/src/tool_types.rs\<close> from \<^verbatim>\<open>ToolTerminal\<close> on: the terminal facts of an
  invocation, the constructors of results and what may still change in one, and the truncation of tool
  output. A panic of \<^verbatim>\<open>expect\<close> or \<^verbatim>\<open>assert!\<close> is the error of a result. Strings are their UTF-8 bytes.
\<close>

subsection \<open>Terminals\<close>

datatype tool_terminal_source = Observed | CompatibilityRepair

datatype tool_invocation_started = StartedYes | StartedNo | StartedUnknown

record tool_terminal =
  tt_status :: tool_status
  tt_error :: "string option"
  tt_exit_code :: "int option"
  tt_truncated :: bool
  tt_kind :: tool_result_kind
  tt_source :: tool_terminal_source
  tt_started :: tool_invocation_started

fun tool_status_str :: "tool_status \<Rightarrow> string" where
  "tool_status_str ToolRunning = ''running''"
| "tool_status_str ToolCompleted = ''completed''"
| "tool_status_str ToolFailed = ''failed''"
| "tool_status_str ToolDenied = ''denied''"
| "tool_status_str ToolNotImplemented = ''not_implemented''"
| "tool_status_str ToolCancelled = ''cancelled''"
| "tool_status_str ToolIndeterminate = ''indeterminate''"

text \<open>The derived debug form, which the error message shows.\<close>

fun result_kind_debug :: "tool_result_kind \<Rightarrow> string" where
  "result_kind_debug SuccessResult = ''Success''"
| "result_kind_debug RunningResult = ''Running''"
| "result_kind_debug EmptyResult = ''Empty''"
| "result_kind_debug NoMatchesResult = ''NoMatches''"
| "result_kind_debug TruncatedResult = ''Truncated''"
| "result_kind_debug PermissionDeniedResult = ''PermissionDenied''"
| "result_kind_debug InvalidInputResult = ''InvalidInput''"
| "result_kind_debug RuntimeErrorResult = ''RuntimeError''"
| "result_kind_debug CancelledResult = ''Cancelled''"
| "result_kind_debug IndeterminateResult = ''Indeterminate''"

fun default_kind_for_status :: "tool_status \<Rightarrow> tool_result_kind" where
  "default_kind_for_status ToolRunning = RunningResult"
| "default_kind_for_status ToolCompleted = SuccessResult"
| "default_kind_for_status ToolFailed = RuntimeErrorResult"
| "default_kind_for_status ToolNotImplemented = RuntimeErrorResult"
| "default_kind_for_status ToolDenied = PermissionDeniedResult"
| "default_kind_for_status ToolCancelled = CancelledResult"
| "default_kind_for_status ToolIndeterminate = IndeterminateResult"

definition terminal_status_matches_kind :: "tool_status \<Rightarrow> tool_result_kind \<Rightarrow> bool" where
  "terminal_status_matches_kind status kind \<longleftrightarrow>
     status = result_status kind \<or> (status = ToolNotImplemented \<and> kind = RuntimeErrorResult)"

definition try_from_parts ::
    "tool_status \<Rightarrow> string option \<Rightarrow> int option \<Rightarrow> bool \<Rightarrow> tool_result_kind option
     \<Rightarrow> tool_terminal_source \<Rightarrow> tool_invocation_started \<Rightarrow> (string, tool_terminal) result" where
  "try_from_parts status error exit_code truncated kind source started =
     (let kind = unwrap_or kind (default_kind_for_status status)
      in if \<not> terminal_status_matches_kind status kind
         then Inl (''tool terminal status '' @ [CHR 0x27] @ tool_status_str status @ [CHR 0x27]
                   @ '' conflicts with result kind '' @ [CHR 0x27] @ result_kind_debug kind @ [CHR 0x27])
         else Inr \<lparr>tt_status = status, tt_error = error, tt_exit_code = exit_code, tt_truncated = truncated,
                   tt_kind = kind, tt_source = source, tt_started = started\<rparr>)"

definition terminal_new ::
    "tool_status \<Rightarrow> string option \<Rightarrow> int option \<Rightarrow> bool \<Rightarrow> tool_result_kind
     \<Rightarrow> tool_terminal_source \<Rightarrow> tool_invocation_started \<Rightarrow> (string, tool_terminal) result" where
  "terminal_new status error exit_code truncated kind source started =
     try_from_parts status error exit_code truncated (Some kind) source started"

subsection \<open>Results\<close>

datatype file_change_preview =
    UnifiedDiff string bool
  | OmittedPreview string nat

record tool_result =
  tr_id :: string
  tr_name :: tool_name
  tr_output :: "string option"
  tr_terminal :: tool_terminal
  tr_images :: "image_input list"
  tr_file_change_preview :: "file_change_preview option"

definition result_with :: "tool_request \<Rightarrow> string option \<Rightarrow> tool_terminal \<Rightarrow> tool_result" where
  "result_with request output terminal =
     \<lparr>tr_id = rq_id request, tr_name = rq_name request, tr_output = output, tr_terminal = terminal,
      tr_images = [], tr_file_change_preview = None\<rparr>"

definition result_running :: "tool_request \<Rightarrow> string \<Rightarrow> bool \<Rightarrow> (string, tool_result) result" where
  "result_running request output truncated =
     map_sum id (result_with request (Some output))
       (terminal_new ToolRunning None None truncated RunningResult Observed StartedYes)"

definition result_completed :: "tool_request \<Rightarrow> string \<Rightarrow> bool \<Rightarrow> (string, tool_result) result" where
  "result_completed request output truncated =
     map_sum id (result_with request (Some output))
       (terminal_new ToolCompleted None (Some 0) truncated SuccessResult Observed StartedYes)"

definition completed_kind ::
    "tool_request \<Rightarrow> string \<Rightarrow> bool \<Rightarrow> tool_result_kind \<Rightarrow> (string, tool_result) result" where
  "completed_kind request output truncated kind =
     (if kind \<notin> {SuccessResult, EmptyResult, NoMatchesResult, TruncatedResult}
      then Inl ''completed_kind requires a completed result kind''
      else map_sum id (result_with request (Some output))
             (terminal_new (result_status kind) None (Some 0) truncated kind Observed StartedYes))"

definition failed_with_started ::
    "tool_request \<Rightarrow> string \<Rightarrow> int option \<Rightarrow> tool_invocation_started \<Rightarrow> (string, tool_result) result" where
  "failed_with_started request error exit_code started =
     map_sum id (result_with request None)
       (terminal_new ToolFailed (Some error) exit_code False RuntimeErrorResult Observed started)"

definition result_failed :: "tool_request \<Rightarrow> string \<Rightarrow> int option \<Rightarrow> (string, tool_result) result" where
  "result_failed request error exit_code = failed_with_started request error exit_code StartedUnknown"

definition failed_after_start :: "tool_request \<Rightarrow> string \<Rightarrow> int option \<Rightarrow> (string, tool_result) result" where
  "failed_after_start request error exit_code = failed_with_started request error exit_code StartedYes"

definition failed_before_start :: "tool_request \<Rightarrow> string \<Rightarrow> int option \<Rightarrow> (string, tool_result) result" where
  "failed_before_start request error exit_code = failed_with_started request error exit_code StartedNo"

definition invalid_input :: "tool_request \<Rightarrow> string \<Rightarrow> (string, tool_result) result" where
  "invalid_input request error =
     map_sum id (result_with request None)
       (terminal_new ToolFailed (Some error) None False InvalidInputResult Observed StartedNo)"

definition result_denied :: "tool_request \<Rightarrow> string \<Rightarrow> (string, tool_result) result" where
  "result_denied request reason =
     map_sum id (result_with request None)
       (terminal_new ToolDenied (Some reason) None False PermissionDeniedResult Observed StartedNo)"

definition cancelled_with_started ::
    "tool_request \<Rightarrow> string \<Rightarrow> int option \<Rightarrow> tool_invocation_started \<Rightarrow> (string, tool_result) result" where
  "cancelled_with_started request reason exit_code started =
     map_sum id (result_with request None)
       (terminal_new ToolCancelled (Some reason) exit_code False CancelledResult Observed started)"

definition result_cancelled :: "tool_request \<Rightarrow> string \<Rightarrow> int option \<Rightarrow> (string, tool_result) result" where
  "result_cancelled request reason exit_code = cancelled_with_started request reason exit_code StartedYes"

definition cancelled_before_start :: "tool_request \<Rightarrow> string \<Rightarrow> (string, tool_result) result" where
  "cancelled_before_start request reason =
     cancelled_with_started request (''Tool invocation was not started because '' @ reason) None StartedNo"

definition indeterminate_with_started ::
    "tool_request \<Rightarrow> string \<Rightarrow> tool_invocation_started \<Rightarrow> (string, tool_result) result" where
  "indeterminate_with_started request reason started =
     map_sum id (result_with request None)
       (terminal_new ToolIndeterminate (Some reason) None False IndeterminateResult Observed started)"

definition result_indeterminate :: "tool_request \<Rightarrow> string \<Rightarrow> (string, tool_result) result" where
  "result_indeterminate request reason = indeterminate_with_started request reason StartedUnknown"

definition indeterminate_after_start :: "tool_request \<Rightarrow> string \<Rightarrow> (string, tool_result) result" where
  "indeterminate_after_start request reason = indeterminate_with_started request reason StartedYes"

definition record_invocation_started :: "tool_result \<Rightarrow> tool_result" where
  "record_invocation_started r = r\<lparr>tr_terminal := (tr_terminal r)\<lparr>tt_started := StartedYes\<rparr>\<rparr>"

definition append_error :: "string \<Rightarrow> tool_result \<Rightarrow> tool_result" where
  "append_error suffix r =
     r\<lparr>tr_terminal := (tr_terminal r)\<lparr>tt_error :=
        (case tt_error (tr_terminal r) of
           Some error \<Rightarrow> if trim_end error \<noteq> [] then Some (error @ suffix) else Some (trim_start suffix)
         | None \<Rightarrow> Some (trim_start suffix))\<rparr>\<rparr>"

definition append_error_note :: "string \<Rightarrow> tool_result \<Rightarrow> tool_result" where
  "append_error_note note r =
     (case tt_error (tr_terminal r) of
        Some error \<Rightarrow> r\<lparr>tr_terminal := (tr_terminal r)\<lparr>tt_error := Some (error @ [CHR 0x0A] @ note)\<rparr>\<rparr>
      | None \<Rightarrow> r)"

definition set_truncated :: "bool \<Rightarrow> tool_result \<Rightarrow> tool_result" where
  "set_truncated truncated r = r\<lparr>tr_terminal := (tr_terminal r)\<lparr>tt_truncated := truncated\<rparr>\<rparr>"

definition with_file_change_preview :: "file_change_preview \<Rightarrow> tool_result \<Rightarrow> tool_result" where
  "with_file_change_preview preview r = r\<lparr>tr_file_change_preview := Some preview\<rparr>"

definition with_images :: "image_input list \<Rightarrow> tool_result \<Rightarrow> tool_result" where
  "with_images images r = r\<lparr>tr_images := images\<rparr>"

definition with_terminal_source :: "tool_terminal_source \<Rightarrow> tool_result \<Rightarrow> tool_result" where
  "with_terminal_source source r = r\<lparr>tr_terminal := (tr_terminal r)\<lparr>tt_source := source\<rparr>\<rparr>"

subsection \<open>Truncation of output\<close>

datatype tool_output_truncation = TruncateBytes nat | TruncateTokens nat

fun truncation_normalized :: "tool_output_truncation \<Rightarrow> tool_output_truncation" where
  "truncation_normalized (TruncateBytes l) = TruncateBytes (max l 1)"
| "truncation_normalized (TruncateTokens l) = TruncateTokens (max l 1)"

text \<open>The two loops to a character boundary, towards the start and towards the end.\<close>

fun boundary_down :: "string \<Rightarrow> nat \<Rightarrow> nat" where
  "boundary_down s 0 = 0"
| "boundary_down s (Suc i) = (if is_char_boundary s (Suc i) then Suc i else boundary_down s i)"

function boundary_up :: "string \<Rightarrow> nat \<Rightarrow> nat" where
  "boundary_up s i = (if i < length s \<and> \<not> is_char_boundary s i then boundary_up s (Suc i) else i)"
  by pat_completeness auto
termination by (relation "measure (\<lambda>(s, i). length s - i)") auto

declare boundary_up.simps [simp del]

definition compaction_marker :: string where
  "compaction_marker = [CHR 0x0A] @ ''[... tool output micro-compacted ...]'' @ [CHR 0x0A]"

definition truncate_output_bytes :: "string \<Rightarrow> nat \<Rightarrow> string \<times> bool" where
  "truncate_output_bytes output max_bytes =
     (if length output \<le> max_bytes then (output, False)
      else if max_bytes \<le> length compaction_marker + 2
      then (take (boundary_down output max_bytes) output, True)
      else
        (let side_budget = (max_bytes - length compaction_marker) div 2;
             head_end = boundary_down output side_budget;
             tail_start = boundary_up output (length output - side_budget)
         in (take head_end output @ compaction_marker @ drop tail_start output, True)))"

text \<open>\<^verbatim>\<open>split_whitespace().count()\<close> and \<^verbatim>\<open>lines().count()\<close>.\<close>

fun skip_word :: "string \<Rightarrow> string" where
  "skip_word [] = []"
| "skip_word (c # s) = (if strip_ws_start (c # s) \<noteq> None then c # s else skip_word s)"

lemma skip_word_length: "length (skip_word s) \<le> length s"
  by (induction s) auto

lemma trim_start_length: "length (trim_start s) \<le> length s"
proof (induction s rule: trim_start.induct)
  case (1 s)
  then show ?case
    by (cases "strip_ws_start s") (auto simp: trim_start.simps [of s] dest: strip_ws_start_shorter)
qed

function word_count :: "string \<Rightarrow> nat" where
  "word_count s = (case trim_start s of [] \<Rightarrow> 0 | c # r \<Rightarrow> Suc (word_count (skip_word r)))"
  by pat_completeness auto
termination
proof (relation "measure length")
  fix s c r
  assume "trim_start s = c # r"
  then show "(skip_word r, s) \<in> measure length"
    using skip_word_length [of r] trim_start_length [of s] by simp
qed simp

declare word_count.simps [simp del]

definition line_count :: "string \<Rightarrow> nat" where
  "line_count s = count_list s (CHR 0x0A) + (if s = [] \<or> last s = CHR 0x0A then 0 else 1)"

definition approx_tool_tokens :: "string \<Rightarrow> nat" where
  "approx_tool_tokens s = max (word_count s) ((length s + 3) div 4)"

definition approx_bytes_for_tokens :: "nat \<Rightarrow> nat" where
  "approx_bytes_for_tokens tokens = min (tokens * 4) usize_max"

definition truncation_warning :: "nat \<Rightarrow> nat \<Rightarrow> string" where
  "truncation_warning original_tokens lines =
     ''Warning: truncated tool output'' @ [CHR 0x0A] @ ''Original token count: '' @ show_nat original_tokens
     @ [CHR 0x0A] @ ''Original line count: '' @ show_nat lines @ [CHR 0x0A, CHR 0x0A]"

definition truncate_output_tokens :: "string \<Rightarrow> nat \<Rightarrow> string \<times> bool" where
  "truncate_output_tokens output max_tokens =
     (let original_tokens = approx_tool_tokens output
      in if original_tokens \<le> max_tokens then (output, False)
         else
           (let byte_budget = approx_bytes_for_tokens max_tokens;
                snippet = fst (truncate_output_bytes output (max byte_budget 1))
            in (truncation_warning original_tokens (line_count output) @ snippet, True)))"

definition truncate_output_with_policy :: "string \<Rightarrow> tool_output_truncation \<Rightarrow> string \<times> bool" where
  "truncate_output_with_policy output policy =
     (case truncation_normalized policy of
        TruncateBytes l \<Rightarrow> truncate_output_bytes output l
      | TruncateTokens l \<Rightarrow> truncate_output_tokens output l)"

definition truncate_output :: "string \<Rightarrow> nat \<Rightarrow> string \<times> bool" where
  "truncate_output output max_bytes = truncate_output_with_policy output (TruncateBytes max_bytes)"

subsection \<open>Every result is consistent\<close>

lemmas result_defs = result_running_def result_completed_def completed_kind_def failed_with_started_def
  result_failed_def failed_after_start_def failed_before_start_def invalid_input_def result_denied_def
  cancelled_with_started_def result_cancelled_def cancelled_before_start_def indeterminate_with_started_def
  result_indeterminate_def indeterminate_after_start_def

lemmas result_updates = record_invocation_started_def append_error_def append_error_note_def set_truncated_def
  with_file_change_preview_def with_images_def with_terminal_source_def

lemma terminal_new_ok:
  "terminal_status_matches_kind status kind \<Longrightarrow>
   terminal_new status error exit_code truncated kind source started =
     Inr \<lparr>tt_status = status, tt_error = error, tt_exit_code = exit_code, tt_truncated = truncated,
          tt_kind = kind, tt_source = source, tt_started = started\<rparr>"
  by (simp add: terminal_new_def try_from_parts_def unwrap_or_def)

lemma own_kind_matches [simp]: "terminal_status_matches_kind (result_status kind) kind"
  by (simp add: terminal_status_matches_kind_def)

text \<open>The results a program can hold: one made by a constructor, changed by any of the later updates.\<close>

inductive tool_result_made :: "tool_result \<Rightarrow> bool" where
  running: "result_running q out t = Inr r \<Longrightarrow> tool_result_made r"
| completed: "result_completed q out t = Inr r \<Longrightarrow> tool_result_made r"
| completed_kind: "completed_kind q out t k = Inr r \<Longrightarrow> tool_result_made r"
| failed: "failed_with_started q e x st = Inr r \<Longrightarrow> tool_result_made r"
| invalid: "invalid_input q e = Inr r \<Longrightarrow> tool_result_made r"
| denied: "result_denied q e = Inr r \<Longrightarrow> tool_result_made r"
| cancelled: "cancelled_with_started q e x st = Inr r \<Longrightarrow> tool_result_made r"
| indeterminate: "indeterminate_with_started q e st = Inr r \<Longrightarrow> tool_result_made r"
| started: "tool_result_made r \<Longrightarrow> tool_result_made (record_invocation_started r)"
| error: "tool_result_made r \<Longrightarrow> tool_result_made (append_error e r)"
| error_note: "tool_result_made r \<Longrightarrow> tool_result_made (append_error_note e r)"
| truncated: "tool_result_made r \<Longrightarrow> tool_result_made (set_truncated t r)"
| preview: "tool_result_made r \<Longrightarrow> tool_result_made (with_file_change_preview v r)"
| images: "tool_result_made r \<Longrightarrow> tool_result_made (with_images im r)"
| source: "tool_result_made r \<Longrightarrow> tool_result_made (with_terminal_source so r)"

definition terminal_ok :: "tool_terminal \<Rightarrow> bool" where
  "terminal_ok t \<longleftrightarrow>
     tt_status t = result_status (tt_kind t)
     \<and> (tt_status t = ToolRunning \<longrightarrow> tt_exit_code t = None \<and> tt_started t = StartedYes)
     \<and> (tt_status t = ToolCompleted \<longrightarrow> tt_exit_code t = Some 0 \<and> tt_started t = StartedYes)
     \<and> (tt_status t \<in> {ToolDenied, ToolIndeterminate} \<longrightarrow> tt_exit_code t = None)"

lemma made_terminal_ok: "tool_result_made r \<Longrightarrow> terminal_ok (tr_terminal r)"
proof (induction rule: tool_result_made.induct)
  case (completed_kind q out t k r)
  then show ?case
    by (cases k) (auto simp: result_defs result_with_def terminal_new_ok terminal_ok_def
        terminal_status_matches_kind_def split: if_splits)
next
  case (error_note r e)
  then show ?case by (cases "tt_error (tr_terminal r)") (simp_all add: append_error_note_def terminal_ok_def)
qed (auto simp: result_defs result_updates result_with_def terminal_new_def try_from_parts_def unwrap_or_def
       terminal_status_matches_kind_def terminal_ok_def)

text \<open>
  C35: no result contradicts itself. Every constructor answers (only \<open>completed_kind\<close> can panic, and
  exactly for a kind that is not a completion), and whatever updates follow, the status of a result is the one
  of its kind, work that runs has no exit code, only started work completes and then with exit code 0, a
  denied or indeterminate call has none, and the parts of the terminal are accepted again when they
  are read back.
\<close>
theorem tool_results_are_consistent:
  "(\<forall>k. (\<exists>e. completed_kind q out t k = Inl e) \<longleftrightarrow> result_status k \<noteq> ToolCompleted)
   \<and> is_ok (result_running q out t) \<and> is_ok (result_completed q out t) \<and> is_ok (failed_with_started q e x st)
   \<and> is_ok (invalid_input q e) \<and> is_ok (result_denied q e) \<and> is_ok (cancelled_with_started q e x st)
   \<and> is_ok (indeterminate_with_started q e st)
   \<and> (tool_result_made r \<longrightarrow>
        (let m = tr_terminal r in
         terminal_ok m
         \<and> try_from_parts (tt_status m) (tt_error m) (tt_exit_code m) (tt_truncated m) (Some (tt_kind m))
             (tt_source m) (tt_started m) = Inr m))"
proof -
  have kinds: "(\<exists>e. completed_kind q out t k = Inl e) \<longleftrightarrow> result_status k \<noteq> ToolCompleted" for k
    by (cases k) (simp_all add: completed_kind_def terminal_new_ok terminal_status_matches_kind_def)
  have readback: "try_from_parts (tt_status m) (tt_error m) (tt_exit_code m) (tt_truncated m) (Some (tt_kind m))
      (tt_source m) (tt_started m) = Inr m" if "terminal_ok m" for m
    using that by (cases m) (simp add: terminal_ok_def try_from_parts_def unwrap_or_def Let_def)
  have "is_ok (result_running q out t)" "is_ok (result_completed q out t)" "is_ok (failed_with_started q e x st)"
    "is_ok (invalid_input q e)" "is_ok (result_denied q e)" "is_ok (cancelled_with_started q e x st)"
    "is_ok (indeterminate_with_started q e st)"
    by (simp_all add: result_defs terminal_new_ok terminal_status_matches_kind_def)
  with kinds readback show ?thesis using made_terminal_ok by (auto simp: Let_def)
qed

theorem tool_results_are_consistent_witness:
  "\<exists>r. tool_result_made r \<and> terminal_ok (tr_terminal r) \<and> tt_status (tr_terminal r) = ToolDenied"
proof -
  let ?q = "\<lparr>rq_id = ''c1'', rq_name = Bash, rq_action = ShellAction, rq_target = None, rq_raw_arguments = None\<rparr>"
  obtain r where r: "result_denied ?q ''no'' = Inr r" "tt_status (tr_terminal r) = ToolDenied"
    by (simp add: result_denied_def terminal_new_ok terminal_status_matches_kind_def result_with_def)
  then have "tool_result_made (append_error ''; asked'' r)" by (intro tool_result_made.intros)
  then have "terminal_ok (tr_terminal (append_error ''; asked'' r))"
    using tool_results_are_consistent [of ?q "[]" False "[]" None StartedNo "append_error ''; asked'' r"]
    by (simp add: Let_def)
  with r \<open>tool_result_made _\<close> show ?thesis
    by (intro exI [of _ "append_error ''; asked'' r"]) (simp add: append_error_def)
qed

subsection \<open>Truncated output\<close>

lemma boundary_down_spec: "boundary_down s i \<le> i \<and> is_char_boundary s (boundary_down s i)"
  by (induction i) (auto simp: le_SucI)

lemma boundary_up_spec:
  "i \<le> length s \<Longrightarrow> i \<le> boundary_up s i \<and> boundary_up s i \<le> length s \<and> is_char_boundary s (boundary_up s i)"
proof (induction s i rule: boundary_up.induct)
  case (1 s i)
  show ?case
  proof (cases "i < length s \<and> \<not> is_char_boundary s i")
    case True
    with 1 show ?thesis by (simp add: boundary_up.simps [of s i])
  next
    case False
    with 1(2) show ?thesis by (cases "i = length s") (simp_all add: boundary_up.simps [of s i] boundary_up.simps [of s "length s"])
  qed
qed

lemma compaction_marker_valid: "utf8_error i compaction_marker = None"
  using utf8_ascii_prefix [of compaction_marker i "[]"] by (simp add: compaction_marker_def byte_of_def)

lemma utf8_append3:
  "valid_utf8 a \<Longrightarrow> valid_utf8 b \<Longrightarrow> valid_utf8 c \<Longrightarrow> valid_utf8 (a @ b @ c)"
  using utf8_append [of 0 a 0 "b @ c" 0] utf8_append [of 0 b 0 c 0] by simp

lemma truncate_output_bytes_fits:
  "length output \<le> max_bytes \<Longrightarrow> truncate_output_bytes output max_bytes = (output, False)"
  by (simp add: truncate_output_bytes_def)

lemma truncate_output_bytes_cuts:
  assumes "max_bytes < length output"
  obtains head middle tail where "truncate_output_bytes output max_bytes = (head @ middle @ tail, True)"
    "length (head @ middle @ tail) \<le> max_bytes"
    "middle = [] \<and> tail = [] \<or> middle = compaction_marker"
    "\<exists>removed. output = head @ removed @ tail"
    "valid_utf8 output \<longrightarrow> valid_utf8 (head @ middle @ tail)"
proof (cases "max_bytes \<le> length compaction_marker + 2")
  case True
  let ?h = "take (boundary_down output max_bytes) output"
  show ?thesis
  proof (rule that [of ?h "[]" "[]"])
    show "truncate_output_bytes output max_bytes = (?h @ [] @ [], True)"
      using assms True by (simp add: truncate_output_bytes_def)
    show "length (?h @ [] @ []) \<le> max_bytes" using boundary_down_spec [of "output" max_bytes] by (simp add: min.coboundedI2)
    show "\<exists>removed. output = ?h @ removed @ []" by (metis append_Nil2 append_take_drop_id)
    show "valid_utf8 output \<longrightarrow> valid_utf8 (?h @ [] @ [])"
      using boundary_down_spec [of "output" max_bytes] utf8_take by simp
  qed simp
next
  case False
  define side where "side = (max_bytes - length compaction_marker) div 2"
  define h where "h = boundary_down output side"
  define t where "t = boundary_up output (length output - side)"
  have side: "2 * side + length compaction_marker \<le> max_bytes" using False by (simp add: side_def)
  have h: "h \<le> side" "is_char_boundary output h" using boundary_down_spec by (simp_all add: h_def)
  have t: "length output - side \<le> t" "t \<le> length output" "is_char_boundary output t"
    using boundary_up_spec [of "length output - side" "output"] by (simp_all add: t_def)
  have "h \<le> t" using h t side assms by linarith
  then have split: "output = take h output @ drop h (take t output) @ drop t output"
    by (metis append.assoc append_take_drop_id min.absorb1 take_take)
  show ?thesis
  proof (rule that [of "take h output" compaction_marker "drop t output"])
    show "truncate_output_bytes output max_bytes = (take h output @ compaction_marker @ drop t output, True)"
      using assms False by (simp add: truncate_output_bytes_def Let_def h_def t_def side_def)
    show "length (take h output @ compaction_marker @ drop t output) \<le> max_bytes" using h t side by simp
    show "\<exists>removed. output = take h output @ removed @ drop t output" using split by blast
    show "valid_utf8 output \<longrightarrow> valid_utf8 (take h output @ compaction_marker @ drop t output)"
      using utf8_append3 compaction_marker_valid utf8_take utf8_drop h(2) t(3) by simp
  qed simp
qed



end
