(* ===== verification/Conversation.thy ===== *)
theory Conversation
  imports Tool_Results Rust_Json
begin

text \<open>
  The conversation a turn works on, \<^verbatim>\<open>crates/orca-core/src/conversation.rs\<close>, with the image budget of
  \<^verbatim>\<open>crates/orca-core/src/tool_images.rs\<close>: messages, internal context fragments, the usage anchor, the
  read view of tool images. The repair of tool boundaries is in \<open>Tool_Boundaries\<close>. Parameters: \<open>from_json\<close>, the
  JSON parser, and \<open>hash\<close>, the standard hasher on what a fingerprint feeds it. The tool images of a view are
  shared with its readers, so the field holds what they see.
\<close>

subsection \<open>Recorded image analyses\<close>

definition image_analysis_message_prefix :: string where
  "image_analysis_message_prefix = ''[Image analysis:''"

definition is_ascii_hexdigit :: "char \<Rightarrow> bool" where
  "is_ascii_hexdigit c \<longleftrightarrow>
     (48 \<le> byte_of c \<and> byte_of c \<le> 57) \<or> (65 \<le> byte_of c \<and> byte_of c \<le> 70) \<or> (97 \<le> byte_of c \<and> byte_of c \<le> 102)"

definition is_digest :: "string \<Rightarrow> bool" where
  "is_digest v \<longleftrightarrow> length v = 64 \<and> list_all is_ascii_hexdigit v"

definition field_str :: "(string \<times> json_value) list \<Rightarrow> string \<Rightarrow> string option" where
  "field_str record field = Option.bind (map_of record field) as_str"

definition analysis_provenance_ok :: "bool \<Rightarrow> nat \<Rightarrow> json_value option \<Rightarrow> bool" where
  "analysis_provenance_ok plain_record image_count provenance =
     (case provenance of
        Some JNull \<Rightarrow> plain_record
      | Some (JObject p) \<Rightarrow>
          field_str p ''kind'' = Some ''tool_snapshot''
          \<and> list_all (\<lambda>f. field_str p f \<noteq> None) [''tool_call_id'', ''observation'']
          \<and> list_all (\<lambda>f. is_some_and (field_str p f) is_digest) [''observation_id'', ''snapshot_id'']
          \<and> is_some_and (map_of p ''observation_ordinal'') (\<lambda>v. as_u64 v \<noteq> None)
          \<and> list_all (\<lambda>f. is_some_and (map_of p f) (\<lambda>v. v = JNull \<or> as_str v \<noteq> None))
              [''tool_name'', ''tool_arguments'']
          \<and> is_some_and (Option.bind (map_of p ''images'') as_array) (\<lambda>images. length images = image_count)
      | _ \<Rightarrow> False)"

definition analysis_record_ok :: "(string \<times> json_value) list \<Rightarrow> bool" where
  "analysis_record_ok record =
     (let plain_record = (map_of record ''snapshot_status'' = None \<and> map_of record ''grounding'' = None);
          refreshed_record =
            (is_some_and (field_str record ''snapshot_status'')
               (\<lambda>status. status \<in> {''latest_retained_snapshot'', ''historical_snapshot''})
             \<and> is_some_and (field_str record ''grounding'') (\<lambda>grounding. trim grounding \<noteq> []));
          image_count = Option.bind (map_of record ''image_count'') as_u64
      in if \<not> (plain_record \<or> refreshed_record)
            \<or> field_str record ''trust'' \<noteq> Some ''untrusted_observation_data''
            \<or> field_str record ''description'' = None
            \<or> field_str record ''query'' = None
            \<or> \<not> is_some_and image_count (\<lambda>n. n > 0)
         then False
         else analysis_provenance_ok plain_record (the image_count) (map_of record ''provenance''))"

definition is_internal_image_analysis :: "(string \<Rightarrow> json_value option) \<Rightarrow> string \<Rightarrow> bool" where
  "is_internal_image_analysis from_json content =
     (case Option.bind (strip_prefix content image_analysis_message_prefix)
             (\<lambda>rest. split_once rest (CHR '']'' # [CHR 0x0A])) of
        None \<Rightarrow> False
      | Some (key, body) \<Rightarrow>
          if \<not> is_digest key then False
          else
            (case strip_suffix body ([CHR 0x0A] @ ''[/Image analysis:'' @ key @ '']'') of
               Some description \<Rightarrow>
                 trim description \<noteq> []
                 \<and> \<not> str_contains description image_analysis_message_prefix
                 \<and> \<not> str_contains description ''[/Image analysis:''
             | None \<Rightarrow>
                 (case from_json body of Some (JObject record) \<Rightarrow> analysis_record_ok record | _ \<Rightarrow> False)))"

subsection \<open>Messages\<close>

definition delivered_notice_prefixes :: "string list" where
  "delivered_notice_prefixes =
     [''<task-notification>'', ''[Parent guidance id='', ''[Task wait result id='', ''[Budget soft landing]'']"

definition is_delivered_notice :: "string \<Rightarrow> bool" where
  "is_delivered_notice content \<longleftrightarrow> list_ex (starts_with content) delivered_notice_prefixes"

record raw_tool_call =
  rc_id :: string
  rc_function_name :: string
  rc_arguments :: string

datatype message =
    SystemMessage string bool
  | UserMessage string "image_input list" bool
  | AssistantMessage "string option" "string option" "raw_tool_call list" bool
  | ToolMessage string string "image_input list" "tool_terminal option" bool

fun is_pinned :: "message \<Rightarrow> bool" where
  "is_pinned (SystemMessage _ pinned) = pinned"
| "is_pinned (UserMessage _ _ pinned) = pinned"
| "is_pinned (AssistantMessage _ _ _ pinned) = pinned"
| "is_pinned (ToolMessage _ _ _ _ pinned) = pinned"

fun content_str :: "message \<Rightarrow> string option" where
  "content_str (SystemMessage content _) = Some content"
| "content_str (UserMessage content _ _) = Some content"
| "content_str (AssistantMessage content _ _ _) = content"
| "content_str (ToolMessage _ content _ _ _) = Some content"

fun message_images :: "message \<Rightarrow> image_input list" where
  "message_images (UserMessage _ images _) = images"
| "message_images (ToolMessage _ _ images _ _) = images"
| "message_images _ = []"

subsection \<open>The budget of tool images\<close>

definition max_request_tool_images :: nat where
  "max_request_tool_images = 3"

definition superseded_tool_image_note :: string where
  "superseded_tool_image_note = ''[image omitted: superseded by a newer one]''"

fun tool_images :: "message \<Rightarrow> image_input list" where
  "tool_images (ToolMessage _ _ images _ _) = images"
| "tool_images _ = []"

definition add_note :: "string \<Rightarrow> string \<Rightarrow> string" where
  "add_note content note = content @ [CHR 0x0A] @ note"

fun drop_tool_images :: "message list \<Rightarrow> string \<Rightarrow> message list \<times> nat" where
  "drop_tool_images [] note = ([], 0)"
| "drop_tool_images (m # ms) note =
     (case drop_tool_images ms note of
        (ms', dropped) \<Rightarrow>
          (case m of
             ToolMessage i content images terminal pinned \<Rightarrow>
               if images = [] then (m # ms', dropped)
               else (ToolMessage i (add_note content note) [] terminal pinned # ms', length images + dropped)
           | _ \<Rightarrow> (m # ms', dropped)))"

fun drop_oldest :: "nat \<Rightarrow> message list \<Rightarrow> message list \<times> nat" where
  "drop_oldest to_drop [] = ([], 0)"
| "drop_oldest to_drop (m # ms) =
     (if to_drop = 0 then (m # ms, 0)
      else
        (case m of
           ToolMessage i content images terminal pinned \<Rightarrow>
             if images = [] then apfst ((#) m) (drop_oldest to_drop ms)
             else
               (let remove = min (length images) to_drop
                in case drop_oldest (to_drop - remove) ms of
                     (ms', dropped) \<Rightarrow>
                       (ToolMessage i (add_note content superseded_tool_image_note) (drop remove images) terminal
                          pinned # ms', remove + dropped))
         | _ \<Rightarrow> apfst ((#) m) (drop_oldest to_drop ms)))"

definition keep_newest_tool_images :: "message list \<Rightarrow> nat \<Rightarrow> message list \<times> nat" where
  "keep_newest_tool_images messages keep =
     drop_oldest (sum_list (map (length \<circ> tool_images) messages) - keep) messages"

text \<open>
  The read view: the newest images, walking from the last message back while any may still be taken;
  the view lists the messages in their order.
\<close>

record retained_tool_message =
  rt_tool_call_id :: string
  rt_images :: "image_input list"

fun retain_back :: "nat \<Rightarrow> message list \<Rightarrow> retained_tool_message list" where
  "retain_back remaining [] = []"
| "retain_back remaining (m # earlier) =
     (case m of
        ToolMessage i _ images _ _ \<Rightarrow>
          if images = [] then retain_back remaining earlier
          else
            (let kept = drop (length images - remaining) images;
                 r = \<lparr>rt_tool_call_id = i, rt_images = kept\<rparr>
             in if remaining - length kept = 0 then [r]
                else r # retain_back (remaining - length kept) earlier)
      | _ \<Rightarrow> retain_back remaining earlier)"

definition retained_view :: "message list \<Rightarrow> retained_tool_message list" where
  "retained_view messages = rev (retain_back max_request_tool_images (rev messages))"

definition for_call :: "retained_tool_message list \<Rightarrow> string \<Rightarrow> image_input list option" where
  "for_call view tool_call_id = map_option rt_images (find (\<lambda>m. rt_tool_call_id m = tool_call_id) view)"

subsection \<open>Internal context\<close>

datatype internal_context_kind = RuntimeKind | MemoryKind | GoalKind | PlanKind | SkillKind

text \<open>The derived order is the order of declaration.\<close>

fun kind_index :: "internal_context_kind \<Rightarrow> nat" where
  "kind_index RuntimeKind = 0"
| "kind_index MemoryKind = 1"
| "kind_index GoalKind = 2"
| "kind_index PlanKind = 3"
| "kind_index SkillKind = 4"

lemma kind_index_inj: "kind_index a = kind_index b \<longleftrightarrow> a = b"
  by (cases a; cases b) simp_all

instantiation internal_context_kind :: linorder
begin

definition less_eq_internal_context_kind :: "internal_context_kind \<Rightarrow> internal_context_kind \<Rightarrow> bool" where
  "less_eq_internal_context_kind a b \<longleftrightarrow> kind_index a \<le> kind_index b"

definition less_internal_context_kind :: "internal_context_kind \<Rightarrow> internal_context_kind \<Rightarrow> bool" where
  "less_internal_context_kind a b \<longleftrightarrow> kind_index a < kind_index b"

instance
  by intro_classes
     (auto simp: less_eq_internal_context_kind_def less_internal_context_kind_def kind_index_inj)

end

datatype internal_context_origin = SystemOrigin | GoalRuntimeOrigin | ModelOrigin | UserOrigin

record internal_context_fragment =
  if_id :: string
  if_kind :: internal_context_kind
  if_origin :: internal_context_origin
  if_content :: string
  if_max_tokens :: nat

record internal_context =
  ic_fragments :: "internal_context_fragment list"
  ic_plan_age_turns :: nat

definition plan_reminder_after_turns :: nat where
  "plan_reminder_after_turns = 10"

definition plan_reminder :: string where
  "plan_reminder = ''[Plan reminder] The pinned plan above has open steps but has not been updated for a while. If steps were finished, call update_plan now with every step'' @ [CHR 0x27] @ ''s current status. If the plan no longer matches the work, replace or clear it via update_plan. Do not announce completion while the plan still shows open steps.''"

definition context_get :: "string \<Rightarrow> internal_context \<Rightarrow> internal_context_fragment option" where
  "context_get i ctx = find (\<lambda>f. if_id f = i) (ic_fragments ctx)"

fun replace_fragment :: "internal_context_fragment \<Rightarrow> internal_context_fragment list \<Rightarrow> internal_context_fragment list" where
  "replace_fragment fragment [] = [fragment]"
| "replace_fragment fragment (f # fs) =
     (if if_id f = if_id fragment then fragment # fs else f # replace_fragment fragment fs)"

definition context_replace :: "internal_context_fragment \<Rightarrow> internal_context \<Rightarrow> internal_context" where
  "context_replace fragment ctx = ctx\<lparr>ic_fragments := replace_fragment fragment (ic_fragments ctx)\<rparr>"

definition context_remove :: "string \<Rightarrow> internal_context \<Rightarrow> internal_context" where
  "context_remove i ctx = ctx\<lparr>ic_fragments := filter (\<lambda>f. if_id f \<noteq> i) (ic_fragments ctx)\<rparr>"

definition note_assistant_turn :: "internal_context \<Rightarrow> internal_context" where
  "note_assistant_turn ctx =
     (if context_get ''plan'' ctx \<noteq> None
      then ctx\<lparr>ic_plan_age_turns := sat_add u32_max (ic_plan_age_turns ctx) 1\<rparr> else ctx)"

definition plan_reminder_due :: "internal_context \<Rightarrow> bool" where
  "plan_reminder_due ctx \<longleftrightarrow>
     plan_reminder_after_turns \<le> ic_plan_age_turns ctx
     \<and> is_some_and (context_get ''plan'' ctx)
         (\<lambda>plan. str_contains (if_content plan) ''[in_progress]'' \<or> str_contains (if_content plan) ''[pending]'')"

definition rendered_fragments :: "internal_context \<Rightarrow> internal_context_fragment list" where
  "rendered_fragments ctx =
     (let fragments = sort_key if_kind (ic_fragments ctx)
      in if plan_reminder_due ctx
         then unwrap_or
                (update_first (\<lambda>f. if_id f = ''plan'')
                  (\<lambda>f. f\<lparr>if_content := if_content f @ [CHR 0x0A, CHR 0x0A] @ plan_reminder\<rparr>) fragments)
                fragments
         else fragments)"

fun join :: "string \<Rightarrow> string list \<Rightarrow> string" where
  "join sep [] = []"
| "join sep [x] = x"
| "join sep (x # xs) = x @ sep @ join sep xs"

definition render :: "internal_context \<Rightarrow> string" where
  "render ctx = join [CHR 0x0A, CHR 0x0A] (map if_content (rendered_fragments ctx))"

subsection \<open>The conversation\<close>

record summary_state =
  su_baseline :: "string option"
  su_deltas :: "string list"

definition latest_rolling :: "summary_state \<Rightarrow> string option" where
  "latest_rolling s = (if su_deltas s \<noteq> [] then Some (last (su_deltas s)) else su_baseline s)"

definition total_tokens :: "(string \<Rightarrow> nat) \<Rightarrow> summary_state \<Rightarrow> nat" where
  "total_tokens counter s =
     (case su_baseline s of Some b \<Rightarrow> counter b | None \<Rightarrow> 0) + sum_list (map counter (su_deltas s))"

record usage_anchor =
  ua_prompt_tokens :: nat
  ua_estimated_tokens :: nat
  ua_message_count :: nat
  ua_boundary :: nat

record conversation =
  cv_messages :: "message list"
  cv_internal_context :: internal_context
  cv_rolling_summary :: "string option"
  cv_summary :: summary_state
  cv_usage_anchor :: "usage_anchor option"
  cv_retained_tool_images :: "retained_tool_message list option"

definition conversation_new :: conversation where
  "conversation_new =
     \<lparr>cv_messages = [], cv_internal_context = \<lparr>ic_fragments = [], ic_plan_age_turns = 0\<rparr>, cv_rolling_summary = None,
      cv_summary = \<lparr>su_baseline = None, su_deltas = []\<rparr>, cv_usage_anchor = None, cv_retained_tool_images = None\<rparr>"

definition conversation_clone :: "conversation \<Rightarrow> conversation" where
  "conversation_clone c = c\<lparr>cv_retained_tool_images := None\<rparr>"

definition refresh_retained_tool_images :: "conversation \<Rightarrow> conversation" where
  "refresh_retained_tool_images c =
     (case cv_retained_tool_images c of
        Some _ \<Rightarrow> c\<lparr>cv_retained_tool_images := Some (retained_view (cv_messages c))\<rparr>
      | None \<Rightarrow> c)"

definition retained_tool_images :: "conversation \<Rightarrow> conversation" where
  "retained_tool_images c = c\<lparr>cv_retained_tool_images := Some (retained_view (cv_messages c))\<rparr>"

definition adopt :: "conversation \<Rightarrow> conversation \<Rightarrow> conversation" where
  "adopt replacement c =
     refresh_retained_tool_images (replacement\<lparr>cv_retained_tool_images := cv_retained_tool_images c\<rparr>)"

definition push_message :: "message \<Rightarrow> conversation \<Rightarrow> conversation" where
  "push_message m c = c\<lparr>cv_messages := cv_messages c @ [m]\<rparr>"

definition add_system :: "string \<Rightarrow> conversation \<Rightarrow> conversation" where
  "add_system content = push_message (SystemMessage content False)"

definition add_system_pinned :: "string \<Rightarrow> conversation \<Rightarrow> conversation" where
  "add_system_pinned content = push_message (SystemMessage content True)"

definition add_user :: "string \<Rightarrow> conversation \<Rightarrow> conversation" where
  "add_user content = push_message (UserMessage content [] False)"

definition add_user_with_images :: "string \<Rightarrow> image_input list \<Rightarrow> conversation \<Rightarrow> conversation" where
  "add_user_with_images content images = push_message (UserMessage content images False)"

definition add_user_pinned :: "string \<Rightarrow> conversation \<Rightarrow> conversation" where
  "add_user_pinned content = push_message (UserMessage content [] True)"

definition replace_internal_context ::
    "string \<Rightarrow> internal_context_kind \<Rightarrow> internal_context_origin \<Rightarrow> string option \<Rightarrow> nat \<Rightarrow> conversation \<Rightarrow> conversation" where
  "replace_internal_context i kind origin content max_tokens c =
     (case option_filter (\<lambda>s. trim s \<noteq> []) content of
        Some content \<Rightarrow>
          c\<lparr>cv_internal_context := context_replace
             \<lparr>if_id = i, if_kind = kind, if_origin = origin, if_content = content, if_max_tokens = max max_tokens 1\<rparr>
             (cv_internal_context c)\<rparr>
      | None \<Rightarrow> c\<lparr>cv_internal_context := context_remove i (cv_internal_context c)\<rparr>)"

definition titled :: "string \<Rightarrow> string option \<Rightarrow> string option" where
  "titled title content = map_option (\<lambda>s. title @ [CHR 0x0A] @ s) (option_filter (\<lambda>s. trim s \<noteq> []) content)"

definition replace_plan_state :: "string \<Rightarrow> conversation \<Rightarrow> conversation" where
  "replace_plan_state content c =
     c\<lparr>cv_internal_context :=
        (context_replace
          \<lparr>if_id = ''plan'', if_kind = PlanKind, if_origin = ModelOrigin, if_content = content, if_max_tokens = 4096\<rparr>
          (cv_internal_context c))\<lparr>ic_plan_age_turns := 0\<rparr>\<rparr>"

definition replace_goal_state :: "string option \<Rightarrow> conversation \<Rightarrow> conversation" where
  "replace_goal_state content =
     replace_internal_context ''goal'' GoalKind GoalRuntimeOrigin (titled ''[Goal state]'' content) 4096"

definition replace_runtime_context :: "string option \<Rightarrow> conversation \<Rightarrow> conversation" where
  "replace_runtime_context content =
     replace_internal_context ''runtime'' RuntimeKind SystemOrigin (titled ''[Runtime context]'' content) 1024"

definition replace_mode_context :: "string option \<Rightarrow> conversation \<Rightarrow> conversation" where
  "replace_mode_context content =
     replace_internal_context ''mode'' RuntimeKind SystemOrigin (titled ''[Mode context]'' content) 2048"

definition replace_skill_context :: "string option \<Rightarrow> conversation \<Rightarrow> conversation" where
  "replace_skill_context content =
     replace_internal_context ''skill'' SkillKind UserOrigin (titled ''[Skill context]'' content) 4096"

definition replace_memory_context :: "string option \<Rightarrow> conversation \<Rightarrow> conversation" where
  "replace_memory_context content =
     replace_internal_context ''memory'' MemoryKind SystemOrigin (titled ''[Relevant memory]'' content) 3072"

fun legacy_pinned_volatile :: "message \<Rightarrow> bool" where
  "legacy_pinned_volatile (SystemMessage content True) \<longleftrightarrow>
     starts_with content ''[Pinned plan state]'' \<or> starts_with content ''[Pinned goal state]''
     \<or> starts_with content ''[Pinned skill context]''"
| "legacy_pinned_volatile _ \<longleftrightarrow> False"

definition strip_legacy_pinned_volatile :: "conversation \<Rightarrow> conversation" where
  "strip_legacy_pinned_volatile c = c\<lparr>cv_messages := filter (\<lambda>m. \<not> legacy_pinned_volatile m) (cv_messages c)\<rparr>"

fun legacy_summary :: "message \<Rightarrow> bool" where
  "legacy_summary (SystemMessage content False) \<longleftrightarrow>
     starts_with content ''[Summary of earlier conversation]''
     \<or> starts_with content ''[Earlier conversation history was truncated''"
| "legacy_summary _ \<longleftrightarrow> False"

definition strip_legacy_summary_messages :: "conversation \<Rightarrow> conversation" where
  "strip_legacy_summary_messages c = c\<lparr>cv_messages := filter (\<lambda>m. \<not> legacy_summary m) (cv_messages c)\<rparr>"

fun unpin_notice :: "message \<Rightarrow> message" where
  "unpin_notice (SystemMessage content pinned) =
     SystemMessage content (if pinned \<and> is_delivered_notice content then False else pinned)"
| "unpin_notice m = m"

definition unpin_delivered_notices :: "conversation \<Rightarrow> conversation" where
  "unpin_delivered_notices c = c\<lparr>cv_messages := map unpin_notice (cv_messages c)\<rparr>"

definition add_assistant ::
    "string option \<Rightarrow> string option \<Rightarrow> raw_tool_call list \<Rightarrow> conversation \<Rightarrow> conversation" where
  "add_assistant content reasoning_content tool_calls c =
     push_message (AssistantMessage content reasoning_content tool_calls False)
       (c\<lparr>cv_internal_context := note_assistant_turn (cv_internal_context c)\<rparr>)"

definition add_tool_result :: "string \<Rightarrow> string \<Rightarrow> conversation \<Rightarrow> conversation" where
  "add_tool_result tool_call_id content = push_message (ToolMessage tool_call_id content [] None False)"

definition add_tool_result_with_terminal :: "tool_result \<Rightarrow> string \<Rightarrow> conversation \<Rightarrow> conversation" where
  "add_tool_result_with_terminal result content c =
     (let added_images = (tr_images result \<noteq> []);
          c = push_message (ToolMessage (tr_id result) content (tr_images result) (Some (tr_terminal result)) False) c;
          (messages, trimmed_images) = keep_newest_tool_images (cv_messages c) max_request_tool_images;
          c = c\<lparr>cv_messages := messages\<rparr>
      in if added_images \<or> trimmed_images \<noteq> 0 then refresh_retained_tool_images c else c)"

fun prompt_of :: "(string \<Rightarrow> json_value option) \<Rightarrow> message \<Rightarrow> string option" where
  "prompt_of from_json (UserMessage content images _) =
     (if images \<noteq> [] \<or> \<not> is_internal_image_analysis from_json content then Some content else None)"
| "prompt_of from_json _ = None"

definition last_user_message :: "(string \<Rightarrow> json_value option) \<Rightarrow> conversation \<Rightarrow> string option" where
  "last_user_message from_json c =
     Option.bind (find (\<lambda>m. prompt_of from_json m \<noteq> None) (rev (cv_messages c))) (prompt_of from_json)"

fun backtrack_target :: "(string \<Rightarrow> json_value option) \<Rightarrow> message \<Rightarrow> bool" where
  "backtrack_target from_json (UserMessage content images pinned) \<longleftrightarrow>
     \<not> pinned \<and> (images \<noteq> [] \<or> \<not> is_internal_image_analysis from_json content)"
| "backtrack_target from_json _ \<longleftrightarrow> False"

fun rposition :: "('a \<Rightarrow> bool) \<Rightarrow> 'a list \<Rightarrow> nat option" where
  "rposition p [] = None"
| "rposition p (x # xs) =
     (case rposition p xs of Some i \<Rightarrow> Some (Suc i) | None \<Rightarrow> if p x then Some 0 else None)"

definition backtrack_last_user ::
    "(string \<Rightarrow> json_value option) \<Rightarrow> conversation \<Rightarrow> string option \<times> conversation" where
  "backtrack_last_user from_json c =
     (case rposition (backtrack_target from_json) (cv_messages c) of
        None \<Rightarrow> (None, c)
      | Some index \<Rightarrow>
          (content_str (cv_messages c ! index),
           refresh_retained_tool_images (c\<lparr>cv_messages := take index (cv_messages c)\<rparr>)))"

subsection \<open>The usage anchor\<close>

datatype fingerprint_key =
    SystemKey string
  | UserKey string nat
  | AssistantKey "string option" "string list"
  | ToolKey string string

fun fingerprint_of :: "message \<Rightarrow> fingerprint_key" where
  "fingerprint_of (SystemMessage content _) = SystemKey content"
| "fingerprint_of (UserMessage content images _) = UserKey content (length images)"
| "fingerprint_of (AssistantMessage content _ calls _) = AssistantKey content (map rc_id calls)"
| "fingerprint_of (ToolMessage i content _ _ _) = ToolKey i content"

definition message_fingerprint :: "(fingerprint_key \<Rightarrow> nat) \<Rightarrow> message \<Rightarrow> nat" where
  "message_fingerprint hash m = hash (fingerprint_of m)"

definition boundary_message :: "message list \<Rightarrow> nat \<Rightarrow> message option" where
  "boundary_message messages n =
     (case n of 0 \<Rightarrow> None | Suc i \<Rightarrow> if i < length messages then Some (messages ! i) else None)"

definition record_usage_anchor ::
    "(fingerprint_key \<Rightarrow> nat) \<Rightarrow> nat \<Rightarrow> nat \<Rightarrow> nat \<Rightarrow> conversation \<Rightarrow> conversation" where
  "record_usage_anchor hash prompt_tokens estimated_tokens message_count c =
     c\<lparr>cv_usage_anchor := map_option
        (\<lambda>boundary. \<lparr>ua_prompt_tokens = prompt_tokens, ua_estimated_tokens = estimated_tokens,
                     ua_message_count = message_count, ua_boundary = message_fingerprint hash boundary\<rparr>)
        (boundary_message (cv_messages c) message_count)\<rparr>"

definition valid_usage_anchor :: "(fingerprint_key \<Rightarrow> nat) \<Rightarrow> conversation \<Rightarrow> usage_anchor option" where
  "valid_usage_anchor hash c =
     (case cv_usage_anchor c of
        None \<Rightarrow> None
      | Some anchor \<Rightarrow>
          (case boundary_message (cv_messages c) (ua_message_count anchor) of
             None \<Rightarrow> None
           | Some boundary \<Rightarrow>
               if message_fingerprint hash boundary = ua_boundary anchor then Some anchor else None))"

definition clear_usage_anchor :: "conversation \<Rightarrow> conversation" where
  "clear_usage_anchor c = c\<lparr>cv_usage_anchor := None\<rparr>"

subsection \<open>What the budget keeps\<close>

lemma drop_oldest_spec:
  "concat (map tool_images (fst (drop_oldest n ms))) = drop n (concat (map tool_images ms))
   \<and> snd (drop_oldest n ms) = min n (length (concat (map tool_images ms)))"
proof (induction ms arbitrary: n)
  case (Cons m ms)
  show ?case
  proof (cases "n = 0")
    case False
    then show ?thesis
      using Cons.IH [of n] Cons.IH [of "n - min (length (tool_images m)) n"]
      by (cases m; cases "tool_images m = []") (auto simp: Let_def min_def split: prod.splits)
  qed simp
qed simp

lemma keep_newest_spec:
  "concat (map tool_images (fst (keep_newest_tool_images ms keep)))
     = drop (length (concat (map tool_images ms)) - keep) (concat (map tool_images ms))"
  "snd (keep_newest_tool_images ms keep) = length (concat (map tool_images ms)) - keep"
  using drop_oldest_spec [of "length (concat (map tool_images ms)) - keep" ms]
  by (simp_all add: keep_newest_tool_images_def length_concat comp_def)

fun view_entry :: "message \<Rightarrow> retained_tool_message list" where
  "view_entry (ToolMessage i _ images _ _) = (if images = [] then [] else [\<lparr>rt_tool_call_id = i, rt_images = images\<rparr>])"
| "view_entry _ = []"

definition image_messages :: "message list \<Rightarrow> retained_tool_message list" where
  "image_messages ms = concat (map view_entry ms)"

definition image_total :: "message list \<Rightarrow> nat" where
  "image_total ms = sum_list (map (length \<circ> tool_images) ms)"

lemma image_total_zero: "image_total ms = 0 \<Longrightarrow> image_messages ms = []"
proof (induction ms)
  case (Cons m ms)
  then show ?case by (cases m) (simp_all add: image_total_def image_messages_def)
qed (simp add: image_messages_def)

lemma retain_back_all: "image_total ms \<le> remaining \<Longrightarrow> retain_back remaining ms = image_messages ms"
proof (induction ms arbitrary: remaining)
  case (Cons m ms)
  show ?case
  proof (cases m)
    case (ToolMessage i content images terminal pinned)
    show ?thesis
    proof (cases "images = []")
      case True
      with ToolMessage Cons show ?thesis by (simp add: image_total_def image_messages_def)
    next
      case ne: False
      have fits: "image_total ms \<le> remaining - length images" "length images \<le> remaining"
        using Cons.prems ToolMessage by (simp_all add: image_total_def)
      show ?thesis
      proof (cases "remaining - length images = 0")
        case True
        then have "image_messages ms = []" using fits(1) image_total_zero by simp
        with True ne ToolMessage fits show ?thesis by (simp add: image_messages_def)
      next
        case False
        then have "retain_back (remaining - length images) ms = image_messages ms"
          using Cons.IH fits(1) by blast
        with False ne ToolMessage fits show ?thesis by (simp add: image_messages_def Let_def)
      qed
    qed
  qed (use Cons in \<open>simp_all add: image_total_def image_messages_def\<close>)
qed (simp add: image_messages_def)

lemma rev_view_entry: "rev (view_entry m) = view_entry m"
  by (cases m) simp_all

lemma image_messages_rev: "rev (image_messages (rev ms)) = image_messages ms"
  by (simp add: image_messages_def rev_concat rev_map [symmetric] comp_def rev_view_entry)

lemma image_total_rev: "image_total (rev ms) = image_total ms"
  by (simp add: image_total_def rev_map [symmetric])

lemma retained_view_all: "image_total ms \<le> max_request_tool_images \<Longrightarrow> retained_view ms = image_messages ms"
  by (simp add: retained_view_def retain_back_all image_total_rev image_messages_rev)

subsection \<open>The invariant\<close>

definition fragments_ok :: "internal_context_fragment list \<Rightarrow> bool" where
  "fragments_ok fs \<longleftrightarrow> distinct (map if_id fs) \<and> list_all (\<lambda>f. 1 \<le> if_max_tokens f) fs"

lemma replace_fragment_ids:
  "set (map if_id (replace_fragment f fs)) = insert (if_id f) (set (map if_id fs))"
  by (induction fs) auto

lemma fragments_ok_replace: "fragments_ok fs \<Longrightarrow> 1 \<le> if_max_tokens f \<Longrightarrow> fragments_ok (replace_fragment f fs)"
proof (induction fs)
  case (Cons g fs)
  then show ?case
    using replace_fragment_ids [of f fs] by (auto simp: fragments_ok_def)
qed (simp add: fragments_ok_def)

lemma fragments_ok_filter: "fragments_ok fs \<Longrightarrow> fragments_ok (filter p fs)"
  by (auto simp: fragments_ok_def distinct_map_filter list_all_iff)

definition conversation_ok :: "conversation \<Rightarrow> bool" where
  "conversation_ok c \<longleftrightarrow>
     fragments_ok (ic_fragments (cv_internal_context c))
     \<and> image_total (cv_messages c) \<le> max_request_tool_images
     \<and> is_none_or (cv_retained_tool_images c) (\<lambda>v. v = image_messages (cv_messages c))"

datatype conversation_op =
    AddSystem string | AddSystemPinned string | AddUser string | AddUserWithImages string "image_input list"
  | AddUserPinned string | AddAssistant "string option" "string option" "raw_tool_call list"
  | AddToolResult string string | AddToolResultWithTerminal tool_result string
  | ReplacePlanState string | ReplaceGoalState "string option" | ReplaceRuntimeContext "string option"
  | ReplaceModeContext "string option" | ReplaceSkillContext "string option" | ReplaceMemoryContext "string option"
  | StripLegacyPinnedVolatile | StripLegacySummaryMessages | UnpinDeliveredNotices
  | BacktrackLastUser "string \<Rightarrow> json_value option" | RetainedToolImages
  | RecordUsageAnchor "fingerprint_key \<Rightarrow> nat" nat nat nat | ClearUsageAnchor

fun conversation_step :: "conversation_op \<Rightarrow> conversation \<Rightarrow> conversation" where
  "conversation_step (AddSystem s) = add_system s"
| "conversation_step (AddSystemPinned s) = add_system_pinned s"
| "conversation_step (AddUser s) = add_user s"
| "conversation_step (AddUserWithImages s images) = add_user_with_images s images"
| "conversation_step (AddUserPinned s) = add_user_pinned s"
| "conversation_step (AddAssistant s r calls) = add_assistant s r calls"
| "conversation_step (AddToolResult i s) = add_tool_result i s"
| "conversation_step (AddToolResultWithTerminal r s) = add_tool_result_with_terminal r s"
| "conversation_step (ReplacePlanState s) = replace_plan_state s"
| "conversation_step (ReplaceGoalState s) = replace_goal_state s"
| "conversation_step (ReplaceRuntimeContext s) = replace_runtime_context s"
| "conversation_step (ReplaceModeContext s) = replace_mode_context s"
| "conversation_step (ReplaceSkillContext s) = replace_skill_context s"
| "conversation_step (ReplaceMemoryContext s) = replace_memory_context s"
| "conversation_step StripLegacyPinnedVolatile = strip_legacy_pinned_volatile"
| "conversation_step StripLegacySummaryMessages = strip_legacy_summary_messages"
| "conversation_step UnpinDeliveredNotices = unpin_delivered_notices"
| "conversation_step (BacktrackLastUser from_json) = (\<lambda>c. snd (backtrack_last_user from_json c))"
| "conversation_step RetainedToolImages = retained_tool_images"
| "conversation_step (RecordUsageAnchor hash p e n) = record_usage_anchor hash p e n"
| "conversation_step ClearUsageAnchor = clear_usage_anchor"

lemma image_append [simp]:
  "image_messages (a @ b) = image_messages a @ image_messages b"
  "image_total (a @ b) = image_total a + image_total b"
  by (simp_all add: image_messages_def image_total_def)

lemma push_ok:
  assumes "conversation_ok c" "tool_images m = []"
  shows "conversation_ok (push_message m c)"
proof -
  have "image_messages [m] = []" "image_total [m] = 0"
    using assms(2) by (cases m; simp add: image_messages_def image_total_def)+
  with assms(1) show ?thesis by (simp add: conversation_ok_def push_message_def is_none_or_def split: option.splits)
qed

lemma images_unchanged:
  assumes "\<And>m. tool_images m \<noteq> [] \<Longrightarrow> keep m"
  shows "image_messages (filter keep ms) = image_messages ms" "image_total (filter keep ms) = image_total ms"
proof -
  have "view_entry m = []" "tool_images m = []" if "\<not> keep m" for m
    using assms [of m] that by (cases m; auto)+
  then show "image_messages (filter keep ms) = image_messages ms" "image_total (filter keep ms) = image_total ms"
    by (induction ms) (simp_all add: image_messages_def image_total_def)
qed

lemma filter_ok:
  assumes "conversation_ok c" "\<And>m. tool_images m \<noteq> [] \<Longrightarrow> keep m"
  shows "conversation_ok (c\<lparr>cv_messages := filter keep (cv_messages c)\<rparr>)"
  using assms images_unchanged [of keep] by (simp add: conversation_ok_def)

lemma refresh_ok:
  assumes "fragments_ok (ic_fragments (cv_internal_context c))" "image_total (cv_messages c) \<le> max_request_tool_images"
  shows "conversation_ok (refresh_retained_tool_images c)"
  using assms retained_view_all [OF assms(2)]
  by (cases "cv_retained_tool_images c") (simp_all add: conversation_ok_def refresh_retained_tool_images_def is_none_or_def)

lemma replace_internal_context_ok:
  assumes "conversation_ok c"
  shows "conversation_ok (replace_internal_context i kind origin content max_tokens c)"
  using assms fragments_ok_replace fragments_ok_filter
  by (cases "option_filter (\<lambda>s. trim s \<noteq> []) content")
     (simp_all add: conversation_ok_def replace_internal_context_def context_replace_def context_remove_def)

lemma add_tool_result_with_terminal_ok:
  assumes "conversation_ok c"
  shows "conversation_ok (add_tool_result_with_terminal r s c)"
proof -
  define m where "m = ToolMessage (tr_id r) s (tr_images r) (Some (tr_terminal r)) False"
  define ms where "ms = cv_messages c @ [m]"
  have total: "image_total xs = length (concat (map tool_images xs))" for xs
    by (simp add: image_total_def length_concat comp_def)
  have kept: "image_total (fst (keep_newest_tool_images ms max_request_tool_images)) \<le> max_request_tool_images"
    using keep_newest_spec(1) [of ms max_request_tool_images] by (simp add: total)
  let ?k = "keep_newest_tool_images ms max_request_tool_images"
  show ?thesis
  proof (cases "tr_images r \<noteq> [] \<or> snd ?k \<noteq> 0")
    case True
    then show ?thesis
      using refresh_ok [of "c\<lparr>cv_messages := fst ?k\<rparr>"] kept assms
      by (auto simp: add_tool_result_with_terminal_def push_message_def ms_def m_def Let_def conversation_ok_def
          split: prod.splits)
  next
    case False
    then have "image_total ms \<le> max_request_tool_images" using keep_newest_spec(2) by (simp add: total)
    then have "?k = (ms, 0)"
      by (cases ms) (simp_all add: keep_newest_tool_images_def image_total_def)
    with False have "add_tool_result_with_terminal r s c = push_message m c"
      by (simp add: add_tool_result_with_terminal_def push_message_def ms_def m_def Let_def)
    with False push_ok [OF assms, of m] show ?thesis by (simp add: m_def)
  qed
qed

lemma images_take: "image_total (take n ms) \<le> image_total ms"
  by (metis append_take_drop_id image_append(2) le_add1)

lemma backtrack_ok:
  assumes "conversation_ok c"
  shows "conversation_ok (snd (backtrack_last_user from_json c))"
proof (cases "rposition (backtrack_target from_json) (cv_messages c)")
  case (Some i)
  have "conversation_ok (refresh_retained_tool_images (c\<lparr>cv_messages := take i (cv_messages c)\<rparr>))"
    using assms images_take [of i "cv_messages c"] by (intro refresh_ok) (auto simp: conversation_ok_def)
  with Some show ?thesis by (simp add: backtrack_last_user_def)
qed (simp add: assms backtrack_last_user_def)

lemma unpin_images:
  "image_messages (map unpin_notice ms) = image_messages ms" "image_total (map unpin_notice ms) = image_total ms"
proof -
  have "view_entry (unpin_notice m) = view_entry m" "tool_images (unpin_notice m) = tool_images m" for m
    by (cases m; simp)+
  then show "image_messages (map unpin_notice ms) = image_messages ms" "image_total (map unpin_notice ms) = image_total ms"
    by (simp_all add: image_messages_def image_total_def comp_def)
qed

lemma legacy_keeps_tools: "tool_images m \<noteq> [] \<Longrightarrow> \<not> legacy_pinned_volatile m \<and> \<not> legacy_summary m"
  by (cases m) simp_all

lemmas pushing_defs = add_system_def add_system_pinned_def add_user_def add_user_with_images_def add_user_pinned_def
  add_tool_result_def add_assistant_def

lemmas context_defs = replace_goal_state_def replace_runtime_context_def replace_mode_context_def
  replace_skill_context_def replace_memory_context_def

interpretation conversation: guarded_machine conversation_step conversation_ok
proof
  fix c e
  assume ok: "conversation_ok c"
  have noted: "conversation_ok (c\<lparr>cv_internal_context := note_assistant_turn (cv_internal_context c)\<rparr>)"
    using ok by (simp add: conversation_ok_def note_assistant_turn_def)
  have plan: "conversation_ok (replace_plan_state s c)" for s
    using ok fragments_ok_replace by (simp add: conversation_ok_def replace_plan_state_def context_replace_def)
  have strips: "conversation_ok (strip_legacy_pinned_volatile c)" "conversation_ok (strip_legacy_summary_messages c)"
    using ok legacy_keeps_tools
    by (auto simp: strip_legacy_pinned_volatile_def strip_legacy_summary_messages_def intro!: filter_ok)
  have unpin: "conversation_ok (unpin_delivered_notices c)"
    using ok by (simp add: unpin_delivered_notices_def conversation_ok_def unpin_images)
  have view: "conversation_ok (retained_tool_images c)"
    using ok retained_view_all by (simp add: retained_tool_images_def conversation_ok_def is_none_or_def)
  have anchor: "conversation_ok (record_usage_anchor h p q n c)" "conversation_ok (clear_usage_anchor c)" for h p q n
    using ok by (simp_all add: record_usage_anchor_def clear_usage_anchor_def conversation_ok_def)
  show "conversation_ok (conversation_step e c)"
    by (cases e)
       (simp_all add: pushing_defs context_defs push_ok [OF ok] push_ok [OF noted] plan strips unpin view anchor
         replace_internal_context_ok [OF ok] add_tool_result_with_terminal_ok [OF ok] backtrack_ok [OF ok])
qed

text \<open>Every conversation the operations lead to, a clone of one, and one that adopted another.\<close>

inductive conversation_reachable :: "conversation \<Rightarrow> bool" where
  new: "conversation_reachable conversation_new"
| step: "conversation_reachable c \<Longrightarrow> conversation_reachable (conversation_step e c)"
| clone: "conversation_reachable c \<Longrightarrow> conversation_reachable (conversation_clone c)"
| adopt: "conversation_reachable c \<Longrightarrow> conversation_reachable d \<Longrightarrow> conversation_reachable (adopt d c)"

lemma reachable_conversation_ok: "conversation_reachable c \<Longrightarrow> conversation_ok c"
proof (induction rule: conversation_reachable.induct)
  case new
  show ?case by (simp add: conversation_ok_def conversation_new_def fragments_ok_def image_total_def is_none_or_def)
next
  case (step c e)
  then show ?case by (intro conversation.step_inv)
next
  case (clone c)
  then show ?case by (simp add: conversation_clone_def conversation_ok_def is_none_or_def)
next
  case (adopt c d)
  then show ?case unfolding adopt_def by (intro refresh_ok) (simp_all add: conversation_ok_def)
qed

lemma find_image_messages:
  "map_option rt_images (find (\<lambda>r. rt_tool_call_id r = i) (image_messages ms)) =
   map_option tool_images (find (\<lambda>m. tool_images m \<noteq> [] \<and> (\<exists>s im t p. m = ToolMessage i s im t p)) ms)"
proof (induction ms)
  case (Cons m ms)
  then show ?case by (cases m) (auto simp: image_messages_def)
qed (simp add: image_messages_def)

subsection \<open>Properties\<close>

text \<open>
  What holds of every conversation. However messages and results are added, stripped, rewound, cloned and
  adopted, at most three tool images are kept, every context fragment has its own identifier and room for a
  token, and whoever reads the shared view of tool images sees exactly the images the messages hold: for a
  call, those of its first message that has any.
\<close>
theorem conversations_stay_bounded:
  assumes "conversation_reachable c"
  shows "length (concat (map tool_images (cv_messages c))) \<le> max_request_tool_images
    \<and> distinct (map if_id (ic_fragments (cv_internal_context c)))
    \<and> (\<forall>f \<in> set (ic_fragments (cv_internal_context c)). 1 \<le> if_max_tokens f)
    \<and> (\<forall>view i. cv_retained_tool_images c = Some view \<longrightarrow>
          for_call view i =
            map_option tool_images
              (find (\<lambda>m. tool_images m \<noteq> [] \<and> (\<exists>s im t p. m = ToolMessage i s im t p)) (cv_messages c)))"
proof -
  from reachable_conversation_ok [OF assms] have ok: "fragments_ok (ic_fragments (cv_internal_context c))"
      "image_total (cv_messages c) \<le> max_request_tool_images"
      "is_none_or (cv_retained_tool_images c) (\<lambda>v. v = image_messages (cv_messages c))"
    by (simp_all add: conversation_ok_def)
  then show ?thesis
    by (auto simp: fragments_ok_def list_all_iff image_total_def length_concat comp_def for_call_def
        is_none_or_def find_image_messages)
qed

theorem conversations_stay_bounded_witness:
  "conversation_reachable (add_user ''hi'' conversation_new)
   \<and> length (concat (map tool_images (cv_messages (add_user ''hi'' conversation_new)))) \<le> 3"
proof -
  have "conversation_reachable (conversation_step (AddUser ''hi'') conversation_new)"
    by (intro conversation_reachable.intros)
  then have "conversation_reachable (add_user ''hi'' conversation_new)" by simp
  with conversations_stay_bounded [OF this] show ?thesis by (simp add: max_request_tool_images_def)
qed

text \<open>
  When a usage anchor is trusted. An anchor recorded for a non-empty beginning of the messages stays valid
  while messages are only appended, is gone once the history is cut before the message it measured, and is
  refused when another message stands there whose fingerprint differs.
\<close>
theorem usage_anchor_follows_history:
  fixes hash :: "fingerprint_key \<Rightarrow> nat" and c :: conversation and n p e :: nat
  assumes "0 < n" "n \<le> length (cv_messages c)"
  defines "c' \<equiv> record_usage_anchor hash p e n c"
  shows "(\<exists>anchor. cv_usage_anchor c' = Some anchor \<and> ua_prompt_tokens anchor = p \<and> ua_estimated_tokens anchor = e
          \<and> (\<forall>later. valid_usage_anchor hash (c'\<lparr>cv_messages := cv_messages c @ later\<rparr>) = Some anchor))
    \<and> (\<forall>k<n. valid_usage_anchor hash (c'\<lparr>cv_messages := take k (cv_messages c)\<rparr>) = None)
    \<and> (\<forall>ms. n \<le> length ms \<and> message_fingerprint hash (ms ! (n - 1)) \<noteq> message_fingerprint hash (cv_messages c ! (n - 1))
          \<longrightarrow> valid_usage_anchor hash (c'\<lparr>cv_messages := ms\<rparr>) = None)"
proof -
  obtain i where i: "n = Suc i" using assms(1) by (cases n) auto
  then show ?thesis
    using assms(2)
    by (auto simp: c'_def record_usage_anchor_def valid_usage_anchor_def boundary_message_def nth_append)
qed

theorem usage_anchor_follows_history_witness:
  "\<exists>anchor. valid_usage_anchor (\<lambda>_. 0)
     (add_user ''b'' (record_usage_anchor (\<lambda>_. 0) 7 8 1 (add_user ''a'' conversation_new))) = Some anchor
   \<and> ua_prompt_tokens anchor = 7"
  using usage_anchor_follows_history [of 1 "add_user ''a'' conversation_new" "\<lambda>_. 0" 7 8]
  by (auto simp: add_user_def push_message_def conversation_new_def record_usage_anchor_def)

end
