(* ===== verification/Tool_Boundaries.thy ===== *)
theory Tool_Boundaries
  imports Conversation
begin

text \<open>
  The repair of a message list before it is sent or resumed: \<^verbatim>\<open>normalize_tool_boundaries\<close> and its helpers in
  \<^verbatim>\<open>crates/orca-core/src/conversation.rs\<close>. Providers accept a history only when every tool call is
  answered by exactly one result right after the message that made it; the theory states that shape as
  \<open>paired\<close> and shows that the repair always reaches it and changes nothing that has it.
\<close>

subsection \<open>The repair\<close>

definition assistant_message_has_payload :: "string option \<Rightarrow> raw_tool_call list \<Rightarrow> bool" where
  "assistant_message_has_payload content tool_calls \<longleftrightarrow>
     is_some_and content (\<lambda>s. trim s \<noteq> []) \<or> tool_calls \<noteq> []"

definition missing_tool_terminal_error :: string where
  "missing_tool_terminal_error = ''Tool invocation outcome is indeterminate because its terminal result was missing from recovered history. Inspect external state before retrying.''"

definition repaired_missing_tool_result :: "raw_tool_call \<Rightarrow> message" where
  "repaired_missing_tool_result tool_call =
     (let request =
            \<lparr>rq_id = rc_id tool_call,
             rq_name = unwrap_or (tool_from_str (rc_function_name tool_call)) (tool_plain (rc_function_name tool_call)),
             rq_action = ReadAction, rq_target = None, rq_raw_arguments = Some (rc_arguments tool_call)\<rparr>;
          result = with_terminal_source CompatibilityRepair
                     (projr (result_indeterminate request missing_tool_terminal_error))
      in ToolMessage (rc_id tool_call) (''ERROR: '' @ missing_tool_terminal_error) [] (Some (tr_terminal result)) False)"

text \<open>The calls with an identifier not seen before.\<close>

fun unique_calls :: "string list \<Rightarrow> raw_tool_call list \<Rightarrow> raw_tool_call list" where
  "unique_calls seen [] = []"
| "unique_calls seen (c # cs) =
     (if rc_id c \<in> set seen then unique_calls seen cs else c # unique_calls (rc_id c # seen) cs)"

text \<open>The inner loop: the tool messages that follow, of which the first for each expected call is kept.\<close>

fun collect_tools :: "string list \<Rightarrow> (string \<rightharpoonup> message) \<Rightarrow> message list \<Rightarrow> (string \<rightharpoonup> message) \<times> message list" where
  "collect_tools expected collected [] = (collected, [])"
| "collect_tools expected collected (m # ms) =
     (case m of
        ToolMessage i _ _ _ _ \<Rightarrow>
          collect_tools expected
            (if i \<in> set expected \<and> collected i = None then collected(i \<mapsto> m) else collected) ms
      | _ \<Rightarrow> (collected, m # ms))"

fun emit_results :: "raw_tool_call list \<Rightarrow> (string \<rightharpoonup> message) \<Rightarrow> message list" where
  "emit_results [] collected = []"
| "emit_results (c # cs) collected =
     unwrap_or (collected (rc_id c)) (repaired_missing_tool_result c)
       # emit_results cs (collected(rc_id c := None))"

lemma collect_tools_length: "length (snd (collect_tools expected collected ms)) \<le> length ms"
  by (induction ms arbitrary: collected) (auto simp: le_SucI split: message.split)

function normalize_tool_boundaries :: "message list \<Rightarrow> message list" where
  "normalize_tool_boundaries [] = []"
| "normalize_tool_boundaries (m # ms) =
     (case m of
        ToolMessage _ _ _ _ _ \<Rightarrow> normalize_tool_boundaries ms
      | AssistantMessage content reasoning_content tool_calls pinned \<Rightarrow>
          if \<not> assistant_message_has_payload content tool_calls then normalize_tool_boundaries ms
          else if tool_calls \<noteq> [] then
            (let unique_tool_calls = unique_calls [] tool_calls;
                 collected = collect_tools (map rc_id unique_tool_calls) Map.empty ms
             in AssistantMessage content reasoning_content unique_tool_calls pinned
                  # emit_results unique_tool_calls (fst collected)
                  @ normalize_tool_boundaries (snd collected))
          else m # normalize_tool_boundaries ms
      | _ \<Rightarrow> m # normalize_tool_boundaries ms)"
  by pat_completeness auto
termination
  by (relation "measure length") (auto simp: le_imp_less_Suc collect_tools_length)

subsection \<open>Paired histories\<close>

fun answers :: "raw_tool_call list \<Rightarrow> message list \<Rightarrow> bool" where
  "answers [] [] \<longleftrightarrow> True"
| "answers (c # cs) (m # ms) \<longleftrightarrow>
     (case m of ToolMessage i _ _ _ _ \<Rightarrow> i = rc_id c | _ \<Rightarrow> False) \<and> answers cs ms"
| "answers _ _ \<longleftrightarrow> False"

function paired :: "message list \<Rightarrow> bool" where
  "paired [] \<longleftrightarrow> True"
| "paired (m # ms) \<longleftrightarrow>
     (case m of
        ToolMessage _ _ _ _ _ \<Rightarrow> False
      | AssistantMessage content _ tool_calls _ \<Rightarrow>
          assistant_message_has_payload content tool_calls
          \<and> distinct (map rc_id tool_calls)
          \<and> answers tool_calls (take (length tool_calls) ms) \<and> paired (drop (length tool_calls) ms)
      | _ \<Rightarrow> paired ms)"
  by pat_completeness auto
termination by (relation "measure length") auto

lemma unique_calls_ids:
  "distinct (map rc_id (unique_calls seen cs)) \<and> set (map rc_id (unique_calls seen cs)) = set (map rc_id cs) - set seen"
  by (induction seen cs rule: unique_calls.induct) auto

lemma unique_calls_id: "distinct (map rc_id cs) \<Longrightarrow> set (map rc_id cs) \<inter> set seen = {} \<Longrightarrow> unique_calls seen cs = cs"
  by (induction seen cs rule: unique_calls.induct) auto

lemma unique_calls_Nil: "unique_calls [] cs = [] \<longleftrightarrow> cs = []"
  by (cases cs) simp_all

lemma length_emit [simp]: "length (emit_results cs f) = length cs"
  by (induction cs arbitrary: f) simp_all

definition results_for :: "(string \<rightharpoonup> message) \<Rightarrow> bool" where
  "results_for collected \<longleftrightarrow>
     (\<forall>i m. collected i = Some m \<longrightarrow> (\<exists>s im t p. m = ToolMessage i s im t p))"

lemma results_for_upd: "results_for f \<Longrightarrow> results_for (f(i \<mapsto> ToolMessage i s im t p))"
  by (simp add: results_for_def)

lemma collect_tools_results: "results_for f \<Longrightarrow> results_for (fst (collect_tools expected f ms))"
proof (induction ms arbitrary: f)
  case (Cons m ms)
  then show ?case by (cases m) (simp_all add: results_for_upd)
qed simp

lemma collected_results: "results_for (fst (collect_tools expected Map.empty ms))"
  by (rule collect_tools_results) (simp add: results_for_def)

lemma emit_answers: "results_for f \<Longrightarrow> answers cs (emit_results cs f)"
proof (induction cs arbitrary: f)
  case (Cons c cs)
  have "results_for (f(rc_id c := None))" using Cons.prems by (simp add: results_for_def)
  then have "answers cs (emit_results cs (f(rc_id c := None)))" by (rule Cons.IH)
  moreover have "\<exists>s im t p. m = ToolMessage (rc_id c) s im t p" if "f (rc_id c) = Some m" for m
    using that Cons.prems by (simp add: results_for_def)
  ultimately show ?case
    by (cases "f (rc_id c)") (fastforce simp: unwrap_or_def repaired_missing_tool_result_def Let_def)+
qed simp

lemma normalize_paired: "paired (normalize_tool_boundaries ms)"
proof (induction ms rule: normalize_tool_boundaries.induct)
  case (2 m ms)
  show ?case
  proof (cases m)
    case (AssistantMessage content reasoning calls pinned)
    show ?thesis
    proof (cases "assistant_message_has_payload content calls \<and> calls \<noteq> []")
      case True
      define u where "u = unique_calls [] calls"
      define k where "k = collect_tools (map rc_id u) Map.empty ms"
      have "assistant_message_has_payload content u"
        using True unique_calls_Nil by (simp add: assistant_message_has_payload_def u_def)
      moreover have "distinct (map rc_id u)" using unique_calls_ids by (simp add: u_def)
      moreover have "answers u (emit_results u (fst k))" using emit_answers collected_results by (simp add: k_def)
      moreover have "paired (normalize_tool_boundaries (snd k))"
        using 2(4) [OF AssistantMessage] True by (simp add: k_def u_def)
      ultimately show ?thesis using True AssistantMessage by (simp add: Let_def u_def k_def)
    next
      case False
      then show ?thesis using 2 AssistantMessage by (auto simp: assistant_message_has_payload_def)
    qed
  qed (use 2 in simp_all)
qed simp

subsection \<open>What the repair leaves alone\<close>

lemma collect_answers:
  assumes "answers cs rs" "distinct (map rc_id cs)" "set (map rc_id cs) \<subseteq> set expected" "\<forall>c\<in>set cs. f (rc_id c) = None"
    "\<And>m ms'. ms = m # ms' \<Longrightarrow> tool_images m = [] \<and> (\<forall>i s im t p. m \<noteq> ToolMessage i s im t p)"
  shows "collect_tools expected f (rs @ ms) = (f ++ map_of (zip (map rc_id cs) rs), ms)"
  using assms
proof (induction cs rs arbitrary: f rule: answers.induct)
  case 1
  then show ?case by (cases ms) (auto split: message.split)
next
  case (2 c cs m rs)
  then obtain s im t p where m: "m = ToolMessage (rc_id c) s im t p" by (cases m) auto
  have "rc_id c \<in> set expected" "f (rc_id c) = None" using "2.prems" by auto
  then have "collect_tools expected f ((m # rs) @ ms) = collect_tools expected (f(rc_id c \<mapsto> m)) (rs @ ms)"
    using m by simp
  also have "\<dots> = ((f(rc_id c \<mapsto> m)) ++ map_of (zip (map rc_id cs) rs), ms)"
    using "2.prems" by (intro "2.IH") (auto simp: image_iff)
  also have "(f(rc_id c \<mapsto> m)) ++ map_of (zip (map rc_id cs) rs) = f ++ map_of (zip (map rc_id (c # cs)) (m # rs))"
  proof
    fix x
    have "x = rc_id c \<Longrightarrow> map_of (zip (map rc_id cs) rs) x = None"
      using "2.prems"(2) by (auto simp: map_of_eq_None_iff dest: set_zip_leftD)
    then show "((f(rc_id c \<mapsto> m)) ++ map_of (zip (map rc_id cs) rs)) x = (f ++ map_of (zip (map rc_id (c # cs)) (m # rs))) x"
      by (auto simp: map_add_def split: option.splits)
  qed
  finally show ?case .
qed simp_all

lemma emit_zip:
  "answers cs rs \<Longrightarrow> distinct (map rc_id cs) \<Longrightarrow> (\<And>i. i \<in> set (map rc_id cs) \<Longrightarrow> f i = map_of (zip (map rc_id cs) rs) i)
   \<Longrightarrow> emit_results cs f = rs"
proof (induction cs rs arbitrary: f rule: answers.induct)
  case (2 c cs m rs)
  have "emit_results cs (f(rc_id c := None)) = rs"
    using "2.prems" by (intro "2.IH") (auto simp: image_iff)
  with "2.prems"(3) [of "rc_id c"] show ?case by (simp add: unwrap_or_def)
qed simp_all

lemma answers_length: "answers cs rs \<Longrightarrow> length rs = length cs"
  by (induction cs rs rule: answers.induct) auto

lemma paired_head: "paired (m # ms) \<Longrightarrow> \<forall>i s im t p. m \<noteq> ToolMessage i s im t p"
  by auto

lemma normalize_paired_id: "paired ms \<Longrightarrow> normalize_tool_boundaries ms = ms"
proof (induction ms rule: paired.induct)
  case (2 m ms)
  show ?case
  proof (cases m)
    case (AssistantMessage content reasoning calls pinned)
    let ?rs = "take (length calls) ms" and ?rest = "drop (length calls) ms"
    have p: "assistant_message_has_payload content calls" "distinct (map rc_id calls)"
        "answers calls ?rs" "paired ?rest"
      using "2.prems" AssistantMessage by simp_all
    have ih: "normalize_tool_boundaries ?rest = ?rest" using "2.IH"(3) [OF AssistantMessage p(4)] .
    show ?thesis
    proof (cases "calls = []")
      case True
      with ih p AssistantMessage show ?thesis by simp
    next
      case False
      have u: "unique_calls [] calls = calls" using p(2) by (simp add: unique_calls_id)
      have "collect_tools (map rc_id calls) Map.empty (?rs @ ?rest)
          = (Map.empty ++ map_of (zip (map rc_id calls) ?rs), ?rest)"
        using p by (intro collect_answers) (auto dest!: paired_head split: message.splits)
      then have k: "collect_tools (map rc_id calls) Map.empty ms = (map_of (zip (map rc_id calls) ?rs), ?rest)" by simp
      have "emit_results calls (map_of (zip (map rc_id calls) ?rs)) = ?rs" using p by (intro emit_zip) simp_all
      with False p AssistantMessage ih u k show ?thesis by (simp add: Let_def)
    qed
  qed (use 2 in simp_all)
qed simp

fun spoken :: "message \<Rightarrow> bool" where
  "spoken (SystemMessage _ _) \<longleftrightarrow> True"
| "spoken (UserMessage _ _ _) \<longleftrightarrow> True"
| "spoken (AssistantMessage content _ tool_calls _) \<longleftrightarrow> assistant_message_has_payload content tool_calls"
| "spoken (ToolMessage _ _ _ _ _) \<longleftrightarrow> False"

text \<open>What a message says, less the calls an assistant repeats.\<close>

fun said :: "message \<Rightarrow> message" where
  "said (AssistantMessage content reasoning_content tool_calls pinned) =
     AssistantMessage content reasoning_content (unique_calls [] tool_calls) pinned"
| "said m = m"

lemma collect_tools_spoken: "filter spoken (snd (collect_tools expected f ms)) = filter spoken ms"
proof (induction ms arbitrary: f)
  case (Cons m ms)
  then show ?case by (cases m) simp_all
qed simp

lemma answers_not_spoken: "answers cs rs \<Longrightarrow> filter spoken rs = []"
proof (induction cs rs rule: answers.induct)
  case (2 c cs m rs)
  then show ?case by (cases m) simp_all
qed simp_all

lemma normalize_keeps_spoken:
  "filter spoken (normalize_tool_boundaries ms) = map said (filter spoken ms)"
proof (induction ms rule: normalize_tool_boundaries.induct)
  case (2 m ms)
  show ?case
  proof (cases m)
    case (AssistantMessage content reasoning calls pinned)
    show ?thesis
    proof (cases "assistant_message_has_payload content calls \<and> calls \<noteq> []")
      case True
      define u where "u = unique_calls [] calls"
      define k where "k = collect_tools (map rc_id u) Map.empty ms"
      have "assistant_message_has_payload content u"
        using True unique_calls_Nil by (simp add: assistant_message_has_payload_def u_def)
      moreover have "filter spoken (emit_results u (fst k)) = []"
        unfolding k_def by (rule answers_not_spoken [OF emit_answers [OF collected_results]])
      moreover have "filter spoken (normalize_tool_boundaries (snd k)) = map said (filter spoken ms)"
        using 2(4) [OF AssistantMessage] True by (simp add: k_def u_def collect_tools_spoken)
      ultimately show ?thesis using True AssistantMessage by (simp add: Let_def u_def k_def)
    next
      case False
      then show ?thesis using 2 AssistantMessage by (auto simp: assistant_message_has_payload_def)
    qed
  qed (use 2 in simp_all)
qed simp

lemma collect_tools_sources:
  "ran (fst (collect_tools expected f ms)) \<subseteq> ran f \<union> set ms \<and> set (snd (collect_tools expected f ms)) \<subseteq> set ms"
proof (induction ms arbitrary: f)
  case (Cons m ms)
  show ?case
  proof (cases m)
    case (ToolMessage i s im t p)
    have "ran (f(i \<mapsto> m)) \<subseteq> insert m (ran f)" by (auto simp: ran_def)
    with ToolMessage Cons.IH [of f] Cons.IH [of "f(i \<mapsto> m)"] show ?thesis by (auto simp del: fun_upd_apply)
  qed auto
qed simp

lemma emit_sources: "set (emit_results cs f) \<subseteq> ran f \<union> repaired_missing_tool_result ` set cs"
proof (induction cs arbitrary: f)
  case (Cons c cs)
  have "ran (f(rc_id c := None)) \<subseteq> ran f" by (auto simp: ran_def)
  with Cons [of "f(rc_id c := None)"] show ?case
    by (cases "f (rc_id c)") (auto simp: unwrap_or_def simp del: fun_upd_apply intro: ranI)
qed simp

lemma normalize_tool_sources:
  "ToolMessage i s im t p \<in> set (normalize_tool_boundaries ms) \<Longrightarrow>
   ToolMessage i s im t p \<in> set ms \<or> (\<exists>c. ToolMessage i s im t p = repaired_missing_tool_result c)"
proof (induction ms rule: normalize_tool_boundaries.induct)
  case (2 m ms)
  show ?case
  proof (cases m)
    case (AssistantMessage content reasoning calls pinned)
    show ?thesis
    proof (cases "assistant_message_has_payload content calls \<and> calls \<noteq> []")
      case True
      define u where "u = unique_calls [] calls"
      define k where "k = collect_tools (map rc_id u) Map.empty ms"
      have "ToolMessage i s im t p \<in> set (emit_results u (fst k))
          \<or> ToolMessage i s im t p \<in> set (normalize_tool_boundaries (snd k))"
        using "2.prems" True AssistantMessage by (simp add: Let_def u_def k_def)
      moreover have "set (emit_results u (fst k)) \<subseteq> set ms \<union> range repaired_missing_tool_result"
        using emit_sources [of u "fst k"] collect_tools_sources [of "map rc_id u" Map.empty ms]
        by (auto simp: k_def)
      moreover have "set (snd k) \<subseteq> set ms" using collect_tools_sources by (simp add: k_def)
      moreover have "ToolMessage i s im t p \<in> set (normalize_tool_boundaries (snd k)) \<Longrightarrow>
          ToolMessage i s im t p \<in> set (snd k) \<or> (\<exists>c. ToolMessage i s im t p = repaired_missing_tool_result c)"
        using 2(4) [OF AssistantMessage _ _ u_def k_def] True by simp
      ultimately show ?thesis by auto
    next
      case False
      then show ?thesis
        using 2 AssistantMessage by (auto simp: assistant_message_has_payload_def split: if_splits)
    qed
  qed (use 2 in auto)
qed simp

lemma repaired_is_marked:
  "\<exists>t. repaired_missing_tool_result c = ToolMessage (rc_id c) (''ERROR: '' @ missing_tool_terminal_error) [] (Some t) False
     \<and> tt_status t = ToolIndeterminate \<and> tt_source t = CompatibilityRepair \<and> tt_started t = StartedUnknown
     \<and> terminal_ok t"
  by (simp add: repaired_missing_tool_result_def Let_def result_indeterminate_def indeterminate_with_started_def
      terminal_new_ok terminal_status_matches_kind_def result_with_def with_terminal_source_def terminal_ok_def)

subsection \<open>Properties\<close>

text \<open>
  C38: the repair of a history. Whatever messages there are, afterwards every tool call of an assistant is answered
  by exactly one result, right behind it and in the order of the calls, and no result stands anywhere else;
  a history that already has this shape is not changed, so repairing twice is repairing once. What was said
  keeps its order and its content; a result is one of the history or is marked as a repair whose outcome is
  indeterminate.
\<close>
theorem repair_pairs_every_call:
  "paired (normalize_tool_boundaries ms)
   \<and> (paired ms \<longrightarrow> normalize_tool_boundaries ms = ms)
   \<and> normalize_tool_boundaries (normalize_tool_boundaries ms) = normalize_tool_boundaries ms
   \<and> filter spoken (normalize_tool_boundaries ms) = map said (filter spoken ms)
   \<and> (\<forall>i s im t p. ToolMessage i s im t p \<in> set (normalize_tool_boundaries ms) \<longrightarrow>
        ToolMessage i s im t p \<in> set ms
        \<or> (\<exists>x. t = Some x \<and> tt_status x = ToolIndeterminate \<and> tt_source x = CompatibilityRepair))"
proof -
  have "\<exists>x. t = Some x \<and> tt_status x = ToolIndeterminate \<and> tt_source x = CompatibilityRepair"
    if "ToolMessage i s im t p = repaired_missing_tool_result c" for i s im t p c
    using repaired_is_marked [of c] that by auto
  then show ?thesis
    using normalize_paired normalize_paired_id normalize_keeps_spoken normalize_tool_sources by metis
qed

theorem repair_pairs_every_call_witness:
  "let ms = [UserMessage ''hi'' [] False, ToolMessage ''c0'' ''x'' [] None False, AssistantMessage (Some ''ok'') None [] False]
   in \<not> paired ms \<and> paired (normalize_tool_boundaries ms) \<and> paired [hd ms] \<and> normalize_tool_boundaries [hd ms] = [hd ms]"
  using repair_pairs_every_call [of "[UserMessage ''hi'' [] False, ToolMessage ''c0'' ''x'' [] None False,
      AssistantMessage (Some ''ok'') None [] False]"]
    repair_pairs_every_call [of "[UserMessage ''hi'' [] False]"]
  by (simp add: Let_def)

end
