(* ===== verification/Shutdown_Barrier.thy ===== *)
theory Shutdown_Barrier
  imports Prelude "HOL-Library.Multiset"
begin

text \<open>
  The shutdown barrier of the runtime surface: the plans and acknowledgements of
  \<^verbatim>\<open>crates/orca-runtime/src/runtime_surface/commands.rs\<close> and the ledger \<^verbatim>\<open>ImmutableShutdownLedger\<close> of
  \<^verbatim>\<open>runtime_surface/commit.rs\<close>. A barrier records what a thread or the host must settle before it may close, and
  collects the acknowledgements. Identifiers, digests and the payloads the barrier only copies and compares
  (terminals, proofs, finalization causes) are opaque strings; epochs, revisions and times are numbers.
\<close>

subsection \<open>Data\<close>

type_synonym opaque = string

datatype surface_fact_family =
    OperationFacts | ItemFacts | AssistantFacts | ToolFacts | PlanFacts | UsageFacts | ContextFacts
  | InteractionFacts | TaskFacts | WorkflowFacts | SubagentFacts | GoalFacts | SettingsFacts
  | McpCatalogFacts | PinnedContextFacts | SessionFacts

datatype commit_class =
    RecordedCommit nat nat string
  | EphemeralCommit string nat string

datatype cursor_source_revision = RecordedSource nat | EphemeralSource nat

record surface_cursor =
  sc_thread_id :: string
  sc_incarnation :: string
  sc_next_seq :: nat
  sc_source_revision :: cursor_source_revision

record operation_terminal_at_cursor =
  ot_operation_id :: string
  ot_terminal :: opaque
  ot_completion_proof :: opaque
  ot_cursor :: surface_cursor
  ot_commit_class :: commit_class
  ot_batch_digest :: string

datatype surface_session_catalog_action =
  CatalogCreated | CatalogOpened | CatalogLoaded | CatalogForked | CatalogClosed | CatalogRemoved

record surface_session_catalog_receipt =
  cr_catalog_revision :: nat
  cr_thread_id :: "string option"
  cr_action :: surface_session_catalog_action

datatype surface_host_shutdown_stage = LastStage

record surface_host_shutdown_receipt =
  hs_host_incarnation :: string
  hs_lifecycle_revision :: nat
  hs_barrier_id :: string
  hs_shutdown_commit_id :: string
  hs_stage :: surface_host_shutdown_stage
  hs_closed_at :: int

datatype host_receipt_identity_pair =
    MemoryPair opaque nat opaque
  | FolderTrustPair opaque nat opaque
  | RuntimeSettingsPair string "string option" nat opaque
  | SessionCatalogPair "string option" nat surface_session_catalog_receipt
  | SessionMetadataPair string nat opaque
  | HostLifecyclePair string nat surface_host_shutdown_receipt

datatype mutation_commit_ack =
    ThreadLocalCursor surface_cursor surface_fact_family string commit_class
  | ThreadRemoteOwnerAck string nat nat string
  | GoalStoreCommitAck string opaque
  | OperationTerminalAck string nat string operation_terminal_at_cursor
  | PolicyRevocationBarrierAck opaque "string list" "string list" string
  | HostCommitAck string host_receipt_identity_pair string string

record thread_cursor_ack_requirement =
  tq_thread_id :: string
  tq_family :: surface_fact_family
  tq_event_id :: string
  tq_commit_id :: string

datatype host_receipt_requirement_identity =
    MemoryRequirement opaque nat
  | FolderTrustRequirement opaque nat
  | RuntimeSettingsRequirement string "string option" nat
  | SessionCatalogRequirement "string option" nat
  | SessionMetadataRequirement string nat
  | HostLifecycleRequirement string nat

record host_receipt_ack_requirement =
  hr_host_incarnation :: string
  hr_identity :: host_receipt_requirement_identity
  hr_commit_id :: string
  hr_receipt_digest :: string

record operation_terminal_ack_requirement =
  or_thread_id :: string
  or_thread_owner_epoch :: nat
  or_operation_id :: string
  or_terminal_commit_id :: string

datatype shutdown_operation_source_phase =
    SourceRequested | SourceAdmittedReserved | SourceAdmittedStarted | SourceSuspended
  | SourceBackgroundOwned | SourceFinalizing | SourceFinalizingDegraded

datatype shutdown_request_cause = HostShutdownCause | ThreadCloseCause

datatype shutdown_selected_cause =
    ExistingWinning opaque
  | RequestedCause shutdown_request_cause

datatype shutdown_operation_plan =
    ExistingTerminal string string string operation_terminal_ack_requirement
  | PlannedFinalization string shutdown_operation_source_phase string string shutdown_selected_cause
      "string list" operation_terminal_ack_requirement

datatype first_operation_completion_policy = TerminalCompletion | NotAdmittedCompletion

datatype ephemeral_thread_persistence =
    EphemeralNonCataloguedOneShot first_operation_completion_policy
  | EphemeralAttached

datatype shutdown_thread_plan =
    RecordedThread string nat "shutdown_operation_plan list" thread_cursor_ack_requirement host_receipt_ack_requirement
  | EphemeralThread string nat ephemeral_thread_persistence "shutdown_operation_plan list"
      thread_cursor_ack_requirement

text \<open>Fields: request, host incarnation, thread or threads, barrier, closing commit, (final lifecycle,) digest.\<close>

datatype shutdown_barrier_plan =
    CloseThreadPlan string string shutdown_thread_plan string string string
  | ShutdownHostPlan string string "shutdown_thread_plan list" string string host_receipt_ack_requirement string

datatype closed_thread_receipt =
    ClosedRecorded string "operation_terminal_at_cursor list" surface_cursor surface_session_catalog_receipt
  | ClosedEphemeral string ephemeral_thread_persistence "operation_terminal_at_cursor list" surface_cursor

record shutdown_host_output =
  so_host_incarnation :: string
  so_host_receipt :: surface_host_shutdown_receipt
  so_closed_threads :: "closed_thread_receipt list"

datatype retained_shutdown_output =
    CloseThreadOutput closed_thread_receipt
  | ShutdownHostOutput shutdown_host_output

datatype shutdown_barrier_state =
    Closing
  | Closed retained_shutdown_output

record shutdown_barrier_record =
  sb_plan :: shutdown_barrier_plan
  sb_settled :: "mutation_commit_ack list"
  sb_state :: shutdown_barrier_state

datatype shutdown_plan_error = ImmutableConflict | MissingDurableBarrier | IncompleteBarrier | OutputScopeMismatch

record shutdown_ledger =
  sh_record :: "shutdown_barrier_record option"
  sh_durable_plan :: bool

subsection \<open>Matching acknowledgements\<close>

fun shutdown_thread_id :: "shutdown_thread_plan \<Rightarrow> string" where
  "shutdown_thread_id (RecordedThread i _ _ _ _) = i"
| "shutdown_thread_id (EphemeralThread i _ _ _ _) = i"

fun thread_owner_epoch :: "shutdown_thread_plan \<Rightarrow> nat" where
  "thread_owner_epoch (RecordedThread _ e _ _ _) = e"
| "thread_owner_epoch (EphemeralThread _ e _ _ _) = e"

fun thread_operations :: "shutdown_thread_plan \<Rightarrow> shutdown_operation_plan list" where
  "thread_operations (RecordedThread _ _ ops _ _) = ops"
| "thread_operations (EphemeralThread _ _ _ ops _) = ops"

fun thread_session_closed :: "shutdown_thread_plan \<Rightarrow> thread_cursor_ack_requirement" where
  "thread_session_closed (RecordedThread _ _ _ s _) = s"
| "thread_session_closed (EphemeralThread _ _ _ _ s) = s"

fun thread_catalog_closed :: "shutdown_thread_plan \<Rightarrow> host_receipt_ack_requirement option" where
  "thread_catalog_closed (RecordedThread _ _ _ _ c) = Some c"
| "thread_catalog_closed (EphemeralThread _ _ _ _ _) = None"

fun shutdown_operation_requirement :: "shutdown_operation_plan \<Rightarrow> operation_terminal_ack_requirement" where
  "shutdown_operation_requirement (ExistingTerminal _ _ _ r) = r"
| "shutdown_operation_requirement (PlannedFinalization _ _ _ _ _ _ r) = r"

definition thread_ack_matches_requirement ::
    "shutdown_thread_plan \<Rightarrow> thread_cursor_ack_requirement \<Rightarrow> mutation_commit_ack \<Rightarrow> bool" where
  "thread_ack_matches_requirement thread r ack =
     (case ack of
        ThreadLocalCursor cursor family event_id (RecordedCommit epoch _ commit_id) \<Rightarrow>
          sc_thread_id cursor = tq_thread_id r \<and> family = tq_family r \<and> event_id = tq_event_id r
          \<and> commit_id = tq_commit_id r \<and> epoch = thread_owner_epoch thread
      | _ \<Rightarrow> False)"

definition terminal_commit_matches ::
    "operation_terminal_ack_requirement \<Rightarrow> commit_class \<Rightarrow> bool" where
  "terminal_commit_matches r class =
     (case class of
        RecordedCommit epoch _ commit_id \<Rightarrow> epoch = or_thread_owner_epoch r \<and> commit_id = or_terminal_commit_id r
      | EphemeralCommit _ _ _ \<Rightarrow> False)"

definition operation_ack_matches_requirement ::
    "operation_terminal_ack_requirement \<Rightarrow> mutation_commit_ack \<Rightarrow> bool" where
  "operation_ack_matches_requirement r ack =
     (case ack of
        OperationTerminalAck thread_id epoch operation_id v \<Rightarrow>
          thread_id = or_thread_id r \<and> epoch = or_thread_owner_epoch r \<and> operation_id = or_operation_id r
          \<and> ot_operation_id v = or_operation_id r \<and> sc_thread_id (ot_cursor v) = or_thread_id r
          \<and> terminal_commit_matches r (ot_commit_class v)
      | _ \<Rightarrow> False)"

definition host_ack_matches_requirement ::
    "host_receipt_ack_requirement \<Rightarrow> mutation_commit_ack \<Rightarrow> bool" where
  "host_ack_matches_requirement r ack =
     (case ack of
        HostCommitAck host identity commit_id receipt_digest \<Rightarrow>
          if host \<noteq> hr_host_incarnation r \<or> commit_id \<noteq> hr_commit_id r \<or> receipt_digest \<noteq> hr_receipt_digest r
          then False
          else
            (case (hr_identity r, identity) of
               (SessionCatalogRequirement thread_id revision, SessionCatalogPair ack_thread ack_revision receipt) \<Rightarrow>
                 thread_id = ack_thread \<and> revision = ack_revision
                 \<and> cr_thread_id receipt = thread_id \<and> cr_catalog_revision receipt = revision
                 \<and> cr_action receipt = CatalogClosed
             | (HostLifecycleRequirement h revision, HostLifecyclePair ack_host ack_revision receipt) \<Rightarrow>
                 h = ack_host \<and> revision = ack_revision \<and> hs_host_incarnation receipt = h
                 \<and> hs_lifecycle_revision receipt = revision
                 \<and> hs_shutdown_commit_id receipt = hr_commit_id r \<and> hs_stage receipt = LastStage
             | _ \<Rightarrow> False)
      | _ \<Rightarrow> False)"

definition thread_ack_matches :: "mutation_commit_ack \<Rightarrow> shutdown_thread_plan \<Rightarrow> bool" where
  "thread_ack_matches ack thread \<longleftrightarrow>
     thread_ack_matches_requirement thread (thread_session_closed thread) ack
     \<or> is_some_and (thread_catalog_closed thread) (\<lambda>r. host_ack_matches_requirement r ack)
     \<or> list_ex (\<lambda>op. operation_ack_matches_requirement (shutdown_operation_requirement op) ack)
         (thread_operations thread)"

definition shutdown_ack_matches_plan :: "shutdown_barrier_plan \<Rightarrow> mutation_commit_ack \<Rightarrow> bool" where
  "shutdown_ack_matches_plan plan ack =
     (case plan of
        CloseThreadPlan _ _ thread _ _ _ \<Rightarrow> thread_ack_matches ack thread
      | ShutdownHostPlan _ _ threads _ _ final_host_lifecycle _ \<Rightarrow>
          list_ex (thread_ack_matches ack) threads \<or> host_ack_matches_requirement final_host_lifecycle ack)"

definition shutdown_acks_target_same_requirement :: "mutation_commit_ack \<Rightarrow> mutation_commit_ack \<Rightarrow> bool" where
  "shutdown_acks_target_same_requirement first second =
     (case (first, second) of
        (ThreadLocalCursor c f _ _, ThreadLocalCursor c' f' _ _) \<Rightarrow> sc_thread_id c = sc_thread_id c' \<and> f = f'
      | (OperationTerminalAck _ _ i _, OperationTerminalAck _ _ i' _) \<Rightarrow> i = i'
      | (HostCommitAck h _ c _, HostCommitAck h' _ c' _) \<Rightarrow> h = h' \<and> c = c'
      | _ \<Rightarrow> False)"

subsection \<open>Validation\<close>

fun operation_plan_ids :: "shutdown_operation_plan \<Rightarrow> string \<times> string" where
  "operation_plan_ids (ExistingTerminal operation_id _ terminal_commit_id _) = (operation_id, terminal_commit_id)"
| "operation_plan_ids (PlannedFinalization operation_id _ _ terminal_commit_id _ _ _) = (operation_id, terminal_commit_id)"

definition validate_thread :: "shutdown_thread_plan \<Rightarrow> bool" where
  "validate_thread thread =
     (let thread_id = shutdown_thread_id thread; session_closed = thread_session_closed thread
      in if tq_thread_id session_closed \<noteq> thread_id \<or> tq_family session_closed \<noteq> SessionFacts then False
         else if \<not> is_none_or (thread_catalog_closed thread)
                   (\<lambda>c. case hr_identity c of
                          SessionCatalogRequirement (Some expected) _ \<Rightarrow> expected = thread_id
                        | _ \<Rightarrow> False)
         then False
         else list_all (\<lambda>op.
                let r = shutdown_operation_requirement op
                in or_thread_id r = thread_id \<and> or_thread_owner_epoch r = thread_owner_epoch thread
                   \<and> or_operation_id r = fst (operation_plan_ids op)
                   \<and> or_terminal_commit_id r = snd (operation_plan_ids op))
              (thread_operations thread))"

fun validate_threads :: "string list \<Rightarrow> shutdown_thread_plan list \<Rightarrow> bool" where
  "validate_threads seen [] = True"
| "validate_threads seen (t # ts) =
     (shutdown_thread_id t \<notin> set seen \<and> validate_thread t
      \<and> validate_threads (shutdown_thread_id t # seen) ts)"

definition validate_shutdown_plan :: "shutdown_barrier_plan \<Rightarrow> (shutdown_plan_error, unit) result" where
  "validate_shutdown_plan plan =
     (case plan of
        CloseThreadPlan _ _ thread _ _ _ \<Rightarrow> if validate_thread thread then Inr () else Inl OutputScopeMismatch
      | ShutdownHostPlan _ host threads _ _ final_host_lifecycle _ \<Rightarrow>
          let lifecycle_matches =
                (hr_host_incarnation final_host_lifecycle = host
                 \<and> (case hr_identity final_host_lifecycle of
                      HostLifecycleRequirement h _ \<Rightarrow> h = host
                    | _ \<Rightarrow> False))
          in if lifecycle_matches \<and> validate_threads [] threads then Inr () else Inl OutputScopeMismatch)"

fun acks_conflict :: "mutation_commit_ack list \<Rightarrow> mutation_commit_ack list \<Rightarrow> bool" where
  "acks_conflict prior [] = False"
| "acks_conflict prior (ack # acks) =
     (list_ex (\<lambda>p. shutdown_acks_target_same_requirement p ack) prior \<or> acks_conflict (prior @ [ack]) acks)"

definition validate_shutdown_settlements ::
    "shutdown_barrier_plan \<Rightarrow> mutation_commit_ack list \<Rightarrow> (shutdown_plan_error, unit) result" where
  "validate_shutdown_settlements plan settled =
     (if list_ex (\<lambda>ack. \<not> shutdown_ack_matches_plan plan ack) settled \<or> acks_conflict [] settled
      then Inl OutputScopeMismatch else Inr ())"

definition shutdown_operation_outputs_match ::
    "shutdown_operation_plan list \<Rightarrow> operation_terminal_at_cursor list \<Rightarrow> bool" where
  "shutdown_operation_outputs_match plans outputs \<longleftrightarrow>
     length plans = length outputs
     \<and> list_all (\<lambda>plan.
          let r = shutdown_operation_requirement plan
          in list_ex (\<lambda>out. ot_operation_id out = or_operation_id r
                \<and> terminal_commit_matches r (ot_commit_class out)
                \<and> sc_thread_id (ot_cursor out) = or_thread_id r) outputs) plans"

definition shutdown_thread_output_matches :: "shutdown_thread_plan \<Rightarrow> closed_thread_receipt \<Rightarrow> bool" where
  "shutdown_thread_output_matches plan out =
     (case (plan, out) of
        (RecordedThread thread_id _ operations _ _, ClosedRecorded out_thread_id terminals _ _) \<Rightarrow>
          thread_id = out_thread_id \<and> shutdown_operation_outputs_match operations terminals
      | (EphemeralThread thread_id _ persistence operations _, ClosedEphemeral out_thread_id out_persistence terminals _) \<Rightarrow>
          thread_id = out_thread_id \<and> persistence = out_persistence
          \<and> shutdown_operation_outputs_match operations terminals
      | _ \<Rightarrow> False)"

fun closed_cursor :: "closed_thread_receipt \<Rightarrow> surface_cursor" where
  "closed_cursor (ClosedRecorded _ _ c _) = c"
| "closed_cursor (ClosedEphemeral _ _ _ c) = c"

fun closed_terminals :: "closed_thread_receipt \<Rightarrow> operation_terminal_at_cursor list" where
  "closed_terminals (ClosedRecorded _ ts _ _) = ts"
| "closed_terminals (ClosedEphemeral _ _ ts _) = ts"

definition catalog_settled ::
    "shutdown_thread_plan \<Rightarrow> closed_thread_receipt \<Rightarrow> mutation_commit_ack list \<Rightarrow> bool" where
  "catalog_settled plan out settled =
     (case (plan, out) of
        (RecordedThread _ _ _ _ catalog_closed, ClosedRecorded _ _ _ catalog_receipt) \<Rightarrow>
          list_ex (\<lambda>ack. host_ack_matches_requirement catalog_closed ack
             \<and> (case ack of
                  HostCommitAck _ (SessionCatalogPair _ _ receipt) _ _ \<Rightarrow> receipt = catalog_receipt
                | _ \<Rightarrow> False)) settled
      | (EphemeralThread _ _ _ _ _, ClosedEphemeral _ _ _ _) \<Rightarrow> True
      | _ \<Rightarrow> False)"

definition shutdown_thread_is_fully_settled ::
    "shutdown_thread_plan \<Rightarrow> closed_thread_receipt \<Rightarrow> mutation_commit_ack list \<Rightarrow> bool" where
  "shutdown_thread_is_fully_settled plan out settled =
     (if \<not> shutdown_thread_output_matches plan out then False
      else if \<not> catalog_settled plan out settled then False
      else
        list_ex (\<lambda>ack. thread_ack_matches_requirement plan (thread_session_closed plan) ack
            \<and> (case ack of ThreadLocalCursor cursor _ _ _ \<Rightarrow> cursor = closed_cursor out | _ \<Rightarrow> False)) settled
        \<and> length (thread_operations plan) = length (closed_terminals out)
        \<and> list_all (\<lambda>op. list_ex (\<lambda>ack.
              operation_ack_matches_requirement (shutdown_operation_requirement op) ack
              \<and> (case ack of OperationTerminalAck _ _ _ v \<Rightarrow> v \<in> set (closed_terminals out) | _ \<Rightarrow> False)) settled)
            (thread_operations plan))"

definition validate_closed_shutdown_record ::
    "shutdown_barrier_plan \<Rightarrow> mutation_commit_ack list \<Rightarrow> retained_shutdown_output
     \<Rightarrow> (shutdown_plan_error, unit) result" where
  "validate_closed_shutdown_record plan settled out =
     (let outputs_match =
        (case (plan, out) of
           (CloseThreadPlan _ _ thread _ _ _, CloseThreadOutput o') \<Rightarrow> shutdown_thread_is_fully_settled thread o' settled
         | (ShutdownHostPlan _ host threads _ _ final_host_lifecycle _, ShutdownHostOutput o') \<Rightarrow>
             so_host_incarnation o' = host
             \<and> length threads = length (so_closed_threads o')
             \<and> list_all (\<lambda>thread. list_ex (\<lambda>closed. shutdown_thread_is_fully_settled thread closed settled)
                  (so_closed_threads o')) threads
             \<and> list_ex (\<lambda>ack. host_ack_matches_requirement final_host_lifecycle ack
                  \<and> (case ack of
                       HostCommitAck _ (HostLifecyclePair _ _ receipt) _ _ \<Rightarrow> receipt = so_host_receipt o'
                     | _ \<Rightarrow> False)) settled
         | _ \<Rightarrow> False)
      in if outputs_match then Inr () else Inl IncompleteBarrier)"

subsection \<open>The ledger\<close>

definition ledger_default :: shutdown_ledger where
  "ledger_default = \<lparr>sh_record = None, sh_durable_plan = False\<rparr>"

definition from_durable_record :: "shutdown_barrier_record \<Rightarrow> (shutdown_plan_error, shutdown_ledger) result" where
  "from_durable_record r =
     try_bind (validate_shutdown_plan (sb_plan r)) (\<lambda>_.
     try_bind (validate_shutdown_settlements (sb_plan r) (sb_settled r)) (\<lambda>_.
     try_bind (case sb_state r of
                 Closed retained_output \<Rightarrow> validate_closed_shutdown_record (sb_plan r) (sb_settled r) retained_output
               | Closing \<Rightarrow> Inr ()) (\<lambda>_.
     Inr \<lparr>sh_record = Some r, sh_durable_plan = True\<rparr>)))"

definition mark_plan_durable ::
    "shutdown_barrier_plan \<Rightarrow> shutdown_ledger \<Rightarrow> (shutdown_plan_error, unit) result \<times> shutdown_ledger" where
  "mark_plan_durable expected l =
     (if map_option sb_plan (sh_record l) \<noteq> Some expected then (Inl ImmutableConflict, l)
      else (Inr (), l\<lparr>sh_durable_plan := True\<rparr>))"

definition ledger_record ::
    "shutdown_barrier_plan \<Rightarrow> shutdown_ledger \<Rightarrow> (shutdown_plan_error, shutdown_barrier_plan) result \<times> shutdown_ledger" where
  "ledger_record plan l =
     (case sh_record l of
        Some r \<Rightarrow> (if sb_plan r = plan then Inr (sb_plan r) else Inl ImmutableConflict, l)
      | None \<Rightarrow> (Inr plan, l\<lparr>sh_record := Some \<lparr>sb_plan = plan, sb_settled = [], sb_state = Closing\<rparr>\<rparr>))"

definition signal_authorized :: "shutdown_ledger \<Rightarrow> bool" where
  "signal_authorized l \<longleftrightarrow> sh_record l \<noteq> None \<and> sh_durable_plan l"

definition ledger_settle ::
    "mutation_commit_ack \<Rightarrow> shutdown_ledger \<Rightarrow> (shutdown_plan_error, unit) result \<times> shutdown_ledger" where
  "ledger_settle ack l =
     (if \<not> sh_durable_plan l then (Inl MissingDurableBarrier, l)
      else
        (case sh_record l of
           None \<Rightarrow> (Inl MissingDurableBarrier, l)
         | Some r \<Rightarrow>
             if sb_state r \<noteq> Closing then (Inl ImmutableConflict, l)
             else if ack \<in> set (sb_settled r) then (Inr (), l)
             else if \<not> shutdown_ack_matches_plan (sb_plan r) ack
                     \<or> list_ex (\<lambda>existing. shutdown_acks_target_same_requirement existing ack) (sb_settled r)
             then (Inl OutputScopeMismatch, l)
             else (Inr (), l\<lparr>sh_record := Some (r\<lparr>sb_settled := sb_settled r @ [ack]\<rparr>)\<rparr>)))"

definition output_scope_matches :: "shutdown_barrier_plan \<Rightarrow> retained_shutdown_output \<Rightarrow> bool" where
  "output_scope_matches plan out =
     (case (plan, out) of
        (CloseThreadPlan _ _ thread _ _ _, CloseThreadOutput o') \<Rightarrow> shutdown_thread_output_matches thread o'
      | (ShutdownHostPlan _ host threads _ _ _ _, ShutdownHostOutput o') \<Rightarrow>
          so_host_incarnation o' = host \<and> length threads = length (so_closed_threads o')
          \<and> list_all (\<lambda>plan. list_ex (shutdown_thread_output_matches plan) (so_closed_threads o')) threads
      | _ \<Rightarrow> False)"

definition ledger_close ::
    "retained_shutdown_output \<Rightarrow> shutdown_ledger
     \<Rightarrow> (shutdown_plan_error, retained_shutdown_output) result \<times> shutdown_ledger" where
  "ledger_close out l =
     (if \<not> sh_durable_plan l then (Inl MissingDurableBarrier, l)
      else
        (case sh_record l of
           None \<Rightarrow> (Inl MissingDurableBarrier, l)
         | Some r \<Rightarrow>
             if \<not> output_scope_matches (sb_plan r) out then (Inl OutputScopeMismatch, l)
             else
               (case sb_state r of
                  Closed existing \<Rightarrow> (if existing \<noteq> out then Inl ImmutableConflict else Inr existing, l)
                | Closing \<Rightarrow>
                    (case validate_closed_shutdown_record (sb_plan r) (sb_settled r) out of
                       Inl e \<Rightarrow> (Inl e, l)
                     | Inr _ \<Rightarrow> (Inr out, l\<lparr>sh_record := Some (r\<lparr>sb_state := Closed out\<rparr>)\<rparr>)))))"

definition retained_output_of :: "shutdown_ledger \<Rightarrow> retained_shutdown_output option" where
  "retained_output_of l =
     (case sh_record l of
        Some r \<Rightarrow> (case sb_state r of Closed out \<Rightarrow> Some out | Closing \<Rightarrow> None)
      | None \<Rightarrow> None)"

definition select_shutdown_cause :: "opaque option \<Rightarrow> shutdown_request_cause \<Rightarrow> shutdown_selected_cause" where
  "select_shutdown_cause existing requested =
     (case existing of Some cause \<Rightarrow> ExistingWinning cause | None \<Rightarrow> RequestedCause requested)"

subsection \<open>Requirements of a plan\<close>

text \<open>What a plan asks for, each requirement as the acknowledgements that meet it.\<close>

definition thread_requirements :: "shutdown_thread_plan \<Rightarrow> (mutation_commit_ack \<Rightarrow> bool) list" where
  "thread_requirements t =
     thread_ack_matches_requirement t (thread_session_closed t)
     # (case thread_catalog_closed t of Some c \<Rightarrow> [host_ack_matches_requirement c] | None \<Rightarrow> [])
     @ map (\<lambda>op. operation_ack_matches_requirement (shutdown_operation_requirement op)) (thread_operations t)"

fun plan_threads :: "shutdown_barrier_plan \<Rightarrow> shutdown_thread_plan list" where
  "plan_threads (CloseThreadPlan _ _ t _ _ _) = [t]"
| "plan_threads (ShutdownHostPlan _ _ ts _ _ _ _) = ts"

fun plan_requirements :: "shutdown_barrier_plan \<Rightarrow> (mutation_commit_ack \<Rightarrow> bool) list" where
  "plan_requirements (CloseThreadPlan _ _ t _ _ _) = thread_requirements t"
| "plan_requirements (ShutdownHostPlan _ _ ts _ _ final _) =
     concat (map thread_requirements ts) @ [host_ack_matches_requirement final]"

fun closed_thread_id :: "closed_thread_receipt \<Rightarrow> string" where
  "closed_thread_id (ClosedRecorded i _ _ _) = i"
| "closed_thread_id (ClosedEphemeral i _ _ _) = i"

fun output_threads :: "retained_shutdown_output \<Rightarrow> closed_thread_receipt list" where
  "output_threads (CloseThreadOutput c) = [c]"
| "output_threads (ShutdownHostOutput v) = so_closed_threads v"

definition record_valid :: "shutdown_barrier_record \<Rightarrow> bool" where
  "record_valid r = is_ok (from_durable_record r)"

lemma from_durable_record_iff:
  "from_durable_record r = Inr l \<longleftrightarrow> record_valid r \<and> l = \<lparr>sh_record = Some r, sh_durable_plan = True\<rparr>"
  by (auto simp: record_valid_def from_durable_record_def is_ok_iff)

lemma record_valid_iff:
  "record_valid r \<longleftrightarrow> validate_shutdown_plan (sb_plan r) = Inr ()
     \<and> validate_shutdown_settlements (sb_plan r) (sb_settled r) = Inr ()
     \<and> (\<forall>out. sb_state r = Closed out \<longrightarrow> validate_closed_shutdown_record (sb_plan r) (sb_settled r) out = Inr ())"
  by (cases "sb_state r") (auto simp: record_valid_def from_durable_record_def is_ok_iff)

lemma thread_ack_matches_iff: "thread_ack_matches ack t \<longleftrightarrow> (\<exists>m \<in> set (thread_requirements t). m ack)"
  by (cases t) (auto simp: thread_ack_matches_def thread_requirements_def list_ex_iff)

lemma ack_matches_plan_iff:
  "shutdown_ack_matches_plan plan ack \<longleftrightarrow> (\<exists>m \<in> set (plan_requirements plan). m ack)"
  by (cases plan) (simp_all add: shutdown_ack_matches_plan_def list_ex_iff thread_ack_matches_iff bex_Un disj_commute)

text \<open>What a matching acknowledgement looks like, and that two of them have the same target.\<close>

lemma thread_ack_matchesD:
  "thread_ack_matches_requirement t r a \<Longrightarrow>
   \<exists>c e k. a = ThreadLocalCursor c (tq_family r) e k \<and> sc_thread_id c = tq_thread_id r"
  by (auto simp: thread_ack_matches_requirement_def split: mutation_commit_ack.splits commit_class.splits)

lemma operation_ack_matchesD:
  "operation_ack_matches_requirement r a \<Longrightarrow> \<exists>t e v. a = OperationTerminalAck t e (or_operation_id r) v"
  by (auto simp: operation_ack_matches_requirement_def split: mutation_commit_ack.splits)

lemma host_ack_matchesD:
  "host_ack_matches_requirement r a \<Longrightarrow> \<exists>p d. a = HostCommitAck (hr_host_incarnation r) p (hr_commit_id r) d"
  by (auto simp: host_ack_matches_requirement_def split: mutation_commit_ack.splits if_splits)

lemmas ack_matchesD = thread_ack_matchesD operation_ack_matchesD host_ack_matchesD

lemma thread_requirements_exclusive:
  assumes "m \<in> set (thread_requirements t)" "m a" "m b"
  shows "shutdown_acks_target_same_requirement a b"
proof -
  from assms(1) consider "m = thread_ack_matches_requirement t (thread_session_closed t)"
    | c where "m = host_ack_matches_requirement c"
    | r where "m = operation_ack_matches_requirement r"
    by (auto simp: thread_requirements_def split: option.splits)
  then show ?thesis
    using assms(2,3)
    by cases (auto simp: shutdown_acks_target_same_requirement_def dest!: ack_matchesD)
qed

lemma requirements_exclusive:
  assumes "m \<in> set (plan_requirements plan)" "m a" "m b"
  shows "shutdown_acks_target_same_requirement a b"
proof (cases "\<exists>t \<in> set (plan_threads plan). m \<in> set (thread_requirements t)")
  case True
  with assms(2,3) show ?thesis by (blast intro: thread_requirements_exclusive)
next
  case False
  with assms show ?thesis
    by (cases plan) (auto simp: shutdown_acks_target_same_requirement_def dest!: ack_matchesD)
qed

lemma no_acks_conflict_iff:
  "\<not> acks_conflict prior acks \<longleftrightarrow>
     sorted_wrt (\<lambda>a b. \<not> shutdown_acks_target_same_requirement a b) acks
     \<and> (\<forall>p \<in> set prior. \<forall>a \<in> set acks. \<not> shutdown_acks_target_same_requirement p a)"
  by (induction prior acks rule: acks_conflict.induct) (auto simp: list_ex_iff)

lemma sorted_wrt_exclusive_filter:
  assumes "sorted_wrt (\<lambda>a b. \<not> same a b) xs" and "\<And>a b. m a \<Longrightarrow> m b \<Longrightarrow> same a b"
  shows "length (filter m xs) \<le> 1"
  using assms by (induction xs) (auto simp: filter_empty_conv)

text \<open>No requirement of a valid record is acknowledged twice.\<close>

lemma settled_at_most_once:
  assumes "record_valid r" "m \<in> set (plan_requirements (sb_plan r))"
  shows "length (filter m (sb_settled r)) \<le> 1"
proof (rule sorted_wrt_exclusive_filter)
  show "sorted_wrt (\<lambda>a b. \<not> shutdown_acks_target_same_requirement a b) (sb_settled r)"
    using assms(1) no_acks_conflict_iff [of "[]" "sb_settled r"]
    by (simp add: record_valid_iff validate_shutdown_settlements_def split: if_splits)
qed (use assms(2) in \<open>blast intro: requirements_exclusive\<close>)

subsection \<open>Closed barriers\<close>

lemma fully_settled_requirements:
  assumes "shutdown_thread_is_fully_settled t out settled" "m \<in> set (thread_requirements t)"
  shows "\<exists>a \<in> set settled. m a"
  using assms
  by (auto simp: shutdown_thread_is_fully_settled_def thread_requirements_def catalog_settled_def list_ex_iff
      list_all_iff shutdown_thread_output_matches_def
      split: if_splits option.splits shutdown_thread_plan.splits closed_thread_receipt.splits)

lemma fully_settled_id:
  "shutdown_thread_is_fully_settled t out settled \<Longrightarrow> closed_thread_id out = shutdown_thread_id t"
  by (cases t; cases out)
    (auto simp: shutdown_thread_is_fully_settled_def shutdown_thread_output_matches_def split: if_splits)

lemma closed_thread_settled:
  assumes "validate_closed_shutdown_record plan settled out = Inr ()" "t \<in> set (plan_threads plan)"
  shows "\<exists>c \<in> set (output_threads out). shutdown_thread_is_fully_settled t c settled"
  using assms
  by (cases plan; cases out) (auto simp: validate_closed_shutdown_record_def list_all_iff list_ex_iff split: if_splits)

lemma closed_requirements:
  assumes "validate_closed_shutdown_record plan settled out = Inr ()" "m \<in> set (plan_requirements plan)"
  shows "\<exists>a \<in> set settled. m a"
proof (cases "\<exists>t \<in> set (plan_threads plan). m \<in> set (thread_requirements t)")
  case True
  with assms(1) show ?thesis by (blast dest: closed_thread_settled intro: fully_settled_requirements)
next
  case False
  with assms show ?thesis
    by (cases plan; cases out) (auto simp: validate_closed_shutdown_record_def list_ex_iff split: if_splits)
qed

lemma validate_threads_distinct:
  "validate_threads seen ts \<Longrightarrow>
   distinct (map shutdown_thread_id ts) \<and> set seen \<inter> set (map shutdown_thread_id ts) = {}"
  by (induction seen ts rule: validate_threads.induct) auto

lemma valid_plan_distinct:
  "validate_shutdown_plan plan = Inr () \<Longrightarrow> distinct (map shutdown_thread_id (plan_threads plan))"
  by (cases plan)
    (auto simp: validate_shutdown_plan_def Let_def split: if_splits dest: validate_threads_distinct)

text \<open>A list that holds every member of a distinct list of its length is a permutation of it.\<close>

lemma distinct_subset_mset:
  assumes "distinct xs" "set xs \<subseteq> set ys" "length ys = length xs"
  shows "mset ys = mset xs"
proof -
  have "card (set ys) \<le> card (set xs)"
    using assms(1,3) card_length [of ys] by (simp add: distinct_card)
  with assms(2) have eq: "set xs = set ys" by (simp add: card_seteq)
  then have "distinct ys"
    using assms(1,3) by (metis card_distinct distinct_card)
  with assms(1) eq show ?thesis by (metis set_eq_iff_mset_eq_distinct)
qed

lemma closed_threads_permutation:
  assumes "validate_shutdown_plan plan = Inr ()" "validate_closed_shutdown_record plan settled out = Inr ()"
  shows "mset (map closed_thread_id (output_threads out)) = mset (map shutdown_thread_id (plan_threads plan))"
proof (rule distinct_subset_mset)
  show "distinct (map shutdown_thread_id (plan_threads plan))"
    using assms(1) by (rule valid_plan_distinct)
  show "set (map shutdown_thread_id (plan_threads plan)) \<subseteq> set (map closed_thread_id (output_threads out))"
  proof
    fix i
    assume "i \<in> set (map shutdown_thread_id (plan_threads plan))"
    then obtain t where "t \<in> set (plan_threads plan)" "i = shutdown_thread_id t" by auto
    with assms(2) show "i \<in> set (map closed_thread_id (output_threads out))"
      by (auto dest!: closed_thread_settled fully_settled_id [symmetric])
  qed
  show "length (map closed_thread_id (output_threads out)) = length (map shutdown_thread_id (plan_threads plan))"
    using assms(2) by (cases plan; cases out) (auto simp: validate_closed_shutdown_record_def split: if_splits)
qed

subsection \<open>The ledger's invariant\<close>

text \<open>
  Nothing is settled before the plan is durable, and a durable ledger holds a record the store would accept.
\<close>

fun ledger_ok :: "shutdown_ledger \<Rightarrow> bool" where
  "ledger_ok l =
     (case sh_record l of
        None \<Rightarrow> \<not> sh_durable_plan l
      | Some r \<Rightarrow> if sh_durable_plan l then record_valid r else sb_settled r = [] \<and> sb_state r = Closing)"

lemma valid_settle:
  assumes "record_valid r" "sb_state r = Closing" "shutdown_ack_matches_plan (sb_plan r) ack"
    "\<forall>a \<in> set (sb_settled r). \<not> shutdown_acks_target_same_requirement a ack"
  shows "record_valid (r\<lparr>sb_settled := sb_settled r @ [ack]\<rparr>)"
  using assms no_acks_conflict_iff [of "[]"]
  by (auto simp: record_valid_iff validate_shutdown_settlements_def list_ex_iff sorted_wrt_append split: if_splits)

lemma valid_close:
  assumes "record_valid r" "validate_closed_shutdown_record (sb_plan r) (sb_settled r) out = Inr ()"
  shows "record_valid (r\<lparr>sb_state := Closed out\<rparr>)"
  using assms by (auto simp: record_valid_iff)

lemma ledger_ok_default [simp]: "ledger_ok ledger_default"
  by (simp add: ledger_default_def)

lemma ledger_ok_record: "ledger_ok l \<Longrightarrow> ledger_ok (snd (ledger_record plan l))"
  by (auto simp: ledger_record_def split: option.splits)

lemma ledger_ok_settle: "ledger_ok l \<Longrightarrow> ledger_ok (snd (ledger_settle ack l))"
  by (auto simp: ledger_settle_def list_ex_iff valid_settle split: option.splits if_splits)

lemma ledger_ok_close: "ledger_ok l \<Longrightarrow> ledger_ok (snd (ledger_close out l))"
  by (auto simp: ledger_close_def valid_close split: option.splits shutdown_barrier_state.splits sum.splits if_splits)

end
