(* ===== verification/Shutdown_Store.thy ===== *)
theory Shutdown_Store
  imports Shutdown_Barrier Contracts
begin

text \<open>
  The stored form of shutdown barriers and their persistence,
  \<^verbatim>\<open>crates/orca-runtime/src/runtime_surface/store.rs\<close> with the control records of
  \<^verbatim>\<open>crates/orca-runtime/src/thread_store/local.rs\<close>. The session file is the list of its barrier records; the outcome of
  every read and append is an argument, and a failed append may still have written its record.
\<close>

subsection \<open>Stored data\<close>

datatype stored_ephemeral_thread_persistence =
    StoredNonCataloguedOneShot first_operation_completion_policy
  | StoredAttached

datatype stored_shutdown_operation_source_phase =
    StoredRequested | StoredAdmittedReserved | StoredAdmittedStarted | StoredSuspended
  | StoredBackgroundOwned | StoredFinalizing | StoredFinalizingDegraded

datatype stored_shutdown_selected_cause =
    StoredExistingWinning opaque
  | StoredRequestedCause bool

record stored_thread_cursor_ack_requirement =
  stq_thread_id :: string
  stq_family :: surface_fact_family
  stq_event_id :: string
  stq_commit_id :: string

record stored_operation_terminal_ack_requirement =
  sor_thread_id :: string
  sor_thread_owner_epoch :: nat
  sor_operation_id :: string
  sor_terminal_commit_id :: string

datatype stored_host_requirement_identity =
    StoredSessionCatalogRequirement "string option" nat
  | StoredHostLifecycleRequirement string nat

record stored_host_receipt_ack_requirement =
  shr_host_incarnation :: string
  shr_identity :: stored_host_requirement_identity
  shr_commit_id :: string
  shr_receipt_digest :: string

datatype stored_shutdown_operation_plan =
    StoredExistingTerminal string string string stored_operation_terminal_ack_requirement
  | StoredPlannedFinalization string stored_shutdown_operation_source_phase string string
      stored_shutdown_selected_cause "string list" stored_operation_terminal_ack_requirement

datatype stored_shutdown_thread_plan =
    StoredRecordedThread string nat "stored_shutdown_operation_plan list" stored_thread_cursor_ack_requirement
      stored_host_receipt_ack_requirement
  | StoredEphemeralThread string nat stored_ephemeral_thread_persistence "stored_shutdown_operation_plan list"
      stored_thread_cursor_ack_requirement

datatype stored_shutdown_barrier_plan =
    StoredCloseThread string string stored_shutdown_thread_plan string string string
  | StoredShutdownHost string string "stored_shutdown_thread_plan list" string string
      stored_host_receipt_ack_requirement string

record stored_operation_terminal_at_cursor =
  sot_operation_id :: string
  sot_terminal :: opaque
  sot_completion_proof :: opaque
  sot_cursor :: surface_cursor
  sot_commit_class :: commit_class
  sot_batch_digest :: string

datatype stored_session_catalog_action =
  StoredCreated | StoredOpened | StoredLoaded | StoredForked | StoredClosedAction | StoredRemoved

record stored_session_catalog_receipt =
  scr_catalog_revision :: nat
  scr_thread_id :: "string option"
  scr_action :: stored_session_catalog_action

record stored_host_shutdown_receipt =
  shs_host_incarnation :: string
  shs_lifecycle_revision :: nat
  shs_barrier_id :: string
  shs_shutdown_commit_id :: string
  shs_closed_at :: int

datatype stored_closed_thread_receipt =
    StoredClosedRecorded string "stored_operation_terminal_at_cursor list" surface_cursor stored_session_catalog_receipt
  | StoredClosedEphemeral string stored_ephemeral_thread_persistence "stored_operation_terminal_at_cursor list"
      surface_cursor

datatype stored_retained_shutdown_output =
    StoredCloseThreadOutput stored_closed_thread_receipt
  | StoredShutdownHostOutput string stored_host_shutdown_receipt "stored_closed_thread_receipt list"

datatype stored_shutdown_barrier_state =
    StoredClosing
  | StoredClosed stored_retained_shutdown_output

datatype stored_shutdown_ack =
    StoredThreadLocalCursor surface_cursor surface_fact_family string commit_class
  | StoredOperationTerminal string nat string stored_operation_terminal_at_cursor
  | StoredSessionCatalog string "string option" nat stored_session_catalog_receipt string string
  | StoredHostLifecycle string nat stored_host_shutdown_receipt string string

record stored_shutdown_barrier_record =
  ssb_version :: nat
  ssb_plan :: stored_shutdown_barrier_plan
  ssb_settled :: "stored_shutdown_ack list"
  ssb_state :: stored_shutdown_barrier_state

datatype surface_ledger_error = AppendFailed | PartialAppend | CheckpointFailed | CommitIdentityConflict

subsection \<open>Conversion of plans\<close>

fun persistence_from_live :: "ephemeral_thread_persistence \<Rightarrow> stored_ephemeral_thread_persistence" where
  "persistence_from_live (EphemeralNonCataloguedOneShot close_after) = StoredNonCataloguedOneShot close_after"
| "persistence_from_live EphemeralAttached = StoredAttached"

fun persistence_into_live :: "stored_ephemeral_thread_persistence \<Rightarrow> ephemeral_thread_persistence" where
  "persistence_into_live (StoredNonCataloguedOneShot close_after) = EphemeralNonCataloguedOneShot close_after"
| "persistence_into_live StoredAttached = EphemeralAttached"

fun phase_from_live :: "shutdown_operation_source_phase \<Rightarrow> stored_shutdown_operation_source_phase" where
  "phase_from_live SourceRequested = StoredRequested"
| "phase_from_live SourceAdmittedReserved = StoredAdmittedReserved"
| "phase_from_live SourceAdmittedStarted = StoredAdmittedStarted"
| "phase_from_live SourceSuspended = StoredSuspended"
| "phase_from_live SourceBackgroundOwned = StoredBackgroundOwned"
| "phase_from_live SourceFinalizing = StoredFinalizing"
| "phase_from_live SourceFinalizingDegraded = StoredFinalizingDegraded"

fun phase_into_live :: "stored_shutdown_operation_source_phase \<Rightarrow> shutdown_operation_source_phase" where
  "phase_into_live StoredRequested = SourceRequested"
| "phase_into_live StoredAdmittedReserved = SourceAdmittedReserved"
| "phase_into_live StoredAdmittedStarted = SourceAdmittedStarted"
| "phase_into_live StoredSuspended = SourceSuspended"
| "phase_into_live StoredBackgroundOwned = SourceBackgroundOwned"
| "phase_into_live StoredFinalizing = SourceFinalizing"
| "phase_into_live StoredFinalizingDegraded = SourceFinalizingDegraded"

fun cause_from_live :: "shutdown_selected_cause \<Rightarrow> stored_shutdown_selected_cause" where
  "cause_from_live (ExistingWinning cause) = StoredExistingWinning cause"
| "cause_from_live (RequestedCause cause) = StoredRequestedCause (cause = HostShutdownCause)"

fun cause_into_live :: "stored_shutdown_selected_cause \<Rightarrow> shutdown_selected_cause" where
  "cause_into_live (StoredExistingWinning cause) = ExistingWinning cause"
| "cause_into_live (StoredRequestedCause host_shutdown) =
     RequestedCause (if host_shutdown then HostShutdownCause else ThreadCloseCause)"

definition cursor_requirement_from_live ::
    "thread_cursor_ack_requirement \<Rightarrow> stored_thread_cursor_ack_requirement" where
  "cursor_requirement_from_live v =
     \<lparr>stq_thread_id = tq_thread_id v, stq_family = tq_family v, stq_event_id = tq_event_id v,
      stq_commit_id = tq_commit_id v\<rparr>"

definition cursor_requirement_into_live ::
    "stored_thread_cursor_ack_requirement \<Rightarrow> thread_cursor_ack_requirement" where
  "cursor_requirement_into_live v =
     \<lparr>tq_thread_id = stq_thread_id v, tq_family = stq_family v, tq_event_id = stq_event_id v,
      tq_commit_id = stq_commit_id v\<rparr>"

definition terminal_requirement_from_live ::
    "operation_terminal_ack_requirement \<Rightarrow> stored_operation_terminal_ack_requirement" where
  "terminal_requirement_from_live v =
     \<lparr>sor_thread_id = or_thread_id v, sor_thread_owner_epoch = or_thread_owner_epoch v,
      sor_operation_id = or_operation_id v, sor_terminal_commit_id = or_terminal_commit_id v\<rparr>"

definition terminal_requirement_into_live ::
    "stored_operation_terminal_ack_requirement \<Rightarrow> operation_terminal_ack_requirement" where
  "terminal_requirement_into_live v =
     \<lparr>or_thread_id = sor_thread_id v, or_thread_owner_epoch = sor_thread_owner_epoch v,
      or_operation_id = sor_operation_id v, or_terminal_commit_id = sor_terminal_commit_id v\<rparr>"

definition host_requirement_from_live ::
    "host_receipt_ack_requirement \<Rightarrow> (surface_ledger_error, stored_host_receipt_ack_requirement) result" where
  "host_requirement_from_live v =
     try_bind
       (case hr_identity v of
          SessionCatalogRequirement thread_id revision \<Rightarrow> Inr (StoredSessionCatalogRequirement thread_id revision)
        | HostLifecycleRequirement host revision \<Rightarrow> Inr (StoredHostLifecycleRequirement host revision)
        | _ \<Rightarrow> Inl CommitIdentityConflict)
       (\<lambda>identity. Inr \<lparr>shr_host_incarnation = hr_host_incarnation v, shr_identity = identity,
                        shr_commit_id = hr_commit_id v, shr_receipt_digest = hr_receipt_digest v\<rparr>)"

definition host_requirement_into_live :: "stored_host_receipt_ack_requirement \<Rightarrow> host_receipt_ack_requirement" where
  "host_requirement_into_live v =
     \<lparr>hr_host_incarnation = shr_host_incarnation v,
      hr_identity =
        (case shr_identity v of
           StoredSessionCatalogRequirement thread_id revision \<Rightarrow> SessionCatalogRequirement thread_id revision
         | StoredHostLifecycleRequirement host revision \<Rightarrow> HostLifecycleRequirement host revision),
      hr_commit_id = shr_commit_id v, hr_receipt_digest = shr_receipt_digest v\<rparr>"

fun operation_plan_from_live :: "shutdown_operation_plan \<Rightarrow> stored_shutdown_operation_plan" where
  "operation_plan_from_live (ExistingTerminal operation_id intent commit r) =
     StoredExistingTerminal operation_id intent commit (terminal_requirement_from_live r)"
| "operation_plan_from_live (PlannedFinalization operation_id phase intent commit cause settlements r) =
     StoredPlannedFinalization operation_id (phase_from_live phase) intent commit (cause_from_live cause) settlements
       (terminal_requirement_from_live r)"

fun operation_plan_into_live :: "stored_shutdown_operation_plan \<Rightarrow> shutdown_operation_plan" where
  "operation_plan_into_live (StoredExistingTerminal operation_id intent commit r) =
     ExistingTerminal operation_id intent commit (terminal_requirement_into_live r)"
| "operation_plan_into_live (StoredPlannedFinalization operation_id phase intent commit cause settlements r) =
     PlannedFinalization operation_id (phase_into_live phase) intent commit (cause_into_live cause) settlements
       (terminal_requirement_into_live r)"

fun thread_plan_from_live ::
    "shutdown_thread_plan \<Rightarrow> (surface_ledger_error, stored_shutdown_thread_plan) result" where
  "thread_plan_from_live (RecordedThread thread_id epoch operations session_closed catalog_closed) =
     try_bind (host_requirement_from_live catalog_closed) (\<lambda>catalog.
       Inr (StoredRecordedThread thread_id epoch (map operation_plan_from_live operations)
              (cursor_requirement_from_live session_closed) catalog))"
| "thread_plan_from_live (EphemeralThread thread_id epoch persistence operations session_closed) =
     Inr (StoredEphemeralThread thread_id epoch (persistence_from_live persistence)
            (map operation_plan_from_live operations) (cursor_requirement_from_live session_closed))"

fun thread_plan_into_live :: "stored_shutdown_thread_plan \<Rightarrow> shutdown_thread_plan" where
  "thread_plan_into_live (StoredRecordedThread thread_id epoch operations session_closed catalog_closed) =
     RecordedThread thread_id epoch (map operation_plan_into_live operations)
       (cursor_requirement_into_live session_closed) (host_requirement_into_live catalog_closed)"
| "thread_plan_into_live (StoredEphemeralThread thread_id epoch persistence operations session_closed) =
     EphemeralThread thread_id epoch (persistence_into_live persistence)
       (map operation_plan_into_live operations) (cursor_requirement_into_live session_closed)"

text \<open>\<^verbatim>\<open>collect::<Result<Vec<_>, _>>()\<close>: the first error, or all values.\<close>

fun collect_results :: "('a \<Rightarrow> ('e, 'b) result) \<Rightarrow> 'a list \<Rightarrow> ('e, 'b list) result" where
  "collect_results f [] = Inr []"
| "collect_results f (x # xs) =
     try_bind (f x) (\<lambda>y. try_bind (collect_results f xs) (\<lambda>ys. Inr (y # ys)))"

fun plan_from_live :: "shutdown_barrier_plan \<Rightarrow> (surface_ledger_error, stored_shutdown_barrier_plan) result" where
  "plan_from_live (CloseThreadPlan request host thread barrier commit digest) =
     try_bind (thread_plan_from_live thread) (\<lambda>thread.
       Inr (StoredCloseThread request host thread barrier commit digest))"
| "plan_from_live (ShutdownHostPlan request host threads barrier commit final digest) =
     try_bind (collect_results thread_plan_from_live threads) (\<lambda>threads.
     try_bind (host_requirement_from_live final) (\<lambda>final.
       Inr (StoredShutdownHost request host threads barrier commit final digest)))"

fun plan_into_live :: "stored_shutdown_barrier_plan \<Rightarrow> shutdown_barrier_plan" where
  "plan_into_live (StoredCloseThread request host thread barrier commit digest) =
     CloseThreadPlan request host (thread_plan_into_live thread) barrier commit digest"
| "plan_into_live (StoredShutdownHost request host threads barrier commit final digest) =
     ShutdownHostPlan request host (map thread_plan_into_live threads) barrier commit
       (host_requirement_into_live final) digest"

subsection \<open>Conversion of receipts and acknowledgements\<close>

definition terminal_from_live :: "operation_terminal_at_cursor \<Rightarrow> stored_operation_terminal_at_cursor" where
  "terminal_from_live v =
     \<lparr>sot_operation_id = ot_operation_id v, sot_terminal = ot_terminal v, sot_completion_proof = ot_completion_proof v,
      sot_cursor = ot_cursor v, sot_commit_class = ot_commit_class v, sot_batch_digest = ot_batch_digest v\<rparr>"

definition terminal_into_live :: "stored_operation_terminal_at_cursor \<Rightarrow> operation_terminal_at_cursor" where
  "terminal_into_live v =
     \<lparr>ot_operation_id = sot_operation_id v, ot_terminal = sot_terminal v, ot_completion_proof = sot_completion_proof v,
      ot_cursor = sot_cursor v, ot_commit_class = sot_commit_class v, ot_batch_digest = sot_batch_digest v\<rparr>"

fun action_from_live :: "surface_session_catalog_action \<Rightarrow> stored_session_catalog_action" where
  "action_from_live CatalogCreated = StoredCreated"
| "action_from_live CatalogOpened = StoredOpened"
| "action_from_live CatalogLoaded = StoredLoaded"
| "action_from_live CatalogForked = StoredForked"
| "action_from_live CatalogClosed = StoredClosedAction"
| "action_from_live CatalogRemoved = StoredRemoved"

fun action_into_live :: "stored_session_catalog_action \<Rightarrow> surface_session_catalog_action" where
  "action_into_live StoredCreated = CatalogCreated"
| "action_into_live StoredOpened = CatalogOpened"
| "action_into_live StoredLoaded = CatalogLoaded"
| "action_into_live StoredForked = CatalogForked"
| "action_into_live StoredClosedAction = CatalogClosed"
| "action_into_live StoredRemoved = CatalogRemoved"

definition catalog_receipt_from_live :: "surface_session_catalog_receipt \<Rightarrow> stored_session_catalog_receipt" where
  "catalog_receipt_from_live v =
     \<lparr>scr_catalog_revision = cr_catalog_revision v, scr_thread_id = cr_thread_id v,
      scr_action = action_from_live (cr_action v)\<rparr>"

definition catalog_receipt_into_live :: "stored_session_catalog_receipt \<Rightarrow> surface_session_catalog_receipt" where
  "catalog_receipt_into_live v =
     \<lparr>cr_catalog_revision = scr_catalog_revision v, cr_thread_id = scr_thread_id v,
      cr_action = action_into_live (scr_action v)\<rparr>"

definition host_receipt_from_live :: "surface_host_shutdown_receipt \<Rightarrow> stored_host_shutdown_receipt" where
  "host_receipt_from_live v =
     \<lparr>shs_host_incarnation = hs_host_incarnation v, shs_lifecycle_revision = hs_lifecycle_revision v,
      shs_barrier_id = hs_barrier_id v, shs_shutdown_commit_id = hs_shutdown_commit_id v,
      shs_closed_at = hs_closed_at v\<rparr>"

definition host_receipt_into_live :: "stored_host_shutdown_receipt \<Rightarrow> surface_host_shutdown_receipt" where
  "host_receipt_into_live v =
     \<lparr>hs_host_incarnation = shs_host_incarnation v, hs_lifecycle_revision = shs_lifecycle_revision v,
      hs_barrier_id = shs_barrier_id v, hs_shutdown_commit_id = shs_shutdown_commit_id v,
      hs_stage = LastStage, hs_closed_at = shs_closed_at v\<rparr>"

fun closed_thread_from_live :: "closed_thread_receipt \<Rightarrow> stored_closed_thread_receipt" where
  "closed_thread_from_live (ClosedRecorded thread_id terminals cursor receipt) =
     StoredClosedRecorded thread_id (map terminal_from_live terminals) cursor (catalog_receipt_from_live receipt)"
| "closed_thread_from_live (ClosedEphemeral thread_id persistence terminals cursor) =
     StoredClosedEphemeral thread_id (persistence_from_live persistence) (map terminal_from_live terminals) cursor"

fun closed_thread_into_live :: "stored_closed_thread_receipt \<Rightarrow> closed_thread_receipt" where
  "closed_thread_into_live (StoredClosedRecorded thread_id terminals cursor receipt) =
     ClosedRecorded thread_id (map terminal_into_live terminals) cursor (catalog_receipt_into_live receipt)"
| "closed_thread_into_live (StoredClosedEphemeral thread_id persistence terminals cursor) =
     ClosedEphemeral thread_id (persistence_into_live persistence) (map terminal_into_live terminals) cursor"

fun output_from_live :: "retained_shutdown_output \<Rightarrow> stored_retained_shutdown_output" where
  "output_from_live (CloseThreadOutput out) = StoredCloseThreadOutput (closed_thread_from_live out)"
| "output_from_live (ShutdownHostOutput out) =
     StoredShutdownHostOutput (so_host_incarnation out) (host_receipt_from_live (so_host_receipt out))
       (map closed_thread_from_live (so_closed_threads out))"

fun output_into_live :: "stored_retained_shutdown_output \<Rightarrow> retained_shutdown_output" where
  "output_into_live (StoredCloseThreadOutput out) = CloseThreadOutput (closed_thread_into_live out)"
| "output_into_live (StoredShutdownHostOutput host receipt threads) =
     ShutdownHostOutput \<lparr>so_host_incarnation = host, so_host_receipt = host_receipt_into_live receipt,
       so_closed_threads = map closed_thread_into_live threads\<rparr>"

fun state_from_live :: "shutdown_barrier_state \<Rightarrow> stored_shutdown_barrier_state" where
  "state_from_live Closing = StoredClosing"
| "state_from_live (Closed out) = StoredClosed (output_from_live out)"

fun state_into_live :: "stored_shutdown_barrier_state \<Rightarrow> shutdown_barrier_state" where
  "state_into_live StoredClosing = Closing"
| "state_into_live (StoredClosed out) = Closed (output_into_live out)"

definition ack_from_live :: "mutation_commit_ack \<Rightarrow> (surface_ledger_error, stored_shutdown_ack) result" where
  "ack_from_live ack =
     (case ack of
        ThreadLocalCursor cursor family event_id commit_class \<Rightarrow>
          Inr (StoredThreadLocalCursor cursor family event_id commit_class)
      | OperationTerminalAck thread_id epoch operation_id v \<Rightarrow>
          Inr (StoredOperationTerminal thread_id epoch operation_id (terminal_from_live v))
      | HostCommitAck host identity commit_id digest \<Rightarrow>
          (case identity of
             SessionCatalogPair thread_id revision receipt \<Rightarrow>
               Inr (StoredSessionCatalog host thread_id revision (catalog_receipt_from_live receipt) commit_id digest)
           | HostLifecyclePair identity_host revision receipt \<Rightarrow>
               if identity_host = host
               then Inr (StoredHostLifecycle host revision (host_receipt_from_live receipt) commit_id digest)
               else Inl CommitIdentityConflict
           | _ \<Rightarrow> Inl CommitIdentityConflict)
      | _ \<Rightarrow> Inl CommitIdentityConflict)"

fun ack_into_live :: "stored_shutdown_ack \<Rightarrow> mutation_commit_ack" where
  "ack_into_live (StoredThreadLocalCursor cursor family event_id commit_class) =
     ThreadLocalCursor cursor family event_id commit_class"
| "ack_into_live (StoredOperationTerminal thread_id epoch operation_id v) =
     OperationTerminalAck thread_id epoch operation_id (terminal_into_live v)"
| "ack_into_live (StoredSessionCatalog host thread_id revision receipt commit_id digest) =
     HostCommitAck host (SessionCatalogPair thread_id revision (catalog_receipt_into_live receipt)) commit_id digest"
| "ack_into_live (StoredHostLifecycle host revision receipt commit_id digest) =
     HostCommitAck host (HostLifecyclePair host revision (host_receipt_into_live receipt)) commit_id digest"

subsection \<open>Records\<close>

definition record_from_live ::
    "shutdown_barrier_record \<Rightarrow> (surface_ledger_error, stored_shutdown_barrier_record) result" where
  "record_from_live r =
     try_bind (plan_from_live (sb_plan r)) (\<lambda>plan.
     try_bind (collect_results ack_from_live (sb_settled r)) (\<lambda>settled.
       Inr \<lparr>ssb_version = 1, ssb_plan = plan, ssb_settled = settled, ssb_state = state_from_live (sb_state r)\<rparr>))"

definition record_into_live ::
    "stored_shutdown_barrier_record \<Rightarrow> (surface_ledger_error, shutdown_barrier_record) result" where
  "record_into_live s =
     (if ssb_version s \<noteq> 1 then Inl CommitIdentityConflict
      else
        (let r = \<lparr>sb_plan = plan_into_live (ssb_plan s), sb_settled = map ack_into_live (ssb_settled s),
                  sb_state = state_into_live (ssb_state s)\<rparr>
         in try_bind (map_err (\<lambda>_. CommitIdentityConflict) (from_durable_record r)) (\<lambda>_. Inr r)))"

fun stored_barrier_id :: "stored_shutdown_barrier_plan \<Rightarrow> string" where
  "stored_barrier_id (StoredCloseThread _ _ _ barrier _ _) = barrier"
| "stored_barrier_id (StoredShutdownHost _ _ _ barrier _ _ _) = barrier"

fun stored_plan_digest :: "stored_shutdown_barrier_plan \<Rightarrow> string" where
  "stored_plan_digest (StoredCloseThread _ _ _ _ _ digest) = digest"
| "stored_plan_digest (StoredShutdownHost _ _ _ _ _ _ digest) = digest"

subsection \<open>The session file\<close>

type_synonym barrier_entry = "string \<times> string \<times> stored_shutdown_barrier_record"

fun probe_from :: "(string \<times> stored_shutdown_barrier_record) option \<Rightarrow> barrier_entry list \<Rightarrow> string
    \<Rightarrow> (string \<times> stored_shutdown_barrier_record) option" where
  "probe_from found [] i = found"
| "probe_from found ((barrier, digest, r) # es) i =
     probe_from (if barrier = i then Some (digest, r) else found) es i"

definition probe_surface_control_record ::
    "barrier_entry list \<Rightarrow> string \<Rightarrow> (string \<times> stored_shutdown_barrier_record) option" where
  "probe_surface_control_record es i = probe_from None es i"

datatype append_outcome = Appended | AppendError bool

definition append_surface_shutdown_barrier ::
    "append_outcome \<Rightarrow> barrier_entry \<Rightarrow> barrier_entry list \<Rightarrow> bool \<times> barrier_entry list" where
  "append_surface_shutdown_barrier outcome e es =
     (case outcome of
        Appended \<Rightarrow> (True, es @ [e])
      | AppendError written \<Rightarrow> (False, if written then es @ [e] else es))"

definition legal_progress :: "shutdown_barrier_record \<Rightarrow> shutdown_barrier_record \<Rightarrow> bool" where
  "legal_progress existing r \<longleftrightarrow>
     sb_plan existing = sb_plan r \<and> sb_state existing = Closing
     \<and> list_all (\<lambda>ack. ack \<in> set (sb_settled r)) (sb_settled existing)"

text \<open>Marking the plan durable at the end, with its error as the code maps it.\<close>

definition finish_persist ::
    "shutdown_barrier_record \<Rightarrow> shutdown_ledger \<Rightarrow> barrier_entry list
     \<Rightarrow> (surface_ledger_error, unit) result \<times> shutdown_ledger \<times> barrier_entry list" where
  "finish_persist r l es =
     (case mark_plan_durable (sb_plan r) l of
        (res, l') \<Rightarrow> (map_err (\<lambda>_. CommitIdentityConflict) res, l', es))"

definition append_barrier ::
    "append_outcome \<Rightarrow> shutdown_barrier_record \<Rightarrow> stored_shutdown_barrier_record \<Rightarrow> shutdown_ledger
     \<Rightarrow> barrier_entry list \<Rightarrow> (surface_ledger_error, unit) result \<times> shutdown_ledger \<times> barrier_entry list" where
  "append_barrier outcome r stored l es =
     (case append_surface_shutdown_barrier outcome
             (stored_barrier_id (ssb_plan stored), stored_plan_digest (ssb_plan stored), stored) es of
        (True, es') \<Rightarrow> finish_persist r l es'
      | (False, es') \<Rightarrow> (Inl AppendFailed, l, es'))"

definition persist_shutdown_barrier ::
    "bool \<Rightarrow> append_outcome \<Rightarrow> shutdown_ledger \<Rightarrow> barrier_entry list
     \<Rightarrow> (surface_ledger_error, unit) result \<times> shutdown_ledger \<times> barrier_entry list" where
  "persist_shutdown_barrier readable outcome l es =
     (case sh_record l of
        None \<Rightarrow> (Inl CommitIdentityConflict, l, es)
      | Some r \<Rightarrow>
          (case from_durable_record r of
             Inl _ \<Rightarrow> (Inl CommitIdentityConflict, l, es)
           | Inr _ \<Rightarrow>
               (case record_from_live r of
                  Inl e \<Rightarrow> (Inl e, l, es)
                | Inr stored \<Rightarrow>
                    if \<not> readable then (Inl AppendFailed, l, es)
                    else
                      (case probe_surface_control_record es (stored_barrier_id (ssb_plan stored)) of
                         None \<Rightarrow> append_barrier outcome r stored l es
                       | Some (existing_digest, existing_stored) \<Rightarrow>
                           if existing_digest \<noteq> stored_plan_digest (ssb_plan stored)
                           then (Inl CommitIdentityConflict, l, es)
                           else
                             (case record_into_live existing_stored of
                                Inl e \<Rightarrow> (Inl e, l, es)
                              | Inr existing \<Rightarrow>
                                  if existing = r then finish_persist r l es
                                  else if \<not> legal_progress existing r then (Inl CommitIdentityConflict, l, es)
                                  else append_barrier outcome r stored l es)))))"

definition load_shutdown_barrier ::
    "bool \<Rightarrow> string \<Rightarrow> barrier_entry list \<Rightarrow> (surface_ledger_error, shutdown_ledger option) result" where
  "load_shutdown_barrier readable i es =
     (if \<not> readable then Inl AppendFailed
      else
        (case probe_surface_control_record es i of
           None \<Rightarrow> Inr None
         | Some (outer_digest, stored) \<Rightarrow>
             if stored_barrier_id (ssb_plan stored) \<noteq> i \<or> outer_digest \<noteq> stored_plan_digest (ssb_plan stored)
             then Inl CommitIdentityConflict
             else
               try_bind (record_into_live stored) (\<lambda>r.
                 map_err (\<lambda>_. CommitIdentityConflict) (map_sum id Some (from_durable_record r)))))"

subsection \<open>Round trips\<close>

named_theorems stored_live \<open>reading back what a conversion stored\<close>

lemma persistence_round_trip [stored_live]: "persistence_into_live (persistence_from_live p) = p"
  by (cases p) simp_all

lemma phase_round_trip [stored_live]: "phase_into_live (phase_from_live p) = p"
  by (cases p) simp_all

lemma cause_round_trip [stored_live]: "cause_into_live (cause_from_live c) = c"
  by (cases c) (auto intro: shutdown_request_cause.exhaust)

lemma action_round_trip [stored_live]: "action_into_live (action_from_live a) = a"
  by (cases a) simp_all

lemma cursor_requirement_round_trip [stored_live]:
  "cursor_requirement_into_live (cursor_requirement_from_live v) = v"
  by (simp add: cursor_requirement_into_live_def cursor_requirement_from_live_def)

lemma terminal_requirement_round_trip [stored_live]:
  "terminal_requirement_into_live (terminal_requirement_from_live v) = v"
  by (simp add: terminal_requirement_into_live_def terminal_requirement_from_live_def)

lemma terminal_round_trip [stored_live]: "terminal_into_live (terminal_from_live v) = v"
  by (simp add: terminal_into_live_def terminal_from_live_def)

lemma catalog_receipt_round_trip [stored_live]: "catalog_receipt_into_live (catalog_receipt_from_live v) = v"
  by (simp add: catalog_receipt_into_live_def catalog_receipt_from_live_def stored_live)

lemma host_receipt_round_trip [stored_live]: "host_receipt_into_live (host_receipt_from_live v) = v"
  by (cases v) (simp add: host_receipt_into_live_def host_receipt_from_live_def,
      metis surface_host_shutdown_stage.exhaust)

lemma operation_plan_round_trip [stored_live]: "operation_plan_into_live (operation_plan_from_live v) = v"
  by (cases v) (simp_all add: stored_live)

lemma map_round_trip [stored_live]: "(\<And>x. g (f x) = x) \<Longrightarrow> map (g \<circ> f) xs = xs"
  by (simp add: map_idI)

lemma closed_thread_round_trip [stored_live]: "closed_thread_into_live (closed_thread_from_live v) = v"
  by (cases v) (simp_all add: stored_live)

lemma output_round_trip [stored_live]: "output_into_live (output_from_live v) = v"
  by (cases v) (simp_all add: stored_live)

lemma state_round_trip [stored_live]: "state_into_live (state_from_live v) = v"
  by (cases v) (simp_all add: stored_live)

lemma host_requirement_round_trip:
  "host_requirement_from_live v = Inr s \<Longrightarrow> host_requirement_into_live s = v"
  by (cases "hr_identity v")
    (auto simp: host_requirement_from_live_def host_requirement_into_live_def)

lemma thread_plan_round_trip: "thread_plan_from_live v = Inr s \<Longrightarrow> thread_plan_into_live s = v"
  by (cases v) (auto simp: stored_live dest: host_requirement_round_trip)

lemma ack_round_trip: "ack_from_live v = Inr s \<Longrightarrow> ack_into_live s = v"
  by (auto simp: ack_from_live_def stored_live
      split: mutation_commit_ack.splits host_receipt_identity_pair.splits if_splits)

lemma collect_results_round_trip:
  assumes "collect_results f xs = Inr ys" and "\<And>x y. f x = Inr y \<Longrightarrow> g y = x"
  shows "map g ys = xs"
  using assms(1) by (induction xs arbitrary: ys) (auto simp: assms(2))

lemma collect_results_ok: "(\<And>x. x \<in> set xs \<Longrightarrow> is_ok (f x)) \<Longrightarrow> is_ok (collect_results f xs)"
  by (induction xs) (fastforce simp: is_ok_iff)+

lemma plan_round_trip: "plan_from_live v = Inr s \<Longrightarrow> plan_into_live s = v"
  by (cases v)
    (auto dest: thread_plan_round_trip host_requirement_round_trip
       collect_results_round_trip [OF _ thread_plan_round_trip])

lemma record_parts_round_trip:
  assumes "record_from_live r = Inr s"
  shows "plan_into_live (ssb_plan s) = sb_plan r" "map ack_into_live (ssb_settled s) = sb_settled r"
    "state_into_live (ssb_state s) = sb_state r" "ssb_version s = 1"
  using assms
  by (auto simp: record_from_live_def stored_live
      dest: plan_round_trip collect_results_round_trip [OF _ ack_round_trip])

lemma record_round_trip:
  assumes "record_valid r" "record_from_live r = Inr s"
  shows "record_into_live s = Inr r"
  using assms(1) record_parts_round_trip [OF assms(2)]
  by (cases r) (simp add: record_into_live_def Let_def from_durable_record_iff)

subsection \<open>Every valid record can be stored\<close>

lemma host_requirement_storable:
  "(\<exists>i v. hr_identity r = SessionCatalogRequirement i v) \<or> (\<exists>h v. hr_identity r = HostLifecycleRequirement h v)
   \<Longrightarrow> is_ok (host_requirement_from_live r)"
  by (auto simp: host_requirement_from_live_def)

lemma thread_plan_storable: "validate_thread t \<Longrightarrow> is_ok (thread_plan_from_live t)"
  using host_requirement_storable
  by (cases t)
    (fastforce simp: validate_thread_def Let_def is_ok_iff
       split: if_splits host_receipt_requirement_identity.splits option.splits)+

lemma validate_threads_all: "validate_threads seen ts \<Longrightarrow> t \<in> set ts \<Longrightarrow> validate_thread t"
  by (induction seen ts rule: validate_threads.induct) auto

lemma plan_threads_valid:
  "validate_shutdown_plan plan = Inr () \<Longrightarrow> t \<in> set (plan_threads plan) \<Longrightarrow> validate_thread t"
  by (cases plan) (auto simp: validate_shutdown_plan_def Let_def split: if_splits dest: validate_threads_all)

lemma plan_final_identity:
  "validate_shutdown_plan (ShutdownHostPlan q h ts b c final d) = Inr () \<Longrightarrow>
   hr_host_incarnation final = h \<and> (\<exists>v. hr_identity final = HostLifecycleRequirement h v)"
  by (auto simp: validate_shutdown_plan_def Let_def
      split: if_splits host_receipt_requirement_identity.splits)

lemma plan_storable:
  assumes "validate_shutdown_plan plan = Inr ()"
  shows "is_ok (plan_from_live plan)"
proof (cases plan)
  case (CloseThreadPlan q h t b c d)
  with assms thread_plan_storable [of t] plan_threads_valid show ?thesis by (auto simp: is_ok_iff)
next
  case (ShutdownHostPlan q h ts b c final d)
  then have "is_ok (collect_results thread_plan_from_live ts)"
    using assms plan_threads_valid by (intro collect_results_ok thread_plan_storable) auto
  moreover have "is_ok (host_requirement_from_live final)"
    using assms ShutdownHostPlan plan_final_identity by (intro host_requirement_storable) blast
  ultimately show ?thesis using ShutdownHostPlan by (auto simp: is_ok_iff)
qed

lemma thread_ack_storable:
  assumes "validate_thread t" "m \<in> set (thread_requirements t)" "m a"
  shows "is_ok (ack_from_live a)"
proof -
  from assms(2) consider "m = thread_ack_matches_requirement t (thread_session_closed t)"
    | c where "m = host_ack_matches_requirement c" "thread_catalog_closed t = Some c"
    | r where "m = operation_ack_matches_requirement r"
    by (auto simp: thread_requirements_def split: option.splits)
  then show ?thesis
  proof cases
    case (2 c)
    then obtain i v where "hr_identity c = SessionCatalogRequirement i v"
      using assms(1)
      by (auto simp: validate_thread_def Let_def split: if_splits host_receipt_requirement_identity.splits)
    with 2 assms(3) show ?thesis
      by (auto simp: host_ack_matches_requirement_def ack_from_live_def
          split: mutation_commit_ack.splits if_splits host_receipt_identity_pair.splits)
  qed (use assms(3) in \<open>auto simp: ack_from_live_def dest!: ack_matchesD\<close>)
qed

lemma ack_storable:
  assumes "validate_shutdown_plan plan = Inr ()" "shutdown_ack_matches_plan plan a"
  shows "is_ok (ack_from_live a)"
proof -
  obtain m where m: "m \<in> set (plan_requirements plan)" "m a"
    using assms(2) by (auto simp: ack_matches_plan_iff)
  show ?thesis
  proof (cases "\<exists>t \<in> set (plan_threads plan). m \<in> set (thread_requirements t)")
    case True
    with m assms(1) show ?thesis by (blast intro: thread_ack_storable plan_threads_valid)
  next
    case False
    then obtain q h ts b c final d where plan: "plan = ShutdownHostPlan q h ts b c final d"
      and "m = host_ack_matches_requirement final"
      using m(1) by (cases plan) auto
    with m(2) assms(1) plan_final_identity [of q h ts b c final d] show ?thesis
      by (auto simp: host_ack_matches_requirement_def ack_from_live_def
          split: mutation_commit_ack.splits if_splits host_receipt_identity_pair.splits)
  qed
qed

lemma record_storable:
  assumes "record_valid r"
  obtains s where "record_from_live r = Inr s"
proof -
  have "is_ok (plan_from_live (sb_plan r))"
    using assms by (simp add: record_valid_iff plan_storable)
  moreover have "is_ok (collect_results ack_from_live (sb_settled r))"
    using assms ack_storable
    by (intro collect_results_ok)
      (auto simp: record_valid_iff validate_shutdown_settlements_def list_ex_iff split: if_splits)
  ultimately show thesis
    using that by (auto simp: record_from_live_def is_ok_iff)
qed

end
