(* ===== verification/Shutdown_Protocol.thy ===== *)
theory Shutdown_Protocol
  imports Shutdown_Store
begin

text \<open>
  Shutdown over time: a ledger in memory and the barrier records of its session file, driven by any sequence of
  operations, with reads and appends that may fail and restarts that reload the ledger from the file.
\<close>

subsection \<open>Events\<close>

type_synonym barrier_system = "shutdown_ledger \<times> barrier_entry list"

datatype barrier_event =
    RecordPlan shutdown_barrier_plan
  | Settle mutation_commit_ack
  | Close retained_shutdown_output
  | Persist bool append_outcome
  | Restart bool string

fun barrier_step :: "barrier_event \<Rightarrow> barrier_system \<Rightarrow> barrier_system" where
  "barrier_step (RecordPlan plan) (l, es) = (snd (ledger_record plan l), es)"
| "barrier_step (Settle ack) (l, es) = (snd (ledger_settle ack l), es)"
| "barrier_step (Close out) (l, es) = (snd (ledger_close out l), es)"
| "barrier_step (Persist readable outcome) (l, es) = snd (persist_shutdown_barrier readable outcome l es)"
| "barrier_step (Restart readable i) (l, es) =
     (case load_shutdown_barrier readable i es of Inr (Some l') \<Rightarrow> l' | _ \<Rightarrow> ledger_default, es)"

definition barrier_run :: "barrier_event list \<Rightarrow> barrier_system" where
  "barrier_run events = fold barrier_step events (ledger_default, [])"

subsection \<open>The durable record of a barrier\<close>

fun plan_barrier_id :: "shutdown_barrier_plan \<Rightarrow> string" where
  "plan_barrier_id (CloseThreadPlan _ _ _ b _ _) = b"
| "plan_barrier_id (ShutdownHostPlan _ _ _ b _ _ _) = b"

fun plan_digest :: "shutdown_barrier_plan \<Rightarrow> string" where
  "plan_digest (CloseThreadPlan _ _ _ _ _ d) = d"
| "plan_digest (ShutdownHostPlan _ _ _ _ _ _ d) = d"

definition durable_record :: "barrier_entry list \<Rightarrow> string \<Rightarrow> shutdown_barrier_record option" where
  "durable_record es i =
     (case probe_surface_control_record es i of
        None \<Rightarrow> None
      | Some (_, s) \<Rightarrow> (case record_into_live s of Inr r \<Rightarrow> Some r | Inl _ \<Rightarrow> None))"

text \<open>What may happen to a durable record: it keeps its plan, gains acknowledgements, and is final once closed.\<close>

definition progresses :: "shutdown_barrier_record \<Rightarrow> shutdown_barrier_record \<Rightarrow> bool" where
  "progresses r r' \<longleftrightarrow> sb_plan r' = sb_plan r \<and> set (sb_settled r) \<subseteq> set (sb_settled r') \<and> (sb_state r \<noteq> Closing \<longrightarrow> r' = r)"

definition entry_ok :: "barrier_entry \<Rightarrow> bool" where
  "entry_ok e \<longleftrightarrow>
     (case e of (b, d, s) \<Rightarrow>
        \<exists>r. record_valid r \<and> record_from_live r = Inr s \<and> b = plan_barrier_id (sb_plan r) \<and> d = plan_digest (sb_plan r))"

definition system_ok :: "barrier_system \<Rightarrow> bool" where
  "system_ok s \<longleftrightarrow>
     ledger_ok (fst s) \<and> (\<forall>e \<in> set (snd s). entry_ok e)
     \<and> (\<forall>r. sh_record (fst s) = Some r \<and> sh_durable_plan (fst s) \<longrightarrow>
          (\<exists>d. durable_record (snd s) (plan_barrier_id (sb_plan r)) = Some d \<and> progresses d r))"

lemma progresses_refl [simp]: "progresses r r"
  by (simp add: progresses_def)

lemma progresses_trans: "progresses a b \<Longrightarrow> progresses b c \<Longrightarrow> progresses a c"
  by (auto simp: progresses_def)

lemma legal_progress_progresses: "legal_progress d r \<Longrightarrow> progresses d r"
  by (auto simp: legal_progress_def progresses_def list_all_iff)

lemma stored_plan_ids:
  assumes "record_from_live r = Inr s"
  shows "stored_barrier_id (ssb_plan s) = plan_barrier_id (sb_plan r)"
    "stored_plan_digest (ssb_plan s) = plan_digest (sb_plan r)"
proof -
  have "plan_barrier_id (plan_into_live p) = stored_barrier_id p \<and> plan_digest (plan_into_live p) = stored_plan_digest p"
    for p by (cases p) simp_all
  with record_parts_round_trip(1) [OF assms] show
    "stored_barrier_id (ssb_plan s) = plan_barrier_id (sb_plan r)"
    "stored_plan_digest (ssb_plan s) = plan_digest (sb_plan r)" by metis+
qed

lemma probe_from_append:
  "probe_from found (es @ [(b, d, s)]) i = (if b = i then Some (d, s) else probe_from found es i)"
  by (induction found es i rule: probe_from.induct) simp_all

lemma probe_append [simp]:
  "probe_surface_control_record (es @ [(b, d, s)]) i =
     (if b = i then Some (d, s) else probe_surface_control_record es i)"
  by (simp add: probe_surface_control_record_def probe_from_append)

lemma probe_from_mem:
  "probe_from found es i = Some (d, s) \<Longrightarrow> found = Some (d, s) \<or> (i, d, s) \<in> set es"
  by (induction found es i rule: probe_from.induct) (auto split: if_splits)

lemma probe_mem: "probe_surface_control_record es i = Some (d, s) \<Longrightarrow> (i, d, s) \<in> set es"
  by (auto simp: probe_surface_control_record_def dest: probe_from_mem)

lemma durable_recordI:
  assumes "\<forall>e \<in> set es. entry_ok e" "probe_surface_control_record es i = Some (d, s)"
  obtains r where "durable_record es i = Some r" "record_valid r" "record_from_live r = Inr s"
    "record_into_live s = Inr r" "i = plan_barrier_id (sb_plan r)" "d = plan_digest (sb_plan r)"
proof -
  from assms have "entry_ok (i, d, s)" by (blast dest: probe_mem)
  then obtain r where r: "record_valid r" "record_from_live r = Inr s" "i = plan_barrier_id (sb_plan r)"
    "d = plan_digest (sb_plan r)" by (auto simp: entry_ok_def)
  moreover from r have "record_into_live s = Inr r" by (simp add: record_round_trip)
  ultimately show thesis using assms(2) that by (auto simp: durable_record_def)
qed

lemma durable_record_append:
  assumes "record_valid r" "record_from_live r = Inr s"
  shows "durable_record (es @ [(plan_barrier_id (sb_plan r), d, s)]) i =
    (if plan_barrier_id (sb_plan r) = i then Some r else durable_record es i)"
  using record_round_trip [OF assms] by (simp add: durable_record_def)

subsection \<open>What persisting does\<close>

lemma finish_persist_own [simp]:
  "sh_record l = Some r \<Longrightarrow> finish_persist r l es = (Inr (), l\<lparr>sh_durable_plan := True\<rparr>, es)"
  by (simp add: finish_persist_def mark_plan_durable_def)

text \<open>Nothing, or the ledger becomes durable on a record already in the file, or the record is appended.\<close>

lemma append_barrier_cases:
  assumes "append_barrier outcome r s l es = (res, l', es')" "sh_record l = Some r" "record_from_live r = Inr s"
  shows "(l' = l \<and> es' = es)
    \<or> (es' = es @ [(plan_barrier_id (sb_plan r), plan_digest (sb_plan r), s)]
       \<and> (l' = l \<or> l' = l\<lparr>sh_durable_plan := True\<rparr>))"
  using assms(1,2) stored_plan_ids [OF assms(3)]
  by (auto simp: append_barrier_def append_surface_shutdown_barrier_def split: append_outcome.splits if_splits)

lemma persist_cases:
  assumes "persist_shutdown_barrier readable outcome l es = (res, l', es')" "\<forall>e \<in> set es. entry_ok e"
  obtains "l' = l" "es' = es"
    | r where "sh_record l = Some r" "record_valid r" "durable_record es (plan_barrier_id (sb_plan r)) = Some r"
        "l' = l\<lparr>sh_durable_plan := True\<rparr>" "es' = es"
    | r s where "sh_record l = Some r" "record_valid r" "record_from_live r = Inr s"
        "\<forall>d. durable_record es (plan_barrier_id (sb_plan r)) = Some d \<longrightarrow> progresses d r"
        "es' = es @ [(plan_barrier_id (sb_plan r), plan_digest (sb_plan r), s)]"
        "l' = l \<or> l' = l\<lparr>sh_durable_plan := True\<rparr>"
proof (cases "sh_record l")
  case (Some r)
  show ?thesis
  proof (cases "record_valid r")
    case True
    then obtain s where s: "record_from_live r = Inr s" by (rule record_storable)
    let ?i = "plan_barrier_id (sb_plan r)"
    have durable: "from_durable_record r = Inr \<lparr>sh_record = Some r, sh_durable_plan = True\<rparr>"
      using True by (simp add: from_durable_record_iff)
    note defs = persist_shutdown_barrier_def Some durable s stored_plan_ids [OF s]
    show ?thesis
    proof (cases "probe_surface_control_record es ?i")
      case None
      then have "durable_record es ?i = None" by (simp add: durable_record_def)
      moreover have "(l' = l \<and> es' = es) \<or> append_barrier outcome r s l es = (res, l', es')"
        using None assms(1) by (auto simp: defs split: if_splits)
      ultimately show ?thesis
        using append_barrier_cases [OF _ Some s] that Some True s by (metis option.distinct(1))
    next
      case (Some p)
      then obtain d st where p: "probe_surface_control_record es ?i = Some (d, st)" by (cases p) simp
      from assms(2) p obtain r' where r': "durable_record es ?i = Some r'" "record_into_live st = Inr r'"
        by (rule durable_recordI)
      show ?thesis
      proof (cases "r' = r")
        case True
        with p r' assms(1) have "(l' = l \<and> es' = es) \<or> (l' = l\<lparr>sh_durable_plan := True\<rparr> \<and> es' = es)"
          by (auto simp: defs split: if_splits)
        then show ?thesis
          using that(1,2) r' True \<open>sh_record l = Some r\<close> \<open>record_valid r\<close> by metis
      next
        case False
        with p r' assms(1) have "(l' = l \<and> es' = es)
            \<or> (legal_progress r' r \<and> append_barrier outcome r s l es = (res, l', es'))"
          by (auto simp: defs split: if_splits)
        then show ?thesis
          using append_barrier_cases [OF _ \<open>sh_record l = Some r\<close> s] that r' \<open>sh_record l = Some r\<close> \<open>record_valid r\<close> s
          by (metis legal_progress_progresses option.inject)
      qed
    qed
  next
    case False
    with Some assms(1) that(1) show ?thesis
      by (cases "from_durable_record r")
        (auto simp: persist_shutdown_barrier_def from_durable_record_iff)
  qed
next
  case None
  with assms(1) that(1) show ?thesis by (simp add: persist_shutdown_barrier_def)
qed

lemma entry_okI:
  "record_valid r \<Longrightarrow> record_from_live r = Inr s \<Longrightarrow> entry_ok (plan_barrier_id (sb_plan r), plan_digest (sb_plan r), s)"
  by (auto simp: entry_ok_def)

text \<open>Every entry in the file under an identifier progresses from every earlier one.\<close>

lemma persist_progress:
  assumes "\<forall>e \<in> set es. entry_ok e" "durable_record es i = Some d"
    "persist_shutdown_barrier readable outcome l es = (res, l', es')"
  shows "\<exists>d'. durable_record es' i = Some d' \<and> progresses d d'"
  using assms(3,1)
proof (cases rule: persist_cases)
  case (3 r s)
  with assms(2) show ?thesis by (auto simp: durable_record_append)
qed (use assms(2) in auto)

lemma persist_ok:
  assumes "system_ok (l, es)" "persist_shutdown_barrier readable outcome l es = (res, l', es')"
  shows "system_ok (l', es')"
proof -
  have es: "\<forall>e \<in> set es. entry_ok e" using assms(1) by (simp add: system_ok_def)
  from assms(2) es show ?thesis
  proof (cases rule: persist_cases)
    case 1
    with assms(1) show ?thesis by simp
  next
    case (2 r)
    with assms(1) show ?thesis by (auto simp: system_ok_def)
  next
    case (3 r s)
    then have "\<forall>e \<in> set es'. entry_ok e" using es by (auto intro: entry_okI)
    moreover have "durable_record es' (plan_barrier_id (sb_plan r)) = Some r"
      using 3 by (simp add: durable_record_append)
    ultimately show ?thesis using 3 assms(1) by (auto simp: system_ok_def)
  qed
qed

subsection \<open>Every run keeps the system consistent\<close>

lemma settle_progress:
  "sh_record l = Some r \<Longrightarrow>
   \<exists>r'. sh_record (snd (ledger_settle ack l)) = Some r' \<and> progresses r r'"
  by (auto simp: ledger_settle_def progresses_def)

lemma close_progress:
  "sh_record l = Some r \<Longrightarrow>
   \<exists>r'. sh_record (snd (ledger_close out l)) = Some r' \<and> progresses r r'"
  by (auto simp: ledger_close_def progresses_def split: shutdown_barrier_state.splits sum.splits)

lemma keeps_durable [simp]:
  "sh_durable_plan (snd (ledger_settle ack l)) = sh_durable_plan l"
  "sh_durable_plan (snd (ledger_close out l)) = sh_durable_plan l"
  "sh_durable_plan (snd (ledger_record plan l)) = sh_durable_plan l"
  by (auto simp: ledger_settle_def ledger_close_def ledger_record_def
      split: option.splits shutdown_barrier_state.splits sum.splits)

lemma system_ok_progress:
  assumes "system_ok (l, es)" "ledger_ok l'" "sh_durable_plan l' = sh_durable_plan l"
    "\<And>r. sh_record l = Some r \<Longrightarrow> \<exists>r'. sh_record l' = Some r' \<and> progresses r r'"
  shows "system_ok (l', es)"
proof -
  have "\<exists>d. durable_record es (plan_barrier_id (sb_plan r')) = Some d \<and> progresses d r'"
    if r': "sh_record l' = Some r'" "sh_durable_plan l'" for r'
  proof -
    from that assms(1,3) obtain r where r: "sh_record l = Some r"
      by (auto simp: system_ok_def split: option.splits)
    with assms(4) r' have "progresses r r'" by fastforce
    with r r' assms(1,3) show ?thesis
      by (auto simp: system_ok_def progresses_def)
  qed
  with assms(1,2) show ?thesis by (simp add: system_ok_def)
qed

lemma load_ledger:
  assumes "\<forall>e \<in> set es. entry_ok e"
  shows "load_shutdown_barrier True i es =
    (case durable_record es i of
       None \<Rightarrow> Inr None
     | Some d \<Rightarrow> Inr (Some \<lparr>sh_record = Some d, sh_durable_plan = True\<rparr>))"
proof (cases "probe_surface_control_record es i")
  case None
  then show ?thesis by (simp add: load_shutdown_barrier_def durable_record_def)
next
  case (Some p)
  then obtain g s where p: "probe_surface_control_record es i = Some (g, s)" by (cases p) simp
  from assms p show ?thesis
  proof (rule durable_recordI)
    fix r
    assume r: "durable_record es i = Some r" "record_valid r" "record_from_live r = Inr s"
      "record_into_live s = Inr r" "i = plan_barrier_id (sb_plan r)" "g = plan_digest (sb_plan r)"
    then have "from_durable_record r = Inr \<lparr>sh_record = Some r, sh_durable_plan = True\<rparr>"
      by (simp add: from_durable_record_iff)
    with p r stored_plan_ids [OF r(3)] show ?thesis
      by (simp add: load_shutdown_barrier_def map_err_def)
  qed
qed

lemma durable_record_valid:
  assumes "\<forall>e \<in> set es. entry_ok e" "durable_record es i = Some d"
  shows "record_valid d" "i = plan_barrier_id (sb_plan d)"
proof -
  from assms(2) obtain g s where "probe_surface_control_record es i = Some (g, s)"
    by (auto simp: durable_record_def split: option.splits)
  with assms show "record_valid d" "i = plan_barrier_id (sb_plan d)"
    by (metis durable_recordI option.inject)+
qed

lemma restart_ok:
  assumes "system_ok (l, es)"
  shows "system_ok (barrier_step (Restart readable i) (l, es))"
proof -
  have es: "\<forall>e \<in> set es. entry_ok e" using assms by (simp add: system_ok_def)
  have fresh: "system_ok (ledger_default, es)" using es by (simp add: system_ok_def ledger_default_def)
  show ?thesis
  proof (cases "readable \<and> (\<exists>d. durable_record es i = Some d)")
    case True
    then obtain d where d: "readable" "durable_record es i = Some d" by blast
    then show ?thesis
      using es durable_record_valid [OF es d(2)] load_ledger [OF es, of i] by (auto simp: system_ok_def)
  next
    case False
    with fresh load_ledger [OF es, of i] show ?thesis
      by (cases readable) (auto simp: load_shutdown_barrier_def)
  qed
qed

lemma record_progress:
  "sh_record l = Some r \<Longrightarrow>
   \<exists>r'. sh_record (snd (ledger_record plan l)) = Some r' \<and> progresses r r'"
  by (simp add: ledger_record_def)

lemma barrier_step_ok:
  assumes "system_ok s"
  shows "system_ok (barrier_step e s)"
proof (cases s)
  case (Pair l es)
  with assms have s: "system_ok (l, es)" and l: "ledger_ok l" by (simp_all add: system_ok_def)
  show ?thesis
  proof (cases e)
    case (RecordPlan plan)
    with s l Pair show ?thesis
      using system_ok_progress [OF s ledger_ok_record [OF l] _ record_progress] by simp
  next
    case (Settle ack)
    with s l Pair show ?thesis
      using system_ok_progress [OF s ledger_ok_settle [OF l] _ settle_progress] by simp
  next
    case (Close out)
    with s l Pair show ?thesis
      using system_ok_progress [OF s ledger_ok_close [OF l] _ close_progress] by simp
  next
    case (Persist readable outcome)
    with s Pair show ?thesis
      using persist_ok [OF s] by (metis barrier_step.simps(4) prod.collapse)
  next
    case (Restart readable i)
    with s Pair show ?thesis using restart_ok by simp
  qed
qed

text \<open>The file's reading of every barrier.\<close>

definition history_within ::
    "(string \<Rightarrow> shutdown_barrier_record option) \<Rightarrow> (string \<Rightarrow> shutdown_barrier_record option) \<Rightarrow> bool" where
  "history_within f g \<longleftrightarrow> (\<forall>i d. f i = Some d \<longrightarrow> (\<exists>d'. g i = Some d' \<and> progresses d d'))"

lemma barrier_step_history:
  assumes "system_ok s"
  shows "history_within (durable_record (snd s)) (durable_record (snd (barrier_step e s)))"
proof (cases s)
  case (Pair l es)
  have same: "history_within f f" for f by (auto simp: history_within_def)
  show ?thesis
  proof (cases e)
    case (Persist readable outcome)
    obtain res l' es' where p: "persist_shutdown_barrier readable outcome l es = (res, l', es')"
      by (metis prod.collapse)
    with assms Pair Persist show ?thesis
      by (auto simp: history_within_def system_ok_def intro: persist_progress)
  qed (use Pair same in simp_all)
qed

interpretation shutdown_history: metered_machine barrier_step system_ok "\<lambda>s. durable_record (snd s)" history_within
proof
  show "history_within a c" if "history_within a b" "history_within b c" for a b c
    using that unfolding history_within_def by (metis progresses_trans)
qed (simp_all add: barrier_step_ok barrier_step_history, auto simp: history_within_def)

lemma barrier_run_ok: "system_ok (barrier_run events)"
  unfolding barrier_run_def
  by (rule shutdown_history.run_inv) (simp add: system_ok_def ledger_default_def)

subsection \<open>Properties\<close>

text \<open>
  C28: Every record the ledger accepts can be stored, and the stored record reads back as exactly the same record.
\<close>

theorem stored_barrier_round_trip:
  assumes "record_valid r"
  shows "\<exists>s. record_from_live r = Inr s \<and> record_into_live s = Inr r"
  using assms by (metis record_storable record_round_trip)

text \<open>
  C25: Shutdown signals are sent only behind a durable plan. In every run, whatever appends failed and however often
  the process restarted, when the ledger authorizes signals its plan is already in the session file: reloading
  the barrier from the file gives a ledger with the same plan that authorizes signals too, and every acknowledgement
  it has is one the ledger in memory has.
\<close>

theorem signals_wait_for_durable_plan:
  assumes "barrier_run events = (l, es)" "signal_authorized l"
  shows "\<exists>r d. sh_record l = Some r
    \<and> load_shutdown_barrier True (plan_barrier_id (sb_plan r)) es = Inr (Some \<lparr>sh_record = Some d, sh_durable_plan = True\<rparr>)
    \<and> record_valid r \<and> record_valid d \<and> progresses d r"
proof -
  have ok: "system_ok (l, es)" using barrier_run_ok [of events] assms(1) by simp
  then have es: "\<forall>e \<in> set es. entry_ok e" by (simp add: system_ok_def)
  from assms(2) obtain r where r: "sh_record l = Some r" "sh_durable_plan l"
    by (auto simp: signal_authorized_def)
  with ok obtain d where d: "durable_record es (plan_barrier_id (sb_plan r)) = Some d" "progresses d r"
    and valid: "record_valid r" by (auto simp: system_ok_def)
  show ?thesis
    using r d valid load_ledger [OF es] durable_record_valid(1) [OF es d(1)] by auto
qed

text \<open>
  C27: What the session file says of a barrier only moves forward. Once a barrier's record can be read from the file,
  after any further operations, failed appends and restarts it can still be read, with the same plan and with at
  least the same acknowledgements; and a record that is closed never changes again.
\<close>

theorem durable_barriers_only_progress:
  assumes "durable_record (snd (barrier_run events)) i = Some d"
  shows "\<exists>d'. durable_record (snd (barrier_run (events @ later))) i = Some d' \<and> sb_plan d' = sb_plan d
    \<and> set (sb_settled d) \<subseteq> set (sb_settled d') \<and> (sb_state d \<noteq> Closing \<longrightarrow> d' = d)"
proof -
  have "history_within (durable_record (snd (barrier_run events)))
          (durable_record (snd (fold barrier_step later (barrier_run events))))"
    using barrier_run_ok by (rule shutdown_history.run_reading)
  with assms show ?thesis
    by (auto simp: history_within_def progresses_def barrier_run_def)
qed

text \<open>
  C26: A barrier closes only when everything it waits for has been acknowledged. In every run, when the ledger holds
  a closing output, each requirement of its plan (session closed, catalog closed, every operation terminal, and for the
  host its final lifecycle) was acknowledged exactly once, every acknowledgement answers a requirement, and the
  threads of the output are exactly the threads of the plan.
\<close>

theorem closed_barrier_is_settled:
  assumes "retained_output_of (fst (barrier_run events)) = Some out"
  shows "\<exists>r. sh_record (fst (barrier_run events)) = Some r
    \<and> (\<forall>m \<in> set (plan_requirements (sb_plan r)). length (filter m (sb_settled r)) = 1)
    \<and> (\<forall>a \<in> set (sb_settled r). \<exists>m \<in> set (plan_requirements (sb_plan r)). m a)
    \<and> mset (map closed_thread_id (output_threads out)) = mset (map shutdown_thread_id (plan_threads (sb_plan r)))"
proof -
  from assms obtain r where r: "sh_record (fst (barrier_run events)) = Some r" "sb_state r = Closed out"
    by (auto simp: retained_output_of_def split: option.splits shutdown_barrier_state.splits)
  have valid: "record_valid r"
    using barrier_run_ok [of events] r by (auto simp: system_ok_def split: if_splits)
  then have plan: "validate_shutdown_plan (sb_plan r) = Inr ()"
    and closed: "validate_closed_shutdown_record (sb_plan r) (sb_settled r) out = Inr ()"
    and settled: "validate_shutdown_settlements (sb_plan r) (sb_settled r) = Inr ()"
    using r(2) by (simp_all add: record_valid_iff)
  have once: "length (filter m (sb_settled r)) = 1" if m: "m \<in> set (plan_requirements (sb_plan r))" for m
  proof -
    have "filter m (sb_settled r) \<noteq> []"
      using closed_requirements [OF closed m] by (simp add: filter_empty_conv)
    with settled_at_most_once [OF valid m] show ?thesis by (cases "filter m (sb_settled r)") auto
  qed
  have answers: "\<exists>m \<in> set (plan_requirements (sb_plan r)). m a" if "a \<in> set (sb_settled r)" for a
    using settled that
    by (auto simp: validate_shutdown_settlements_def list_ex_iff ack_matches_plan_iff split: if_splits)
  show ?thesis
    using r(1) once answers closed_threads_permutation [OF plan closed] by blast
qed

subsection \<open>A thread closing across a failed append and a restart\<close>

definition sample_cursor :: surface_cursor where
  "sample_cursor = \<lparr>sc_thread_id = ''t'', sc_incarnation = ''p'', sc_next_seq = 9, sc_source_revision = RecordedSource 4\<rparr>"

definition sample_terminal :: operation_terminal_at_cursor where
  "sample_terminal = \<lparr>ot_operation_id = ''o'', ot_terminal = ''done'', ot_completion_proof = ''proof'',
     ot_cursor = sample_cursor, ot_commit_class = RecordedCommit 1 3 ''tc'', ot_batch_digest = ''bd''\<rparr>"

definition sample_receipt :: surface_session_catalog_receipt where
  "sample_receipt = \<lparr>cr_catalog_revision = 7, cr_thread_id = Some ''t'', cr_action = CatalogClosed\<rparr>"

definition sample_plan :: shutdown_barrier_plan where
  "sample_plan = CloseThreadPlan ''q'' ''h''
     (RecordedThread ''t'' 1
        [ExistingTerminal ''o'' ''i'' ''tc''
           \<lparr>or_thread_id = ''t'', or_thread_owner_epoch = 1, or_operation_id = ''o'', or_terminal_commit_id = ''tc''\<rparr>]
        \<lparr>tq_thread_id = ''t'', tq_family = SessionFacts, tq_event_id = ''e'', tq_commit_id = ''c''\<rparr>
        \<lparr>hr_host_incarnation = ''h'', hr_identity = SessionCatalogRequirement (Some ''t'') 7, hr_commit_id = ''k'',
         hr_receipt_digest = ''rd''\<rparr>)
     ''b'' ''cc'' ''digest''"

definition sample_acks :: "mutation_commit_ack list" where
  "sample_acks =
     [ThreadLocalCursor sample_cursor SessionFacts ''e'' (RecordedCommit 1 5 ''c''),
      OperationTerminalAck ''t'' 1 ''o'' sample_terminal,
      HostCommitAck ''h'' (SessionCatalogPair (Some ''t'') 7 sample_receipt) ''k'' ''rd'']"

definition sample_output :: retained_shutdown_output where
  "sample_output = CloseThreadOutput (ClosedRecorded ''t'' [sample_terminal] sample_cursor sample_receipt)"

definition sample_start :: "barrier_event list" where
  "sample_start = [RecordPlan sample_plan, Persist True (AppendError False), Settle (hd sample_acks),
     Persist True Appended, Settle (hd sample_acks)]"

definition sample_finish :: "barrier_event list" where
  "sample_finish = Restart True ''b'' # map Settle sample_acks @ [Persist True (AppendError True), Close sample_output, Persist True Appended]"

lemmas sample_defs = sample_cursor_def sample_terminal_def sample_receipt_def sample_plan_def sample_acks_def
  sample_output_def sample_start_def sample_finish_def

lemma sample_authorized:
  "signal_authorized (fst (barrier_run sample_start))
   \<and> map_option sb_settled (sh_record (fst (barrier_run sample_start))) = Some [hd sample_acks]
   \<and> map_option sb_settled (durable_record (snd (barrier_run sample_start)) ''b'') = Some []"
  by code_simp

lemma sample_closed:
  "retained_output_of (fst (barrier_run (sample_start @ sample_finish))) = Some sample_output"
  by code_simp

lemma sample_valid: "is_ok (from_durable_record \<lparr>sb_plan = sample_plan, sb_settled = sample_acks, sb_state = Closed sample_output\<rparr>)"
  by code_simp

subsection \<open>Witnesses\<close>

theorem stored_barrier_round_trip_witness:
  "\<exists>s. record_from_live \<lparr>sb_plan = sample_plan, sb_settled = sample_acks, sb_state = Closed sample_output\<rparr> = Inr s
     \<and> record_into_live s = Inr \<lparr>sb_plan = sample_plan, sb_settled = sample_acks, sb_state = Closed sample_output\<rparr>"
  using sample_valid by (intro stored_barrier_round_trip) (simp add: record_valid_def)

theorem signals_wait_for_durable_plan_witness:
  "signal_authorized (fst (barrier_run sample_start))
   \<and> (\<exists>r d. sh_record (fst (barrier_run sample_start)) = Some r
        \<and> load_shutdown_barrier True (plan_barrier_id (sb_plan r)) (snd (barrier_run sample_start))
            = Inr (Some \<lparr>sh_record = Some d, sh_durable_plan = True\<rparr>)
        \<and> record_valid r \<and> record_valid d \<and> progresses d r)"
  using signals_wait_for_durable_plan [of sample_start "fst (barrier_run sample_start)" "snd (barrier_run sample_start)"]
    sample_authorized by simp

theorem durable_barriers_only_progress_witness:
  "\<exists>d d'. durable_record (snd (barrier_run sample_start)) ''b'' = Some d
     \<and> durable_record (snd (barrier_run (sample_start @ sample_finish))) ''b'' = Some d' \<and> sb_plan d' = sb_plan d"
proof -
  obtain d where d: "durable_record (snd (barrier_run sample_start)) ''b'' = Some d"
    using sample_authorized by auto
  from durable_barriers_only_progress [OF d, of sample_finish] d show ?thesis by blast
qed

theorem closed_barrier_is_settled_witness:
  "retained_output_of (fst (barrier_run (sample_start @ sample_finish))) = Some sample_output
   \<and> (\<exists>r. sh_record (fst (barrier_run (sample_start @ sample_finish))) = Some r
        \<and> (\<forall>m \<in> set (plan_requirements (sb_plan r)). length (filter m (sb_settled r)) = 1)
        \<and> mset (map shutdown_thread_id (plan_threads (sb_plan r))) = {#''t''#})"
proof -
  have "mset (map closed_thread_id (output_threads sample_output)) = {#''t''#}"
    by (simp add: sample_output_def)
  with closed_barrier_is_settled [OF sample_closed] sample_closed show ?thesis by auto
qed

end
