(* ===== verification/Recovery_Decision.thy ===== *)
theory Recovery_Decision
  imports Prelude
begin

text \<open>
  What becomes of an operation after its state was materialized again, \<^verbatim>\<open>decide_post_materialization_recovery\<close> of
  \<^verbatim>\<open>crates/orca-runtime/src/runtime_surface/commit.rs\<close>.
\<close>

datatype recovery_replayability = NotApplicable | Replayable | NonReplayableCurrent | NonReplayableNotCurrent

datatype recovery_materialization = SameProcessProjectionReset | ColdOwnerTakeover

datatype recovery_degraded_cause = MissingFinalization | TerminalProjectionPending

datatype recovery_source_phase =
    PhaseRequested | PhaseReserved | PhaseStartedOrTransferred bool | PhaseSuspended | PhaseResumeStartingReserved
  | PhaseFinalizing | PhaseFinalizingDegraded recovery_degraded_cause | PhaseTerminal

datatype recovery_action =
    FinalizeRequested | StopAndSuspend | StopAndFinalizeRecoveryAbort | StopAndFinalizeClientCapabilityUnavailable
  | StopAndFinalizeRuntimeRestart | ExposeRecoveryRequired | FinalizeRecoveryAbort | StopAndRebaseSuspension
  | ReconcileOriginalFinalizer | ExposeRetryFinalization | ExposeRetryProjection | RecoveryNoOp

definition current_live_capsule :: "recovery_replayability \<Rightarrow> recovery_materialization \<Rightarrow> bool" where
  "current_live_capsule replayability materialization =
     (case (replayability, materialization) of
        (Replayable, _) \<Rightarrow> True
      | (NonReplayableCurrent, SameProcessProjectionReset) \<Rightarrow> True
      | _ \<Rightarrow> False)"

definition decide_post_materialization_recovery ::
    "recovery_source_phase \<Rightarrow> recovery_replayability \<Rightarrow> recovery_materialization \<Rightarrow> recovery_action" where
  "decide_post_materialization_recovery phase replayability materialization =
     (let live = current_live_capsule replayability materialization
      in case phase of
           PhaseRequested \<Rightarrow> FinalizeRequested
         | PhaseReserved \<Rightarrow> if live then StopAndSuspend else StopAndFinalizeRecoveryAbort
         | PhaseStartedOrTransferred unavailable \<Rightarrow>
             if unavailable then StopAndFinalizeClientCapabilityUnavailable else StopAndFinalizeRuntimeRestart
         | PhaseSuspended \<Rightarrow> if live then ExposeRecoveryRequired else FinalizeRecoveryAbort
         | PhaseResumeStartingReserved \<Rightarrow> if live then StopAndRebaseSuspension else StopAndFinalizeRecoveryAbort
         | PhaseFinalizing \<Rightarrow> ReconcileOriginalFinalizer
         | PhaseFinalizingDegraded MissingFinalization \<Rightarrow> ExposeRetryFinalization
         | PhaseFinalizingDegraded TerminalProjectionPending \<Rightarrow> ExposeRetryProjection
         | PhaseTerminal \<Rightarrow> RecoveryNoOp)"

text \<open>The actions that keep an operation alive so that its work may run again.\<close>

definition keeps_alive :: "recovery_action \<Rightarrow> bool" where
  "keeps_alive action \<longleftrightarrow> action \<in> {StopAndSuspend, ExposeRecoveryRequired, StopAndRebaseSuspension}"

text \<open>
  Only an operation that has not started, and whose input is replayable or was never lost, is kept alive; started
  work never runs again, and after another process took over, non-replayable input never does.
\<close>

lemma recovery_never_repeats_work:
  "keeps_alive (decide_post_materialization_recovery phase replayability materialization) \<longleftrightarrow>
     phase \<in> {PhaseReserved, PhaseSuspended, PhaseResumeStartingReserved}
     \<and> (replayability = Replayable
        \<or> replayability = NonReplayableCurrent \<and> materialization = SameProcessProjectionReset)"
  by (cases phase; cases replayability; cases materialization)
    (auto simp: decide_post_materialization_recovery_def keeps_alive_def current_live_capsule_def
      split: recovery_degraded_cause.split)

text \<open>Nothing but a finished operation is left alone.\<close>

lemma recovery_acts:
  "decide_post_materialization_recovery phase replayability materialization = RecoveryNoOp \<longleftrightarrow> phase = PhaseTerminal"
  by (cases phase)
    (auto simp: decide_post_materialization_recovery_def Let_def split: recovery_degraded_cause.split)

end
