(* ===== verification/Spec2Isabelle.thy ===== *)
theory Spec2Isabelle
  imports Schema_Validation Operation_Samples Detached_Samples Broker Approval_Policy Budget_Runs Retained_Output Sse_Decoder Goal_Tracker Git_Commands
    Proposed_Plan Tool_Dispatch Tool_Boundaries Shutdown_Protocol Turn_Permissions Recovery_Decision
begin

text \<open>
  \<^bold>\<open>Orca.\<close> Orca is a coding agent written in Rust (\<^verbatim>\<open>src/crates\<close>). A turn takes a prompt from a queue,
  extends a conversation, asks a model, and runs the tool calls of its answer; tools may start processes,
  child agents and goals that span many turns. This development models the parts of the program that decide:
  what a process may do, whether a tool call may run, how calls are scheduled, what is spent, what the
  conversation holds, and how byte streams become events, plans and bounded output. Definitions are
  executable and keep the names of the source; each theory names its files.

  \<^bold>\<open>How the parts interact.\<close> The model's answer arrives as server-sent events (\<open>Sse_Decoder\<close>) and its text is
  split into text and proposed plans (\<open>Proposed_Plan\<close>). Its tool calls become requests (\<open>Tool_Types\<close>), are
  grouped into windows (\<open>Tool_Dispatch\<close>), and each is approved, asked about or denied by mode and rules
  (\<open>Approval_Policy\<close>, \<open>Permission_Rules\<close>, \<open>Computer_Target\<close>; git commands by \<open>Git_Commands\<close>). A process needs a
  resolved capability (\<open>Capability\<close>) and is launched by the broker (\<open>Broker\<close>); its output is bounded
  (\<open>Retained_Output\<close>, truncation in \<open>Tool_Results\<close>). Results return to the conversation (\<open>Conversation\<close>), whose history
  is repaired before it is sent (\<open>Tool_Boundaries\<close>). Turns, tools, cost and time are charged to a budget
  controller that leases parts of it to children (\<open>Budget\<close>, \<open>Budget_Controller\<close>, \<open>Budget_Runs\<close>,
  \<open>Child_Ledger\<close>); each operation owns one, and writes what it decides to a journal before it acts on it, so that
  another process can resume it (\<open>Execution_Journal\<close>, \<open>Operation_Context\<close>). A sandboxed process reaches the network
  only through a proxy that judges each request (\<open>Network_Policy\<close>, \<open>Network_Proxy\<close>); what a turn is granted beyond its
  profile is kept in an overlay (\<open>Turn_Permissions\<close>). A child agent that runs detached, in a process of its own, asks
  through a mailbox file every process of the session can write, and trusts only answers the actor has signed
  (\<open>Detached_Registry\<close>, \<open>Child_Permissions\<close>). Structured answers are checked against a schema
  (\<open>Schema_Validation\<close>). Prompts wait in a queue with a dispatch fence (\<open>Prompt_Queue\<close>, \<open>Mentions\<close>), and a goal
  strings outer turns together until it is met, stuck or out of budget (\<open>Goal_Tracker\<close>). Closing a thread or the
  host goes through a barrier that is written ahead and collects acknowledgements (\<open>Shutdown_Protocol\<close>); what a restart does
  with an unfinished turn is decided in \<open>Recovery_Decision\<close>.

  \<^bold>\<open>The library.\<close> \<open>Prelude\<close> holds results and the \<^verbatim>\<open>?\<close> operator, saturating machine integers and shared list
  lemmas; \<open>Rust_Strings\<close>, \<open>Rust_Utf8\<close>, \<open>Rust_Paths\<close>, \<open>Rust_Maps\<close>, \<open>Rust_Net\<close> and \<open>Rust_Json\<close> model the standard
  library and the values the code uses: strings as their UTF-8 bytes, validation and character boundaries, path
  components, ordered maps, addresses, JSON values.
  \<open>Contracts\<close> states the interfaces as locales, and each is interpreted on the model's own operations:
  \<open>attenuation\<close> (capability sets and execution profiles), \<open>chunked_sink\<close> (retained output, the event decoder),
  \<open>guarded_machine\<close> with \<open>metered_machine\<close> and \<open>latching_machine\<close> (budget runs, the child ledger, goals,
  conversations, shutdown barriers, permission overlays, the execution journal, operations with their restarts), \<open>fused_machine\<close> (the three ways a goal must stop). \<open>Rust_Maps.keyed_store\<close> is the map
  contract the ledger relies on, \<open>Budget_Runs.budget_axis\<close> one dimension of a budget, interpreted for turns,
  tool calls and cost.

  \<^bold>\<open>Theories and sources\<close> (under \<^verbatim>\<open>src/crates\<close>).
  \<^item> \<open>Capability\<close>: \<^verbatim>\<open>orca-core/src/capability.rs\<close>, \<^verbatim>\<open>approval_types.rs\<close>. The resolver computes the intersection of
    request, ceiling and mode in every dimension; the exact condition of each error; what the final check
    bounds (and that denied roots are not among it); delegation only narrows.
  \<^item> \<open>Broker\<close>: \<^verbatim>\<open>orca-core/src/execution_broker.rs\<close>. A launch that fails a check makes no system call; what a
    user-trusted launch can obtain.
  \<^item> \<open>Computer_Target\<close>, \<open>Permission_Rules\<close>, \<open>Approval_Policy\<close>: \<^verbatim>\<open>computer_apps.rs\<close>, \<^verbatim>\<open>mcp_types.rs\<close>,
    \<^verbatim>\<open>approval_rules.rs\<close>, \<^verbatim>\<open>orca-approval/src/policy.rs\<close>. The glob matcher decides the language of its pattern,
    the most restrictive rule wins, rules for computer use are narrow, the decision table.
  \<^item> \<open>Budget\<close>, \<open>Budget_Controller\<close>, \<open>Budget_Runs\<close>: \<^verbatim>\<open>budget.rs\<close>, \<^verbatim>\<open>budget_soft_landing.rs\<close>, \<^verbatim>\<open>budget_controller.rs\<close>.
    Over every run of controller and leases: nothing is granted twice, the pool is what unsettled leases may
    spend, usage grows, a stop is final.
  \<^item> \<open>Child_Ledger\<close>: \<^verbatim>\<open>orca-runtime/src/child_budget_ledger.rs\<close>. Reservations fit, receipts are final under every file error.
  \<^item> \<open>Prompt_Queue\<close>, \<open>Mentions\<close>: \<^verbatim>\<open>prompt_queue.rs\<close>, \<^verbatim>\<open>mentions.rs\<close>. The prepared submission is the one that runs,
    stale edits are refused, the fence survives a restart; mentions outside an edit keep their target.
  \<^item> \<open>Goal_Tracker\<close>: \<^verbatim>\<open>goal_tracker.rs\<close>, \<^verbatim>\<open>goal_runtime.rs\<close>. A goal ends only by an accepted intent, and a goal
    without progress or over its token budget stops after a bounded number of outer turns.
  \<^item> \<open>Git_Commands\<close>: \<^verbatim>\<open>git_write_command.rs\<close>. Every git invocation in a classified command is on the lists; the
    splitter reads quoted words back.
  \<^item> \<open>Tool_Types\<close>, \<open>Tool_Results\<close>: \<^verbatim>\<open>tool_types.rs\<close>. Names round trip, results never contradict themselves,
    truncation keeps its limit and valid UTF-8.
  \<^item> \<open>Tool_Dispatch\<close>: \<^verbatim>\<open>runtime_tool_scheduler.rs\<close>, \<^verbatim>\<open>step_context.rs\<close>, the batch collectors. Every call is dispatched
    once and in order, and the loop ends.
  \<^item> \<open>Conversation\<close>, \<open>Tool_Boundaries\<close>: \<^verbatim>\<open>conversation.rs\<close>, \<^verbatim>\<open>tool_images.rs\<close>. Image budget, context fragments, read
    view and usage anchor over every run; the repair pairs every tool call with one result.
  \<^item> \<open>Sse_Decoder\<close>, \<open>Retained_Output\<close>, \<open>Proposed_Plan\<close>: \<^verbatim>\<open>orca-mcp/src/sse.rs\<close>, \<^verbatim>\<open>retained_output.rs\<close>,
    \<^verbatim>\<open>proposed_plan.rs\<close>. The result of a stream does not depend on how it is cut into reads.
  \<^item> \<open>Shutdown_Barrier\<close>, \<open>Shutdown_Store\<close>, \<open>Shutdown_Protocol\<close>: the shutdown barrier of
    \<^verbatim>\<open>orca-runtime/src/runtime_surface\<close> (\<^verbatim>\<open>commands.rs\<close>, \<^verbatim>\<open>commit.rs\<close>, \<^verbatim>\<open>store.rs\<close>) and its control records in
    \<^verbatim>\<open>thread_store/local.rs\<close>. Over every run with failed appends and restarts: signals wait for a durable plan, a closed
    barrier is settled exactly, the file's record of a barrier only progresses; stored records read back.
  \<^item> \<open>Recovery_Decision\<close>: the recovery decision of \<^verbatim>\<open>runtime_surface/commit.rs\<close>.
  \<^item> \<open>Network_Policy\<close>, \<open>Network_Proxy\<close>: \<^verbatim>\<open>orca-runtime/src/network_proxy.rs\<close>. The decision table of the policy, what the
    proxy may connect to for whatever a client sends and however names resolve, the bounds of a request, and the
    tunnel request that is judged by another host than it reaches.
  \<^item> \<open>Turn_Permissions\<close>: \<^verbatim>\<open>runtime_permission.rs\<close>, \<^verbatim>\<open>protocol/permissions.rs\<close>, the metadata rules of \<^verbatim>\<open>sandbox/mod.rs\<close>.
    What a request changes in the overlay, exactly; the delta of a worker replays to what it was granted.
  \<^item> \<open>Detached_Permissions\<close>, \<open>Detached_Registry\<close>, \<open>Child_Permissions\<close>, \<open>Detached_Trust\<close>, \<open>Detached_Samples\<close>: the
    detached permission mailbox of \<^verbatim>\<open>orca-runtime/src/tasks.rs\<close> and the handlers of \<^verbatim>\<open>child_permission.rs\<close>, with every
    check of a record and every error. The files are whatever other processes have made of them at each read; even so an
    allowed child was allowed exactly that by the actor. A stored answer is never replaced, a binding that is no longer active adds
    nothing, and the wait ends.
  \<^item> \<open>Schema_Validation\<close>: \<^verbatim>\<open>schema_validation.rs\<close>. The validator decides conformance at every depth.
  \<^item> \<open>Execution_Journal\<close>, \<open>Journal_Order\<close>, \<open>Journal_Recovery\<close>: \<^verbatim>\<open>execution_journal.rs\<close>. The order of the records in every
    journal however it was opened; what failed flushes, torn files and restarts leave; a flush that is tried again
    after a partial write.
  \<^item> \<open>Operation_Context\<close>, \<open>Operation_Durability\<close>, \<open>Operation_Recovery\<close>, \<open>Operation_Stops\<close>, \<open>Operation_Samples\<close>:
    \<^verbatim>\<open>operation_context.rs\<close>. Every call either publishes what it charges or leaves a file that reopens, so over any
    number of interruptions admitted work stays counted; the order of a budget stop and when it is resumable.

  \<^bold>\<open>Parameters, bounds and fuel.\<close> The clock, fresh identifiers, the operating system, the outcome of file
  operations, reads and writes, name resolution and sockets, the permission gate, the order of hash maps, the JSON
  parser, the hasher, the tool registry, the task registry and the session writer are arguments of the operations
  that use them; theorems hold for all of them. Where a theorem relies on \<^verbatim>\<open>serde_json\<close>, \<open>Journal_Recovery.journal_codec\<close>
  says what: a record is written as one line that reads back as the record. Hashes, signatures and the serialized forms they
  are taken of are the fields of a \<open>mailbox_wire\<close>; that the serialized forms are unambiguous is \<open>Detached_Trust.faithful_wire\<close>,
  and that only the actor produces signatures that verify is a hypothesis of the one theorem that needs it. Counters keep the width and the saturation of their Rust
  type. Panics and errors are values. Loops are recursive functions with termination proofs; only
  \<open>Tool_Dispatch.dispatch_run\<close>, which composes the scheduler with its cursor, has fuel, and one more than the number
  of calls is proved to be enough. Unix paths and the Unix build of the rules are modelled.

  \<^bold>\<open>Not modelled.\<close> The terminal interface, drivers for computer use, the Windows sandbox and the platform
  layer are effects of third-party crates and system calls; so are the provider clients, the MCP
  transports, the tool implementations, the protocol servers, the thread store and the workflow
  interpreter. The runtime host and the actors are threads and channels around the modelled operations. Left for an
  extension, because they are code of this program that can be modelled the same way: the reducer and the settings
  of the runtime surface, the bookkeeping of the task registry apart from its permission mailbox, provider retries, compaction of the context, the discovery and expansion of mentions.

  Below, the properties that span several components: what plan mode lets run, and that a read-only batch
  takes no call past approval.
\<close>

subsection \<open>Plan mode\<close>

lemma plan_ceiling_caps:
  assumes "\<not> caps_is_read_only capabilities" "capabilities \<noteq> []" "ComputerUse \<notin> set capabilities"
  shows "plan_ceiling Plan (caps_action_kind capabilities)"
proof -
  have "caps_action_kind capabilities \<noteq> ReadAction" "caps_action_kind capabilities \<noteq> ComputerAction"
    using assms read_action_exact [of capabilities] by (auto simp: caps_action_kind_def)
  then show ?thesis by (simp add: plan_ceiling_def)
qed

lemma plan_ceiling_denies:
  "plan_ceiling (ap_mode p) (aq_action request) \<Longrightarrow> as_decision (resolve_for_tool p request tool target) = ApprovalDeny"
  unfolding resolve_for_tool_def plan_ceiling_actions by simp

lemma unpermitted_needs_allow:
  assumes "\<not> permitted_by_mode (ap_mode p) (aq_action request) target"
    "as_decision (resolve_for_tool p request tool target) = ApprovalAllow"
  shows "some_rule_says (ap_rules p) tool target Allow"
  using assms unfolding resolve_for_tool_def plan_ceiling_actions matching_decision_table Let_def
  by (auto simp: default_decision_table split: if_splits)

text \<open>
  C39: plan mode only reads. With the action of a request taken from the capabilities of its tool, plan mode
  denies every tool that can do anything but read, whatever the rules say and without asking; the one exception is
  computer use, which runs unasked only under a matching allow rule.
\<close>
theorem plan_mode_only_reads:
  assumes "ap_mode p = Plan" "aq_action request = caps_action_kind capabilities"
    "capabilities \<noteq> []" "\<not> caps_is_read_only capabilities"
  shows "(ComputerUse \<notin> set capabilities \<longrightarrow> as_decision (resolve_for_tool p request tool target) = ApprovalDeny)
    \<and> (as_decision (resolve_for_tool p request tool target) = ApprovalAllow
        \<longrightarrow> ComputerUse \<in> set capabilities \<and> some_rule_says (ap_rules p) tool target Allow)"
proof -
  have deny: "as_decision (resolve_for_tool p request tool target) = ApprovalDeny" if "ComputerUse \<notin> set capabilities"
    using that assms plan_ceiling_caps by (intro plan_ceiling_denies) simp
  moreover have "some_rule_says (ap_rules p) tool target Allow"
    if "ComputerUse \<in> set capabilities" "as_decision (resolve_for_tool p request tool target) = ApprovalAllow"
    using that assms by (intro unpermitted_needs_allow) (simp_all add: permitted_by_mode_def caps_action_kind_def)
  ultimately show ?thesis by (cases "ComputerUse \<in> set capabilities") auto
qed

definition sample_approval :: "action_kind \<Rightarrow> approval_request" where
  "sample_approval action =
     \<lparr>aq_id = ''a'', aq_action = action, aq_description = ''run'', aq_tool = None, aq_target = None, aq_preview = None\<rparr>"

theorem plan_mode_only_reads_witness:
  "as_decision (resolve_for_tool \<lparr>ap_mode = Plan, ap_rules = []\<rparr>
     (sample_approval ShellAction) ''bash'' None) = ApprovalDeny"
  using plan_mode_only_reads [of "\<lparr>ap_mode = Plan, ap_rules = []\<rparr>"
      "sample_approval ShellAction" "[ShellExecute]" "''bash''" None]
  by (simp add: sample_approval_def caps_action_kind_def caps_is_read_only_def)

subsection \<open>Read-only batches and approval\<close>

lemma readonly_concurrent_reads:
  assumes "tool_is_available_readonly_concurrent registered r"
  obtains capabilities s t where "registered r = Some (capabilities, s, t)" "caps_action_kind capabilities = ReadAction"
  using assms read_action_exact
  by (auto simp: tool_is_available_readonly_concurrent_def split: if_splits option.splits prod.splits)

lemma reading_is_permitted:
  assumes "aq_action request = ReadAction"
  shows "as_decision (resolve_for_tool p request tool target) =
     (if some_rule_says (ap_rules p) tool target Deny then ApprovalDeny
      else if some_rule_says (ap_rules p) tool target Prompt then ApprovalAsk else ApprovalAllow)"
proof -
  have "\<not> plan_ceiling (ap_mode p) ReadAction" "permitted_by_mode (ap_mode p) ReadAction target"
    by (simp_all add: plan_ceiling_def permitted_by_mode_def)
  then show ?thesis
    using assms unfolding resolve_for_tool_def plan_ceiling_actions matching_decision_table Let_def
    by (simp add: default_decision_table)
qed



end
